(* ===== verification/Go_Prelude.thy ===== *)
theory Go_Prelude
  imports Main "HOL-Library.Char_ord" "HOL-Library.List_Lexorder" "HOL-Library.Sublist"
begin

text \<open>
  What every component of the model shares: Go strings as byte lists with the operations of
  package strings the sources call (prefixes, TrimSpace, ToLower as the sources use it, runes),
  decimal integers (Sprintf's %d and strconv.ParseInt), stable sorting (sort.SliceStable and
  slices.SortStableFunc), and generic list lemmas. A Go string is a list of bytes, so a
  string literal with letters outside ASCII is written byte by byte in UTF-8. Comparison of
  strings is the bytewise lexicographic order of List_Lexorder over Char_ord, as in Go.
\<close>

section \<open>Collections of rules\<close>

named_theorems go_simps \<open>evaluation rules of the string operations\<close>
named_theorems inv_intros \<open>preservation of component invariants\<close>

section \<open>Prefixes, suffixes, cuts\<close>

definition trim_prefix :: "string \<Rightarrow> string \<Rightarrow> string" where
  "trim_prefix s p = (if prefix p s then drop (length p) s else s)"

definition trim_suffix :: "string \<Rightarrow> string \<Rightarrow> string" where
  "trim_suffix s p = (if suffix p s then take (length s - length p) s else s)"

text \<open>strings.Cut with a one-byte separator.\<close>

fun cut_byte :: "char \<Rightarrow> string \<Rightarrow> (string \<times> string) option" where
  "cut_byte c [] = None"
| "cut_byte c (x # xs) =
     (if x = c then Some ([], xs)
      else map_option (\<lambda>(a, b). (x # a, b)) (cut_byte c xs))"

text \<open>strings.Split with a one-byte separator: always at least one piece.\<close>

fun split_byte :: "char \<Rightarrow> string \<Rightarrow> string list" where
  "split_byte c [] = [[]]"
| "split_byte c (x # xs) =
     (if x = c then [] # split_byte c xs
      else (case split_byte c xs of [] \<Rightarrow> [[x]] | p # ps \<Rightarrow> (x # p) # ps))"

fun join_with :: "string \<Rightarrow> string list \<Rightarrow> string" where
  "join_with sep [] = []"
| "join_with sep [x] = x"
| "join_with sep (x # y # ys) = x @ sep @ join_with sep (y # ys)"

lemma split_byte_not_Nil [simp]: "split_byte c s \<noteq> []"
  by (induction s) (auto split: list.splits)

lemma join_split_byte: "join_with [c] (split_byte c s) = s"
proof (induction s)
  case (Cons x xs)
  obtain p ps where "split_byte c xs = p # ps"
    by (cases "split_byte c xs") auto
  with Cons show ?case by (cases ps) auto
qed simp

lemma cut_byte_Some: "cut_byte c s = Some (a, b) \<Longrightarrow> s = a @ c # b \<and> c \<notin> set a"
  by (induction s arbitrary: a b) (auto split: if_splits)

lemma cut_byte_None: "cut_byte c s = None \<longleftrightarrow> c \<notin> set s"
  by (induction s) auto

lemma cut_byte_append: "c \<notin> set a \<Longrightarrow> cut_byte c (a @ c # b) = Some (a, b)"
  by (induction a) auto

section \<open>White space (unicode.IsSpace on UTF-8 bytes) and strings.TrimSpace\<close>

definition is_space1 :: "char \<Rightarrow> bool" where
  "is_space1 a \<longleftrightarrow> a \<in> {CHR 0x09, CHR 0x0A, CHR 0x0B, CHR 0x0C, CHR 0x0D, CHR 0x20}"

text \<open>U+0085 and U+00A0.\<close>

definition is_space2 :: "char \<Rightarrow> char \<Rightarrow> bool" where
  "is_space2 a b \<longleftrightarrow> a = CHR 0xC2 \<and> b \<in> {CHR 0x85, CHR 0xA0}"

text \<open>U+1680, U+2000 to U+200A, U+2028, U+2029, U+202F, U+205F and U+3000.\<close>

definition is_space3 :: "char \<Rightarrow> char \<Rightarrow> char \<Rightarrow> bool" where
  "is_space3 a b c \<longleftrightarrow>
     (a, b, c) = (CHR 0xE1, CHR 0x9A, CHR 0x80)
     \<or> a = CHR 0xE2 \<and> b = CHR 0x80 \<and>
        c \<in> {CHR 0x80, CHR 0x81, CHR 0x82, CHR 0x83, CHR 0x84, CHR 0x85, CHR 0x86, CHR 0x87,
             CHR 0x88, CHR 0x89, CHR 0x8A, CHR 0xA8, CHR 0xA9, CHR 0xAF}
     \<or> (a, b, c) = (CHR 0xE2, CHR 0x81, CHR 0x9F)
     \<or> (a, b, c) = (CHR 0xE3, CHR 0x80, CHR 0x80)"

fun strip_front ::
  "(char \<Rightarrow> bool) \<Rightarrow> (char \<Rightarrow> char \<Rightarrow> bool) \<Rightarrow> (char \<Rightarrow> char \<Rightarrow> char \<Rightarrow> bool) \<Rightarrow> string \<Rightarrow> string"
where
  "strip_front p1 p2 p3 [] = []"
| "strip_front p1 p2 p3 [a] = (if p1 a then [] else [a])"
| "strip_front p1 p2 p3 [a, b] =
     (if p1 a then strip_front p1 p2 p3 [b] else if p2 a b then [] else [a, b])"
| "strip_front p1 p2 p3 (a # b # c # s) =
     (if p1 a then strip_front p1 p2 p3 (b # c # s)
      else if p2 a b then strip_front p1 p2 p3 (c # s)
      else if p3 a b c then strip_front p1 p2 p3 s
      else a # b # c # s)"

definition trim_left :: "string \<Rightarrow> string" where
  "trim_left = strip_front is_space1 is_space2 is_space3"

definition trim_right :: "string \<Rightarrow> string" where
  "trim_right s =
     rev (strip_front is_space1 (\<lambda>b a. is_space2 a b) (\<lambda>c b a. is_space3 a b c) (rev s))"

definition trim_space :: "string \<Rightarrow> string" where
  "trim_space s = trim_right (trim_left s)"

text \<open>Where stripping stops, and that what is left is a suffix of the input.\<close>

lemma strip_front_suffix: "suffix (strip_front p1 p2 p3 s) s"
  by (induction p1 p2 p3 s rule: strip_front.induct)
     (auto intro: suffix_ConsI)

lemma strip_front_idem: "strip_front p1 p2 p3 (strip_front p1 p2 p3 s) = strip_front p1 p2 p3 s"
  by (induction p1 p2 p3 s rule: strip_front.induct) auto

text \<open>A prefix of a string that needs no stripping needs none either.\<close>

lemma strip_front_fix_take:
  "strip_front p1 p2 p3 s = s \<Longrightarrow> strip_front p1 p2 p3 (take n s) = take n s"
proof -
  assume fixed: "strip_front p1 p2 p3 s = s"
  have len: "length (strip_front p1 p2 p3 t) \<le> length t" for t
    using strip_front_suffix suffix_length_le by blast
  have neq: "strip_front p1 p2 p3 t \<noteq> x # t'" if "length t \<le> length t'" for t t' x
    using len[of t] that by (metis length_Cons not_less_eq_eq order_trans)
  consider "s = []" | a where "s = [a]" | a b where "s = [a, b]" | a b c t where "s = a # b # c # t"
    by (metis list.exhaust)
  then show "strip_front p1 p2 p3 (take n s) = take n s"
  proof cases
    case (4 a b c t)
    with fixed have "\<not> p1 a \<and> \<not> p2 a b \<and> \<not> p3 a b c"
      using neq[of "b # c # t" "b # c # t" a] neq[of "c # t" "b # c # t" a] neq[of t "b # c # t" a]
      by (auto split: if_splits)
    with 4 show ?thesis
      by (cases n; cases "n - 1"; cases "n - 2") (auto simp: take_Cons')
  qed (use fixed neq in \<open>auto simp: take_Cons' split: if_splits\<close>)
qed

lemma trim_space_idem [simp]: "trim_space (trim_space s) = trim_space s"
proof -
  let ?r = "strip_front is_space1 (\<lambda>b a. is_space2 a b) (\<lambda>c b a. is_space3 a b c)"
  have pre: "\<exists>n. trim_right t = take n t" for t
  proof -
    obtain zs where "rev t = zs @ ?r (rev t)"
      using strip_front_suffix[of is_space1 _ _ "rev t"] by (auto simp: suffix_def)
    then have "t = rev (?r (rev t)) @ rev zs"
      by (metis rev_append rev_rev_ident)
    then show ?thesis
      unfolding trim_right_def by (metis append_eq_conv_conj)
  qed
  then obtain n where n: "trim_right (trim_left s) = take n (trim_left s)" by blast
  have "trim_left (take n (trim_left s)) = take n (trim_left s)"
    unfolding trim_left_def by (rule strip_front_fix_take) (rule strip_front_idem)
  moreover have "trim_right (trim_right t) = trim_right t" for t
    by (simp add: trim_right_def strip_front_idem)
  ultimately show ?thesis
    unfolding trim_space_def n by (metis n)
qed

lemma trim_space_Nil [simp]: "trim_space [] = []"
  by (simp add: trim_space_def trim_left_def trim_right_def)

text \<open>Printable ASCII without blanks is left alone.\<close>

definition graphic :: "char \<Rightarrow> bool" where
  "graphic c \<longleftrightarrow> 33 \<le> (of_char c :: nat) \<and> (of_char c :: nat) \<le> 126"

lemma graphic_no_space:
  assumes "graphic a"
  shows "\<not> is_space1 a" "\<not> is_space2 a b" "\<not> is_space3 a b c" "\<not> is_space3 c b a"
    "\<not> is_space2 b a"
  using assms by (auto simp: graphic_def is_space1_def is_space2_def is_space3_def)

lemma trim_space_graphic: "list_all graphic s \<Longrightarrow> trim_space s = s"
proof -
  have f: "strip_front is_space1 is_space2 is_space3 t = t"
    and b: "strip_front is_space1 (\<lambda>b a. is_space2 a b) (\<lambda>c b a. is_space3 a b c) t = t"
    if "list_all graphic t" for t
    using that
    by (cases t rule: remdups_adj.cases; cases "tl (tl t)"; auto simp: graphic_no_space)+
  assume "list_all graphic s"
  then show ?thesis
    using f[of s] b[of "rev s"] by (simp add: trim_space_def trim_left_def trim_right_def)
qed

section \<open>Letter case\<close>

text \<open>
  strings.ToLower and strings.EqualFold are used in the sources against ASCII constants
  only. The letters outside ASCII that become ASCII are U+0130 (i with dot above, bytes C4 B0)
  and U+212A (kelvin sign, E2 84 AA) when lowered; the folding of EqualFold adds U+017F
  (long s, C5 BF) and has U+212A but not U+0130. All other letters outside ASCII stay outside
  ASCII, so leaving their bytes alone changes no comparison with an ASCII constant.
\<close>

definition lower_byte :: "char \<Rightarrow> char" where
  "lower_byte c = (let n = of_char c :: nat in if 65 \<le> n \<and> n \<le> 90 then char_of (n + 32) else c)"

fun to_lower :: "string \<Rightarrow> string" where
  "to_lower [] = []"
| "to_lower [a] = [lower_byte a]"
| "to_lower [a, b] =
     (if a = CHR 0xC4 \<and> b = CHR 0xB0 then ''i'' else lower_byte a # to_lower [b])"
| "to_lower (a # b # c # s) =
     (if a = CHR 0xC4 \<and> b = CHR 0xB0 then CHR ''i'' # to_lower (c # s)
      else if a = CHR 0xE2 \<and> b = CHR 0x84 \<and> c = CHR 0xAA then CHR ''k'' # to_lower s
      else lower_byte a # to_lower (b # c # s))"

fun fold_case :: "string \<Rightarrow> string" where
  "fold_case [] = []"
| "fold_case [a] = [lower_byte a]"
| "fold_case [a, b] =
     (if a = CHR 0xC5 \<and> b = CHR 0xBF then ''s'' else lower_byte a # fold_case [b])"
| "fold_case (a # b # c # s) =
     (if a = CHR 0xC5 \<and> b = CHR 0xBF then CHR ''s'' # fold_case (c # s)
      else if a = CHR 0xE2 \<and> b = CHR 0x84 \<and> c = CHR 0xAA then CHR ''k'' # fold_case s
      else lower_byte a # fold_case (b # c # s))"

definition equal_fold :: "string \<Rightarrow> string \<Rightarrow> bool" where
  "equal_fold s t \<longleftrightarrow> fold_case s = fold_case t"

section \<open>Runes\<close>

text \<open>
  A conversion of a string to runes, with each rune kept as its bytes. A byte that starts no valid UTF-8
  sequence becomes U+FFFD (EF BF BD), as Go's conversion to runes and back does.
\<close>

definition byte_in :: "nat \<Rightarrow> nat \<Rightarrow> char \<Rightarrow> bool" where
  "byte_in lo hi c \<longleftrightarrow> lo \<le> (of_char c :: nat) \<and> (of_char c :: nat) \<le> hi"

definition rune_error :: string where
  "rune_error = [CHR 0xEF, CHR 0xBF, CHR 0xBD]"

definition utf8_2 :: "char \<Rightarrow> char \<Rightarrow> bool" where
  "utf8_2 a b \<longleftrightarrow> byte_in 0xC2 0xDF a \<and> byte_in 0x80 0xBF b"

definition utf8_3 :: "char \<Rightarrow> char \<Rightarrow> char \<Rightarrow> bool" where
  "utf8_3 a b c \<longleftrightarrow> byte_in 0x80 0xBF c \<and>
     (a = CHR 0xE0 \<and> byte_in 0xA0 0xBF b \<or> a = CHR 0xED \<and> byte_in 0x80 0x9F b
      \<or> (byte_in 0xE1 0xEC a \<or> byte_in 0xEE 0xEF a) \<and> byte_in 0x80 0xBF b)"

definition utf8_4 :: "char \<Rightarrow> char \<Rightarrow> char \<Rightarrow> char \<Rightarrow> bool" where
  "utf8_4 a b c d \<longleftrightarrow> byte_in 0x80 0xBF c \<and> byte_in 0x80 0xBF d \<and>
     (a = CHR 0xF0 \<and> byte_in 0x90 0xBF b \<or> a = CHR 0xF4 \<and> byte_in 0x80 0x8F b
      \<or> byte_in 0xF1 0xF3 a \<and> byte_in 0x80 0xBF b)"

text \<open>The bytes of the first rune of a non-empty string, and how many bytes it takes.\<close>

fun first_rune :: "string \<Rightarrow> string \<times> nat" where
  "first_rune (a # b # c # d # s) =
     (if byte_in 0 0x7F a then ([a], 1) else if utf8_2 a b then ([a, b], 2)
      else if utf8_3 a b c then ([a, b, c], 3) else if utf8_4 a b c d then ([a, b, c, d], 4)
      else (rune_error, 1))"
| "first_rune [a, b, c] =
     (if byte_in 0 0x7F a then ([a], 1) else if utf8_2 a b then ([a, b], 2)
      else if utf8_3 a b c then ([a, b, c], 3) else (rune_error, 1))"
| "first_rune [a, b] =
     (if byte_in 0 0x7F a then ([a], 1) else if utf8_2 a b then ([a, b], 2) else (rune_error, 1))"
| "first_rune [a] = (if byte_in 0 0x7F a then ([a], 1) else (rune_error, 1))"
| "first_rune [] = ([], 1)"

lemma first_rune_pos: "0 < snd (first_rune s)"
  by (cases s rule: first_rune.cases) auto

function runes :: "string \<Rightarrow> string list" where
  "runes [] = []"
| "runes (a # s) = fst (first_rune (a # s)) # runes (drop (snd (first_rune (a # s))) (a # s))"
  by pat_completeness auto
termination
  by (relation "measure length") (use first_rune_pos in \<open>auto simp: Suc_le_eq\<close>)

text \<open>Cut to at most n runes (tasks.clip).\<close>

definition clip :: "string \<Rightarrow> nat \<Rightarrow> string" where
  "clip s n = (let r = runes s in if length r \<le> n then s else concat (take n r))"

section \<open>Decimal integers\<close>

definition digit :: "nat \<Rightarrow> char" where
  "digit n = char_of (48 + n)"

definition is_digit :: "char \<Rightarrow> bool" where
  "is_digit c \<longleftrightarrow> byte_in 48 57 c"

definition digit_val :: "char \<Rightarrow> nat" where
  "digit_val c = of_char c - 48"

fun nat_digits :: "nat \<Rightarrow> string" where
  "nat_digits n = (if n < 10 then [digit n] else nat_digits (n div 10) @ [digit (n mod 10)])"

declare nat_digits.simps [simp del]

definition itoa :: "int \<Rightarrow> string" where
  "itoa i = (if i < 0 then CHR ''-'' # nat_digits (nat (- i)) else nat_digits (nat i))"

definition digits_val :: "string \<Rightarrow> nat" where
  "digits_val s = foldl (\<lambda>v c. 10 * v + digit_val c) 0 s"

definition parse_nat :: "string \<Rightarrow> nat option" where
  "parse_nat s = (if s \<noteq> [] \<and> list_all is_digit s then Some (digits_val s) else None)"

text \<open>strconv.ParseInt(s, 10, 64): an optional sign, digits, and the range of int64.\<close>

definition parse_int64 :: "string \<Rightarrow> int option" where
  "parse_int64 s =
     (let neg = (s \<noteq> [] \<and> hd s = CHR ''-'');
          body = (if s \<noteq> [] \<and> (hd s = CHR ''-'' \<or> hd s = CHR ''+'') then tl s else s)
      in case parse_nat body of
           None \<Rightarrow> None
         | Some n \<Rightarrow>
             (let v = (if neg then - int n else int n)
              in if - (2 ^ 63) \<le> v \<and> v < 2 ^ 63 then Some v else None))"

lemma of_char_digit: "n < 10 \<Longrightarrow> (of_char (digit n) :: nat) = 48 + n"
  by (simp add: digit_def)

lemma digit_val_digit [simp]: "n < 10 \<Longrightarrow> digit_val (digit n) = n"
  by (simp add: digit_val_def of_char_digit)

lemma is_digit_digit [simp]: "n < 10 \<Longrightarrow> is_digit (digit n)"
  by (simp add: is_digit_def byte_in_def of_char_digit)

lemma digits_graphic: "list_all is_digit s \<Longrightarrow> list_all graphic s"
  by (induction s) (auto simp: is_digit_def byte_in_def graphic_def)

lemma digit_less: "m < 10 \<Longrightarrow> n < 10 \<Longrightarrow> digit m < digit n \<longleftrightarrow> m < n"
  by (simp add: less_char_def of_char_digit)

lemma nat_digits_not_Nil [simp]: "nat_digits n \<noteq> []"
  by (subst nat_digits.simps) simp

lemma nat_digits_digits: "list_all is_digit (nat_digits n)"
proof (induction n rule: nat_digits.induct)
  case (1 n)
  then show ?case by (subst nat_digits.simps) auto
qed

lemma digits_val_nat_digits: "digits_val (nat_digits n) = n"
proof (induction n rule: nat_digits.induct)
  case (1 n)
  then show ?case
    by (subst nat_digits.simps) (auto simp: digits_val_def)
qed

lemma parse_nat_nat_digits [simp]: "parse_nat (nat_digits n) = Some n"
  by (simp add: parse_nat_def nat_digits_digits digits_val_nat_digits)

lemma hd_nat_digits: "is_digit (hd (nat_digits n))"
  using nat_digits_digits[of n] by (cases "nat_digits n") auto

lemma is_digit_not_sign: "is_digit c \<Longrightarrow> c \<noteq> CHR ''-'' \<and> c \<noteq> CHR ''+'' \<and> c \<noteq> CHR ''#''"
  by (auto simp: is_digit_def byte_in_def)

text \<open>Printing and parsing an int64 is the identity.\<close>

lemma parse_int64_itoa: "- (2 ^ 63) \<le> i \<Longrightarrow> i < 2 ^ 63 \<Longrightarrow> parse_int64 (itoa i) = Some i"
  using is_digit_not_sign[OF hd_nat_digits[of "nat i"]]
  by (auto simp: parse_int64_def itoa_def Let_def)

text \<open>Fixed-width fields.\<close>

definition pad2 :: "nat \<Rightarrow> string" where
  "pad2 n = [digit (n div 10 mod 10), digit (n mod 10)]"

definition pad4 :: "nat \<Rightarrow> string" where
  "pad4 n = [digit (n div 1000 mod 10), digit (n div 100 mod 10), digit (n div 10 mod 10), digit (n mod 10)]"

section \<open>Lists\<close>

text \<open>Replace the elements of a list that satisfy a test (an UPDATE with a WHERE clause).\<close>

definition update_where :: "('a \<Rightarrow> bool) \<Rightarrow> ('a \<Rightarrow> 'a) \<Rightarrow> 'a list \<Rightarrow> 'a list" where
  "update_where p f xs = map (\<lambda>x. if p x then f x else x) xs"

lemma update_where_Nil [simp]: "update_where p f [] = []"
  by (simp add: update_where_def)

lemma update_where_Cons [simp]:
  "update_where p f (x # xs) = (if p x then f x else x) # update_where p f xs"
  by (simp add: update_where_def)

lemma length_update_where [simp]: "length (update_where p f xs) = length xs"
  by (simp add: update_where_def)

lemma map_update_where: "(\<And>x. p x \<Longrightarrow> g (f x) = g x) \<Longrightarrow> map g (update_where p f xs) = map g xs"
  by (auto simp: update_where_def)

lemma find_append: "find p (xs @ ys) = (case find p xs of Some x \<Rightarrow> Some x | None \<Rightarrow> find p ys)"
  by (induction xs) auto

lemma find_SomeD: "find p xs = Some x \<Longrightarrow> x \<in> set xs \<and> p x"
  by (induction xs) (auto split: if_splits)

lemma find_None_filter: "find p xs = None \<longleftrightarrow> filter p xs = []"
  by (induction xs) auto

lemma find_unique:
  "distinct (map f xs) \<Longrightarrow> x \<in> set xs \<Longrightarrow> find (\<lambda>y. f y = f x) xs = Some x"
  by (induction xs) (auto simp: image_iff)

text \<open>Append the elements not there yet (the de-duplicating appends of the sources).\<close>

definition add_new :: "'a \<Rightarrow> 'a list \<Rightarrow> 'a list" where
  "add_new x xs = (if x \<in> set xs then xs else xs @ [x])"

lemma set_add_new [simp]: "set (add_new x xs) = insert x (set xs)"
  by (auto simp: add_new_def)

lemma distinct_add_new [simp]: "distinct (add_new x xs) \<longleftrightarrow> distinct xs"
  by (auto simp: add_new_def)

section \<open>Maxima\<close>

lemma foldl_max: "foldl max m xs \<ge> m \<and> (\<forall>x \<in> set xs. x \<le> foldl max m xs)" for m :: int
  by (induction xs arbitrary: m) (simp_all, metis max.bounded_iff)

lemma foldl_max_le: "m \<le> b \<Longrightarrow> \<forall>x \<in> set xs. x \<le> b \<Longrightarrow> foldl max m xs \<le> b" for m :: int
  by (induction xs arbitrary: m) simp_all

section \<open>Paths and marks\<close>

text \<open>filepath.Base: the last element of a path.\<close>

definition base_name :: "string \<Rightarrow> string" where
  "base_name p =
     (if p = [] then ''.''
      else
        let q = rev (dropWhile (\<lambda>c. c = CHR ''/'') (rev p))
        in if q = [] then ''/'' else rev (takeWhile (\<lambda>c. c \<noteq> CHR ''/'') (rev q)))"

text \<open>The three dots of one rune.\<close>

definition ellipsis :: string where
  "ellipsis =
     [CHR 0xE2, CHR 0x80, CHR 0xA6]"

end
