(* ===== verification/Civil_Date.thy ===== *)
theory Civil_Date
  imports Go_Prelude
begin

text \<open>
  The part of Go's package time the sources use: civil dates and day numbers, weekdays, the
  layouts 2006-01-02 and RFC 3339, and parsing 2006-01-02. A local time is a local day
  number (0 is Monday 1 January of year 1), the second of that day, the milliseconds of that
  second and the zone's offset in seconds; it stands for a time.Time in a fixed location.
  Midnight of a day is represented by the day number alone, which is what time.Date with a
  day number out of range normalises to (AddDate adds to it) in a location whose clock changes
  do not skip midnight.
\<close>

section \<open>Days and civil dates\<close>

type_synonym day = int

record gotime =
  gt_day :: day
  gt_sec :: nat
  gt_ms :: nat
  gt_off :: int

definition leap :: "int \<Rightarrow> bool" where
  "leap y \<longleftrightarrow> y mod 4 = 0 \<and> (y mod 100 \<noteq> 0 \<or> y mod 400 = 0)"

definition days_before_year :: "int \<Rightarrow> int" where
  "days_before_year y = 365 * (y - 1) + (y - 1) div 4 - (y - 1) div 100 + (y - 1) div 400"

text \<open>Days before month m (1 to 13) of a common year, and of a leap year.\<close>

definition days_before_month :: "bool \<Rightarrow> int \<Rightarrow> int" where
  "days_before_month lp m =
     (if m \<le> 1 then 0 else if m = 2 then 31
      else (if lp then 1 else 0) +
        (if m = 3 then 59 else if m = 4 then 90 else if m = 5 then 120 else if m = 6 then 151
         else if m = 7 then 181 else if m = 8 then 212 else if m = 9 then 243
         else if m = 10 then 273 else if m = 11 then 304 else if m = 12 then 334 else 365))"

definition days_in :: "int \<Rightarrow> int \<Rightarrow> int" where
  "days_in m y = days_before_month (leap y) (m + 1) - days_before_month (leap y) m"

definition day_of_civil :: "int \<Rightarrow> int \<Rightarrow> int \<Rightarrow> day" where
  "day_of_civil y m d = days_before_year y + days_before_month (leap y) m + d - 1"

definition year_of :: "day \<Rightarrow> int \<times> int" where
  "year_of z =
     (let r = z mod 146097;
          n100 = min 3 (r div 36524); r1 = r - 36524 * n100;
          n4 = r1 div 1461; r2 = r1 - 1461 * n4;
          n1 = min 3 (r2 div 365)
      in (400 * (z div 146097) + 100 * n100 + 4 * n4 + n1 + 1, r2 - 365 * n1))"

definition month_of :: "bool \<Rightarrow> int \<Rightarrow> int" where
  "month_of lp yd =
     (if yd < 31 then 1 else if yd < days_before_month lp 3 then 2
      else if yd < days_before_month lp 4 then 3 else if yd < days_before_month lp 5 then 4
      else if yd < days_before_month lp 6 then 5 else if yd < days_before_month lp 7 then 6
      else if yd < days_before_month lp 8 then 7 else if yd < days_before_month lp 9 then 8
      else if yd < days_before_month lp 10 then 9 else if yd < days_before_month lp 11 then 10
      else if yd < days_before_month lp 12 then 11 else 12)"

definition civil_of_day :: "day \<Rightarrow> int \<times> int \<times> int" where
  "civil_of_day z =
     (let (y, yd) = year_of z; m = month_of (leap y) yd
      in (y, m, yd - days_before_month (leap y) m + 1))"

lemma month_cases:
  "1 \<le> (m::int) \<Longrightarrow> m \<le> 12 \<Longrightarrow> m = 1 \<or> m = 2 \<or> m = 3 \<or> m = 4 \<or> m = 5 \<or> m = 6 \<or> m = 7 \<or>
    m = 8 \<or> m = 9 \<or> m = 10 \<or> m = 11 \<or> m = 12"
  by presburger

lemma days_before_month_le: "1 \<le> m \<Longrightarrow> m \<le> 12 \<Longrightarrow> days_before_month lp m < days_before_month lp (m + 1)"
proof -
  assume "1 \<le> m" "m \<le> 12"
  from month_cases[OF this] show ?thesis
    by (elim disjE) (simp_all add: days_before_month_def)
qed

lemma days_before_month_mono: "m \<le> n \<Longrightarrow> n \<le> 13 \<Longrightarrow> days_before_month lp m \<le> days_before_month lp n"
proof (induction n rule: int_ge_induct)
  case (step i)
  then have "days_before_month lp m \<le> days_before_month lp i" by simp
  also have "\<dots> \<le> days_before_month lp (i + 1)"
    using days_before_month_le[of i lp] step.prems by (cases "1 \<le> i") (auto simp: days_before_month_def)
  finally show ?case .
qed simp

lemma days_before_month_12: "days_before_month lp 13 = (if lp then 366 else 365)"
  by (simp add: days_before_month_def)

lemma div_pred:
  fixes y k :: int
  assumes "0 < k"
  shows "y div k = (y - 1) div k + (if y mod k = 0 then 1 else 0)"
proof (cases "y mod k = 0")
  case True
  then have "y - 1 = k * (y div k - 1) + (k - 1)"
    using mult_div_mod_eq[of k y] by (simp add: algebra_simps)
  then have "(y - 1) div k = y div k - 1"
    using assms by (intro int_div_pos_eq[where r = "k - 1"]) auto
  with True show ?thesis by simp
next
  case False
  have "0 \<le> y mod k" "y mod k < k" using assms by simp_all
  moreover have "y - 1 = k * (y div k) + (y mod k - 1)" by simp
  ultimately have "(y - 1) div k = y div k"
    using False by (intro int_div_pos_eq[where r = "y mod k - 1"]) auto
  with False show ?thesis by simp
qed

lemma days_before_year_Suc: "days_before_year (y + 1) = days_before_year y + (if leap y then 366 else 365)"
proof -
  define p q r where "p = (y - 1) div 4" and "q = (y - 1) div 100" and "r = (y - 1) div 400"
  have "days_before_year (y + 1) = 365 * y + y div 4 - y div 100 + y div 400"
    by (simp add: days_before_year_def)
  also have "\<dots> = 365 * y + (p + (if y mod 4 = 0 then 1 else 0))
      - (q + (if y mod 100 = 0 then 1 else 0)) + (r + (if y mod 400 = 0 then 1 else 0))"
    unfolding p_def q_def r_def
    using div_pred[of 4 y] div_pred[of 100 y] div_pred[of 400 y] by (simp only: zero_less_numeral)
  finally have eq: "days_before_year (y + 1) = 365 * y + (p + (if y mod 4 = 0 then 1 else 0))
      - (q + (if y mod 100 = 0 then 1 else 0)) + (r + (if y mod 400 = 0 then 1 else 0))" .
  have base: "days_before_year y = 365 * (y - 1) + p - q + r"
    by (simp add: days_before_year_def p_def q_def r_def)
  have "400 dvd y \<Longrightarrow> 100 dvd y" "100 dvd y \<Longrightarrow> 4 dvd y"
    by (auto elim: dvd_trans[rotated])
  then show ?thesis
    unfolding eq base leap_def mod_eq_0_iff_dvd
    by (cases "4 dvd y"; cases "100 dvd y"; cases "400 dvd y") simp_all
qed

lemma days_before_year_mono: "y \<le> y' \<Longrightarrow> days_before_year y \<le> days_before_year y'"
proof (induction "nat (y' - y)" arbitrary: y')
  case (Suc n)
  then have "days_before_year y \<le> days_before_year (y' - 1)" by simp
  also have "\<dots> \<le> days_before_year y'"
    using days_before_year_Suc[of "y' - 1"] by simp
  finally show ?case .
qed simp

lemma days_before_year_chunks:
  assumes "0 \<le> b" "b \<le> 3" "0 \<le> c" "c \<le> 24" "0 \<le> e" "e \<le> 3"
  shows "days_before_year (400 * a + 100 * b + 4 * c + e + 1) = 146097 * a + 36524 * b + 1461 * c + 365 * e"
    and "leap (400 * a + 100 * b + 4 * c + e + 1) \<longleftrightarrow> e = 3 \<and> (c = 24 \<longrightarrow> b = 3)"
proof -
  let ?x = "400 * a + 100 * b + 4 * c + e"
  have "?x div 4 = 100 * a + 25 * b + c"
    using assms by (intro int_div_pos_eq[where r = e]) auto
  moreover have "?x div 100 = 4 * a + b"
    using assms by (intro int_div_pos_eq[where r = "4 * c + e"]) auto
  moreover have "?x div 400 = a"
    using assms by (intro int_div_pos_eq[where r = "100 * b + 4 * c + e"]) auto
  ultimately show "days_before_year (?x + 1) = 146097 * a + 36524 * b + 1461 * c + 365 * e"
    unfolding days_before_year_def by simp
  have m4: "(?x + 1) mod 4 = (if e = 3 then 0 else e + 1)"
  proof (cases "e = 3")
    case True
    then show ?thesis by (auto intro: int_mod_pos_eq[where q = "100 * a + 25 * b + c + 1"])
  next
    case False
    then show ?thesis
      using assms by (auto intro: int_mod_pos_eq[where q = "100 * a + 25 * b + c"])
  qed
  have m100: "(?x + 1) mod 100 = (if c = 24 then 0 else 4 * c + 4)" if "e = 3"
  proof (cases "c = 24")
    case True
    with that show ?thesis by (auto intro: int_mod_pos_eq[where q = "4 * a + b + 1"])
  next
    case False
    with that show ?thesis
      using assms by (auto intro: int_mod_pos_eq[where q = "4 * a + b"])
  qed
  have m400: "(?x + 1) mod 400 = (if b = 3 then 0 else 100 * b + 100)" if "e = 3" "c = 24"
  proof (cases "b = 3")
    case True
    with that show ?thesis by (auto intro: int_mod_pos_eq[where q = "a + 1"])
  next
    case False
    with that show ?thesis
      using assms by (auto intro: int_mod_pos_eq[where q = a])
  qed
  show "leap (?x + 1) \<longleftrightarrow> e = 3 \<and> (c = 24 \<longrightarrow> b = 3)"
    unfolding leap_def m4 using assms m100 m400 by (auto split: if_splits)
qed

lemma year_of_bounds:
  assumes "year_of z = (y, yd)"
  shows "z = days_before_year y + yd" and "0 \<le> yd" and "yd < (if leap y then 366 else 365)"
proof -
  define a where "a = z div 146097"
  define r where "r = z mod 146097"
  define b where "b = min 3 (r div 36524)"
  define r1 where "r1 = r - 36524 * b"
  define c where "c = r1 div 1461"
  define r2 where "r2 = r1 - 1461 * c"
  define e where "e = min 3 (r2 div 365)"
  have y: "y = 400 * a + 100 * b + 4 * c + e + 1" and yd: "yd = r2 - 365 * e"
  proof -
    have "year_of z = (400 * a + 100 * b + 4 * c + e + 1, r2 - 365 * e)"
      by (simp only: year_of_def Let_def a_def r_def b_def r1_def c_def r2_def e_def)
    then show "y = 400 * a + 100 * b + 4 * c + e + 1" "yd = r2 - 365 * e" using assms by simp_all
  qed
  have r: "0 \<le> r" "r < 146097" by (auto simp: r_def)
  then have b: "0 \<le> b" "b \<le> 3" by (auto simp: b_def pos_imp_zdiv_nonneg_iff)
  have r1: "0 \<le> r1" "r1 \<le> 36524" "b < 3 \<Longrightarrow> r1 < 36524"
  proof -
    have q: "r div 36524 \<le> 4" "0 \<le> r div 36524" using r by (auto simp: pos_imp_zdiv_nonneg_iff)
    have m: "r = 36524 * (r div 36524) + r mod 36524" "0 \<le> r mod 36524" "r mod 36524 < 36524" by auto
    show "0 \<le> r1" "b < 3 \<Longrightarrow> r1 < 36524" using q m by (auto simp: r1_def b_def min_def split: if_splits)
    show "r1 \<le> 36524" using q m r by (auto simp: r1_def b_def min_def split: if_splits)
  qed
  have c: "0 \<le> c" "c \<le> 24" using r1 by (auto simp: c_def pos_imp_zdiv_nonneg_iff)
  have r2: "0 \<le> r2" "r2 < 1461" by (auto simp: r2_def c_def minus_mult_div_eq_mod)
  have e: "0 \<le> e" "e \<le> 3" using r2 by (auto simp: e_def pos_imp_zdiv_nonneg_iff)
  have yd0: "0 \<le> yd" "e < 3 \<Longrightarrow> yd < 365" "yd < 366"
  proof -
    have q: "r2 div 365 \<le> 4" "0 \<le> r2 div 365" using r2 by (auto simp: pos_imp_zdiv_nonneg_iff)
    have m: "r2 = 365 * (r2 div 365) + r2 mod 365" "0 \<le> r2 mod 365" "r2 mod 365 < 365" by auto
    show "0 \<le> yd" "e < 3 \<Longrightarrow> yd < 365" "yd < 366"
      using q m r2 by (auto simp: yd e_def min_def split: if_splits)
  qed
  show "0 \<le> yd" by (fact yd0)
  have "z = 146097 * a + r" by (simp add: a_def r_def)
  then show "z = days_before_year y + yd"
    unfolding y yd using days_before_year_chunks(1)[OF b c e, of a] by (simp add: r1_def r2_def)
  show "yd < (if leap y then 366 else 365)"
  proof (cases "e = 3 \<and> c = 24 \<and> b < 3")
    case True
    then have "r1 < 36524" using r1 by simp
    with True have "yd < 365" by (simp add: yd r2_def)
    then show ?thesis by simp
  next
    case False
    then show ?thesis
      using days_before_year_chunks(2)[OF b c e, of a] yd0 b e unfolding y by auto
  qed
qed

lemma month_of_bounds:
  assumes "0 \<le> yd" "yd < (if lp then 366 else 365)"
  shows "1 \<le> month_of lp yd" "month_of lp yd \<le> 12"
    "days_before_month lp (month_of lp yd) \<le> yd" "yd < days_before_month lp (month_of lp yd + 1)"
proof -
  have ends: "days_before_month lp 1 = 0" "days_before_month lp 2 = 31"
    "days_before_month lp 13 = (if lp then 366 else 365)"
    by (simp_all add: days_before_month_def)
  show "1 \<le> month_of lp yd" "month_of lp yd \<le> 12" by (simp_all add: month_of_def)
  show "days_before_month lp (month_of lp yd) \<le> yd"
    using assms by (simp add: month_of_def ends)
  show "yd < days_before_month lp (month_of lp yd + 1)"
    using assms by (simp add: month_of_def ends)
qed

text \<open>The civil date of a day is a valid date, and it is that day.\<close>

lemma civil_of_day:
  assumes "civil_of_day z = (y, m, d)"
  shows "day_of_civil y m d = z" "1 \<le> m" "m \<le> 12" "1 \<le> d" "d \<le> days_in m y"
    and "days_before_year y \<le> z" "z < days_before_year (y + 1)"
proof -
  obtain yd where yd: "year_of z = (y, yd)" "m = month_of (leap y) yd"
    "d = yd - days_before_month (leap y) m + 1"
    using assms by (auto simp: civil_of_day_def Let_def split: prod.splits)
  note b = year_of_bounds[OF yd(1)]
  note mb = month_of_bounds[OF b(2,3)]
  show "1 \<le> m" "m \<le> 12" using mb by (auto simp: yd(2))
  show "day_of_civil y m d = z" using b by (simp add: day_of_civil_def yd(3))
  show "1 \<le> d" "d \<le> days_in m y" using mb by (auto simp: yd(2,3) days_in_def)
  show "days_before_year y \<le> z" "z < days_before_year (y + 1)"
    using b by (auto simp: days_before_year_Suc split: if_splits)
qed

definition year :: "day \<Rightarrow> int" where
  "year z = fst (civil_of_day z)"

lemma year_mono: "z \<le> z' \<Longrightarrow> year z \<le> year z'"
proof (rule ccontr)
  assume a: "z \<le> z'" "\<not> year z \<le> year z'"
  obtain y m d y' m' d' where c: "civil_of_day z = (y, m, d)" "civil_of_day z' = (y', m', d')"
    by (metis prod_cases3)
  from a c have "y' + 1 \<le> y" by (simp add: year_def)
  then have "days_before_year (y' + 1) \<le> days_before_year y" by (rule days_before_year_mono)
  with civil_of_day(6)[OF c(1)] civil_of_day(7)[OF c(2)] a show False by simp
qed

text \<open>Weekday of a day, Monday = 0: 1 January of year 1 is a Monday.\<close>

definition weekday :: "day \<Rightarrow> int" where
  "weekday z = z mod 7"

section \<open>The layout 2006-01-02\<close>

text \<open>time.Format for years 0 to 9999, the years a date can name.\<close>

definition date_string :: "day \<Rightarrow> string" where
  "date_string z =
     (let (y, m, d) = civil_of_day z
      in pad4 (nat y) @ ''-'' @ pad2 (nat m) @ ''-'' @ pad2 (nat d))"

text \<open>time.ParseInLocation: four, two and two digits, dashes, a real month and day.\<close>

definition parse_date :: "string \<Rightarrow> day option" where
  "parse_date s = (case s of [y1, y2, y3, y4, s1, m1, m2, s2, d1, d2] \<Rightarrow>
     (let y = int (digits_val [y1, y2, y3, y4]); m = int (digits_val [m1, m2]);
          d = int (digits_val [d1, d2])
      in if list_all is_digit [y1, y2, y3, y4, m1, m2, d1, d2] \<and> s1 = CHR ''-'' \<and> s2 = CHR ''-''
            \<and> 1 \<le> m \<and> m \<le> 12 \<and> 1 \<le> d \<and> d \<le> days_in m y
         then Some (day_of_civil y m d) else None)
   | _ \<Rightarrow> None)"

definition printable :: "day \<Rightarrow> bool" where
  "printable z \<longleftrightarrow> 0 \<le> year z \<and> year z \<le> 9999"

text \<open>Days from year 1 to the end of year 9999 are printable.\<close>

lemma printable_range: "0 \<le> z \<Longrightarrow> z < 3652059 \<Longrightarrow> printable z"
proof -
  assume z: "0 \<le> z" "z < 3652059"
  obtain y m d where c: "civil_of_day z = (y, m, d)" by (metis prod_cases3)
  note v = civil_of_day(6,7)[OF c]
  have "days_before_year 0 < 0" "days_before_year 10000 = 3652059" by (simp_all add: days_before_year_def)
  then have "0 \<le> y" "y \<le> 9999"
    using v z days_before_year_mono[of "y + 1" 0] days_before_year_mono[of 10000 y] by (auto intro: ccontr)
  then show ?thesis by (simp add: printable_def year_def c)
qed

lemma nat_split4:
  assumes "n < 10000"
  shows "1000 * (n div 1000 mod 10) + 100 * (n div 100 mod 10) + 10 * (n div 10 mod 10) + n mod 10 = (n::nat)"
proof -
  define a where "a = n div 10"
  define b where "b = a div 10"
  define c where "c = b div 10"
  have "n div 100 = b" "n div 1000 = c"
    using div_mult2_eq[of n 10 10] div_mult2_eq[of n 100 10] by (auto simp: a_def b_def c_def)
  moreover have "n = 10 * a + n mod 10" "a = 10 * b + a mod 10" "b = 10 * c + b mod 10"
    by (auto simp: a_def b_def c_def)
  moreover have "c < 10" using assms by (simp add: c_def b_def a_def)
  ultimately show ?thesis by (simp add: a_def[symmetric])
qed

lemma digits_val_pad4: "n < 10000 \<Longrightarrow> digits_val (pad4 n) = n"
  using nat_split4[of n] by (simp add: digits_val_def pad4_def algebra_simps)

lemma digits_val_pad2: "n < 100 \<Longrightarrow> digits_val (pad2 n) = n"
  by (simp add: digits_val_def pad2_def)

lemma days_in_le: "days_in m y \<le> 31"
proof -
  consider "m < 1" | "1 \<le> m" "m \<le> 12" | "12 < m" by linarith
  then show ?thesis
  proof cases
    case 2
    from month_cases[OF this] show ?thesis
      by (elim disjE) (simp_all add: days_in_def days_before_month_def)
  qed (simp_all add: days_in_def days_before_month_def)
qed

lemma printableI: "printable a \<Longrightarrow> printable b \<Longrightarrow> a \<le> z \<Longrightarrow> z \<le> b \<Longrightarrow> printable z"
  using year_mono[of a z] year_mono[of z b] by (simp add: printable_def)

lemma pad4_digits:
  "n < 10000 \<Longrightarrow> \<exists>a b c d. pad4 n = [digit a, digit b, digit c, digit d] \<and>
     a < 10 \<and> b < 10 \<and> c < 10 \<and> d < 10"
  unfolding pad4_def by (metis mod_less_divisor zero_less_numeral)

lemma pad2_digits: "n < 100 \<Longrightarrow> \<exists>a b. pad2 n = [digit a, digit b] \<and> a < 10 \<and> b < 10"
  unfolding pad2_def by (metis mod_less_divisor zero_less_numeral)

lemma parse_fields:
  assumes "y < 10000" "m < 100" "d < 100" "1 \<le> m" "m \<le> 12" "1 \<le> d" "int d \<le> days_in (int m) (int y)"
  shows "parse_date (pad4 y @ ''-'' @ pad2 m @ ''-'' @ pad2 d) = Some (day_of_civil (int y) (int m) (int d))"
proof -
  obtain y1 y2 y3 y4 where y: "pad4 y = [digit y1, digit y2, digit y3, digit y4]"
    and yd: "y1 < 10" "y2 < 10" "y3 < 10" "y4 < 10" using pad4_digits[OF assms(1)] by blast
  obtain m1 m2 where m: "pad2 m = [digit m1, digit m2]" and md: "m1 < 10" "m2 < 10"
    using pad2_digits[OF assms(2)] by blast
  obtain d1 d2 where d: "pad2 d = [digit d1, digit d2]" and dd: "d1 < 10" "d2 < 10"
    using pad2_digits[OF assms(3)] by blast
  have "digits_val [digit y1, digit y2, digit y3, digit y4] = y" "digits_val [digit m1, digit m2] = m"
    "digits_val [digit d1, digit d2] = d"
    using digits_val_pad4[OF assms(1)] digits_val_pad2[OF assms(2)] digits_val_pad2[OF assms(3)]
    by (simp_all add: y m d)
  then show ?thesis using assms yd md dd by (simp add: parse_date_def y m d Let_def)
qed

text \<open>Parsing what date_string prints gives the day back.\<close>

lemma parse_date_string [simp]: "printable z \<Longrightarrow> parse_date (date_string z) = Some z"
proof -
  assume p: "printable z"
  obtain y m d where c: "civil_of_day z = (y, m, d)" by (metis prod_cases3)
  note v = civil_of_day[OF c]
  have y: "nat y < 10000" "0 \<le> y" using p c by (auto simp: printable_def year_def)
  then show ?thesis
    using v days_in_le[of m y] parse_fields[of "nat y" "nat m" "nat d"]
    by (simp add: date_string_def c)
qed

text \<open>A day has one valid civil date, so the string a date was parsed from is the one it prints as.\<close>

lemma valid_civil_year:
  assumes "1 \<le> m" "m \<le> 12" "1 \<le> d" "d \<le> days_in m y"
  shows "days_before_year y \<le> day_of_civil y m d" "day_of_civil y m d < days_before_year (y + 1)"
  using assms days_before_month_mono[of 1 m "leap y"] days_before_month_mono[of "m + 1" 13 "leap y"]
  by (auto simp: day_of_civil_def days_in_def days_before_year_Suc days_before_month_12 days_before_month_def[of _ 1])

lemma valid_civil_less:
  assumes "1 \<le> m" "m < m'" "m' \<le> 12" "d \<le> days_in m y" "1 \<le> d'"
  shows "day_of_civil y m d < day_of_civil y m' d'"
  using assms days_before_month_mono[of "m + 1" m' "leap y"] by (simp add: day_of_civil_def days_in_def)

lemma civil_of_day_of_civil:
  assumes "1 \<le> m" "m \<le> 12" "1 \<le> d" "d \<le> days_in m y"
  shows "civil_of_day (day_of_civil y m d) = (y, m, d)"
proof -
  obtain y' m' d' where c: "civil_of_day (day_of_civil y m d) = (y', m', d')" by (metis prod_cases3)
  note v = civil_of_day[OF c] and w = valid_civil_year[OF assms]
  have "y' = y"
  proof (rule ccontr)
    assume "y' \<noteq> y"
    then have "y + 1 \<le> y' \<or> y' + 1 \<le> y" by linarith
    then show False
      using days_before_year_mono[of "y + 1" y'] days_before_year_mono[of "y' + 1" y] v w by auto
  qed
  moreover have "m' = m"
  proof (rule ccontr)
    assume "m' \<noteq> m"
    then have "m < m' \<or> m' < m" by linarith
    then show False
      using valid_civil_less[of m m' d y d'] valid_civil_less[of m' m d' y d] v assms \<open>y' = y\<close> by auto
  qed
  ultimately show ?thesis using v(1) c by (simp add: day_of_civil_def)
qed

lemma digit_digit_val: "is_digit c \<Longrightarrow> digit (digit_val c) = c \<and> digit_val c < 10"
  by (auto simp: is_digit_def byte_in_def digit_val_def digit_def)

lemma pad2_digits_val: "is_digit a \<Longrightarrow> is_digit b \<Longrightarrow> pad2 (digits_val [a, b]) = [a, b] \<and> digits_val [a, b] < 100"
  using digit_digit_val[of a] digit_digit_val[of b] by (simp add: pad2_def digits_val_def)

lemma pad4_digits_val:
  assumes "is_digit a" "is_digit b" "is_digit c" "is_digit d"
  shows "pad4 (digits_val [a, b, c, d]) = [a, b, c, d] \<and> digits_val [a, b, c, d] < 10000"
proof -
  let ?w = "digit_val a" let ?x = "digit_val b" let ?y = "digit_val c" let ?z = "digit_val d"
  note v = digit_digit_val[OF assms(1)] digit_digit_val[OF assms(2)] digit_digit_val[OF assms(3)] digit_digit_val[OF assms(4)]
  have tens: "x < 10 \<Longrightarrow> (10 * k + x) div 10 = k \<and> (10 * k + x) mod 10 = x" for x k :: nat
    by simp
  define p where "p = 10 * ?w + ?x"
  define q where "q = 10 * p + ?y"
  define n where "n = 10 * q + ?z"
  have "digits_val [a, b, c, d] = n" by (simp add: digits_val_def n_def q_def p_def)
  moreover have "n mod 10 = ?z" "n div 10 = q" "q mod 10 = ?y" "q div 10 = p" "p mod 10 = ?x" "p div 10 = ?w"
    using v tens[of "?z" q] tens[of "?y" p] tens[of "?x" "?w"] by (simp_all only: n_def q_def p_def)
  moreover have "n div 100 = n div 10 div 10" "n div 1000 = n div 10 div 10 div 10"
    using div_mult2_eq[of n 10 10] div_mult2_eq[of n 100 10] by auto
  moreover have "n < 10000" using v by (simp add: n_def q_def p_def)
  ultimately show ?thesis using v by (simp add: pad4_def)
qed

lemma parse_date_canonical:
  assumes "parse_date s = Some z"
  shows "printable z" "date_string z = s"
proof -
  obtain y1 y2 y3 y4 m1 m2 d1 d2 where s: "s = [y1, y2, y3, y4, CHR ''-'', m1, m2, CHR ''-'', d1, d2]"
    and dg: "list_all is_digit [y1, y2, y3, y4, m1, m2, d1, d2]"
    and m: "1 \<le> digits_val [m1, m2]" "digits_val [m1, m2] \<le> 12" "1 \<le> digits_val [d1, d2]"
      "int (digits_val [d1, d2]) \<le> days_in (int (digits_val [m1, m2])) (int (digits_val [y1, y2, y3, y4]))"
    and z: "z = day_of_civil (int (digits_val [y1, y2, y3, y4])) (int (digits_val [m1, m2])) (int (digits_val [d1, d2]))"
    using assms by (auto simp: parse_date_def Let_def split: list.splits if_splits)
  have c: "civil_of_day z = (int (digits_val [y1, y2, y3, y4]), int (digits_val [m1, m2]), int (digits_val [d1, d2]))"
    unfolding z using m by (intro civil_of_day_of_civil) auto
  show "printable z" using dg pad4_digits_val[of y1 y2 y3 y4] by (simp add: printable_def year_def c)
  show "date_string z = s"
    using dg pad4_digits_val[of y1 y2 y3 y4] pad2_digits_val[of m1 m2] pad2_digits_val[of d1 d2]
    by (simp add: date_string_def c s)
qed

lemma parse_date_Nil [simp]: "parse_date [] = None"
  by (simp add: parse_date_def)

lemma date_string_inj: "printable a \<Longrightarrow> printable b \<Longrightarrow> date_string a = date_string b \<longleftrightarrow> a = b"
  by (metis option.inject parse_date_string)

lemma length_date_string [simp]: "length (date_string z) = 10"
  by (simp add: date_string_def pad4_def pad2_def split: prod.splits)

lemma date_string_not_Nil [simp]: "date_string z \<noteq> []"
  using length_date_string[of z] by force

text \<open>The printed dates are ordered like the days (the sources compare dates as strings).\<close>

lemma digits4_less:
  fixes a b c d a' b' c' d' :: nat
  assumes "1000 * a + 100 * b + 10 * c + d < 1000 * a' + 100 * b' + 10 * c' + d'"
    and "b < 10" "c < 10" "d < 10" "b' < 10" "c' < 10" "d' < 10"
  shows "a < a' \<or> a = a' \<and> (b < b' \<or> b = b' \<and> (c < c' \<or> c = c' \<and> d < d'))"
proof (rule ccontr)
  assume n: "\<not> ?thesis"
  then have "a' < a \<or> a = a' \<and> (b' < b \<or> b = b' \<and> (c' < c \<or> c = c' \<and> d' \<le> d))"
    by (meson linorder_neqE_nat linorder_not_less)
  then consider "a' < a" | "a = a'" "b' < b" | "a = a'" "b = b'" "c' < c" | "a = a'" "b = b'" "c = c'" "d' \<le> d"
    by blast
  then show False using assms by cases linarith+
qed

lemma pad2_less: "m < 100 \<Longrightarrow> n < 100 \<Longrightarrow> m < n \<Longrightarrow> pad2 m @ u < pad2 n @ v"
proof -
  assume a: "m < 100" "n < 100" "m < n"
  have "0 < (0::nat) \<or> (0::nat) = 0 \<and> (0 < (0::nat) \<or> (0::nat) = 0 \<and>
      (m div 10 < n div 10 \<or> m div 10 = n div 10 \<and> m mod 10 < n mod 10))"
    using a by (intro digits4_less) auto
  moreover have "m div 10 mod 10 = m div 10" "n div 10 mod 10 = n div 10" using a by auto
  ultimately show ?thesis using a by (auto simp: pad2_def digit_less)
qed

lemma pad4_less: "m < 10000 \<Longrightarrow> n < 10000 \<Longrightarrow> m < n \<Longrightarrow> pad4 m @ u < pad4 n @ v"
proof -
  assume a: "m < 10000" "n < 10000" "m < n"
  have "m div 1000 mod 10 < n div 1000 mod 10 \<or> m div 1000 mod 10 = n div 1000 mod 10 \<and>
      (m div 100 mod 10 < n div 100 mod 10 \<or> m div 100 mod 10 = n div 100 mod 10 \<and>
        (m div 10 mod 10 < n div 10 mod 10 \<or> m div 10 mod 10 = n div 10 mod 10 \<and> m mod 10 < n mod 10))"
    by (rule digits4_less) (use nat_split4[OF a(1)] nat_split4[OF a(2)] a(3) in \<open>simp_all only: mod_less_divisor zero_less_numeral\<close>)
  then show ?thesis by (elim disjE conjE) (simp_all add: pad4_def digit_less)
qed

lemma civil_less:
  assumes "z < z'" "civil_of_day z = (y, m, d)" "civil_of_day z' = (y', m', d')"
  shows "y < y' \<or> y = y' \<and> (m < m' \<or> m = m' \<and> d < d')"
proof -
  note v = civil_of_day[OF assms(2)] and v' = civil_of_day[OF assms(3)]
  have "y \<le> y'" using year_mono[of z z'] assms by (simp add: year_def)
  moreover have "m \<le> m'" if "y = y'"
  proof (rule ccontr)
    assume "\<not> m \<le> m'"
    then have "days_before_month (leap y) (m' + 1) \<le> days_before_month (leap y) m"
      using v by (intro days_before_month_mono) auto
    moreover have "d' \<le> days_before_month (leap y) (m' + 1) - days_before_month (leap y) m'"
      using v' that by (simp add: days_in_def)
    ultimately show False using v(1,4) v'(1) assms(1) that by (simp add: day_of_civil_def)
  qed
  moreover have "d < d'" if "y = y'" "m = m'"
    using v(1) v'(1) assms(1) that by (auto simp: day_of_civil_def)
  ultimately show ?thesis by force
qed

lemma date_string_less1: "printable a \<Longrightarrow> printable b \<Longrightarrow> a < b \<Longrightarrow> date_string a < date_string b"
proof -
  assume p: "printable a" "printable b" and l: "a < b"
  obtain y m d y' m' d' where c: "civil_of_day a = (y, m, d)" "civil_of_day b = (y', m', d')"
    by (metis prod_cases3)
  note v = civil_of_day[OF c(1)] and v' = civil_of_day[OF c(2)]
  have b: "nat y < 10000" "nat y' < 10000" "nat m < 100" "nat m' < 100" "nat d < 100" "nat d' < 100" "0 \<le> y"
    using p c v v' days_in_le[of m y] days_in_le[of m' y'] by (auto simp: printable_def year_def)
  from civil_less[OF l c] consider "y < y'" | "y = y'" "m < m'" | "y = y'" "m = m'" "d < d'" by blast
  then show ?thesis
  proof cases
    case 1
    then show ?thesis using b pad4_less[of "nat y" "nat y'"] by (simp add: date_string_def c)
  next
    case 2
    then show ?thesis using b v pad2_less[of "nat m" "nat m'"]
      by (simp add: date_string_def c pad4_def)
  next
    case 3
    then show ?thesis using b v pad2_less[of "nat d" "nat d'" "[]" "[]"]
      by (simp add: date_string_def c pad4_def) (simp add: pad2_def)
  qed
qed

lemma date_string_less: "printable a \<Longrightarrow> printable b \<Longrightarrow> date_string a < date_string b \<longleftrightarrow> a < b"
  by (metis date_string_less1 linorder_neq_iff order_less_imp_not_less)

section \<open>RFC 3339\<close>

definition clock_string :: "gotime \<Rightarrow> string" where
  "clock_string t =
     pad2 (gt_sec t div 3600) @ '':'' @ pad2 (gt_sec t div 60 mod 60) @ '':'' @ pad2 (gt_sec t mod 60)"

definition offset_string :: "int \<Rightarrow> string" where
  "offset_string off =
     (if off = 0 then ''Z''
      else (let z = nat (\<bar>off\<bar> div 60)
            in (if off < 0 then ''-'' else ''+'') @ pad2 (z div 60) @ '':'' @ pad2 (z mod 60)))"

definition rfc3339 :: "gotime \<Rightarrow> string" where
  "rfc3339 t = date_string (gt_day t) @ ''T'' @ clock_string t @ offset_string (gt_off t)"

lemma rfc3339_not_Nil [simp]: "rfc3339 t \<noteq> []"
  by (simp add: rfc3339_def)

text \<open>Milliseconds since 1970-01-01 UTC (UnixMilli), and time.Add of whole seconds.\<close>

definition unix_milli :: "gotime \<Rightarrow> int" where
  "unix_milli t = ((gt_day t - 719162) * 86400 + int (gt_sec t) - gt_off t) * 1000 + int (gt_ms t)"

definition add_seconds :: "gotime \<Rightarrow> int \<Rightarrow> gotime" where
  "add_seconds t n =
     (let s = int (gt_sec t) + n
      in t\<lparr>gt_day := gt_day t + s div 86400, gt_sec := nat (s mod 86400)\<rparr>)"

text \<open>The moment of a time in milliseconds; the zero time is that of the year 1.\<close>

definition moment :: "gotime option \<Rightarrow> int" where
  "moment t = (case t of None \<Rightarrow> - 62135596800000 | Some t \<Rightarrow> unix_milli t)"

lemma unix_milli_add_seconds: "unix_milli (add_seconds t n) = unix_milli t + n * 1000"
proof -
  define s where "s = int (gt_sec t) + n"
  define q where "q = s div 86400"
  define r where "r = s mod 86400"
  have "s = 86400 * q + r" and r: "int (nat r) = r" by (simp_all add: q_def r_def)
  moreover have "add_seconds t n = t\<lparr>gt_day := gt_day t + q, gt_sec := nat r\<rparr>"
    by (simp add: add_seconds_def s_def q_def r_def Let_def)
  ultimately show ?thesis
    by (simp add: unix_milli_def) (simp add: s_def algebra_simps)
qed

end
