(* ===== verification/Model.thy ===== *)
theory Model
  imports Complex_Main Civil_Date "HOL-Library.Word"
begin

text \<open>
  internal/model: the records every component passes around (model.go, task.go, restart.go),
  the operator-facing labels, the session handles ("A42", "#42") and the colour palette.
  A time.Time is a gotime, or None for the zero time; a *float64 is a rational option (the list's
  order numbers are only compared); raw JSON is its text.
\<close>

unbundle bit_operations_syntax

section \<open>Sessions\<close>

definition StatusActive :: string where [simp]: "StatusActive = ''active''"
definition StatusIdle :: string where [simp]: "StatusIdle = ''idle''"
definition StatusRecent :: string where [simp]: "StatusRecent = ''recent''"
definition StatusStopped :: string where [simp]: "StatusStopped = ''stopped''"

text \<open>model.Session, field by field.\<close>

record session =
  se_id :: string
  se_host_letter :: string
  se_cwd :: string
  se_repo :: string
  se_branch :: string
  se_commit :: string
  se_wrapper_pid :: int
  se_proc_pid :: int
  se_pane :: string
  se_tmux_pane :: string
  se_tmux_session :: string
  se_transcript_path :: string
  se_model :: string
  se_entrypoint :: string
  se_hide_headless :: bool
  se_num :: int
  se_title :: string
  se_gen_title :: string
  se_gen_title_at :: "gotime option"
  se_title_status :: string
  se_custom_title :: string
  se_user_group :: string
  se_account :: string
  se_archived :: bool
  se_favorite :: bool
  se_pinned_at :: "gotime option"
  se_color_override :: string
  se_project :: string
  se_project_color :: string
  se_project_order :: int
  se_first_seen :: "gotime option"
  se_last_seen :: "gotime option"
  se_status :: string
  se_pending_count :: int
  se_attention :: string
  se_attention_reason :: string
  se_attention_at :: "gotime option"
  se_wait :: string
  se_wait_note :: string
  se_wait_at :: "gotime option"
  se_origin :: string
  se_last_activity :: "gotime option"
  se_seen_at :: "gotime option"
  se_unseen :: bool
  se_later :: bool
  se_later_at :: "gotime option"
  se_grid :: bool
  se_grid_at :: "gotime option"
  se_turn_started_at :: "gotime option"
  se_tool :: string
  se_tool_summary :: string
  se_tool_at :: "gotime option"

definition AttentionNeedsYou :: string where [simp]: "AttentionNeedsYou = ''needs_you''"
definition AttentionDone :: string where [simp]: "AttentionDone = ''done''"

definition WaitAnswer :: string where [simp]: "WaitAnswer = ''answer''"
definition WaitAction :: string where [simp]: "WaitAction = ''action''"
definition WaitReport :: string where [simp]: "WaitReport = ''report''"
definition WaitBackground :: string where [simp]: "WaitBackground = ''background''"

definition WaitKinds :: "string list" where
  "WaitKinds = [WaitAnswer, WaitAction, WaitReport, WaitBackground]"

definition WaitLabel :: "string \<Rightarrow> string" where
  "WaitLabel kind =
     (if kind = WaitAnswer then [CHR 0xE5, CHR 0x9B, CHR 0x9E, CHR 0xE7, CHR 0xAD, CHR 0x94, CHR 0xE5, CHR 0xBE, 
     CHR 0x85, CHR 0xE3, CHR 0x81, CHR 0xA1]
      else if kind = WaitAction then [CHR 0xE4, CHR 0xBD, CHR 0x9C, CHR 0xE6, CHR 0xA5, CHR 0xAD, CHR 0xE5, CHR 0xBE, 
     CHR 0x85, CHR 0xE3, CHR 0x81, CHR 0xA1]
      else if kind = WaitReport then [CHR 0xE5, CHR 0xA0, CHR 0xB1, CHR 0xE5, CHR 0x91, CHR 0x8A]
      else if kind = WaitBackground then [CHR 0xE8, CHR 0x87, CHR 0xAA, CHR 0xE5, CHR 0x8B, CHR 0x95, CHR 0xE3, CHR 0x81, 
     CHR 0xA7, CHR 0xE7, CHR 0xB6, CHR 0x9A, CHR 0xE8, CHR 0xA1, CHR 0x8C]
      else [])"

definition WaitNeedsYou :: "string \<Rightarrow> bool" where
  "WaitNeedsYou kind \<longleftrightarrow> kind = WaitAnswer \<or> kind = WaitAction"

text \<open>Thirty minutes, in milliseconds.\<close>

definition RecentReplyWindow :: int where
  "RecentReplyWindow = 30 * 60 * 1000"

definition RecentReply :: "session \<Rightarrow> gotime \<Rightarrow> bool" where
  "RecentReply s now \<longleftrightarrow>
     \<not> se_unseen s \<and> se_status s \<noteq> StatusActive \<and> se_attention s \<noteq> AttentionNeedsYou
     \<and> se_pending_count s = 0
     \<and> (case se_last_activity s of None \<Rightarrow> False
         | Some la \<Rightarrow> unix_milli now - unix_milli la < RecentReplyWindow)"

definition Headless :: "string \<Rightarrow> bool" where
  "Headless entrypoint \<longleftrightarrow> prefix ''sdk-'' entrypoint"

definition DisplayTitle :: "session \<Rightarrow> string" where
  "DisplayTitle s =
     (if se_custom_title s \<noteq> [] then se_custom_title s
      else if se_gen_title s \<noteq> [] then se_gen_title s
      else se_title s)"

section \<open>Handles\<close>

definition RefOf :: "string \<Rightarrow> int \<Rightarrow> string" where
  "RefOf letter num =
     (if num \<le> 0 then []
      else if letter \<noteq> [] then letter @ itoa num
      else ''#'' @ itoa num)"

definition Ref :: "session \<Rightarrow> string" where
  "Ref s = RefOf (se_host_letter s) (se_num s)"

definition MatchesRef :: "string \<Rightarrow> string \<Rightarrow> int \<Rightarrow> bool" where
  "MatchesRef q0 letter num =
     (if num \<le> 0 then False
      else (let q = trim_space q0; n = itoa num
            in if q = n \<or> q = ''#'' @ n then True
               else letter \<noteq> [] \<and> equal_fold q (letter @ n)))"

section \<open>Colours\<close>

definition SessionPalette :: "string list" where
  "SessionPalette =
    [''#ef4444'', ''#f97316'', ''#f59e0b'', ''#facc15'', ''#84cc16'', ''#22c55e'',
     ''#10b981'', ''#14b8a6'', ''#06b6d4'', ''#0ea5e9'', ''#3b82f6'', ''#6366f1'',
     ''#8b5cf6'', ''#a855f7'', ''#d946ef'', ''#ec4899'', ''#f43f5e'', ''#b45309'',
     ''#94a3b8'', ''#fca5a5'', ''#fde68a'', ''#86efac'', ''#93c5fd'', ''#c4b5fd'']"

text \<open>
  The loop of ValidColor ranges over runes; a rune outside ASCII fails the test, as its bytes
  do here.
\<close>

definition hex_digit :: "char \<Rightarrow> bool" where
  "hex_digit r \<longleftrightarrow> byte_in 48 57 r \<or> byte_in 97 102 r \<or> byte_in 65 70 r"

definition ValidColor :: "string \<Rightarrow> bool" where
  "ValidColor c \<longleftrightarrow> length c = 7 \<and> hd c = CHR ''#'' \<and> list_all hex_digit (tl c)"

definition colorStride :: int where
  "colorStride = 7"

text \<open>The 32-bit FNV-1a hash of the bytes of a string.\<close>

definition fnv1a :: "string \<Rightarrow> 32 word" where
  "fnv1a s = foldl (\<lambda>h c. (h XOR of_nat (of_char c)) * 16777619) 2166136261 s"

definition palette_at :: "32 word \<Rightarrow> string" where
  "palette_at h = SessionPalette ! unat (h mod of_nat (length SessionPalette))"

text \<open>
  The number is an int64: the multiplication wraps at 64 bits and the conversion keeps the low
  32, which is the low 32 bits of the product.
\<close>

definition Color :: "session \<Rightarrow> string" where
  "Color s =
     (if se_color_override s \<noteq> [] then se_color_override s
      else if 0 < se_num s then palette_at (word_of_int (se_num s * colorStride))
      else if se_id s = [] then []
      else palette_at (fnv1a (se_id s)))"

definition ProjectColorOf :: "string \<Rightarrow> string \<Rightarrow> string" where
  "ProjectColorOf name stored =
     (if stored \<noteq> [] then stored
      else if name = [] then []
      else palette_at (fnv1a name))"

section \<open>Hook events and approvals\<close>

definition EventSessionStart :: string where [simp]: "EventSessionStart = ''session_start''"
definition EventSessionEnd :: string where [simp]: "EventSessionEnd = ''session_end''"
definition EventUserPrompt :: string where [simp]: "EventUserPrompt = ''user_prompt''"
definition EventPreTool :: string where [simp]: "EventPreTool = ''pre_tool''"
definition EventPostTool :: string where [simp]: "EventPostTool = ''post_tool''"
definition EventPostToolFailure :: string where [simp]: "EventPostToolFailure = ''post_tool_failure''"
definition EventPermissionRequest :: string where [simp]: "EventPermissionRequest = ''permission_request''"
definition EventStop :: string where [simp]: "EventStop = ''stop''"
definition EventNotification :: string where [simp]: "EventNotification = ''notification''"
definition EventSubagentStop :: string where [simp]: "EventSubagentStop = ''subagent_stop''"

record hook_event =
  ev_id :: int
  ev_session_id :: string
  ev_timestamp :: "gotime option"
  ev_type :: string
  ev_tool :: string
  ev_summary :: string
  ev_payload :: string

definition ApprovalPending :: string where [simp]: "ApprovalPending = ''pending''"
definition ApprovalApproved :: string where [simp]: "ApprovalApproved = ''approved''"
definition ApprovalDenied :: string where [simp]: "ApprovalDenied = ''denied''"
definition ApprovalTimeout :: string where [simp]: "ApprovalTimeout = ''timeout''"
definition ApprovalResolved :: string where [simp]: "ApprovalResolved = ''resolved''"
definition ApprovalFailed :: string where [simp]: "ApprovalFailed = ''failed''"

record approval =
  ap_id :: int
  ap_session_id :: string
  ap_timestamp :: "gotime option"
  ap_tool :: string
  ap_tool_use_id :: string
  ap_tool_input :: string
  ap_status :: string
  ap_reason :: string
  ap_decided_at :: "gotime option"

section \<open>Tasks\<close>

definition TaskTodo :: string where [simp]: "TaskTodo = ''todo''"
definition TaskDoing :: string where [simp]: "TaskDoing = ''doing''"
definition TaskWaiting :: string where [simp]: "TaskWaiting = ''waiting''"
definition TaskDone :: string where [simp]: "TaskDone = ''done''"
definition TaskCancelled :: string where [simp]: "TaskCancelled = ''cancelled''"

record task_note =
  n_at :: string
  n_source :: string
  n_text :: string
  n_link :: string
  n_ref :: string

record task =
  t_id :: int
  t_key :: string
  t_title :: string
  t_priority :: int
  t_status :: string
  t_plan :: string
  t_plan_by :: string
  t_plan_on :: string
  t_due :: string
  t_project :: string
  t_note :: string
  t_links :: "string list"
  t_source :: string
  t_created_on :: string
  t_done_on :: string
  t_order :: "rat option"
  t_archived :: bool
  t_updated_at :: int
  t_timeline :: "task_note list"
  t_sessions :: "string list"
  t_bucket :: string

definition Finished :: "task \<Rightarrow> bool" where
  "Finished t \<longleftrightarrow> t_status t = TaskDone \<or> t_status t = TaskCancelled"

record task_bucket =
  tb_key :: string
  tb_label :: string
  tb_heading :: string

record task_list =
  tl_rev :: int
  tl_today :: string
  tl_buckets :: "task_bucket list"
  tl_tasks :: "task list"

section \<open>Scheduled restarts\<close>

record restart_blocker =
  rb_session_id :: string
  rb_num :: int
  rb_title :: string
  rb_why :: string

record restart_state =
  rs_pending :: bool
  rs_since :: "gotime option"
  rs_deadline :: "gotime option"
  rs_by :: string
  rs_waiting :: "restart_blocker list"
  rs_hosted :: nat
  rs_unregistered :: nat
  rs_last :: string
  rs_last_at :: "gotime option"
  rs_can_restart :: bool

definition RestartWhenIdle :: string where [simp]: "RestartWhenIdle = ''idle''"
definition RestartNow :: string where [simp]: "RestartNow = ''now''"

section \<open>Handles find their session\<close>

text \<open>A letter string without white space at its ends, as hub letters are, and its digits.\<close>

lemma trim_space_itoa: "0 < n \<Longrightarrow> trim_space (itoa n) = itoa n"
proof -
  assume "0 < n"
  then have all: "list_all is_digit (itoa n)" and ne: "itoa n \<noteq> []"
    by (simp_all add: itoa_def nat_digits_digits)
  show ?thesis by (rule trim_space_graphic[OF digits_graphic[OF all]])
qed

text \<open>Hub letters are ASCII letters; folding their case byte by byte is exact.\<close>

definition ascii_letter :: "char \<Rightarrow> bool" where
  "ascii_letter c \<longleftrightarrow> byte_in 65 90 c \<or> byte_in 97 122 c"

lemma fold_case_ascii: "list_all (\<lambda>c. of_char c < (128 :: nat)) s \<Longrightarrow> fold_case s = map lower_byte s"
  by (induction s rule: fold_case.induct) auto

lemma lower_byte_digit: "is_digit c \<Longrightarrow> lower_byte c = c"
  by (simp add: lower_byte_def is_digit_def byte_in_def)

lemma lower_byte_letter: "ascii_letter c \<Longrightarrow> byte_in 97 122 (lower_byte c)"
  by (auto simp: lower_byte_def ascii_letter_def byte_in_def Let_def)

lemma letters_no_digit: "byte_in 97 122 c \<Longrightarrow> \<not> is_digit c"
  by (simp add: byte_in_def is_digit_def)

lemma ascii_letter_digits:
  "list_all ascii_letter l \<Longrightarrow> list_all is_digit d \<Longrightarrow> list_all (\<lambda>c. of_char c < (128 :: nat)) (l @ d)"
  by (induction l) (auto simp: ascii_letter_def is_digit_def byte_in_def list_all_iff)

lemma fold_ref:
  assumes "list_all ascii_letter l" "list_all is_digit d"
  shows "fold_case (l @ d) = map lower_byte l @ d"
proof -
  have "map lower_byte d = d" using assms(2) by (induction d) (auto simp: lower_byte_digit)
  then show ?thesis using fold_case_ascii[OF ascii_letter_digits[OF assms]] by simp
qed

lemma letters_digits_split:
  assumes "l @ d = l' @ d'" "list_all (\<lambda>c. \<not> is_digit c) l" "list_all (\<lambda>c. \<not> is_digit c) l'"
    "list_all is_digit d" "list_all is_digit d'"
  shows "l = l' \<and> d = d'"
proof -
  have t: "takeWhile (\<lambda>c. \<not> is_digit c) (k @ e) = k"
    if "list_all (\<lambda>c. \<not> is_digit c) k" "list_all is_digit e" for k e
    using that(1)
  proof (induction k)
    case Nil
    show ?case using that(2) by (cases e) simp_all
  qed simp
  have "l = l'" using t[OF assms(2,4)] t[OF assms(3,5)] assms(1) by simp
  with assms(1) show ?thesis by simp
qed

lemma itoa_digits: "0 < n \<Longrightarrow> list_all is_digit (itoa n) \<and> itoa n \<noteq> []"
  by (simp add: itoa_def nat_digits_digits)

lemma itoa_inj: "0 < m \<Longrightarrow> 0 < n \<Longrightarrow> itoa m = itoa n \<longleftrightarrow> m = n"
  using digits_val_nat_digits by (auto simp: itoa_def) (metis int_nat_eq order_less_imp_le)

lemma graphic_ref: "list_all ascii_letter l \<Longrightarrow> 0 < n \<Longrightarrow> list_all graphic (l @ itoa n)"
  using digits_graphic[of "itoa n"] itoa_digits[of n]
  by (induction l) (auto simp: ascii_letter_def byte_in_def graphic_def)

text \<open>
  A handle names exactly one session across machines: it is matched by the session it was made
  for, and by another one only if its number is the same and its letter the same up to case.
\<close>

lemma ref_matches:
  assumes "list_all ascii_letter l" "l \<noteq> []" "list_all ascii_letter l'" "l' \<noteq> []" "0 < n" "0 < n'"
  shows "MatchesRef (RefOf l n) l' n' \<longleftrightarrow> map lower_byte l = map lower_byte l' \<and> n = n'"
proof -
  note d = itoa_digits[OF assms(5)] and d' = itoa_digits[OF assms(6)]
  have t: "trim_space (l @ itoa n) = l @ itoa n"
    by (rule trim_space_graphic[OF graphic_ref[OF assms(1,5)]])
  have nd: "list_all (\<lambda>c. \<not> is_digit c) (map lower_byte k)" if "list_all ascii_letter k" for k
    using that by (induction k) (auto dest: lower_byte_letter letters_no_digit)
  have hd: "ascii_letter (hd (l @ itoa n))" using assms(1,2) by (cases l) auto
  then have "l @ itoa n \<noteq> itoa n'" "l @ itoa n \<noteq> CHR ''#'' # itoa n'"
    using d' hd_nat_digits[of "nat n'"] assms(6)
    by (auto simp: itoa_def ascii_letter_def is_digit_def byte_in_def)
  then have "MatchesRef (RefOf l n) l' n' \<longleftrightarrow> map lower_byte l @ itoa n = map lower_byte l' @ itoa n'"
    using assms t d d' fold_ref[of l "itoa n"] fold_ref[of l' "itoa n'"]
    by (simp add: MatchesRef_def RefOf_def equal_fold_def Let_def)
  also have "\<dots> \<longleftrightarrow> map lower_byte l = map lower_byte l' \<and> n = n'"
    using letters_digits_split[of "map lower_byte l" "itoa n" "map lower_byte l'" "itoa n'"]
      nd[OF assms(1)] nd[OF assms(3)] d d' itoa_inj[OF assms(5,6)] by auto
  finally show ?thesis .
qed

section \<open>Every colour is a valid one\<close>

lemma palette_at_valid: "palette_at h \<in> set SessionPalette"
proof -
  have "unat (h mod of_nat (length SessionPalette)) < length SessionPalette"
    by (simp add: SessionPalette_def unat_mod)
  then show ?thesis unfolding palette_at_def by (rule nth_mem)
qed

lemma palette_all_valid: "list_all ValidColor SessionPalette"
  by (simp add: SessionPalette_def ValidColor_def hex_digit_def byte_in_def)

lemma palette_valid: "c \<in> set SessionPalette \<Longrightarrow> ValidColor c"
  using palette_all_valid by (simp add: list_all_iff)

lemma color_valid:
  assumes "se_color_override s = [] \<or> ValidColor (se_color_override s)" "se_id s \<noteq> []"
  shows "ValidColor (Color s)"
  using assms palette_valid[OF palette_at_valid] by (auto simp: Color_def)

lemma color_of_number_valid: "se_color_override s = [] \<Longrightarrow> 0 < se_num s \<Longrightarrow> ValidColor (Color s)"
  using palette_valid[OF palette_at_valid] by (simp add: Color_def)

text \<open>The numbers of 24 consecutive sessions get 24 different colours.\<close>

lemma palette_at_int:
  assumes "0 \<le> n" "n < 2 ^ 32"
  shows "palette_at (word_of_int n) = SessionPalette ! nat (n mod 24)"
proof -
  have "unat (word_of_int n :: 32 word) = nat n"
    using assms by (simp add: unat_eq_nat_uint uint_word_of_int)
  then show ?thesis
    using assms by (simp add: palette_at_def SessionPalette_def unat_mod nat_mod_distrib)
qed

lemma stride_injective: "\<bar>m - n\<bar> < 24 \<Longrightarrow> (m * 7) mod 24 = (n * 7) mod (24::int) \<Longrightarrow> m = n"
proof -
  assume m: "\<bar>m - n\<bar> < 24" and "(m * 7) mod 24 = (n * 7) mod 24"
  then have "24 dvd (m - n) * 7"
    by (simp add: mod_eq_dvd_iff left_diff_distrib)
  then have "24 dvd (m - n) * 7 * 7 - 24 * (2 * (m - n))"
    using dvd_diff[OF dvd_mult2[of 24 "(m - n) * 7" 7] dvd_triv_left[of 24 "2 * (m - n)"]] by simp
  then have "24 dvd m - n" by simp
  then show "m = n" using m zdvd_not_zless[of "\<bar>m - n\<bar>" 24] by auto
qed

lemma palette_distinct: "distinct SessionPalette"
  by (simp add: SessionPalette_def)

lemma neighbours_differ:
  assumes "se_color_override s = []" "se_color_override s' = []" "0 < se_num s" "0 < se_num s'"
    and "se_num s * 7 < 2 ^ 32" "se_num s' * 7 < 2 ^ 32"
    and "se_num s \<noteq> se_num s'" "\<bar>se_num s - se_num s'\<bar> < 24"
  shows "Color s \<noteq> Color s'"
proof
  assume "Color s = Color s'"
  then have "SessionPalette ! nat (se_num s * 7 mod 24) = SessionPalette ! nat (se_num s' * 7 mod 24)"
    using assms palette_at_int[of "se_num s * 7"] palette_at_int[of "se_num s' * 7"]
    by (simp add: Color_def colorStride_def del: of_int_mult)
  moreover have "nat (se_num x * 7 mod 24) < length SessionPalette" for x :: session
    by (simp add: SessionPalette_def nat_less_iff)
  ultimately have "nat (se_num s * 7 mod 24) = nat (se_num s' * 7 mod 24)"
    using nth_eq_iff_index_eq[OF palette_distinct] by blast
  then have "se_num s = se_num s'"
    using stride_injective[OF assms(8)] by simp
  with assms(7) show False by simp
qed

section \<open>Properties\<close>

text \<open>A handle such as A42 is matched by the session it was made for and by no other: by another
  machine's session only if the letters are the same up to case, and never by another number.\<close>

theorem handle_identifies_session:
  assumes "list_all ascii_letter l" "l \<noteq> []" "list_all ascii_letter l'" "l' \<noteq> []" "0 < n" "0 < n'"
  shows "MatchesRef (RefOf l n) l' n' \<longleftrightarrow> map lower_byte l = map lower_byte l' \<and> n = n'"
  using assms by (rule ref_matches)

theorem handle_identifies_session_witness:
  "MatchesRef (RefOf ''A'' 42) ''b'' 42 \<longleftrightarrow> map lower_byte ''A'' = map lower_byte ''b'' \<and> (42::int) = 42"
  by (rule handle_identifies_session) (simp_all add: ascii_letter_def byte_in_def)

text \<open>Two sessions without a picked colour whose numbers differ by less than 24 have different
  colours, all of them valid ones (numbers below 2^32 div 7, where the 32-bit conversion keeps
  the product).\<close>

theorem neighbouring_sessions_differ:
  assumes "se_color_override s = []" "se_color_override s' = []" "0 < se_num s" "0 < se_num s'"
    and "se_num s * 7 < 2 ^ 32" "se_num s' * 7 < 2 ^ 32"
    and "se_num s \<noteq> se_num s'" "\<bar>se_num s - se_num s'\<bar> < 24"
  shows "Color s \<noteq> Color s' \<and> ValidColor (Color s)"
  using neighbours_differ[OF assms] color_of_number_valid[OF assms(1,3)] by blast

definition sample_session :: session where
  "sample_session = \<lparr>se_id = ''s1'', se_host_letter = ''A'', se_cwd = [], se_repo = [], se_branch = [],
     se_commit = [], se_wrapper_pid = 0, se_proc_pid = 0, se_pane = [], se_tmux_pane = [],
     se_tmux_session = [], se_transcript_path = [], se_model = [], se_entrypoint = [],
     se_hide_headless = False, se_num = 42, se_title = ''t'', se_gen_title = [], se_gen_title_at = None,
     se_title_status = [], se_custom_title = [], se_user_group = [], se_account = [],
     se_archived = False, se_favorite = False, se_pinned_at = None, se_color_override = [],
     se_project = [], se_project_color = [], se_project_order = 0, se_first_seen = None,
     se_last_seen = None, se_status = ''idle'', se_pending_count = 0, se_attention = [],
     se_attention_reason = [], se_attention_at = None, se_wait = [], se_wait_note = [],
     se_wait_at = None, se_origin = [], se_last_activity = None, se_seen_at = None,
     se_unseen = False, se_later = False, se_later_at = None, se_grid = False, se_grid_at = None,
     se_turn_started_at = None, se_tool = [], se_tool_summary = [], se_tool_at = None\<rparr>"

theorem neighbouring_sessions_differ_witness:
  "Color sample_session \<noteq> Color (sample_session\<lparr>se_num := 43\<rparr>) \<and> ValidColor (Color sample_session)"
  by (rule neighbouring_sessions_differ) (simp_all add: sample_session_def)

end
