(* ===== verification/Stable_Sort.thy ===== *)
theory Stable_Sort
  imports Go_Prelude "HOL-Library.Multiset"
begin

text \<open>
  sort.SliceStable and slices.SortStableFunc. Both document the result for a comparison that is a strict weak
  order: the elements in order, equal elements in their original order. That result is unique
  (stable_sort_unique); the insertion sort below computes it. The locale strict_weak is the
  contract a comparison must meet, on the set of values that are sorted.
\<close>

fun sinsert :: "('a \<Rightarrow> 'a \<Rightarrow> bool) \<Rightarrow> 'a \<Rightarrow> 'a list \<Rightarrow> 'a list" where
  "sinsert lt x [] = [x]"
| "sinsert lt x (y # ys) = (if lt y x then y # sinsert lt x ys else x # y # ys)"

definition stable_sort :: "('a \<Rightarrow> 'a \<Rightarrow> bool) \<Rightarrow> 'a list \<Rightarrow> 'a list" where
  "stable_sort lt xs = foldr (sinsert lt) xs []"

lemma stable_sort_Nil [simp]: "stable_sort lt [] = []"
  by (simp add: stable_sort_def)

lemma stable_sort_Cons [simp]: "stable_sort lt (x # xs) = sinsert lt x (stable_sort lt xs)"
  by (simp add: stable_sort_def)

lemma set_sinsert [simp]: "set (sinsert lt x xs) = insert x (set xs)"
  by (induction xs) auto

lemma mset_sinsert [simp]: "mset (sinsert lt x xs) = add_mset x (mset xs)"
  by (induction xs) auto

lemma mset_stable_sort [simp]: "mset (stable_sort lt xs) = mset xs"
  by (induction xs) auto

lemma set_stable_sort [simp]: "set (stable_sort lt xs) = set xs"
  by (induction xs) auto

lemma length_stable_sort [simp]: "length (stable_sort lt xs) = length xs"
  by (metis mset_stable_sort size_mset)

lemma stable_sort_Nil_iff [simp]: "stable_sort lt xs = [] \<longleftrightarrow> xs = []"
  by (metis set_stable_sort set_empty)

lemma distinct_map_stable_sort [simp]:
  "distinct (map f (stable_sort lt xs)) \<longleftrightarrow> distinct (map f xs)"
  using mset_eq_imp_distinct_iff[of "map f (stable_sort lt xs)" "map f xs"] by simp

text \<open>The order of a list: no element is less than one before it.\<close>

abbreviation in_order :: "('a \<Rightarrow> 'a \<Rightarrow> bool) \<Rightarrow> 'a list \<Rightarrow> bool" where
  "in_order lt \<equiv> sorted_wrt (\<lambda>x y. \<not> lt y x)"

locale strict_weak =
  fixes S :: "'a set" and lt :: "'a \<Rightarrow> 'a \<Rightarrow> bool"
  assumes asym: "a \<in> S \<Longrightarrow> b \<in> S \<Longrightarrow> lt a b \<Longrightarrow> \<not> lt b a"
    and neg_trans: "a \<in> S \<Longrightarrow> b \<in> S \<Longrightarrow> c \<in> S \<Longrightarrow> \<not> lt a b \<Longrightarrow> \<not> lt b c \<Longrightarrow> \<not> lt a c"
begin

lemma irrefl: "a \<in> S \<Longrightarrow> \<not> lt a a"
  using asym by blast

lemma trans: "a \<in> S \<Longrightarrow> b \<in> S \<Longrightarrow> c \<in> S \<Longrightarrow> lt a b \<Longrightarrow> lt b c \<Longrightarrow> lt a c"
  using asym neg_trans by blast

lemma sorted_sinsert:
  "x \<in> S \<Longrightarrow> set xs \<subseteq> S \<Longrightarrow> in_order lt xs \<Longrightarrow> in_order lt (sinsert lt x xs)"
proof (induction xs)
  case (Cons y ys)
  show ?case
  proof (cases "lt y x")
    case True
    then show ?thesis using Cons asym[of y x] by auto
  next
    case False
    moreover have "\<not> lt z x" if "z \<in> set ys" for z
      using False Cons.prems that neg_trans[of z y x] by auto
    ultimately show ?thesis using Cons.prems by auto
  qed
qed simp

lemma sorted_stable_sort: "set xs \<subseteq> S \<Longrightarrow> in_order lt (stable_sort lt xs)"
  by (induction xs) (auto intro!: sorted_sinsert)

text \<open>Elements that compare equal to a given one keep their order.\<close>

abbreviation equiv :: "'a \<Rightarrow> 'a \<Rightarrow> bool" where
  "equiv x y \<equiv> \<not> lt x y \<and> \<not> lt y x"

lemma filter_sinsert:
  assumes "k \<in> S" "x \<in> S" "set xs \<subseteq> S"
  shows "filter (equiv k) (sinsert lt x xs) = filter (equiv k) (x # xs)"
  using assms(3)
proof (induction xs)
  case (Cons y ys)
  have "\<not> (equiv k x \<and> equiv k y)" if "lt y x"
    using that neg_trans[of y k x] Cons.prems assms by auto
  then show ?case using Cons by auto
qed simp

lemma stable_sort_stable:
  "k \<in> S \<Longrightarrow> set xs \<subseteq> S \<Longrightarrow> filter (equiv k) (stable_sort lt xs) = filter (equiv k) xs"
proof (induction xs)
  case (Cons x xs)
  then show ?case using filter_sinsert[of k x "stable_sort lt xs"] by auto
qed simp

lemma sinsert_front: "\<forall>y \<in> set xs. \<not> lt y x \<Longrightarrow> sinsert lt x xs = x # xs"
  by (cases xs) auto

lemma stable_sort_id: "set xs \<subseteq> S \<Longrightarrow> in_order lt xs \<Longrightarrow> stable_sort lt xs = xs"
  by (induction xs) (auto simp: sinsert_front)

lemma stable_sort_idem: "set xs \<subseteq> S \<Longrightarrow> stable_sort lt (stable_sort lt xs) = stable_sort lt xs"
  by (intro stable_sort_id sorted_stable_sort) auto

text \<open>
  The result is the only one the documentation of the Go sorts allows: in order, and with the
  elements equal to any element as they were.
\<close>

lemma sorted_stable_unique:
  assumes "set xs \<subseteq> S" "set ys \<subseteq> S" "in_order lt xs" "in_order lt ys"
    and "\<And>k. k \<in> S \<Longrightarrow> filter (equiv k) xs = filter (equiv k) ys"
  shows "xs = ys"
  using assms
proof (induction xs arbitrary: ys)
  case Nil
  then show ?case
  proof (cases ys)
    case (Cons y zs)
    then show ?thesis using Nil irrefl[of y] by (metis filter.simps insert_subset list.simps(15) list.distinct(1))
  qed simp
next
  case (Cons x xs)
  have xS: "x \<in> S" using Cons.prems by simp
  have fx: "filter (equiv x) ys = x # filter (equiv x) xs"
    using Cons.prems(5)[OF xS] irrefl[OF xS] by simp
  then obtain y zs where ys: "ys = y # zs" by (cases ys) auto
  have "y \<in> S" using Cons.prems ys by simp
  have "x \<in> set (filter (equiv x) ys)" by (simp only: fx list.set_intros)
  then have "x \<in> set ys" by simp
  then have "\<not> lt x y" using Cons.prems(4) ys irrefl[OF xS] by auto
  have "filter (equiv y) (x # xs) = y # filter (equiv y) zs"
    using Cons.prems(5)[OF \<open>y \<in> S\<close>] irrefl[OF \<open>y \<in> S\<close>] ys by simp
  then have "y \<in> set (filter (equiv y) (x # xs))" by (simp only: list.set_intros)
  then have "y \<in> set (x # xs)" by (auto split: if_splits)
  then have "\<not> lt y x" using Cons.prems(3) irrefl[OF xS] by auto
  with \<open>\<not> lt x y\<close> fx ys have "x = y" by simp
  moreover have "xs = zs"
  proof (rule Cons.IH)
    show "filter (equiv k) xs = filter (equiv k) zs" if "k \<in> S" for k
      using Cons.prems(5)[OF that] ys \<open>x = y\<close> by (auto split: if_splits)
  qed (use Cons.prems ys in auto)
  ultimately show ?case using ys by simp
qed

lemma stable_sort_unique:
  assumes "set xs \<subseteq> S" "set ys \<subseteq> S" "in_order lt ys"
    and "\<And>k. k \<in> S \<Longrightarrow> filter (equiv k) ys = filter (equiv k) xs"
  shows "ys = stable_sort lt xs"
proof (rule sorted_stable_unique)
  show "in_order lt (stable_sort lt xs)" using assms(1) by (rule sorted_stable_sort)
  show "filter (equiv k) ys = filter (equiv k) (stable_sort lt xs)" if "k \<in> S" for k
    using assms(4)[OF that] stable_sort_stable[OF that assms(1)] by simp
qed (use assms in simp_all)

end

text \<open>Orders by a key in a linear order are strict weak orders; so are lexicographic combinations.\<close>

lemma strict_weak_key: "strict_weak S (\<lambda>x y. (f x :: 'k::linorder) < f y)"
  by unfold_locales auto

lemma strict_weak_subset:
  assumes "strict_weak S lt" "T \<subseteq> S"
  shows "strict_weak T lt"
proof
  show "\<not> lt b a" if "a \<in> T" "b \<in> T" "lt a b" for a b
    using strict_weak.asym[OF assms(1)] assms(2) that by (meson subsetD)
  show "\<not> lt a c" if "a \<in> T" "b \<in> T" "c \<in> T" "\<not> lt a b" "\<not> lt b c" for a b c
    using strict_weak.neg_trans[OF assms(1)] assms(2) that by (meson subsetD)
qed

lemma strict_weak_cong:
  assumes "strict_weak S lt" and eq: "\<And>a b. a \<in> S \<Longrightarrow> b \<in> S \<Longrightarrow> lt' a b = lt a b"
  shows "strict_weak S lt'"
proof
  show "\<not> lt' b a" if "a \<in> S" "b \<in> S" "lt' a b" for a b
    using strict_weak.asym[OF assms(1) that(1,2)] that eq[OF that(1,2)] eq[OF that(2,1)] by blast
  show "\<not> lt' a c" if "a \<in> S" "b \<in> S" "c \<in> S" "\<not> lt' a b" "\<not> lt' b c" for a b c
    using strict_weak.neg_trans[OF assms(1) that(1,2,3)] that(4,5)
      eq[OF that(1,2)] eq[OF that(2,3)] eq[OF that(1,3)] by blast
qed

text \<open>Compare by a key first; it is enough that the rest is an order among equal keys.\<close>

lemma strict_weak_by:
  fixes f :: "'a \<Rightarrow> 'k::linorder"
  assumes "\<And>k. strict_weak {x \<in> S. f x = k} lt"
  shows "strict_weak S (\<lambda>a b. if f a \<noteq> f b then f a < f b else lt a b)"
proof
  fix a b assume "a \<in> S" "b \<in> S" "if f a \<noteq> f b then f a < f b else lt a b"
  then show "\<not> (if f b \<noteq> f a then f b < f a else lt b a)"
    using strict_weak.asym[OF assms, of a "f a" b] by (auto split: if_splits)
next
  fix a b c assume "a \<in> S" "b \<in> S" "c \<in> S" "\<not> (if f a \<noteq> f b then f a < f b else lt a b)"
    "\<not> (if f b \<noteq> f c then f b < f c else lt b c)"
  then show "\<not> (if f a \<noteq> f c then f a < f c else lt a c)"
    using strict_weak.neg_trans[OF assms, of a "f a" b c] by (auto split: if_splits)
qed

lemma strict_weak_by_desc:
  fixes f :: "'a \<Rightarrow> 'k::linorder"
  assumes "\<And>k. strict_weak {x \<in> S. f x = k} lt"
  shows "strict_weak S (\<lambda>a b. if f a \<noteq> f b then f b < f a else lt a b)"
proof
  fix a b assume "a \<in> S" "b \<in> S" "if f a \<noteq> f b then f b < f a else lt a b"
  then show "\<not> (if f b \<noteq> f a then f a < f b else lt b a)"
    using strict_weak.asym[OF assms, of a "f a" b] by (auto split: if_splits)
next
  fix a b c assume "a \<in> S" "b \<in> S" "c \<in> S" "\<not> (if f a \<noteq> f b then f b < f a else lt a b)"
    "\<not> (if f b \<noteq> f c then f c < f b else lt b c)"
  then show "\<not> (if f a \<noteq> f c then f c < f a else lt a c)"
    using strict_weak.neg_trans[OF assms, of a "f a" b c] by (auto split: if_splits)
qed

end
