(* ===== verification/Task_Rules.thy ===== *)
theory Task_Rules
  imports Model Stable_Sort
begin

text \<open>
  internal/tasks/rules.go: the plan shortcuts, the buckets of the to-do list, their headings, and
  the order of the list. Days are day numbers; the callers' time.Time is a gotime whose day is
  its local date. An error is a value of task_error, with what its message quotes.
\<close>

datatype task_error =
    TitleRequired
  | PriorityRange
  | NewStatusInvalid
  | DueInvalid string
  | FridayPassed
  | PlanInvalid string
  | TitleEmpty
  | StatusInvalid
  | FinishedTask
  | NoReason
  | SetByHandToday
  | NotArchivable int string

section \<open>Names\<close>

definition BucketToday :: string where [simp]: "BucketToday = ''today''"
definition BucketTomorrow :: string where [simp]: "BucketTomorrow = ''tomorrow''"
definition BucketWeek :: string where [simp]: "BucketWeek = ''week''"
definition BucketNextWeek :: string where [simp]: "BucketNextWeek = ''nextweek''"
definition BucketLater :: string where [simp]: "BucketLater = ''later''"
definition BucketNone :: string where [simp]: "BucketNone = ''none''"
definition BucketFinished :: string where [simp]: "BucketFinished = ''finished''"

definition bucketOrder :: "string list" where
  "bucketOrder = [BucketToday, BucketTomorrow, BucketWeek, BucketNextWeek, BucketLater, BucketNone, BucketFinished]"

text \<open>A Go map literal is an association list; a lookup of a missing key gives the zero value.\<close>

definition map_get :: "('k \<times> string) list \<Rightarrow> 'k \<Rightarrow> string" where
  "map_get m k = (case map_of m k of None \<Rightarrow> [] | Some v \<Rightarrow> v)"

definition bucketLabel :: "(string \<times> string) list" where
  "bucketLabel =
    [(BucketToday, [CHR 0xE4, CHR 0xBB, CHR 0x8A, CHR 0xE6, CHR 0x97, CHR 0xA5]),
     (BucketTomorrow, [CHR 0xE6, CHR 0x98, CHR 0x8E, CHR 0xE6, CHR 0x97, CHR 0xA5]),
     (BucketWeek, [CHR 0xE4, CHR 0xBB, CHR 0x8A, CHR 0xE9, CHR 0x80, CHR 0xB1, CHR 0xE4, CHR 0xB8, 
     CHR 0xAD]),
     (BucketNextWeek, [CHR 0xE6, CHR 0x9D, CHR 0xA5, CHR 0xE9, CHR 0x80, CHR 0xB1]),
     (BucketLater, [CHR 0xE5, CHR 0x86, CHR 0x8D, CHR 0xE6, CHR 0x9D, CHR 0xA5, CHR 0xE9, CHR 0x80, 
     CHR 0xB1, CHR 0xE4, CHR 0xBB, CHR 0xA5, CHR 0xE9, CHR 0x99, CHR 0x8D]),
     (BucketNone, [CHR 0xE6, CHR 0x9C, CHR 0xAA, CHR 0xE5, CHR 0xAE, CHR 0x9A]),
     (BucketFinished, [CHR 0xE5, CHR 0xAE, CHR 0x8C, CHR 0xE4, CHR 0xBA, CHR 0x86])]"

definition StatusLabel :: "(string \<times> string) list" where
  "StatusLabel =
    [(TaskTodo, [CHR 0xE6, CHR 0x9C, CHR 0xAA, CHR 0xE7, CHR 0x9D, CHR 0x80, CHR 0xE6, CHR 0x89, 
     CHR 0x8B]),
     (TaskDoing, [CHR 0xE9, CHR 0x80, CHR 0xB2, CHR 0xE8, CHR 0xA1, CHR 0x8C, CHR 0xE4, CHR 0xB8, 
     CHR 0xAD]),
     (TaskWaiting, [CHR 0xE5, CHR 0xBE, CHR 0x85, CHR 0xE3, CHR 0x81, CHR 0xA1]),
     (TaskDone, [CHR 0xE5, CHR 0xAE, CHR 0x8C, CHR 0xE4, CHR 0xBA, CHR 0x86]),
     (TaskCancelled, [CHR 0xE4, CHR 0xB8, CHR 0xAD, CHR 0xE6, CHR 0xAD, CHR 0xA2])]"

definition PriorityLabel :: "(int \<times> string) list" where
  "PriorityLabel =
    [(1, [CHR ''P'', CHR ''1'', CHR 0x20, CHR 0xE4, CHR 0xBB, CHR 0x8A, CHR 0xE3, CHR 0x81, 
     CHR 0x99, CHR 0xE3, CHR 0x81, CHR 0x90]),
     (2, [CHR ''P'', CHR ''2'', CHR 0x20, CHR 0xE4, CHR 0xBB, CHR 0x8A, CHR 0xE9, CHR 0x80, 
     CHR 0xB1]),
     (3, [CHR ''P'', CHR ''3'', CHR 0x20, CHR 0xE8, CHR 0xBF, CHR 0x91, CHR 0xE3, CHR 0x81, 
     CHR 0x84, CHR 0xE3, CHR 0x81, CHR 0x86, CHR 0xE3, CHR 0x81, CHR 0xA1]),
     (4, [CHR ''P'', CHR ''4'', CHR 0x20, CHR 0xE3, CHR 0x81, CHR 0x84, CHR 0xE3, CHR 0x81, 
     CHR 0xA4, CHR 0xE3, CHR 0x81, CHR 0x8B])]"

definition ValidStatus :: "string \<Rightarrow> bool" where
  "ValidStatus s \<longleftrightarrow> map_of StatusLabel s \<noteq> None"

section \<open>Days\<close>

definition Day :: "gotime \<Rightarrow> day" where
  "Day t = gt_day t"

definition DateString :: "day \<Rightarrow> string" where
  "DateString t = date_string t"

definition Stamp :: "gotime \<Rightarrow> string" where
  "Stamp t = rfc3339 t"

definition parseDate :: "string \<Rightarrow> day option" where
  "parseDate s = parse_date s"

text \<open>Go's Weekday has Sunday = 0.\<close>

definition Weekday :: "day \<Rightarrow> int" where
  "Weekday z = (weekday z + 1) mod 7"

function skip_weekend :: "day \<Rightarrow> day" where
  "skip_weekend d = (if Weekday d = 6 \<or> Weekday d = 0 then skip_weekend (d + 1) else d)"
  by pat_completeness auto
termination
proof (relation "measure (\<lambda>d. if Weekday d = 6 then 2 else if Weekday d = 0 then 1 else 0)", goal_cases)
  case (2 d)
  have "Weekday (d + 1) = (Weekday d + 1) mod 7"
    by (simp add: Weekday_def weekday_def mod_simps)
  with 2 show ?case by auto
qed simp

declare skip_weekend.simps [simp del]

definition NextBusinessDay :: "day \<Rightarrow> day" where
  "NextBusinessDay today = skip_weekend (today + 1)"

definition mondayIndex :: "day \<Rightarrow> int" where
  "mondayIndex t = (Weekday t + 6) mod 7"

definition nextMonday :: "day \<Rightarrow> day" where
  "nextMonday d = d + (7 - mondayIndex d)"

definition ThisFriday :: "day \<Rightarrow> day" where
  "ThisFriday d = d + (4 - mondayIndex d)"

definition NextMonday :: "day \<Rightarrow> day" where
  "NextMonday today = nextMonday today"

definition ParsePlan :: "string \<Rightarrow> gotime \<Rightarrow> task_error + string" where
  "ParsePlan v now =
     (let today = Day now; w = trim_space (to_lower v)
      in if w = [] \<or> w = ''none'' then Inr []
         else if w = ''today'' then Inr (DateString today)
         else if w = ''tomorrow'' then Inr (DateString (NextBusinessDay today))
         else if w = ''week'' then
           (let d = ThisFriday today
            in if d < today then Inl FridayPassed else Inr (DateString d))
         else if w = ''nextweek'' then Inr (DateString (nextMonday today))
         else (case parseDate (trim_space v) of
                 None \<Rightarrow> Inl (PlanInvalid v)
               | Some d \<Rightarrow> Inr (DateString d)))"

definition ValidDate :: "string \<Rightarrow> bool" where
  "ValidDate s \<longleftrightarrow> (if s = [] then True else parseDate s \<noteq> None)"

section \<open>Buckets\<close>

definition BucketOf :: "task \<Rightarrow> gotime \<Rightarrow> string" where
  "BucketOf t now =
     (let today = Day now
      in if Finished t then
           (if t_done_on t = DateString today then BucketToday else BucketFinished)
         else if t_plan t = [] then BucketNone
         else (case parseDate (t_plan t) of
                 None \<Rightarrow> BucketNone
               | Some d \<Rightarrow>
                   (let nm = nextMonday today
                    in if \<not> d > today then BucketToday
                       else if \<not> d > NextBusinessDay today then BucketTomorrow
                       else if d < nm then BucketWeek
                       else if d < nm + 7 then BucketNextWeek
                       else BucketLater)))"

definition CarriedOver :: "task \<Rightarrow> gotime \<Rightarrow> bool" where
  "CarriedOver t now \<longleftrightarrow> \<not> Finished t \<and> t_plan t \<noteq> [] \<and> t_plan t < DateString (Day now)"

definition weekday_names :: "string list" where
  "weekday_names =
    [[CHR 0xE6, CHR 0x9C, CHR 0x88], [CHR 0xE7, CHR 0x81, CHR 0xAB], [CHR 0xE6, CHR 0xB0, CHR 0xB4], [CHR 0xE6, CHR 0x9C, CHR 0xA8], [CHR 0xE9, CHR 0x87, CHR 0x91], [CHR 0xE5, CHR 0x9C, CHR 0x9F], [CHR 0xE6, CHR 0x97, CHR 0xA5]]"

definition shortDate :: "day \<Rightarrow> string" where
  "shortDate d =
     (let (y, m, dd) = civil_of_day d
      in itoa m @ ''/'' @ itoa dd @ '' '' @ weekday_names ! nat (mondayIndex d))"

text \<open>The dates a heading names: the first and the last day of the section, when it has them.\<close>

definition nextweek_start :: "day \<Rightarrow> day" where
  "nextweek_start today =
     (let s = NextBusinessDay today + 1 in if s > nextMonday today then s else nextMonday today)"

definition wave :: string where
  "wave = [CHR 0xE3, CHR 0x80, CHR 0x9C]"

definition Heading :: "string \<Rightarrow> gotime \<Rightarrow> string" where
  "Heading bucket now =
     (let today = Day now;
          nm = nextMonday today;
          span =
            (if bucket = BucketToday then shortDate today
             else if bucket = BucketTomorrow then shortDate (NextBusinessDay today)
             else if bucket = BucketWeek then wave @ shortDate (nm - 3)
             else if bucket = BucketNextWeek then shortDate (nextweek_start today) @ wave @ shortDate (nm + 4)
             else if bucket = BucketLater then shortDate (nm + 7) @ wave
             else [])
      in if span = [] then map_get bucketLabel bucket
         else map_get bucketLabel bucket @ [CHR 0xEF, CHR 0xBC, CHR 0x88] @ span @ [CHR 0xEF, CHR 0xBC, CHR 0x89])"

definition Buckets :: "gotime \<Rightarrow> task_bucket list" where
  "Buckets now =
     map (\<lambda>b. \<lparr>tb_key = b, tb_label = map_get bucketLabel b, tb_heading = Heading b now\<rparr>) bucketOrder"

definition BucketLabel :: "string \<Rightarrow> string" where
  "BucketLabel b = map_get bucketLabel b"

definition BucketKeys :: "string list" where
  "BucketKeys = bucketOrder"

section \<open>The order of the list\<close>

definition orderKey :: "task \<Rightarrow> rat" where
  "orderKey t = (case t_order t of None \<Rightarrow> 10 ^ 18 | Some x \<Rightarrow> x)"

definition dateKey :: "string \<Rightarrow> string" where
  "dateKey s = (if s = [] then ''9999-99-99'' else s)"

definition priorityKey :: "task \<Rightarrow> int" where
  "priorityKey t = (if t_priority t < 1 \<or> t_priority t > 4 then 4 else t_priority t)"

definition Less :: "task \<Rightarrow> task \<Rightarrow> bool" where
  "Less a b =
     (if orderKey a \<noteq> orderKey b then orderKey a < orderKey b
      else if dateKey (t_plan a) \<noteq> dateKey (t_plan b) then dateKey (t_plan a) < dateKey (t_plan b)
      else if Finished a \<and> Finished b \<and> t_done_on a \<noteq> t_done_on b then t_done_on b < t_done_on a
      else if priorityKey a \<noteq> priorityKey b then priorityKey a < priorityKey b
      else if dateKey (t_due a) \<noteq> dateKey (t_due b) then dateKey (t_due a) < dateKey (t_due b)
      else t_id a < t_id b)"

text \<open>The position of a bucket in the display order; a missing key ranks 0, as in a Go map.\<close>

fun index_of :: "'a \<Rightarrow> 'a list \<Rightarrow> nat" where
  "index_of x [] = 0"
| "index_of x (y # ys) = (if x = y then 0 else Suc (index_of x ys))"

definition bucket_rank :: "string \<Rightarrow> nat" where
  "bucket_rank b = (if b \<in> set bucketOrder then index_of b bucketOrder else 0)"

definition sort_less :: "task \<Rightarrow> task \<Rightarrow> bool" where
  "sort_less a b =
     (if bucket_rank (t_bucket a) \<noteq> bucket_rank (t_bucket b)
      then bucket_rank (t_bucket a) < bucket_rank (t_bucket b)
      else Less a b)"

definition Sort :: "task list \<Rightarrow> gotime \<Rightarrow> task list" where
  "Sort ts now = stable_sort sort_less (map (\<lambda>t. t\<lparr>t_bucket := BucketOf t now\<rparr>) ts)"

definition List :: "task list \<Rightarrow> int \<Rightarrow> gotime \<Rightarrow> task_list" where
  "List ts revision now =
     \<lparr>tl_rev = revision, tl_today = DateString (Day now), tl_buckets = Buckets now, tl_tasks = Sort ts now\<rparr>"

declare BucketToday_def [simp del] BucketTomorrow_def [simp del] BucketWeek_def [simp del]
  BucketNextWeek_def [simp del] BucketLater_def [simp del] BucketNone_def [simp del]
  BucketFinished_def [simp del]

lemmas bucket_names = BucketToday_def BucketTomorrow_def BucketWeek_def BucketNextWeek_def
  BucketLater_def BucketNone_def BucketFinished_def

section \<open>Week days\<close>

lemma weekday_range: "0 \<le> weekday z" "weekday z < 7"
  by (simp_all add: weekday_def)

lemma weekday_cases:
  obtains "weekday z = 0" | "weekday z = 1" | "weekday z = 2" | "weekday z = 3" | "weekday z = 4"
    | "weekday z = 5" | "weekday z = 6"
  using weekday_range[of z] by linarith

lemma Weekday_eq: "Weekday z = (if weekday z = 6 then 0 else weekday z + 1)"
  by (cases z rule: weekday_cases) (simp_all add: Weekday_def)

lemma mondayIndex_eq [simp]: "mondayIndex z = weekday z"
  by (cases z rule: weekday_cases) (simp_all add: mondayIndex_def Weekday_def)

lemma weekday_add: "weekday (z + k) = (weekday z + k) mod 7"
  by (simp add: weekday_def mod_simps)

lemma NextBusinessDay_eq:
  "NextBusinessDay z = z + (if weekday z = 4 then 3 else if weekday z = 5 then 2 else 1)"
proof -
  have open_day: "skip_weekend d = d" if "weekday d < 5" for d
    using that weekday_range[of d] by (subst skip_weekend.simps) (simp add: Weekday_eq)
  have sunday: "skip_weekend d = d + 1" if "weekday d = 6" for d
    using that open_day[of "d + 1"] by (subst skip_weekend.simps) (simp add: Weekday_eq weekday_add)
  have saturday: "skip_weekend d = d + 2" if "weekday d = 5" for d
    using that sunday[of "d + 1"] by (subst skip_weekend.simps) (simp add: Weekday_eq weekday_add)
  show ?thesis
    by (cases z rule: weekday_cases)
       (simp_all add: NextBusinessDay_def weekday_add open_day sunday saturday)
qed

lemma nextMonday_eq: "nextMonday z = z + 7 - weekday z"
  by (simp add: nextMonday_def)

lemma ThisFriday_eq: "ThisFriday z = z + 4 - weekday z"
  by (simp add: ThisFriday_def)

text \<open>The next business day is the first day after today that is not a Saturday or Sunday.\<close>

lemma NextBusinessDay_least:
  "z < NextBusinessDay z \<and> weekday (NextBusinessDay z) < 5 \<and>
   (\<forall>d. z < d \<and> d < NextBusinessDay z \<longrightarrow> weekday d = 5 \<or> weekday d = 6)"
proof (intro conjI allI impI)
  show "z < NextBusinessDay z" by (simp add: NextBusinessDay_eq)
  show "weekday (NextBusinessDay z) < 5"
    by (cases z rule: weekday_cases) (simp_all add: NextBusinessDay_eq weekday_add)
next
  fix d assume d: "z < d \<and> d < NextBusinessDay z"
  then have "d = z + 1 \<and> (weekday z = 4 \<or> weekday z = 5) \<or> d = z + 2 \<and> weekday z = 4"
    by (auto simp: NextBusinessDay_eq split: if_splits)
  then show "weekday d = 5 \<or> weekday d = 6" by (auto simp: weekday_add)
qed

section \<open>Plans are dates\<close>

text \<open>A date field of a task: empty, or a date in its one spelling.\<close>

definition date_field :: "string \<Rightarrow> bool" where
  "date_field s \<longleftrightarrow> s = [] \<or> (\<exists>z. printable z \<and> s = date_string z)"

lemma date_field_Nil [simp]: "date_field []"
  by (simp add: date_field_def)

lemma date_field_DateString [simp]: "printable z \<Longrightarrow> date_field (DateString z)"
  by (auto simp: date_field_def DateString_def)

lemma ValidDate_iff: "ValidDate s \<longleftrightarrow> date_field s"
  by (auto simp: ValidDate_def date_field_def parseDate_def dest: parse_date_canonical)

text \<open>The days the shortcuts can name from today on.\<close>

definition plannable :: "gotime \<Rightarrow> bool" where
  "plannable now \<longleftrightarrow> printable (Day now) \<and> printable (Day now + 7)"

lemma plannable_range: "plannable now \<Longrightarrow> Day now \<le> z \<Longrightarrow> z \<le> Day now + 7 \<Longrightarrow> printable z"
  using printableI unfolding plannable_def by blast

lemma plannable_today [simp]: "plannable now \<Longrightarrow> printable (Day now)"
  by (simp add: plannable_def)

lemma plannable_nbd [simp]: "plannable now \<Longrightarrow> printable (NextBusinessDay (Day now))"
  by (rule plannable_range) (auto simp: NextBusinessDay_eq)

lemma plannable_monday [simp]: "plannable now \<Longrightarrow> printable (nextMonday (Day now))"
  using weekday_range[of "Day now"] by (intro plannable_range) (auto simp: nextMonday_eq)

lemma plannable_friday:
  "plannable now \<Longrightarrow> Day now \<le> ThisFriday (Day now) \<Longrightarrow> printable (ThisFriday (Day now))"
  using weekday_range[of "Day now"] by (intro plannable_range) (auto simp: ThisFriday_eq)

lemma ParsePlan_date_field: "plannable now \<Longrightarrow> ParsePlan v now = Inr p \<Longrightarrow> date_field p"
  by (auto simp: ParsePlan_def Let_def parseDate_def plannable_friday not_less
      split: if_splits option.splits dest!: parse_date_canonical(1))

lemma date_string_graphic: "list_all (\<lambda>c. c = CHR ''-'' \<or> is_digit c) (date_string z)"
  by (simp add: date_string_def pad4_def pad2_def split: prod.splits)

lemma lower_ascii: "list_all (\<lambda>c. c = CHR ''-'' \<or> is_digit c) s \<Longrightarrow> to_lower s = s"
proof -
  have c: "lower_byte c = c \<and> c \<noteq> CHR 0xC4 \<and> c \<noteq> CHR 0xE2" if "c = CHR ''-'' \<or> is_digit c" for c
    using that by (auto simp: lower_byte_def is_digit_def byte_in_def)
  show "list_all (\<lambda>c. c = CHR ''-'' \<or> is_digit c) s \<Longrightarrow> to_lower s = s"
    by (induction s rule: to_lower.induct) (simp_all add: c)
qed

lemma date_string_trim [simp]: "trim_space (date_string z) = date_string z"
proof (rule trim_space_graphic)
  show "list_all graphic (date_string z)"
    by (rule list.pred_mono_strong[OF date_string_graphic]) (auto simp: graphic_def is_digit_def byte_in_def)
qed

text \<open>A stored plan is accepted as it is: parsing it again gives it back.\<close>

lemma ParsePlan_stored: "date_field p \<Longrightarrow> ParsePlan p now = Inr p"
proof -
  assume "date_field p"
  then consider "p = []" | z where "printable z" "p = date_string z" by (auto simp: date_field_def)
  then show ?thesis
  proof cases
    case (2 z)
    have "p \<noteq> w" if "length w < 10" for w using 2 that length_date_string[of z] by auto
    then show ?thesis
      using 2 by (simp add: ParsePlan_def lower_ascii date_string_graphic parseDate_def DateString_def Let_def)
  qed (simp add: ParsePlan_def)
qed

section \<open>Buckets\<close>

lemma BucketOf_planned:
  "\<not> Finished t \<Longrightarrow> printable d \<Longrightarrow> t_plan t = date_string d \<Longrightarrow> BucketOf t now =
    (if d \<le> Day now then BucketToday
     else if d \<le> NextBusinessDay (Day now) then BucketTomorrow
     else if d < nextMonday (Day now) then BucketWeek
     else if d < nextMonday (Day now) + 7 then BucketNextWeek else BucketLater)"
  by (simp add: BucketOf_def parseDate_def Let_def not_less)

lemma Finished_plan [simp]: "Finished (t\<lparr>t_plan := p\<rparr>) = Finished t"
  by (simp add: Finished_def)

text \<open>Where a plan shortcut puts an open task, by the weekday of today (None: the shortcut is refused).\<close>

definition shortcut_bucket :: "string \<Rightarrow> day \<Rightarrow> string option" where
  "shortcut_bucket v today =
     (let w = weekday today
      in if v = ''none'' then Some BucketNone
         else if v = ''today'' then Some BucketToday
         else if v = ''tomorrow'' then Some BucketTomorrow
         else if v = ''week'' then
           (if w \<le> 2 then Some BucketWeek else if w = 3 then Some BucketTomorrow
            else if w = 4 then Some BucketToday else None)
         else if v = ''nextweek'' then Some (if w \<le> 3 then BucketNextWeek else BucketTomorrow)
         else None)"

lemma shortcut_lands:
  assumes "plannable now" "\<not> Finished t" "v \<in> {''none'', ''today'', ''tomorrow'', ''week'', ''nextweek''}"
  shows "map_option (\<lambda>p. BucketOf (t\<lparr>t_plan := p\<rparr>) now)
           (case ParsePlan v now of Inl e \<Rightarrow> None | Inr p \<Rightarrow> Some p) = shortcut_bucket v (Day now)"
proof -
  have lw: "trim_space (to_lower v) = v"
    using assms(3) by (auto simp: lower_byte_def trim_space_graphic graphic_def)
  let ?P = "ParsePlan v now"
  have parsed: "?P = (if v = ''none'' then Inr []
      else if v = ''today'' then Inr (date_string (Day now))
      else if v = ''tomorrow'' then Inr (date_string (NextBusinessDay (Day now)))
      else if v = ''week'' then
        (if ThisFriday (Day now) < Day now then Inl FridayPassed else Inr (date_string (ThisFriday (Day now))))
      else Inr (date_string (nextMonday (Day now))))"
    using assms(3) unfolding ParsePlan_def Let_def lw DateString_def by auto
  note w = weekday_range[of "Day now"]
  have b: "printable d \<Longrightarrow> BucketOf (t\<lparr>t_plan := date_string d\<rparr>) now =
    (if d \<le> Day now then BucketToday
     else if d \<le> NextBusinessDay (Day now) then BucketTomorrow
     else if d < nextMonday (Day now) then BucketWeek
     else if d < nextMonday (Day now) + 7 then BucketNextWeek else BucketLater)" for d
    using assms(2) by (intro BucketOf_planned) simp_all
  have none: "BucketOf (t\<lparr>t_plan := []\<rparr>) now = BucketNone"
    using assms(2) by (simp add: BucketOf_def Let_def)
  have friday: "\<not> ThisFriday (Day now) < Day now \<Longrightarrow> printable (ThisFriday (Day now))"
    using plannable_friday[OF assms(1)] by simp
  from assms(3) consider "v = ''none''" | "v = ''today''" | "v = ''tomorrow''" | "v = ''week''" | "v = ''nextweek''"
    by blast
  then show ?thesis
  proof cases
    case 1
    then show ?thesis unfolding parsed by (simp add: shortcut_bucket_def none)
  next
    case 2
    then show ?thesis using assms(1) unfolding parsed by (simp add: shortcut_bucket_def b)
  next
    case 3
    then show ?thesis using assms(1) unfolding parsed by (simp add: shortcut_bucket_def b) (simp add: NextBusinessDay_eq)
  next
    case 4
    then show ?thesis using b[OF friday]
      unfolding parsed by (cases "Day now" rule: weekday_cases)
         (simp_all add: shortcut_bucket_def ThisFriday_eq nextMonday_eq NextBusinessDay_eq)
  next
    case 5
    then show ?thesis using b[OF plannable_monday[OF assms(1)]]
      unfolding parsed by (cases "Day now" rule: weekday_cases)
         (simp_all add: shortcut_bucket_def nextMonday_eq NextBusinessDay_eq)
  qed
qed

text \<open>A later plan is never shown in an earlier section, and a plan never moves away as days pass.\<close>

lemma bucket_rank_simps [simp]:
  "bucket_rank BucketToday = 0" "bucket_rank BucketTomorrow = 1" "bucket_rank BucketWeek = 2"
  "bucket_rank BucketNextWeek = 3" "bucket_rank BucketLater = 4" "bucket_rank BucketNone = 5"
  "bucket_rank BucketFinished = 6"
  by (simp_all add: bucket_rank_def bucketOrder_def bucket_names)

lemma bucket_mono:
  assumes "\<not> Finished t" "\<not> Finished u" "printable d" "printable e" "t_plan t = date_string d" "t_plan u = date_string e" "d \<le> e"
  shows "bucket_rank (BucketOf t now) \<le> bucket_rank (BucketOf u now)"
  using assms BucketOf_planned[of t d now] BucketOf_planned[of u e now] by simp

lemma nextMonday_div: "nextMonday z = 7 * (z div 7 + 1)"
proof -
  have "7 * (z div 7 + 1) = (z - z mod 7) + 7"
    by (simp only: distrib_left minus_mod_eq_mult_div mult_1_right)
  then show ?thesis by (simp add: nextMonday_eq weekday_def)
qed

lemma nextMonday_mono: "z \<le> z' \<Longrightarrow> nextMonday z \<le> nextMonday z'"
  using zdiv_mono1[of z z' 7] by (simp add: nextMonday_div)

lemma NextBusinessDay_mono: "z \<le> z' \<Longrightarrow> NextBusinessDay z \<le> NextBusinessDay z'"
proof (cases "z' \<le> z + 2")
  case True
  assume "z \<le> z'"
  with True consider "z' = z" | "z' = z + 1" | "z' = z + 2" by linarith
  then show ?thesis
    by cases (cases z rule: weekday_cases; simp add: NextBusinessDay_eq weekday_add)+
qed (simp add: NextBusinessDay_eq)

lemma bucket_approaches:
  assumes "\<not> Finished t" "printable d" "t_plan t = date_string d" "Day now \<le> Day now'"
  shows "bucket_rank (BucketOf t now') \<le> bucket_rank (BucketOf t now)"
  using assms BucketOf_planned[of t d now] BucketOf_planned[of t d now']
    nextMonday_mono[OF assms(4)] NextBusinessDay_mono[OF assms(4)] by simp

lemma bucket_not_today [simp]:
  "BucketTomorrow \<noteq> BucketToday" "BucketWeek \<noteq> BucketToday" "BucketNextWeek \<noteq> BucketToday"
  "BucketLater \<noteq> BucketToday" "BucketNone \<noteq> BucketToday" "BucketFinished \<noteq> BucketToday"
  by (simp_all add: bucket_names)

lemma carried_over_iff:
  assumes "printable (Day now)" "date_field (t_plan t)"
  shows "CarriedOver t now \<longleftrightarrow>
    \<not> Finished t \<and> BucketOf t now = BucketToday \<and> t_plan t \<noteq> DateString (Day now)"
proof -
  from assms(2) consider "t_plan t = []" | z where "printable z" "t_plan t = date_string z"
    by (auto simp: date_field_def)
  then show ?thesis
  proof cases
    case 1
    then show ?thesis by (simp add: CarriedOver_def BucketOf_def Let_def bucket_names)
  next
    case (2 z)
    then show ?thesis
      using assms BucketOf_planned[of t z now]
      by (cases "Finished t") (auto simp: CarriedOver_def DateString_def date_string_less date_string_inj)
  qed
qed

section \<open>Headings\<close>

text \<open>The business days of a section are exactly the ones its heading spans.\<close>

lemma heading_week:
  assumes "\<not> Finished t" "printable d" "t_plan t = date_string d" "weekday d < 5"
  shows "BucketOf t now = BucketWeek \<longleftrightarrow>
    NextBusinessDay (Day now) < d \<and> d \<le> nextMonday (Day now) - 3"
proof -
  define q p where "q = d div 7" and "p = Day now div 7 + 1"
  have "d = 7 * q + weekday d" "nextMonday (Day now) = 7 * p"
    by (simp_all add: weekday_def nextMonday_div q_def p_def)
  then have "d < nextMonday (Day now) \<longleftrightarrow> d \<le> nextMonday (Day now) - 3"
    using assms(4) weekday_range(1)[of d] by (cases "q < p") linarith+
  moreover have "Day now < NextBusinessDay (Day now)" by (simp add: NextBusinessDay_eq)
  ultimately show ?thesis
    using assms(1-3) BucketOf_planned[of t d now] by (auto simp: bucket_names)
qed

section \<open>The list is sorted\<close>

lemma index_of_inj: "x \<in> set xs \<Longrightarrow> y \<in> set xs \<Longrightarrow> index_of x xs = index_of y xs \<Longrightarrow> x = y"
  by (induction xs) (auto split: if_splits)

lemma bucket_rank_inj: "b \<in> set bucketOrder \<Longrightarrow> c \<in> set bucketOrder \<Longrightarrow> bucket_rank b = bucket_rank c \<longleftrightarrow> b = c"
  using index_of_inj[of b bucketOrder c] by (auto simp: bucket_rank_def)

lemma BucketOf_known: "BucketOf t now \<in> set bucketOrder"
  by (simp add: BucketOf_def bucketOrder_def Let_def split: option.split)

text \<open>Inside a section, finished tasks are either all finished the same day or all in the finished section.\<close>

definition in_bucket :: "gotime \<Rightarrow> string \<Rightarrow> task set" where
  "in_bucket now b = {t. BucketOf t now = b}"

lemma BucketOf_finished: "Finished t \<Longrightarrow> BucketOf t now = (if t_done_on t = DateString (Day now) then BucketToday else BucketFinished)"
  by (simp add: BucketOf_def Let_def)

lemma bucket_finished_only: "BucketOf t now = BucketFinished \<Longrightarrow> Finished t"
  by (auto simp: BucketOf_def Let_def bucket_names split: if_splits option.splits)

definition less_rest :: "task \<Rightarrow> task \<Rightarrow> bool" where
  "less_rest a b =
     (if priorityKey a \<noteq> priorityKey b then priorityKey a < priorityKey b
      else if dateKey (t_due a) \<noteq> dateKey (t_due b) then dateKey (t_due a) < dateKey (t_due b)
      else t_id a < t_id b)"

lemma less_rest_order: "strict_weak S less_rest"
  unfolding less_rest_def by (intro strict_weak_by strict_weak_key)

lemma less_done_order:
  "strict_weak {t. BucketOf t now = b \<and> P t}
     (\<lambda>a c. if Finished a \<and> Finished c \<and> t_done_on a \<noteq> t_done_on c then t_done_on c < t_done_on a else less_rest a c)"
  (is "strict_weak ?S ?lt")
proof (cases "b = BucketFinished")
  case True
  have "strict_weak ?S (\<lambda>a c. if t_done_on a \<noteq> t_done_on c then t_done_on c < t_done_on a else less_rest a c)"
    by (intro strict_weak_by_desc less_rest_order)
  then show ?thesis
    by (rule strict_weak_cong) (use True in \<open>auto dest: bucket_finished_only\<close>)
next
  case False
  have "t_done_on a = DateString (Day now)" if "a \<in> ?S" "Finished a" for a
    using that False BucketOf_finished[of a now] by (auto split: if_splits)
  then have "?lt a c = less_rest a c" if "a \<in> ?S" "c \<in> ?S" for a c
    using that by auto
  with less_rest_order[of ?S] show ?thesis by (rule strict_weak_cong)
qed

lemma Less_order: "strict_weak {t. BucketOf t now = b} Less"
proof -
  have eq: "Less = (\<lambda>a b. if orderKey a \<noteq> orderKey b then orderKey a < orderKey b
      else if dateKey (t_plan a) \<noteq> dateKey (t_plan b) then dateKey (t_plan a) < dateKey (t_plan b)
      else if Finished a \<and> Finished b \<and> t_done_on a \<noteq> t_done_on b then t_done_on b < t_done_on a
      else less_rest a b)"
    by (intro ext) (simp add: Less_def less_rest_def)
  have rest: "strict_weak {t \<in> {t \<in> {t. BucketOf t now = b}. orderKey t = k}. dateKey (t_plan t) = p}
     (\<lambda>a c. if Finished a \<and> Finished c \<and> t_done_on a \<noteq> t_done_on c then t_done_on c < t_done_on a else less_rest a c)" for k p
    using less_done_order[of now b "\<lambda>t. orderKey t = k \<and> dateKey (t_plan t) = p"]
    by (rule strict_weak_subset) auto
  show ?thesis unfolding eq by (rule strict_weak_by, rule strict_weak_by, rule rest)
qed

text \<open>The tasks whose section is filled in: the values Sort compares.\<close>

definition placed :: "gotime \<Rightarrow> task set" where
  "placed now = {t. t_bucket t = BucketOf t now}"

lemma sort_less_order: "strict_weak (placed now) sort_less"
  unfolding sort_less_def
proof (rule strict_weak_by)
  fix k
  show "strict_weak {t \<in> placed now. bucket_rank (t_bucket t) = k} Less"
  proof (cases "\<exists>b \<in> set bucketOrder. bucket_rank b = k")
    case True
    then obtain b where b: "b \<in> set bucketOrder" "bucket_rank b = k" by blast
    show ?thesis
      by (rule strict_weak_subset[OF Less_order[of now b]])
         (use b bucket_rank_inj BucketOf_known in \<open>auto simp: placed_def\<close>)
  next
    case False
    then have empty: "{t \<in> placed now. bucket_rank (t_bucket t) = k} = {}"
      using BucketOf_known by (auto simp: placed_def)
    show ?thesis unfolding empty strict_weak_def by simp
  qed
qed

interpretation task_order: strict_weak "placed now" sort_less for now
  by (rule sort_less_order)

lemma BucketOf_bucket [simp]: "BucketOf (t\<lparr>t_bucket := b\<rparr>) now = BucketOf t now"
  by (simp add: BucketOf_def Finished_def Let_def)

definition place :: "gotime \<Rightarrow> task \<Rightarrow> task" where
  "place now t = t\<lparr>t_bucket := BucketOf t now\<rparr>"

lemma place_placed [simp]: "place now t \<in> placed now"
  by (simp add: place_def placed_def)

lemma Sort_eq: "Sort ts now = stable_sort sort_less (map (place now) ts)"
  by (simp add: Sort_def place_def[abs_def])

lemma set_placed: "set (map (place now) ts) \<subseteq> placed now"
  by auto

lemma Sort_sorted: "in_order sort_less (Sort ts now)"
  unfolding Sort_eq by (rule task_order.sorted_stable_sort[OF set_placed])

lemma mset_Sort: "mset (Sort ts now) = image_mset (place now) (mset ts)"
  by (simp add: Sort_eq)

lemma Sort_sections: "sorted (map (\<lambda>t. bucket_rank (t_bucket t)) (Sort ts now))"
proof -
  have "sorted_wrt (\<lambda>x y. bucket_rank (t_bucket x) \<le> bucket_rank (t_bucket y)) (Sort ts now)"
    by (rule sorted_wrt_mono_rel[OF _ Sort_sorted]) (auto simp: sort_less_def not_less split: if_splits)
  then show ?thesis by (simp add: sorted_wrt_map)
qed

lemma Sort_canonical:
  assumes "set ys \<subseteq> placed now" "in_order sort_less ys"
    and "\<And>k. k \<in> placed now \<Longrightarrow> filter (\<lambda>y. \<not> sort_less k y \<and> \<not> sort_less y k) ys =
           filter (\<lambda>y. \<not> sort_less k y \<and> \<not> sort_less y k) (map (place now) ts)"
  shows "ys = Sort ts now"
  unfolding Sort_eq using assms by (intro task_order.stable_sort_unique[of _ now] set_placed) auto

lemma Sort_stable:
  "k \<in> placed now \<Longrightarrow> filter (\<lambda>y. \<not> sort_less k y \<and> \<not> sort_less y k) (Sort ts now) =
     filter (\<lambda>y. \<not> sort_less k y \<and> \<not> sort_less y k) (map (place now) ts)"
  unfolding Sort_eq by (rule task_order.stable_sort_stable[OF _ set_placed])

lemma place_idem: "t \<in> placed now \<Longrightarrow> place now t = t"
  by (simp add: place_def placed_def)

lemma Sort_idem: "Sort (Sort ts now) now = Sort ts now"
proof -
  have "set (Sort ts now) \<subseteq> placed now" using set_placed[of now ts] by (simp add: Sort_eq)
  then have "map (place now) (Sort ts now) = Sort ts now"
    by (intro map_idI) (auto simp: place_idem)
  then show ?thesis
    using task_order.stable_sort_idem[OF set_placed, of now ts] by (simp add: Sort_eq)
qed

section \<open>Properties\<close>

text \<open>C1. Each plan shortcut (none, today, tomorrow, week, nextweek) puts an open task in the section
  it names, by the weekday of today: "week" on a Thursday is tomorrow, on a Friday today, and
  is refused at the weekend; "nextweek" from a Friday on is the next business day, so tomorrow.\<close>

theorem plan_shortcuts_land:
  assumes "plannable now" "\<not> Finished t" "v \<in> {''none'', ''today'', ''tomorrow'', ''week'', ''nextweek''}"
  shows "map_option (\<lambda>p. BucketOf (t\<lparr>t_plan := p\<rparr>) now)
           (case ParsePlan v now of Inl e \<Rightarrow> None | Inr p \<Rightarrow> Some p) = shortcut_bucket v (Day now)"
  using assms by (rule shortcut_lands)

definition sample_now :: gotime where
  "sample_now = \<lparr>gt_day = 739902, gt_sec = 36000, gt_ms = 0, gt_off = 32400\<rparr>"

definition sample_task :: task where
  "sample_task = \<lparr>t_id = 7, t_key = [], t_title = ''Write'', t_priority = 3, t_status = ''todo'', t_plan = [],
     t_plan_by = [], t_plan_on = [], t_due = [], t_project = [], t_note = [], t_links = [], t_source = ''claude'',
     t_created_on = [], t_done_on = [], t_order = None, t_archived = False, t_updated_at = 0, t_timeline = [],
     t_sessions = [], t_bucket = []\<rparr>"

lemma sample_plannable: "plannable sample_now"
  by (simp add: plannable_def Day_def sample_now_def printable_range)

lemma sample_unfinished: "\<not> Finished sample_task"
  by (simp add: sample_task_def Finished_def)

theorem plan_shortcuts_land_witness:
  "map_option (\<lambda>p. BucketOf (sample_task\<lparr>t_plan := p\<rparr>) sample_now)
     (case ParsePlan ''week'' sample_now of Inl e \<Rightarrow> None | Inr p \<Rightarrow> Some p) = shortcut_bucket ''week'' (Day sample_now)"
  using plan_shortcuts_land[OF sample_plannable sample_unfinished, of "''week''"] by blast

text \<open>C2. An open task moves only towards today: as days pass its section never moves away in the display
  order, and of two open tasks the one planned later is never shown in an earlier section.\<close>

theorem buckets_follow_plans:
  assumes "\<not> Finished t" "\<not> Finished u" "printable d" "printable e" "t_plan t = date_string d" "t_plan u = date_string e"
    and "d \<le> e" "Day now \<le> Day now'"
  shows "bucket_rank (BucketOf t now') \<le> bucket_rank (BucketOf u now)"
  using bucket_approaches[OF assms(1,3,5,8)] bucket_mono[OF assms(1-7), of now] by simp

lemma sample_printable: "printable 739905"
  by (simp add: printable_range)

theorem buckets_follow_plans_witness:
  "bucket_rank (BucketOf (sample_task\<lparr>t_plan := date_string 739905\<rparr>) (sample_now\<lparr>gt_day := 739904\<rparr>)) \<le>
   bucket_rank (BucketOf (sample_task\<lparr>t_plan := date_string 739905, t_id := 8\<rparr>) sample_now)"
  by (rule buckets_follow_plans[where d = 739905 and e = 739905])
     (simp_all add: sample_printable Finished_def sample_task_def Day_def sample_now_def)

text \<open>C3. Sort returns the given tasks, each with its section filled in, in the order of Less inside the
  sections and the sections in display order; tasks that compare equal keep their order; and
  sorting again changes nothing.\<close>

theorem sort_tasks_correct:
  assumes "k \<in> placed now"
  shows "in_order sort_less (Sort ts now)
    \<and> mset (Sort ts now) = image_mset (place now) (mset ts)
    \<and> sorted (map (\<lambda>t. bucket_rank (t_bucket t)) (Sort ts now))
    \<and> filter (\<lambda>y. \<not> sort_less k y \<and> \<not> sort_less y k) (Sort ts now) =
        filter (\<lambda>y. \<not> sort_less k y \<and> \<not> sort_less y k) (map (place now) ts)
    \<and> Sort (Sort ts now) now = Sort ts now"
  by (intro conjI Sort_sorted mset_Sort Sort_sections Sort_stable Sort_idem assms)

theorem sort_tasks_correct_witness:
  "\<exists>k. filter (\<lambda>y. \<not> sort_less k y \<and> \<not> sort_less y k)
     (Sort [sample_task, sample_task\<lparr>t_note := ''n''\<rparr>] sample_now) =
   filter (\<lambda>y. \<not> sort_less k y \<and> \<not> sort_less y k)
     (map (place sample_now) [sample_task, sample_task\<lparr>t_note := ''n''\<rparr>])"
  using sort_tasks_correct[OF place_placed[of sample_now sample_task], of "[sample_task, sample_task\<lparr>t_note := ''n''\<rparr>]"]
  by blast

text \<open>A task counts as carried over exactly when it is open, shown today and planned for another day
  than today, so a plan compared as a string never disagrees with the calendar.\<close>

theorem carried_over_correct:
  assumes "printable (Day now)" "date_field (t_plan t)"
  shows "CarriedOver t now \<longleftrightarrow>
    \<not> Finished t \<and> BucketOf t now = BucketToday \<and> t_plan t \<noteq> DateString (Day now)"
  using assms by (rule carried_over_iff)

theorem carried_over_correct_witness:
  "CarriedOver (sample_task\<lparr>t_plan := DateString (Day sample_now)\<rparr>) sample_now \<longleftrightarrow>
    \<not> Finished (sample_task\<lparr>t_plan := DateString (Day sample_now)\<rparr>)
    \<and> BucketOf (sample_task\<lparr>t_plan := DateString (Day sample_now)\<rparr>) sample_now = BucketToday
    \<and> t_plan (sample_task\<lparr>t_plan := DateString (Day sample_now)\<rparr>) \<noteq> DateString (Day sample_now)"
  using plannable_today[OF sample_plannable] by (intro carried_over_correct) simp_all

end
