(* ===== verification/Task_Edit.thy ===== *)
theory Task_Edit
  imports Task_Rules
begin

text \<open>
  internal/tasks/edit.go: new tasks, partial edits, status changes, replanning and timeline
  entries. The Go functions edit a task in place and return what happened; here each returns the
  edited task with it, also when it fails, since the caller's copy is edited then too.
\<close>

section \<open>Data\<close>

definition SourceClaude :: string where [simp]: "SourceClaude = ''claude''"
definition SourceManual :: string where [simp]: "SourceManual = ''manual''"
definition SourceAuto :: string where [simp]: "SourceAuto = ''auto''"

record task_input =
  in_key :: string
  in_title :: string
  in_priority :: int
  in_status :: string
  in_plan :: string
  in_due :: string
  in_project :: string
  in_note :: string
  in_links :: "string list"
  in_sessions :: "string list"
  in_source :: string

record patch =
  p_title :: "string option"
  p_key :: "string option"
  p_priority :: "int option"
  p_due :: "string option"
  p_project :: "string option"
  p_note :: "string option"
  p_status :: "string option"
  p_plan :: "string option"
  p_auto :: bool
  p_why :: string
  p_add_links :: "string list"
  p_remove_links :: "string list"
  p_add_sessions :: "string list"
  p_remove_sessions :: "string list"
  p_archived :: "bool option"
  p_source :: string

section \<open>New tasks\<close>

definition dedup_step :: "string list \<Rightarrow> string \<Rightarrow> string list" where
  "dedup_step out v0 =
     (let v = trim_space v0 in if v \<noteq> [] \<and> v \<notin> set out then out @ [v] else out)"

definition dedup :: "string list \<Rightarrow> string list \<Rightarrow> string list" where
  "dedup old add = foldl dedup_step old add"

definition planByFor :: "string \<Rightarrow> string" where
  "planByFor source = (if source = SourceAuto then ''auto'' else ''manual'')"

text \<open>The task New builds from its input, once the defaults are filled in and the plan is parsed.\<close>

definition new_task :: "task_input \<Rightarrow> gotime \<Rightarrow> int \<Rightarrow> string \<Rightarrow> string \<Rightarrow> string \<Rightarrow> task" where
  "new_task inp now priority status source plan =
     \<lparr>t_id = 0, t_key = trim_space (in_key inp), t_title = trim_space (in_title inp),
      t_priority = priority, t_status = status, t_plan = plan,
      t_plan_by = (if plan \<noteq> [] then planByFor source else []),
      t_plan_on = (if plan \<noteq> [] then DateString (Day now) else []),
      t_due = trim_space (in_due inp), t_project = trim_space (in_project inp), t_note = in_note inp,
      t_links = dedup [] (in_links inp), t_source = source, t_created_on = DateString (Day now),
      t_done_on = [], t_order = None, t_archived = False, t_updated_at = 0, t_timeline = [],
      t_sessions = dedup [] (in_sessions inp), t_bucket = []\<rparr>"

definition New :: "task_input \<Rightarrow> gotime \<Rightarrow> task_error + task" where
  "New inp now =
     (let priority = (if in_priority inp = 0 then 3 else in_priority inp);
          status = (if in_status inp = [] then TaskTodo else in_status inp);
          source = (if in_source inp = [] then SourceClaude else in_source inp);
          due = trim_space (in_due inp)
      in if trim_space (in_title inp) = [] then Inl TitleRequired
         else if priority < 1 \<or> priority > 4 then Inl PriorityRange
         else if \<not> ValidStatus status \<or> status = TaskDone \<or> status = TaskCancelled then Inl NewStatusInvalid
         else if \<not> ValidDate due then Inl (DueInvalid due)
         else (case ParsePlan (in_plan inp) now of
                 Inl e \<Rightarrow> Inl e
               | Inr plan \<Rightarrow> Inr (new_task inp now priority status source plan)))"

section \<open>Timeline entries\<close>

definition note_less :: "task_note \<Rightarrow> task_note \<Rightarrow> bool" where
  "note_less a b \<longleftrightarrow> n_at a < n_at b"

definition fill_note :: "task_note \<Rightarrow> task_note" where
  "fill_note n0 =
     (let n = (if n_source n0 = [] then n0\<lparr>n_source := SourceClaude\<rparr> else n0)
      in if n_ref n = []
         then n\<lparr>n_ref := n_source n @ '':'' @ n_at n @ '':'' @ clip (n_text n) 20\<rparr>
         else n)"

definition AddNote :: "task \<Rightarrow> task_note \<Rightarrow> task \<times> bool" where
  "AddNote t n0 =
     (let n = n0\<lparr>n_text := trim_space (n_text n0)\<rparr>
      in if n_text n = [] \<or> n_at n = [] then (t, False)
         else
           let n = fill_note n
           in if n_ref n \<in> set (map n_ref (t_timeline t)) then (t, False)
              else (t\<lparr>t_timeline := stable_sort note_less (t_timeline t @ [n])\<rparr>, True))"

section \<open>Status\<close>

definition in_parens :: "string \<Rightarrow> string" where
  "in_parens s = [CHR 0xEF, CHR 0xBC, CHR 0x88] @ s @ [CHR 0xEF, CHR 0xBC, CHR 0x89]"

definition changed_verb :: "bool \<Rightarrow> string" where
  "changed_verb auto =
     (if auto then [CHR 0xE3, CHR 0x81, CHR 0xAB, CHR 0xE8, CHR 0x87, CHR 0xAA, CHR 0xE5, CHR 0x8B, 
     CHR 0x95, CHR 0xE3, CHR 0x81, CHR 0xA7, CHR 0xE5, CHR 0xA4, CHR 0x89, CHR 0xE6, 
     CHR 0x9B, CHR 0xB4]
      else [CHR 0xE3, CHR 0x81, CHR 0xAB, CHR 0xE5, CHR 0xA4, CHR 0x89, CHR 0xE6, CHR 0x9B, 
     CHR 0xB4])"

definition from_to :: "string \<Rightarrow> string \<Rightarrow> string \<Rightarrow> string \<Rightarrow> string" where
  "from_to what a b verb =
     what @ [CHR 0xE3, CHR 0x80, CHR 0x8C] @ a @ [CHR 0xE3, CHR 0x80, CHR 0x8D, CHR 0xE3, CHR 0x81, CHR 0x8B, CHR 0xE3, CHR 0x82, 
     CHR 0x89, CHR 0xE3, CHR 0x80, CHR 0x8C] @ b
          @ [CHR 0xE3, CHR 0x80, CHR 0x8D] @ verb"

definition SetStatus :: "task \<Rightarrow> string \<Rightarrow> string \<Rightarrow> string \<Rightarrow> gotime \<Rightarrow> task" where
  "SetStatus t status why source now =
     (let before = (if t_status t = [] then TaskTodo else t_status t);
          t = t\<lparr>t_status := status\<rparr>;
          t = (if Finished t then t\<lparr>t_done_on := DateString (Day now)\<rparr>
               else t\<lparr>t_done_on := [], t_archived := False\<rparr>);
          verb = changed_verb (source = SourceAuto);
          text = from_to [CHR 0xE7, CHR 0x8A, CHR 0xB6, CHR 0xE6, CHR 0x85, CHR 0x8B, CHR 0xE3, CHR 0x82, 
     CHR 0x92]
                   (map_get StatusLabel before) (map_get StatusLabel status) verb;
          text = (if why \<noteq> [] then text @ in_parens why else text)
      in fst (AddNote t \<lparr>n_at = Stamp now, n_source = source, n_text = text, n_link = [],
                         n_ref = source @ '':status:'' @ Stamp now\<rparr>))"

section \<open>Replanning\<close>

definition orUnset :: "string \<Rightarrow> string" where
  "orUnset s = (if s = [] then [CHR 0xE6, CHR 0x9C, CHR 0xAA, CHR 0xE5, CHR 0xAE, CHR 0x9A] else s)"

definition Replan ::
  "task \<Rightarrow> string \<Rightarrow> string \<Rightarrow> bool \<Rightarrow> string \<Rightarrow> gotime \<Rightarrow> task \<times> (task_error + bool)"
where
  "Replan t plan why auto source0 now =
     (if plan = t_plan t then (t, Inr False)
      else
        let today = DateString (Day now)
        in if auto \<and> Finished t then (t, Inl FinishedTask)
           else if auto \<and> why = [] then (t, Inl NoReason)
           else if auto \<and> t_plan_by t = ''manual'' \<and> t_plan_on t = today then (t, Inl SetByHandToday)
           else
             let before = t_plan t;
                 t = t\<lparr>t_plan := plan, t_order := None, t_plan_on := today,
                       t_plan_by := (if auto then ''auto'' else ''manual'')\<rparr>;
                 source = (if auto then SourceAuto else source0)
             in if auto \<or> why \<noteq> [] then
                  let text = from_to [CHR 0xE3, CHR 0x82, CHR 0x84, CHR 0xE3, CHR 0x82, CHR 0x8B, CHR 0xE6, CHR 0x97, 
     CHR 0xA5, CHR 0xE3, CHR 0x82, CHR 0x92]
                               (orUnset before) (orUnset plan) (changed_verb auto);
                      text = (if why \<noteq> [] then text @ in_parens why else text)
                  in (fst (AddNote t \<lparr>n_at = Stamp now, n_source = source, n_text = text, n_link = [],
                                      n_ref = source @ '':plan:'' @ Stamp now\<rparr>), Inr True)
                else (t, Inr True))"

section \<open>Partial edits\<close>

definition set_field ::
  "(task \<Rightarrow> string) \<Rightarrow> (string \<Rightarrow> task \<Rightarrow> task) \<Rightarrow> string option \<Rightarrow> bool \<Rightarrow> task \<times> bool \<Rightarrow> task \<times> bool"
where
  "set_field get upd v trim = (\<lambda>(t, changed).
     case v of
       None \<Rightarrow> (t, changed)
     | Some x \<Rightarrow>
         (let nv = (if trim then trim_space x else x)
          in if get t \<noteq> nv then (upd nv t, True) else (t, changed)))"

definition apply_check :: "patch \<Rightarrow> task_error option" where
  "apply_check p =
     (if p_title p \<noteq> None \<and> trim_space (the (p_title p)) = [] then Some TitleEmpty
      else if p_priority p \<noteq> None \<and> (the (p_priority p) < 1 \<or> the (p_priority p) > 4) then Some PriorityRange
      else if p_due p \<noteq> None \<and> \<not> ValidDate (trim_space (the (p_due p))) then Some (DueInvalid (the (p_due p)))
      else if p_status p \<noteq> None \<and> \<not> ValidStatus (the (p_status p)) then Some StatusInvalid
      else None)"

definition set_priority :: "patch \<Rightarrow> task \<times> bool \<Rightarrow> task \<times> bool" where
  "set_priority p = (\<lambda>(t, changed).
     case p_priority p of
       None \<Rightarrow> (t, changed)
     | Some q \<Rightarrow> if q \<noteq> t_priority t then (t\<lparr>t_priority := q\<rparr>, True) else (t, changed))"

definition run_steps :: "('s \<Rightarrow> 's) list \<Rightarrow> 's \<Rightarrow> 's" where
  "run_steps fs s = foldl (\<lambda>s f. f s) s fs"

definition field_steps :: "patch \<Rightarrow> (task \<times> bool \<Rightarrow> task \<times> bool) list" where
  "field_steps p =
     [set_field t_title (\<lambda>v t. t\<lparr>t_title := v\<rparr>) (p_title p) True,
      set_field t_key (\<lambda>v t. t\<lparr>t_key := v\<rparr>) (p_key p) True,
      set_field t_due (\<lambda>v t. t\<lparr>t_due := v\<rparr>) (p_due p) True,
      set_field t_project (\<lambda>v t. t\<lparr>t_project := v\<rparr>) (p_project p) True,
      set_field t_note (\<lambda>v t. t\<lparr>t_note := v\<rparr>) (p_note p) False,
      set_priority p]"

definition apply_fields :: "task \<Rightarrow> patch \<Rightarrow> task \<times> bool" where
  "apply_fields t p = run_steps (field_steps p) (t, False)"

definition apply_status :: "patch \<Rightarrow> string \<Rightarrow> string \<Rightarrow> gotime \<Rightarrow> task \<times> bool \<Rightarrow> task \<times> bool" where
  "apply_status p why src now = (\<lambda>(t, changed).
     case p_status p of
       None \<Rightarrow> (t, changed)
     | Some s \<Rightarrow> if s \<noteq> t_status t then (SetStatus t s why src now, True) else (t, changed))"

definition apply_plan ::
  "patch \<Rightarrow> string \<Rightarrow> string \<Rightarrow> gotime \<Rightarrow> task \<times> bool \<Rightarrow> (task \<times> bool) \<times> task_error option"
where
  "apply_plan p why src now = (\<lambda>(t, changed).
     case p_plan p of
       None \<Rightarrow> ((t, changed), None)
     | Some v \<Rightarrow>
         (case ParsePlan v now of
            Inl e \<Rightarrow> ((t, changed), Some e)
          | Inr plan \<Rightarrow>
              (case Replan t plan why (p_auto p) src now of
                 (t', Inl e) \<Rightarrow> ((t', changed), Some e)
               | (t', Inr moved) \<Rightarrow> ((t', changed \<or> moved), None))))"

definition add_links :: "string list \<Rightarrow> task \<times> bool \<Rightarrow> task \<times> bool" where
  "add_links add = (\<lambda>(t, changed).
     (let links = dedup (t_links t) add
      in if length links \<noteq> length (t_links t) then (t\<lparr>t_links := links\<rparr>, True) else (t, changed)))"

definition remove_links :: "string list \<Rightarrow> task \<times> bool \<Rightarrow> task \<times> bool" where
  "remove_links rm = (\<lambda>(t, changed).
     (let kept = filter (\<lambda>l. l \<notin> set rm) (t_links t)
      in if rm \<noteq> [] \<and> length kept \<noteq> length (t_links t) then (t\<lparr>t_links := kept\<rparr>, True) else (t, changed)))"

definition add_sessions :: "string list \<Rightarrow> task \<times> bool \<Rightarrow> task \<times> bool" where
  "add_sessions add = (\<lambda>(t, changed).
     (let ss = dedup (t_sessions t) add
      in if length ss \<noteq> length (t_sessions t) then (t\<lparr>t_sessions := ss\<rparr>, True) else (t, changed)))"

definition remove_sessions :: "string list \<Rightarrow> task \<times> bool \<Rightarrow> task \<times> bool" where
  "remove_sessions rm = (\<lambda>(t, changed).
     (let kept = filter (\<lambda>x. x \<notin> set rm) (t_sessions t)
      in if rm \<noteq> [] \<and> length kept \<noteq> length (t_sessions t) then (t\<lparr>t_sessions := kept\<rparr>, True) else (t, changed)))"

definition apply_lists :: "patch \<Rightarrow> task \<times> bool \<Rightarrow> task \<times> bool" where
  "apply_lists p =
     run_steps [add_links (p_add_links p), remove_links (p_remove_links p),
                add_sessions (p_add_sessions p), remove_sessions (p_remove_sessions p)]"

definition apply_archived :: "patch \<Rightarrow> task \<times> bool \<Rightarrow> (task \<times> bool) \<times> task_error option" where
  "apply_archived p = (\<lambda>(t, changed).
     case p_archived p of
       None \<Rightarrow> ((t, changed), None)
     | Some a \<Rightarrow>
         (if a \<noteq> t_archived t then
            (if a \<and> \<not> Finished t then ((t, changed), Some (NotArchivable (t_id t) (map_get StatusLabel (t_status t))))
             else ((t\<lparr>t_archived := a\<rparr>, True), None))
          else ((t, changed), None)))"

definition Apply :: "task \<Rightarrow> patch \<Rightarrow> gotime \<Rightarrow> (task \<times> bool) \<times> task_error option" where
  "Apply t p now =
     (let src = (if p_source p = [] then SourceClaude else p_source p);
          why = trim_space (p_why p)
      in case apply_check p of
           Some e \<Rightarrow> ((t, False), Some e)
         | None \<Rightarrow>
             (let s = apply_status p why src now (apply_fields t p)
              in case apply_plan p why src now s of
                   (s, Some e) \<Rightarrow> (s, Some e)
                 | (s, None) \<Rightarrow> apply_archived p (apply_lists p s)))"

section \<open>Well-formed tasks\<close>

definition note_ok :: "task_note \<Rightarrow> bool" where
  "note_ok n \<longleftrightarrow> n_at n \<noteq> [] \<and> n_text n \<noteq> [] \<and> n_ref n \<noteq> [] \<and> n_source n \<noteq> []"

definition timeline_ok :: "task_note list \<Rightarrow> bool" where
  "timeline_ok ns \<longleftrightarrow> distinct (map n_ref ns) \<and> list_all note_ok ns \<and> in_order note_less ns"

definition names_ok :: "string list \<Rightarrow> bool" where
  "names_ok xs \<longleftrightarrow> distinct xs \<and> list_all (\<lambda>x. x \<noteq> [] \<and> trim_space x = x) xs"

definition task_ok :: "task \<Rightarrow> bool" where
  "task_ok t \<longleftrightarrow>
     t_title t \<noteq> [] \<and> trim_space (t_title t) = t_title t
     \<and> 1 \<le> t_priority t \<and> t_priority t \<le> 4
     \<and> ValidStatus (t_status t)
     \<and> date_field (t_plan t) \<and> date_field (t_due t)
     \<and> (t_archived t \<longrightarrow> Finished t)
     \<and> (t_done_on t \<noteq> [] \<longleftrightarrow> Finished t)
     \<and> timeline_ok (t_timeline t) \<and> names_ok (t_links t) \<and> names_ok (t_sessions t)"

text \<open>The clauses of task_ok, and the fields they depend on.\<close>

lemma task_okI:
  "\<lbrakk>t_title t \<noteq> []; trim_space (t_title t) = t_title t; 1 \<le> t_priority t; t_priority t \<le> 4;
    ValidStatus (t_status t); date_field (t_plan t); date_field (t_due t);
    t_archived t \<longrightarrow> Finished t; t_done_on t \<noteq> [] \<longleftrightarrow> Finished t;
    timeline_ok (t_timeline t); names_ok (t_links t); names_ok (t_sessions t)\<rbrakk> \<Longrightarrow> task_ok t"
  by (simp add: task_ok_def)

lemma DateString_not_Nil [simp]: "DateString z \<noteq> []"
  by (simp add: DateString_def)

lemma Stamp_not_Nil [simp]: "Stamp t \<noteq> []"
  by (simp add: Stamp_def)

interpretation note_order: strict_weak UNIV note_less
  using strict_weak_key[of UNIV n_at] by (simp add: note_less_def[abs_def])

text \<open>What is stored of an entry, and when it is dropped.\<close>

definition stored :: "task_note \<Rightarrow> task_note" where
  "stored n = fill_note (n\<lparr>n_text := trim_space (n_text n)\<rparr>)"

definition dropped :: "task \<Rightarrow> task_note \<Rightarrow> bool" where
  "dropped t n \<longleftrightarrow> trim_space (n_text n) = [] \<or> n_at n = [] \<or> n_ref (stored n) \<in> set (map n_ref (t_timeline t))"

lemma AddNote_eq:
  "AddNote t n = (if dropped t n then (t, False)
     else (t\<lparr>t_timeline := stable_sort note_less (t_timeline t @ [stored n])\<rparr>, True))"
  by (simp add: AddNote_def dropped_def stored_def Let_def)

lemma stored_ok: "\<not> dropped t n \<Longrightarrow> note_ok (stored n)"
  by (simp add: dropped_def stored_def fill_note_def note_ok_def Let_def)

lemma AddNote_fields [simp]:
  "t_id (fst (AddNote t n)) = t_id t" "t_key (fst (AddNote t n)) = t_key t"
  "t_title (fst (AddNote t n)) = t_title t" "t_priority (fst (AddNote t n)) = t_priority t"
  "t_status (fst (AddNote t n)) = t_status t" "t_plan (fst (AddNote t n)) = t_plan t"
  "t_plan_by (fst (AddNote t n)) = t_plan_by t" "t_plan_on (fst (AddNote t n)) = t_plan_on t"
  "t_due (fst (AddNote t n)) = t_due t" "t_project (fst (AddNote t n)) = t_project t"
  "t_note (fst (AddNote t n)) = t_note t" "t_links (fst (AddNote t n)) = t_links t"
  "t_source (fst (AddNote t n)) = t_source t" "t_created_on (fst (AddNote t n)) = t_created_on t"
  "t_done_on (fst (AddNote t n)) = t_done_on t" "t_order (fst (AddNote t n)) = t_order t"
  "t_archived (fst (AddNote t n)) = t_archived t" "t_sessions (fst (AddNote t n)) = t_sessions t"
  "Finished (fst (AddNote t n)) = Finished t"
  by (simp_all add: AddNote_eq Finished_def)

lemma AddNote_unchanged: "\<not> snd (AddNote t n) \<Longrightarrow> fst (AddNote t n) = t"
  by (cases "dropped t n") (simp_all add: AddNote_eq)

lemma AddNote_timeline: "timeline_ok (t_timeline t) \<Longrightarrow> timeline_ok (t_timeline (fst (AddNote t n)))"
proof (cases "dropped t n")
  case False
  assume ok: "timeline_ok (t_timeline t)"
  let ?ns = "t_timeline t @ [stored n]"
  have "in_order note_less (stable_sort note_less ?ns)"
    by (rule note_order.sorted_stable_sort) simp
  moreover have "distinct (map n_ref ?ns)"
    using ok False by (simp add: timeline_ok_def dropped_def)
  moreover have "list_all note_ok ?ns"
    using ok stored_ok[OF False] by (simp add: timeline_ok_def)
  ultimately show ?thesis
    using False by (simp add: AddNote_eq timeline_ok_def list_all_iff)
qed (simp add: AddNote_eq)

lemma AddNote_task_ok: "task_ok t \<Longrightarrow> task_ok (fst (AddNote t n))"
  by (simp add: task_ok_def AddNote_timeline)

text \<open>The same entry twice is stored once.\<close>

lemma AddNote_idem: "AddNote (fst (AddNote t n)) n = (fst (AddNote t n), False)"
proof -
  have "dropped (fst (AddNote t n)) n" by (auto simp: AddNote_eq dropped_def)
  then show ?thesis by (simp add: AddNote_eq)
qed

section \<open>Duplicate-free lists\<close>

lemma dedup_step_ok: "names_ok out \<Longrightarrow> names_ok (dedup_step out v)"
  by (simp add: dedup_step_def names_ok_def Let_def)

lemma dedup_ok: "names_ok old \<Longrightarrow> names_ok (dedup old add)"
  unfolding dedup_def by (induction add arbitrary: old) (simp_all add: dedup_step_ok)

lemma names_ok_Nil [simp]: "names_ok []"
  by (simp add: names_ok_def)

lemma names_ok_filter: "names_ok xs \<Longrightarrow> names_ok (filter P xs)"
  by (auto simp: names_ok_def list_all_iff)

lemma dedup_prefix: "prefix old (dedup old add)"
  unfolding dedup_def
proof (induction add arbitrary: old)
  case (Cons v add)
  have "prefix old (dedup_step old v)" by (simp add: dedup_step_def Let_def)
  with Cons[of "dedup_step old v"] show ?case by (auto intro: prefix_order.order_trans)
qed simp

lemma dedup_same: "length (dedup old add) = length old \<Longrightarrow> dedup old add = old"
  using dedup_prefix[of old add] by (auto simp: prefix_def)

lemma set_dedup: "set (dedup old add) = set old \<union> {v. v \<in> trim_space ` set add \<and> v \<noteq> []}"
  unfolding dedup_def
proof (induction add arbitrary: old)
  case (Cons v add)
  have "set (dedup_step old v) = set old \<union> {w. w = trim_space v \<and> w \<noteq> []}"
    by (auto simp: dedup_step_def Let_def)
  with Cons[of "dedup_step old v"] show ?case by auto
qed simp

section \<open>New and changed tasks are well-formed\<close>

lemma new_task_ok:
  assumes "trim_space (in_title inp) \<noteq> []" "1 \<le> q" "q \<le> 4" "ValidStatus st" "st \<noteq> TaskDone" "st \<noteq> TaskCancelled"
    and "ValidDate (trim_space (in_due inp))" "date_field plan"
  shows "task_ok (new_task inp now q st src plan)"
  using assms
  by (intro task_okI) (simp_all add: new_task_def Finished_def ValidDate_iff timeline_ok_def dedup_ok)

lemma New_cases:
  assumes "New inp now = Inr t"
  obtains q st src plan where "t = new_task inp now q st src plan" "trim_space (in_title inp) \<noteq> []" "1 \<le> q" "q \<le> 4"
    "ValidStatus st" "st \<noteq> TaskDone" "st \<noteq> TaskCancelled" "ValidDate (trim_space (in_due inp))"
    "ParsePlan (in_plan inp) now = Inr plan" "src = (if in_source inp = [] then SourceClaude else in_source inp)"
proof -
  define q st src where "q = (if in_priority inp = 0 then 3 else in_priority inp)"
    and "st = (if in_status inp = [] then TaskTodo else in_status inp)"
    and "src = (if in_source inp = [] then SourceClaude else in_source inp)"
  note new = assms[unfolded New_def Let_def, folded q_def st_def src_def]
  show ?thesis
  proof (cases "ParsePlan (in_plan inp) now")
    case (Inr plan)
    have "t = new_task inp now q st src plan" using new Inr by (simp split: if_splits)
    then show ?thesis
      by (rule that) (use new Inr in \<open>simp_all add: src_def not_less split: if_splits\<close>)
  qed (use new in \<open>simp split: if_splits\<close>)
qed

lemma New_ok: "plannable now \<Longrightarrow> New inp now = Inr t \<Longrightarrow> task_ok t"
  by (erule New_cases) (simp add: new_task_ok ParsePlan_date_field del: TaskDone_def TaskCancelled_def)

lemma SetStatus_Finished [simp]: "Finished (SetStatus t s why src now) \<longleftrightarrow> s = TaskDone \<or> s = TaskCancelled"
  by (simp add: SetStatus_def Let_def Finished_def)

lemma SetStatus_ok: "task_ok t \<Longrightarrow> ValidStatus s \<Longrightarrow> task_ok (SetStatus t s why src now)"
  unfolding SetStatus_def Let_def
  by (rule AddNote_task_ok) (auto simp: task_ok_def Finished_def)

lemma Replan_ok: "task_ok t \<Longrightarrow> date_field plan \<Longrightarrow> task_ok (fst (Replan t plan why auto src now))"
  by (auto simp: Replan_def Let_def intro!: AddNote_task_ok) (simp_all add: task_ok_def Finished_def)

lemma set_field_ok:
  assumes "task_ok (fst s)" "\<And>x. v = Some x \<Longrightarrow> task_ok (upd (if trim then trim_space x else x) (fst s))"
  shows "task_ok (fst (set_field get upd v trim s))"
  using assms by (auto simp: set_field_def Let_def split: prod.splits option.splits)

lemma task_ok_plain [simp]:
  "task_ok (t\<lparr>t_key := v\<rparr>) = task_ok t" "task_ok (t\<lparr>t_project := v\<rparr>) = task_ok t"
  "task_ok (t\<lparr>t_note := v\<rparr>) = task_ok t"
  by (simp_all add: task_ok_def Finished_def)

lemma run_steps_Nil [simp]: "run_steps [] s = s"
  by (simp add: run_steps_def)

lemma run_steps_Cons [simp]: "run_steps (f # fs) s = run_steps fs (f s)"
  by (simp add: run_steps_def)

lemma apply_fields_ok:
  assumes ok: "task_ok t" and chk: "apply_check p = None"
  shows "task_ok (fst (apply_fields t p))"
proof -
  have title: "task_ok (u\<lparr>t_title := trim_space x\<rparr>)" if "task_ok u" "p_title p = Some x" for u x
    using that chk by (simp add: apply_check_def task_ok_def Finished_def split: if_splits)
  have due: "task_ok (u\<lparr>t_due := trim_space x\<rparr>)" if "task_ok u" "p_due p = Some x" for u x
    using that chk by (simp add: apply_check_def task_ok_def Finished_def ValidDate_iff split: if_splits)
  have prio: "task_ok (u\<lparr>t_priority := x\<rparr>)" if "task_ok u" "p_priority p = Some x" for u x
    using that chk by (simp add: apply_check_def task_ok_def Finished_def not_less split: if_splits)
  have prio_step: "task_ok (fst (set_priority p s))" if "task_ok (fst s)" for s
    using that prio by (cases s) (simp add: set_priority_def split: option.split)
  show ?thesis
    unfolding apply_fields_def field_steps_def run_steps_Cons run_steps_Nil
    by (intro prio_step) (simp add: ok title due set_field_ok)
qed

lemma apply_status_ok:
  "task_ok (fst s) \<Longrightarrow> apply_check p = None \<Longrightarrow> task_ok (fst (apply_status p why src now s))"
  by (auto simp: apply_status_def apply_check_def intro!: SetStatus_ok split: prod.splits option.splits if_splits)

lemma apply_plan_ok:
  "task_ok (fst s) \<Longrightarrow> plannable now \<Longrightarrow> task_ok (fst (fst (apply_plan p why src now s)))"
proof -
  assume ok: "task_ok (fst s)" and now: "plannable now"
  have "task_ok (fst (Replan (fst s) plan why (p_auto p) src now))"
    if "ParsePlan v now = Inr plan" for v plan
    using Replan_ok[OF ok ParsePlan_date_field[OF now that]] .
  then show ?thesis using ok
    by (cases s) (fastforce simp: apply_plan_def split: option.split sum.split prod.split)
qed

lemma task_ok_lists:
  "task_ok t \<Longrightarrow> names_ok xs \<Longrightarrow> task_ok (t\<lparr>t_links := xs\<rparr>)"
  "task_ok t \<Longrightarrow> names_ok xs \<Longrightarrow> task_ok (t\<lparr>t_sessions := xs\<rparr>)"
  by (simp_all add: task_ok_def Finished_def)

lemma task_ok_archived: "task_ok t \<Longrightarrow> a \<longrightarrow> Finished t \<Longrightarrow> task_ok (t\<lparr>t_archived := a\<rparr>)"
  by (simp add: task_ok_def Finished_def)

lemma task_ok_names: "task_ok t \<Longrightarrow> names_ok (t_links t)" "task_ok t \<Longrightarrow> names_ok (t_sessions t)"
  by (simp_all add: task_ok_def)

lemma apply_list_ok:
  "task_ok (fst s) \<Longrightarrow> task_ok (fst (add_links xs s))"
  "task_ok (fst s) \<Longrightarrow> task_ok (fst (remove_links xs s))"
  "task_ok (fst s) \<Longrightarrow> task_ok (fst (add_sessions xs s))"
  "task_ok (fst s) \<Longrightarrow> task_ok (fst (remove_sessions xs s))"
  by (cases s; simp add: add_links_def remove_links_def add_sessions_def remove_sessions_def Let_def
      task_ok_lists dedup_ok names_ok_filter task_ok_names)+

lemma apply_lists_ok: "task_ok (fst s) \<Longrightarrow> task_ok (fst (apply_lists p s))"
  unfolding apply_lists_def run_steps_Cons run_steps_Nil by (intro apply_list_ok)

lemma apply_archived_ok: "task_ok (fst s) \<Longrightarrow> task_ok (fst (fst (apply_archived p s)))"
  by (cases s) (simp add: apply_archived_def task_ok_archived split: option.split)

lemma Apply_ok:
  assumes "task_ok t" "plannable now"
  shows "task_ok (fst (fst (Apply t p now)))"
proof (cases "apply_check p")
  case None
  define src why where "src = (if p_source p = [] then SourceClaude else p_source p)" and "why = trim_space (p_why p)"
  define s where "s = apply_status p why src now (apply_fields t p)"
  have s: "task_ok (fst s)"
    unfolding s_def using assms None by (intro apply_status_ok apply_fields_ok)
  obtain s2 e where s2: "apply_plan p why src now s = (s2, e)" by (cases "apply_plan p why src now s")
  have "task_ok (fst s2)" using apply_plan_ok[OF s assms(2), of p why src] s2 by simp
  then show ?thesis
    using None s2 by (auto simp: Apply_def src_def[symmetric] why_def[symmetric] s_def[symmetric] Let_def
        intro!: apply_archived_ok apply_lists_ok split: option.split)
qed (use assms in \<open>simp add: Apply_def Let_def\<close>)

section \<open>What an edit reports\<close>

text \<open>A step that leaves the changed flag down changed nothing.\<close>

definition quiet :: "(task \<times> bool \<Rightarrow> task \<times> bool) \<Rightarrow> bool" where
  "quiet f \<longleftrightarrow> (\<forall>s. \<not> snd (f s) \<longrightarrow> f s = s)"

lemma quietI: "(\<And>t c. \<not> snd (f (t, c)) \<Longrightarrow> f (t, c) = (t, c)) \<Longrightarrow> quiet f"
  by (auto simp: quiet_def)

lemma quietD: "quiet f \<Longrightarrow> \<not> snd (f s) \<Longrightarrow> f s = s"
  unfolding quiet_def by blast

lemma quiet_set_field: "quiet (set_field get upd v trim)"
proof (rule quietI)
  fix t c assume q: "\<not> snd (set_field get upd v trim (t, c))"
  show "set_field get upd v trim (t, c) = (t, c)"
  proof (cases v)
    case (Some x)
    then show ?thesis
      using q by (cases "get t = (if trim then trim_space x else x)") (simp_all add: set_field_def)
  qed (simp add: set_field_def)
qed

lemma quiet_status: "quiet (apply_status p why src now)"
proof (rule quietI)
  fix t c assume q: "\<not> snd (apply_status p why src now (t, c))"
  show "apply_status p why src now (t, c) = (t, c)"
  proof (cases "p_status p")
    case (Some x)
    then show ?thesis using q by (cases "x = t_status t") (simp_all add: apply_status_def)
  qed (simp add: apply_status_def)
qed

lemma quiet_if: "quiet (\<lambda>(t, c). if P t then (f t, True) else (t, c))"
proof (rule quietI)
  fix t c
  show "\<not> snd (case (t, c) of (t, c) \<Rightarrow> if P t then (f t, True) else (t, c)) \<Longrightarrow>
    (case (t, c) of (t, c) \<Rightarrow> if P t then (f t, True) else (t, c)) = (t, c)"
    by (cases "P t") simp_all
qed

lemma quiet_lists:
  "quiet (add_links xs)" "quiet (remove_links xs)" "quiet (add_sessions xs)" "quiet (remove_sessions xs)"
  unfolding add_links_def remove_links_def add_sessions_def remove_sessions_def Let_def by (rule quiet_if)+

lemma quiet_priority: "quiet (set_priority p)"
proof (cases "p_priority p")
  case (Some q)
  then have "set_priority p = (\<lambda>(t, c). if q \<noteq> t_priority t then (t\<lparr>t_priority := q\<rparr>, True) else (t, c))"
    by (simp add: set_priority_def)
  then show ?thesis by (simp only: quiet_if)
qed (simp add: set_priority_def quiet_def)

lemma quiet_run: "list_all quiet fs \<Longrightarrow> quiet (run_steps fs)"
proof (induction fs)
  case (Cons f fs)
  then have q: "quiet f" "quiet (run_steps fs)" by simp_all
  show ?case
    unfolding quiet_def run_steps_Cons
  proof (intro allI impI)
    fix s assume "\<not> snd (run_steps fs (f s))"
    then have 1: "run_steps fs (f s) = f s" by (rule quietD[OF q(2)])
    with \<open>\<not> snd (run_steps fs (f s))\<close> have "f s = s" using quietD[OF q(1), of s] by simp
    with 1 show "run_steps fs (f s) = s" by simp
  qed
qed (simp add: quiet_def)

lemma quiet_apply_lists: "quiet (apply_lists p)"
  unfolding apply_lists_def by (rule quiet_run) (simp add: quiet_lists)

lemma quiet_fields: "\<not> snd (apply_fields t p) \<Longrightarrow> fst (apply_fields t p) = t"
proof -
  have "quiet (run_steps (field_steps p))"
    by (rule quiet_run) (simp add: field_steps_def quiet_set_field quiet_priority)
  then show "\<not> snd (apply_fields t p) \<Longrightarrow> fst (apply_fields t p) = t"
    unfolding apply_fields_def by (metis quietD fst_conv)
qed

lemma Replan_quiet:
  assumes "snd (Replan t plan why auto src now) \<noteq> Inr True"
  shows "fst (Replan t plan why auto src now) = t"
proof (cases "plan = t_plan t \<or> auto \<and> (Finished t \<or> why = [] \<or> t_plan_by t = ''manual'' \<and> t_plan_on t = DateString (Day now))")
  case True
  then show ?thesis by (auto simp: Replan_def Let_def)
next
  case False
  then have "snd (Replan t plan why auto src now) = Inr True" by (simp add: Replan_def Let_def)
  with assms show ?thesis by simp
qed

lemma Replan_moved:
  "Replan t plan why auto src now = (t', Inl e) \<Longrightarrow> t' = t"
  "Replan t plan why auto src now = (t', Inr False) \<Longrightarrow> t' = t"
  using Replan_quiet[of t plan why auto src now] by simp_all

lemma quiet_plan: "quiet (\<lambda>s. fst (apply_plan p why src now s))"
proof (rule quietI)
  fix t c assume q: "\<not> snd (fst (apply_plan p why src now (t, c)))"
  show "fst (apply_plan p why src now (t, c)) = (t, c)"
  proof (cases "p_plan p")
    case (Some v)
    show ?thesis
    proof (cases "ParsePlan v now")
      case (Inr plan)
      obtain t' r where r: "Replan t plan why (p_auto p) src now = (t', r)"
        by (cases "Replan t plan why (p_auto p) src now")
      show ?thesis
        using q Some Inr r Replan_moved[of t plan why "p_auto p" src now t']
        by (cases r) (simp_all add: apply_plan_def)
    qed (use Some in \<open>simp add: apply_plan_def\<close>)
  qed (simp add: apply_plan_def)
qed

lemma quiet_archived: "quiet (\<lambda>s. fst (apply_archived p s))"
proof (rule quietI)
  fix t c assume q: "\<not> snd (fst (apply_archived p (t, c)))"
  show "fst (apply_archived p (t, c)) = (t, c)"
  proof (cases "p_archived p")
    case (Some a)
    then show ?thesis
      using q by (cases a; cases "t_archived t"; cases "Finished t") (simp_all add: apply_archived_def)
  qed (simp add: apply_archived_def)
qed

lemma Apply_quiet: "\<not> snd (fst (Apply t p now)) \<Longrightarrow> fst (fst (Apply t p now)) = t"
proof (cases "apply_check p")
  case None
  define src why where "src = (if p_source p = [] then SourceClaude else p_source p)" and "why = trim_space (p_why p)"
  define s where "s = apply_status p why src now (apply_fields t p)"
  obtain s2 e where s2: "apply_plan p why src now s = (s2, e)" by (cases "apply_plan p why src now s")
  have eq: "Apply t p now = (case e of Some x \<Rightarrow> (s2, Some x) | None \<Rightarrow> apply_archived p (apply_lists p s2))"
    using None s2 by (simp add: Apply_def src_def why_def s_def Let_def split: option.split)
  assume quiet: "\<not> snd (fst (Apply t p now))"
  have "\<not> snd s2 \<and> fst (fst (Apply t p now)) = fst s2"
  proof (cases e)
    case None
    then have "\<not> snd (fst (apply_archived p (apply_lists p s2)))" using quiet eq by simp
    then have 1: "fst (apply_archived p (apply_lists p s2)) = apply_lists p s2"
      using quietD[OF quiet_archived] by blast
    then have "apply_lists p s2 = s2"
      using quietD[OF quiet_apply_lists, of p s2] quiet eq None by simp
    then show ?thesis using 1 quiet eq None by simp
  qed (use quiet eq in simp)
  moreover have "fst (apply_plan p why src now s) = s2" using s2 by simp
  ultimately have "s2 = s" using quietD[OF quiet_plan, of p why src now s] by simp
  with \<open>\<not> snd s2 \<and> fst (fst (Apply t p now)) = fst s2\<close>
  have "\<not> snd s" "fst (fst (Apply t p now)) = fst s" by auto
  then show ?thesis
    using quietD[OF quiet_status, of p why src now "apply_fields t p"] quiet_fields[of t p] by (simp add: s_def)
qed (simp add: Apply_def Let_def)

section \<open>Plans set by hand\<close>

text \<open>The parts of an edit other than the plan leave the plan alone.\<close>

definition plan_of :: "task \<Rightarrow> string \<times> string \<times> string \<times> rat option" where
  "plan_of t = (t_plan t, t_plan_by t, t_plan_on t, t_order t)"

lemma plan_of_updates [simp]:
  "plan_of (t\<lparr>t_title := v\<rparr>) = plan_of t" "plan_of (t\<lparr>t_key := v\<rparr>) = plan_of t"
  "plan_of (t\<lparr>t_due := v\<rparr>) = plan_of t" "plan_of (t\<lparr>t_project := v\<rparr>) = plan_of t"
  "plan_of (t\<lparr>t_note := v\<rparr>) = plan_of t" "plan_of (t\<lparr>t_priority := q\<rparr>) = plan_of t"
  "plan_of (t\<lparr>t_links := xs\<rparr>) = plan_of t" "plan_of (t\<lparr>t_sessions := xs\<rparr>) = plan_of t"
  "plan_of (t\<lparr>t_archived := b\<rparr>) = plan_of t"
  by (simp_all add: plan_of_def)

lemma plan_of_AddNote [simp]: "plan_of (fst (AddNote t n)) = plan_of t"
  by (simp add: plan_of_def)

lemma plan_of_SetStatus [simp]: "plan_of (SetStatus t s why src now) = plan_of t"
  by (simp add: SetStatus_def Let_def plan_of_def)

lemma plan_of_set_field:
  "(\<And>v u. plan_of (upd v u) = plan_of u) \<Longrightarrow> plan_of (fst (set_field get upd v trim s)) = plan_of (fst s)"
  by (cases s) (simp add: set_field_def Let_def split: option.split)

lemma plan_of_fields: "plan_of (fst (apply_fields t p)) = plan_of t"
proof -
  have "plan_of (fst (set_priority p s)) = plan_of (fst s)" for s
    by (cases s) (simp add: set_priority_def split: option.split)
  then show ?thesis by (simp add: apply_fields_def field_steps_def plan_of_set_field)
qed

lemma plan_of_status: "plan_of (fst (apply_status p why src now s)) = plan_of (fst s)"
  by (cases s) (simp add: apply_status_def split: option.split)

lemma plan_of_list_steps:
  "plan_of (fst (add_links xs s)) = plan_of (fst s)"
  "plan_of (fst (remove_links xs s)) = plan_of (fst s)"
  "plan_of (fst (add_sessions xs s)) = plan_of (fst s)"
  "plan_of (fst (remove_sessions xs s)) = plan_of (fst s)"
  by (cases s; simp add: add_links_def remove_links_def add_sessions_def remove_sessions_def Let_def)+

lemma plan_of_lists: "plan_of (fst (apply_lists p s)) = plan_of (fst s)"
  by (simp add: apply_lists_def plan_of_list_steps)

lemma plan_of_archived: "plan_of (fst (fst (apply_archived p s))) = plan_of (fst s)"
  by (cases s) (simp add: apply_archived_def split: option.split)

text \<open>The plan after an edit is the plan after its plan step, with the status edited before it.\<close>

lemma plan_of_Apply:
  assumes "apply_check p = None"
  shows "\<exists>t'. plan_of t' = plan_of t \<and>
    plan_of (fst (fst (Apply t p now))) =
      plan_of (fst (fst (apply_plan p (trim_space (p_why p))
        (if p_source p = [] then SourceClaude else p_source p) now (t', c))))"
proof -
  define src why where "src = (if p_source p = [] then SourceClaude else p_source p)" and "why = trim_space (p_why p)"
  define s where "s = apply_status p why src now (apply_fields t p)"
  obtain s2 e where s2: "apply_plan p why src now s = (s2, e)" by (cases "apply_plan p why src now s")
  have eq: "Apply t p now = (case e of Some x \<Rightarrow> (s2, Some x) | None \<Rightarrow> apply_archived p (apply_lists p s2))"
    using assms s2 by (simp add: Apply_def src_def why_def s_def Let_def split: option.split)
  have "plan_of (fst (fst (Apply t p now))) = plan_of (fst (fst (apply_plan p why src now s)))"
    by (simp add: eq s2 plan_of_archived plan_of_lists split: option.split)
  also have "fst (fst (apply_plan p why src now s)) = fst (fst (apply_plan p why src now (fst s, c)))"
    by (cases s) (simp add: apply_plan_def split: option.split sum.split prod.split)
  finally have "plan_of (fst (fst (Apply t p now))) = plan_of (fst (fst (apply_plan p why src now (fst s, c))))" .
  moreover have "plan_of (fst s) = plan_of t" by (simp add: s_def plan_of_status plan_of_fields)
  ultimately show ?thesis unfolding src_def why_def by blast
qed

lemma Replan_auto_refused:
  "auto \<Longrightarrow> why = [] \<or> t_plan_by t = ''manual'' \<and> t_plan_on t = DateString (Day now) \<Longrightarrow>
   fst (Replan t plan why auto src now) = t"
  by (auto simp: Replan_def Let_def)

lemma apply_plan_refused:
  "(\<And>plan. fst (Replan t plan why (p_auto p) src now) = t) \<Longrightarrow> fst (fst (apply_plan p why src now (t, c))) = t"
  by (auto simp: apply_plan_def split: option.split sum.split prod.split) (metis fst_conv)+

lemma Apply_auto_keeps:
  assumes "p_auto p" "trim_space (p_why p) = [] \<or> t_plan_by t = ''manual'' \<and> t_plan_on t = DateString (Day now)"
  shows "plan_of (fst (fst (Apply t p now))) = plan_of t"
proof (cases "apply_check p")
  case None
  obtain t' where t': "plan_of t' = plan_of t" and eq: "plan_of (fst (fst (Apply t p now))) =
      plan_of (fst (fst (apply_plan p (trim_space (p_why p))
        (if p_source p = [] then SourceClaude else p_source p) now (t', False))))"
    using plan_of_Apply[OF None, of t now False] by blast
  have "fst (Replan t' plan (trim_space (p_why p)) (p_auto p) src now) = t'" for plan src
    using assms t' by (intro Replan_auto_refused) (auto simp: plan_of_def)
  then show ?thesis
    unfolding eq t'[symmetric] by (simp only: apply_plan_refused)
qed (simp add: Apply_def Let_def)

lemma Replan_manual:
  "plan \<noteq> t_plan t \<Longrightarrow> plan_of (fst (Replan t plan why False src now)) = (plan, ''manual'', DateString (Day now), None)"
  by (simp add: Replan_def Let_def) (simp add: plan_of_def)

lemma Apply_manual_sets:
  assumes "apply_check p = None" "p_plan p = Some v" "\<not> p_auto p" "ParsePlan v now = Inr plan" "plan \<noteq> t_plan t"
  shows "plan_of (fst (fst (Apply t p now))) = (plan, ''manual'', DateString (Day now), None)"
proof -
  obtain t' where t': "plan_of t' = plan_of t" and eq: "plan_of (fst (fst (Apply t p now))) =
      plan_of (fst (fst (apply_plan p (trim_space (p_why p))
        (if p_source p = [] then SourceClaude else p_source p) now (t', False))))"
    using plan_of_Apply[OF assms(1), of t now False] by blast
  have "plan \<noteq> t_plan t'" using t' assms(5) by (simp add: plan_of_def)
  then have r: "plan_of (fst (Replan t' plan why False src now)) = (plan, ''manual'', DateString (Day now), None)" for why src
    by (rule Replan_manual)
  have "fst (fst (apply_plan p why src now (t', False))) = fst (Replan t' plan why False src now)" for why src
    using assms(2,3,4) by (simp add: apply_plan_def split: sum.split prod.split)
  then show ?thesis unfolding eq by (simp only: r)
qed

lemma Apply_check_None: "snd (Apply t p now) = None \<Longrightarrow> apply_check p = None"
  by (simp add: Apply_def Let_def split: option.splits)

lemma manual_then_auto:
  assumes "snd (Apply t p now) = None" "p_plan p = Some v" "\<not> p_auto p" "ParsePlan v now = Inr plan" "plan \<noteq> t_plan t"
    and "p_auto q" "Day now' = Day now"
  shows "t_plan (fst (fst (Apply (fst (fst (Apply t p now))) q now'))) = plan"
proof -
  let ?u = "fst (fst (Apply t p now))"
  have u: "plan_of ?u = (plan, ''manual'', DateString (Day now), None)"
    by (rule Apply_manual_sets[OF Apply_check_None[OF assms(1)] assms(2-5)])
  then have "plan_of (fst (fst (Apply ?u q now'))) = plan_of ?u"
    using assms(6,7) by (intro Apply_auto_keeps) (simp_all add: plan_of_def)
  with u show ?thesis by (simp add: plan_of_def)
qed

section \<open>Properties\<close>

text \<open>C4. Every task New accepts is well-formed: a title, a priority from 1 to 4, an open status, dates in
  their one spelling, no duplicate links or sessions; it is not archived, and a planned one says
  who planned it and that it was today.\<close>

theorem new_task_well_formed:
  assumes "plannable now" "New inp now = Inr t"
  shows "task_ok t \<and> \<not> Finished t \<and> \<not> t_archived t \<and> t_title t = trim_space (in_title inp)
    \<and> ParsePlan (in_plan inp) now = Inr (t_plan t)
    \<and> (t_plan t \<noteq> [] \<longrightarrow> t_plan_by t = planByFor (t_source t) \<and> t_plan_on t = DateString (Day now))"
proof -
  have "task_ok t" using assms by (rule New_ok)
  with assms(2) show ?thesis
    by (elim New_cases) (simp add: new_task_def Finished_def)
qed

definition sample_input :: task_input where
  "sample_input = \<lparr>in_key = [], in_title = '' Write '', in_priority = 0, in_status = [], in_plan = ''none'',
     in_due = [], in_project = [], in_note = [], in_links = [''a'', ''a''], in_sessions = [], in_source = []\<rparr>"

lemma sample_input_accepted: "\<exists>t. New sample_input sample_now = Inr t"
proof -
  have "trim_space '' Write '' = ''Write''"
    by (simp add: trim_space_def trim_left_def trim_right_def is_space1_def is_space2_def is_space3_def)
  moreover have "ParsePlan ''none'' sample_now = Inr []"
    by (simp add: ParsePlan_def lower_byte_def trim_space_graphic graphic_def)
  ultimately show ?thesis
    by (simp add: New_def sample_input_def ValidStatus_def StatusLabel_def ValidDate_def)
qed

theorem new_task_well_formed_witness:
  "\<exists>t. New sample_input sample_now = Inr t \<and> task_ok t \<and> \<not> Finished t"
  using sample_input_accepted new_task_well_formed[OF sample_plannable] by blast

text \<open>C5. An edit keeps a task well-formed, whatever the patch, even when the edit fails half way: it stays
  titled, its status and dates stay valid, only a finished task is archived, done_on is set
  exactly on finished tasks, and the timeline stays sorted without repeated refs.\<close>

theorem edits_keep_tasks_well_formed:
  assumes "task_ok t" "plannable now"
  shows "task_ok (fst (fst (Apply t p now)))"
  using assms by (rule Apply_ok)

definition empty_patch :: patch where
  "empty_patch = \<lparr>p_title = None, p_key = None, p_priority = None, p_due = None, p_project = None, p_note = None,
     p_status = None, p_plan = None, p_auto = False, p_why = [], p_add_links = [], p_remove_links = [],
     p_add_sessions = [], p_remove_sessions = [], p_archived = None, p_source = []\<rparr>"

lemma sample_task_ok: "task_ok sample_task"
  by (simp add: task_ok_def sample_task_def trim_space_graphic graphic_def ValidStatus_def StatusLabel_def
      Finished_def timeline_ok_def)

theorem edits_keep_tasks_well_formed_witness:
  "task_ok (fst (fst (Apply sample_task (empty_patch\<lparr>p_status := Some ''done'', p_archived := Some True\<rparr>) sample_now)))"
  using sample_task_ok sample_plannable by (rule edits_keep_tasks_well_formed)

text \<open>An edit that reports no change left the task exactly as it was, whether it failed or not.\<close>

theorem unchanged_means_unchanged:
  assumes "\<not> snd (fst (Apply t p now))"
  shows "fst (fst (Apply t p now)) = t"
  using assms by (rule Apply_quiet)

theorem unchanged_means_unchanged_witness:
  "fst (fst (Apply sample_task (empty_patch\<lparr>p_title := Some []\<rparr>) sample_now)) = sample_task"
  by (rule unchanged_means_unchanged) (simp add: Apply_def apply_check_def empty_patch_def)

text \<open>C6. A plan set by hand stays for the day: after a manual edit that moves the plan, no automated edit
  on the same day moves it, whatever reason it gives.\<close>

theorem manual_plan_survives_automation:
  assumes "snd (Apply t p now) = None" "p_plan p = Some v" "\<not> p_auto p" "ParsePlan v now = Inr plan" "plan \<noteq> t_plan t"
    and "p_auto q" "Day now' = Day now"
  shows "t_plan (fst (fst (Apply (fst (fst (Apply t p now))) q now'))) = plan"
  using assms by (rule manual_then_auto)

definition manual_patch :: patch where
  "manual_patch = empty_patch\<lparr>p_plan := Some ''today''\<rparr>"

lemma parse_today: "ParsePlan ''today'' now = Inr (DateString (Day now))"
  by (simp add: ParsePlan_def lower_byte_def trim_space_graphic graphic_def)

lemma manual_patch_applies: "snd (Apply sample_task manual_patch sample_now) = None"
  by (simp add: Apply_def apply_check_def manual_patch_def empty_patch_def apply_fields_def field_steps_def
      set_field_def set_priority_def apply_status_def apply_plan_def parse_today Replan_def sample_task_def
      apply_lists_def add_links_def remove_links_def add_sessions_def remove_sessions_def dedup_def
      apply_archived_def)

theorem manual_plan_survives_automation_witness:
  "t_plan (fst (fst (Apply (fst (fst (Apply sample_task manual_patch sample_now)))
     (empty_patch\<lparr>p_plan := Some ''nextweek'', p_auto := True, p_why := ''late''\<rparr>) sample_now))) = DateString (Day sample_now)"
  by (rule manual_plan_survives_automation[OF manual_patch_applies, of "''today''"])
     (simp_all add: manual_patch_def empty_patch_def parse_today sample_task_def)

text \<open>Adding the same timeline entry again changes nothing, also when it came without a ref, and the
  entry is then reported as not added.\<close>

theorem note_added_once: "AddNote (fst (AddNote t n)) n = (fst (AddNote t n), False)"
  by (rule AddNote_idem)

end
