(* ===== verification/Task_Sync.thy ===== *)
theory Task_Sync
  imports Task_Edit
begin

text \<open>
  internal/tasks/sync.go: the merge of an automated run's proposal into the to-do list. The
  pointers of the Go code are positions in a working list of tasks: the list starts as the
  whole to-do list, a new task is appended, byKey maps a key to a position and changed lists the
  positions to save in the order they were touched. The lines of the summary, which the Go code
  renders in the interface language, are values of sync_msg with the fields they show.
\<close>

section \<open>Data\<close>

record proposal_replan =
  pr_plan :: string
  pr_why :: string

record proposal_task =
  pt_key :: string
  pt_title :: string
  pt_priority :: int
  pt_plan :: string
  pt_due :: string
  pt_project :: string
  pt_note :: string
  pt_links :: "string list"
  pt_done :: bool
  pt_status :: string
  pt_timeline :: "task_note list"
  pt_replan :: "proposal_replan option"

record proposal =
  pp_synced_at :: string
  pp_tasks :: "proposal_task list"
  pp_dry_run :: bool

datatype sync_msg =
    MTitle string
  | MNotes string nat
  | MStatus string string string
  | MReplan string string string
  | MBadDate string string
  | MSkipped string task_error
  | MNoProject string string
  | MRefused string task_error

record sync_result =
  sr_added :: "sync_msg list"
  sr_status :: "sync_msg list"
  sr_replan :: "sync_msg list"
  sr_notes :: "sync_msg list"
  sr_updated :: "sync_msg list"
  sr_skipped :: "sync_msg list"
  sr_warnings :: "sync_msg list"
  sr_dry_run :: bool

definition empty_result :: sync_result where
  "empty_result = \<lparr>sr_added = [], sr_status = [], sr_replan = [], sr_notes = [], sr_updated = [],
     sr_skipped = [], sr_warnings = [], sr_dry_run = False\<rparr>"

definition Touched :: "sync_result \<Rightarrow> bool" where
  "Touched r \<longleftrightarrow> length (sr_added r) + length (sr_status r) + length (sr_replan r)
     + length (sr_notes r) + length (sr_updated r) > 0"

definition wantedStatus :: "proposal_task \<Rightarrow> string" where
  "wantedStatus p =
     (if pt_done p then TaskDone
      else if ValidStatus (pt_status p) then pt_status p
      else [])"

section \<open>A task the list does not have\<close>

definition kept_project ::
  "(string \<Rightarrow> bool) option \<Rightarrow> proposal_task \<Rightarrow> sync_result \<Rightarrow> string \<times> sync_result"
where
  "kept_project knownProject pt res =
     (let project = trim_space (pt_project pt)
      in if project \<noteq> [] \<and> (case knownProject of None \<Rightarrow> True | Some known \<Rightarrow> \<not> known project)
         then ([], res\<lparr>sr_warnings := sr_warnings res @ [MNoProject (pt_title pt) project]\<rparr>)
         else (project, res))"

definition proposal_input :: "proposal_task \<Rightarrow> string \<Rightarrow> string \<Rightarrow> string \<Rightarrow> task_input" where
  "proposal_input pt key status project =
     \<lparr>in_key = key, in_title = pt_title pt, in_priority = pt_priority pt, in_status = status, in_plan = [],
      in_due = pt_due pt, in_project = project, in_note = pt_note pt, in_links = pt_links pt,
      in_sessions = [], in_source = SourceAuto\<rparr>"

definition note_step :: "task \<times> nat \<Rightarrow> task_note \<Rightarrow> task \<times> nat" where
  "note_step s n =
     (fst (AddNote (fst s) n), if snd (AddNote (fst s) n) then snd s + 1 else snd s)"

definition add_notes :: "task \<Rightarrow> task_note list \<Rightarrow> task \<times> nat" where
  "add_notes t ns = foldl note_step (t, 0) ns"

text \<open>The plan of a new task, when the run proposes a valid one.\<close>

definition auto_plan :: "string \<Rightarrow> gotime \<Rightarrow> task \<Rightarrow> task" where
  "auto_plan v now t =
     (case ParsePlan v now of
        Inl _ \<Rightarrow> t
      | Inr plan \<Rightarrow>
          if plan \<noteq> [] then t\<lparr>t_plan := plan, t_plan_by := ''auto'', t_plan_on := DateString (Day now)\<rparr> else t)"

definition sync_new ::
  "(string \<Rightarrow> bool) option \<Rightarrow> proposal_task \<Rightarrow> string \<Rightarrow> string \<Rightarrow> gotime \<Rightarrow> sync_result
     \<Rightarrow> task option \<times> sync_result"
where
  "sync_new knownProject pt key status now res =
     (if status = TaskDone \<or> status = TaskCancelled then (None, res)
      else
        (case kept_project knownProject pt res of
           (project, res) \<Rightarrow>
             (case New (proposal_input pt key status project) now of
                Inl e \<Rightarrow> (None, res\<lparr>sr_warnings := sr_warnings res @ [MRefused (pt_title pt) e]\<rparr>)
              | Inr t \<Rightarrow>
                  (let t = fst (add_notes (auto_plan (pt_plan pt) now t) (pt_timeline pt))
                   in (Some t, res\<lparr>sr_added := sr_added res @ [MTitle (t_title t)]\<rparr>)))))"

section \<open>A task the list has\<close>

text \<open>Each part of the merge takes the task, whether it was touched, and the summary so far.\<close>

type_synonym sync_step = "task \<times> bool \<times> sync_result \<Rightarrow> task \<times> bool \<times> sync_result"

definition sync_status :: "string \<Rightarrow> nat \<Rightarrow> gotime \<Rightarrow> sync_step" where
  "sync_status status added now = (\<lambda>(cur, touched, res).
     if status \<noteq> [] \<and> status \<noteq> t_status cur \<and> \<not> Finished cur \<and> (status = TaskDone \<or> added > 0)
     then (SetStatus cur status [] SourceAuto now, True,
           res\<lparr>sr_status := sr_status res @
             [MStatus (t_title cur) (map_get StatusLabel (t_status cur)) (map_get StatusLabel status)]\<rparr>)
     else (cur, touched, res))"

definition sync_replan :: "proposal_replan option \<Rightarrow> gotime \<Rightarrow> sync_step" where
  "sync_replan rp now = (\<lambda>(cur, touched, res).
     case rp of
       None \<Rightarrow> (cur, touched, res)
     | Some rp \<Rightarrow>
         (if Finished cur then (cur, touched, res)
          else
            (case ParsePlan (pr_plan rp) now of
               Inl _ \<Rightarrow> (cur, touched, res\<lparr>sr_skipped := sr_skipped res @ [MBadDate (t_title cur) (pr_plan rp)]\<rparr>)
             | Inr plan \<Rightarrow>
                 (if plan = t_plan cur then (cur, touched, res)
                  else
                    (case Replan cur plan (trim_space (pr_why rp)) True SourceAuto now of
                       (cur', Inl e) \<Rightarrow>
                         (cur', touched, res\<lparr>sr_skipped := sr_skipped res @ [MSkipped (t_title cur) e]\<rparr>)
                     | (cur', Inr _) \<Rightarrow>
                         (cur', True,
                          res\<lparr>sr_replan := sr_replan res @ [MReplan (t_title cur) (orUnset (t_plan cur)) (orUnset plan)]\<rparr>))))))"

definition sync_due :: "string \<Rightarrow> task \<times> bool \<Rightarrow> task \<times> bool" where
  "sync_due due = (\<lambda>(cur, diff).
     (let d = trim_space due
      in if d \<noteq> [] \<and> d \<noteq> t_due cur \<and> ValidDate d then (cur\<lparr>t_due := d\<rparr>, True) else (cur, diff)))"

definition sync_links :: "string list \<Rightarrow> task \<times> bool \<Rightarrow> task \<times> bool" where
  "sync_links add = add_links add"

definition sync_existing :: "proposal_task \<Rightarrow> string \<Rightarrow> gotime \<Rightarrow> task \<Rightarrow> sync_result \<Rightarrow> task \<times> bool \<times> sync_result" where
  "sync_existing pt status now cur res =
     (case add_notes cur (pt_timeline pt) of
        (cur, added) \<Rightarrow>
          (let res = (if added > 0 then res\<lparr>sr_notes := sr_notes res @ [MNotes (t_title cur) added]\<rparr> else res)
           in case sync_replan (pt_replan pt) now (sync_status status added now (cur, added > 0, res)) of
                (cur, touched, res) \<Rightarrow>
                  (case sync_links (pt_links pt) (sync_due (pt_due pt) (cur, False)) of
                     (cur, diff) \<Rightarrow>
                       (if diff then (cur, True, res\<lparr>sr_updated := sr_updated res @ [MTitle (t_title cur)]\<rparr>)
                        else (cur, touched, res)))))"

section \<open>The merge\<close>

record merge_state =
  ms_tasks :: "task list"
  ms_by_key :: "string \<Rightarrow> nat option"
  ms_changed :: "nat list"
  ms_result :: sync_result

definition touch :: "nat \<Rightarrow> nat list \<Rightarrow> nat list" where
  "touch i changed = (if i \<in> set changed then changed else changed @ [i])"

text \<open>byKey of the list as loaded: a later task with the same key takes the entry.\<close>

definition index_keys :: "task list \<Rightarrow> string \<Rightarrow> nat option" where
  "index_keys all_tasks =
     foldl (\<lambda>m i. if t_key (all_tasks ! i) \<noteq> [] then m(t_key (all_tasks ! i) \<mapsto> i) else m)
       (\<lambda>_. None) [0..<length all_tasks]"

definition merge_task ::
  "(string \<Rightarrow> bool) option \<Rightarrow> gotime \<Rightarrow> merge_state \<Rightarrow> proposal_task \<Rightarrow> merge_state"
where
  "merge_task knownProject now s pt =
     (let key = trim_space (pt_key pt)
      in if key = [] \<or> trim_space (pt_title pt) = [] then s
         else
           let status = wantedStatus pt
           in case ms_by_key s key of
                None \<Rightarrow>
                  (case sync_new knownProject pt key status now (ms_result s) of
                     (None, res) \<Rightarrow> s\<lparr>ms_result := res\<rparr>
                   | (Some t, res) \<Rightarrow>
                       (let i = length (ms_tasks s)
                        in s\<lparr>ms_tasks := ms_tasks s @ [t], ms_by_key := (ms_by_key s)(key \<mapsto> i),
                             ms_changed := touch i (ms_changed s), ms_result := res\<rparr>))
              | Some i \<Rightarrow>
                  (case sync_existing pt status now (ms_tasks s ! i) (ms_result s) of
                     (t, touched, res) \<Rightarrow>
                       s\<lparr>ms_tasks := (ms_tasks s)[i := t],
                         ms_changed := (if touched then touch i (ms_changed s) else ms_changed s),
                         ms_result := res\<rparr>))"

definition merge_init :: "task list \<Rightarrow> merge_state" where
  "merge_init all_tasks =
     \<lparr>ms_tasks = all_tasks, ms_by_key = index_keys all_tasks, ms_changed = [], ms_result = empty_result\<rparr>"

definition merge_run ::
  "task list \<Rightarrow> proposal \<Rightarrow> (string \<Rightarrow> bool) option \<Rightarrow> gotime \<Rightarrow> merge_state"
where
  "merge_run all_tasks p knownProject now =
     foldl (merge_task knownProject now) (merge_init all_tasks) (pp_tasks p)"

definition Merge ::
  "task list \<Rightarrow> proposal \<Rightarrow> (string \<Rightarrow> bool) option \<Rightarrow> gotime \<Rightarrow> task list \<times> sync_result"
where
  "Merge all_tasks p knownProject now =
     (let s = merge_run all_tasks p knownProject now
      in (map (\<lambda>i. ms_tasks s ! i) (ms_changed s), ms_result s))"

section \<open>What a merge keeps of a task\<close>

text \<open>What only the person edits, what finishing fixes, and the plan.\<close>

definition identity_of where
  "identity_of t = (t_id t, t_key t, t_title t, t_priority t, t_note t, t_project t, t_source t, t_created_on t, t_sessions t)"

definition outcome_of where
  "outcome_of t = (t_status t, t_done_on t, t_archived t, plan_of t)"

definition planned_by_hand :: "gotime \<Rightarrow> task \<Rightarrow> bool" where
  "planned_by_hand now t \<longleftrightarrow> t_plan_by t = ''manual'' \<and> t_plan_on t = DateString (Day now)"

definition sync_keeps :: "gotime \<Rightarrow> task \<Rightarrow> task \<Rightarrow> bool" where
  "sync_keeps now a b \<longleftrightarrow>
     identity_of b = identity_of a
     \<and> (Finished a \<longrightarrow> outcome_of b = outcome_of a)
     \<and> (planned_by_hand now a \<longrightarrow> plan_of b = plan_of a)
     \<and> (task_ok a \<longrightarrow> task_ok b)"

lemma sync_keeps_refl [simp]: "sync_keeps now a a"
  by (simp add: sync_keeps_def)

lemma outcome_Finished: "outcome_of b = outcome_of a \<Longrightarrow> Finished b = Finished a"
  by (simp add: outcome_of_def Finished_def)

lemma plan_of_by_hand: "plan_of b = plan_of a \<Longrightarrow> planned_by_hand now b = planned_by_hand now a"
  by (simp add: plan_of_def planned_by_hand_def)

lemma sync_keeps_trans: "sync_keeps now a b \<Longrightarrow> sync_keeps now b c \<Longrightarrow> sync_keeps now a c"
  unfolding sync_keeps_def using outcome_Finished[of b a] plan_of_by_hand[of b a now] by metis

lemma identity_of_simps [simp]:
  "identity_of (fst (AddNote t n)) = identity_of t" "identity_of (t\<lparr>t_due := d\<rparr>) = identity_of t"
  "identity_of (t\<lparr>t_links := xs\<rparr>) = identity_of t" "identity_of (SetStatus t st why src now) = identity_of t"
  by (simp_all add: identity_of_def SetStatus_def Let_def)

lemma outcome_of_simps [simp]:
  "outcome_of (fst (AddNote t n)) = outcome_of t" "outcome_of (t\<lparr>t_due := d\<rparr>) = outcome_of t"
  "outcome_of (t\<lparr>t_links := xs\<rparr>) = outcome_of t"
  by (simp_all add: outcome_of_def)

lemma keeps_AddNote: "sync_keeps now t (fst (AddNote t n))"
  by (simp add: sync_keeps_def AddNote_task_ok)

lemma keeps_due: "ValidDate d \<Longrightarrow> sync_keeps now t (t\<lparr>t_due := d\<rparr>)"
  by (simp add: sync_keeps_def task_ok_def Finished_def ValidDate_iff)

lemma keeps_links: "sync_keeps now t (fst (add_links xs (t, c)))"
  by (simp add: add_links_def Let_def sync_keeps_def task_ok_lists dedup_ok task_ok_names)

lemma keeps_SetStatus: "\<not> Finished t \<Longrightarrow> ValidStatus st \<Longrightarrow> sync_keeps now t (SetStatus t st why src now)"
  by (simp add: sync_keeps_def SetStatus_ok)

lemma identity_of_Replan [simp]: "identity_of (fst (Replan t plan why auto src now)) = identity_of t"
proof -
  have "identity_of (t\<lparr>t_plan := a, t_order := b, t_plan_on := c, t_plan_by := d\<rparr>) = identity_of t" for a b c d
    by (simp add: identity_of_def)
  then show ?thesis by (simp add: Replan_def Let_def)
qed

lemma keeps_Replan: "\<not> Finished t \<Longrightarrow> date_field plan \<Longrightarrow> sync_keeps now t (fst (Replan t plan why True src now))"
  using Replan_auto_refused[of True why t now plan src]
  by (simp add: sync_keeps_def Replan_ok planned_by_hand_def)

lemma wantedStatus_valid: "wantedStatus pt \<noteq> [] \<Longrightarrow> ValidStatus (wantedStatus pt)"
  by (simp add: wantedStatus_def ValidStatus_def StatusLabel_def split: if_splits)

text \<open>The timeline step.\<close>

lemma keeps_note_steps: "sync_keeps now (fst s) (fst (foldl note_step s ns))"
proof (induction ns arbitrary: s)
  case (Cons n ns)
  have "sync_keeps now (fst s) (fst (note_step s n))"
    by (simp add: note_step_def keeps_AddNote)
  with Cons[of "note_step s n"] show ?case by (simp add: sync_keeps_trans)
qed simp

lemma keeps_add_notes: "sync_keeps now t (fst (add_notes t ns))"
  unfolding add_notes_def using keeps_note_steps[of now "(t, 0)" ns] by simp

lemma note_steps_none:
  "snd s \<le> snd (foldl note_step s ns) \<and>
   (snd (foldl note_step s ns) = snd s \<longrightarrow> fst (foldl note_step s ns) = fst s)"
proof (induction ns arbitrary: s)
  case (Cons n ns)
  show ?case
  proof (cases "snd (AddNote (fst s) n)")
    case True
    then have "snd (note_step s n) = snd s + 1" by (simp add: note_step_def)
    with Cons[of "note_step s n"] show ?thesis by simp
  next
    case False
    then have "note_step s n = s" using AddNote_unchanged[OF False] by (cases s) (simp add: note_step_def)
    with Cons[of s] show ?thesis by simp
  qed
qed simp

lemma add_notes_none: "snd (add_notes t ns) = 0 \<Longrightarrow> fst (add_notes t ns) = t"
  unfolding add_notes_def using note_steps_none[of "(t, 0)" ns] by simp

text \<open>A step keeps what it must, and leaves a task it does not touch as it is.\<close>

definition good_step :: "gotime \<Rightarrow> sync_step \<Rightarrow> bool" where
  "good_step now f \<longleftrightarrow> (\<forall>cur c res.
     sync_keeps now cur (fst (f (cur, c, res)))
     \<and> (c \<longrightarrow> fst (snd (f (cur, c, res))))
     \<and> (\<not> fst (snd (f (cur, c, res))) \<longrightarrow> fst (f (cur, c, res)) = cur))"

lemma good_status: "status \<noteq> [] \<longrightarrow> ValidStatus status \<Longrightarrow> good_step now (sync_status status added now)"
  unfolding good_step_def
proof (intro allI)
  fix cur c res assume v: "status \<noteq> [] \<longrightarrow> ValidStatus status"
  show "sync_keeps now cur (fst (sync_status status added now (cur, c, res)))
     \<and> (c \<longrightarrow> fst (snd (sync_status status added now (cur, c, res))))
     \<and> (\<not> fst (snd (sync_status status added now (cur, c, res))) \<longrightarrow> fst (sync_status status added now (cur, c, res)) = cur)"
  proof (cases "status \<noteq> [] \<and> status \<noteq> t_status cur \<and> \<not> Finished cur \<and> (status = TaskDone \<or> added > 0)")
    case True
    then have "sync_keeps now cur (SetStatus cur status [] SourceAuto now)"
      using v by (intro keeps_SetStatus) auto
    with True show ?thesis by (simp add: sync_status_def)
  next
    case False
    then have "sync_status status added now (cur, c, res) = (cur, c, res)"
      unfolding sync_status_def prod.case by (rule if_not_P)
    then show ?thesis by (simp only: fst_conv snd_conv sync_keeps_refl simp_thms)
  qed
qed

lemma good_replan: "plannable now \<Longrightarrow> good_step now (sync_replan rp now)"
  unfolding good_step_def
proof (intro allI)
  fix cur c res assume now: "plannable now"
  let ?r = "sync_replan rp now (cur, c, res)"
  show "sync_keeps now cur (fst ?r) \<and> (c \<longrightarrow> fst (snd ?r)) \<and> (\<not> fst (snd ?r) \<longrightarrow> fst ?r = cur)"
  proof (cases rp)
    case (Some q)
    show ?thesis
    proof (cases "Finished cur")
      case False
      show ?thesis
      proof (cases "ParsePlan (pr_plan q) now")
        case (Inr plan)
        let ?p = "Replan cur plan (trim_space (pr_why q)) True SourceAuto now"
        have k: "sync_keeps now cur (fst ?p)"
          by (rule keeps_Replan[OF False ParsePlan_date_field[OF now Inr]])
        show ?thesis
        proof (cases "plan = t_plan cur")
          case False
          obtain t' r where r: "?p = (t', r)" by fastforce
          show ?thesis
          proof (cases r)
            case (Inl e)
            then have "t' = cur" using Replan_moved(1) r by blast
            then show ?thesis using Some False Inl Inr r \<open>\<not> Finished cur\<close> by (simp add: sync_replan_def)
          next
            case (Inr b)
            then show ?thesis using Some False \<open>ParsePlan (pr_plan q) now = Inr plan\<close> r k \<open>\<not> Finished cur\<close>
              by (simp add: sync_replan_def)
          qed
        qed (use Some False Inr in \<open>simp add: sync_replan_def\<close>)
      qed (use Some False in \<open>simp add: sync_replan_def\<close>)
    qed (use Some in \<open>simp add: sync_replan_def\<close>)
  qed (simp add: sync_replan_def)
qed

lemma keeps_due_links:
  "sync_keeps now cur (fst (sync_links xs (sync_due d (cur, False)))) \<and>
   (\<not> snd (sync_links xs (sync_due d (cur, False))) \<longrightarrow> fst (sync_links xs (sync_due d (cur, False))) = cur)"
proof -
  let ?s = "sync_due d (cur, False)"
  have due: "sync_keeps now cur (fst ?s)"
    using keeps_due[of "trim_space d" now cur] by (simp add: sync_due_def Let_def)
  have quiet_due: "quiet (sync_due d)"
    unfolding sync_due_def Let_def by (rule quiet_if)
  have links: "sync_keeps now (fst ?s) (fst (sync_links xs ?s))"
    using keeps_links[of now "fst ?s" xs "snd ?s"] by (simp add: sync_links_def)
  have "sync_links xs ?s = (cur, False)" if "\<not> snd (sync_links xs ?s)"
  proof -
    have "sync_links xs ?s = ?s" using that quiet_lists(1) unfolding sync_links_def by (rule quietD[rotated])
    moreover from this that have "?s = (cur, False)" by (intro quietD[OF quiet_due]) simp
    ultimately show ?thesis by simp
  qed
  then show ?thesis using sync_keeps_trans[OF due links] by auto
qed

text \<open>The whole merge of one proposed task into the one the list has.\<close>

lemma sync_existing_good:
  assumes now: "plannable now"
  shows "sync_keeps now cur (fst (sync_existing pt (wantedStatus pt) now cur res)) \<and>
    (\<not> fst (snd (sync_existing pt (wantedStatus pt) now cur res)) \<longrightarrow>
      fst (sync_existing pt (wantedStatus pt) now cur res) = cur)"
proof -
  obtain t1 added where 1: "add_notes cur (pt_timeline pt) = (t1, added)" by fastforce
  define res1 where "res1 = (if added > 0 then res\<lparr>sr_notes := sr_notes res @ [MNotes (t_title t1) added]\<rparr> else res)"
  obtain t2 c2 res2 where 2: "sync_status (wantedStatus pt) added now (t1, added > 0, res1) = (t2, c2, res2)"
    by (metis prod_cases3)
  obtain t3 c3 res3 where 3: "sync_replan (pt_replan pt) now (t2, c2, res2) = (t3, c3, res3)"
    by (metis prod_cases3)
  obtain t4 d4 where 4: "sync_links (pt_links pt) (sync_due (pt_due pt) (t3, False)) = (t4, d4)"
    by fastforce
  have eq: "sync_existing pt (wantedStatus pt) now cur res =
      (if d4 then (t4, True, res3\<lparr>sr_updated := sr_updated res3 @ [MTitle (t_title t4)]\<rparr>) else (t4, c3, res3))"
    unfolding sync_existing_def Let_def 1 prod.case res1_def[symmetric] 2 3 4 by (rule refl)
  have k1: "sync_keeps now cur t1" "added = 0 \<longrightarrow> t1 = cur"
    using keeps_add_notes[of now cur "pt_timeline pt"] add_notes_none[of cur "pt_timeline pt"] 1 by auto
  have k2: "sync_keeps now t1 t2" "added > 0 \<longrightarrow> c2" "\<not> c2 \<longrightarrow> t2 = t1"
    using good_status[of "wantedStatus pt" now added] 2 wantedStatus_valid[of pt]
    unfolding good_step_def by (metis fst_conv snd_conv)+
  have k3: "sync_keeps now t2 t3" "c2 \<longrightarrow> c3" "\<not> c3 \<longrightarrow> t3 = t2"
    using good_replan[OF now, of "pt_replan pt"] 3 unfolding good_step_def by (metis fst_conv snd_conv)+
  have k4: "sync_keeps now t3 t4" "\<not> d4 \<longrightarrow> t4 = t3"
    using keeps_due_links[of now t3 "pt_links pt" "pt_due pt"] 4 by auto
  have "sync_keeps now cur t4"
    using k1(1) k2(1) k3(1) k4(1) by (meson sync_keeps_trans)
  then show ?thesis using k1(2) k2(2,3) k3(2,3) k4(2) by (simp add: eq) blast
qed

section \<open>The invariant of the merge\<close>

definition keys_unique :: "task list \<Rightarrow> bool" where
  "keys_unique ts \<longleftrightarrow> distinct (filter (\<lambda>k. k \<noteq> []) (map t_key ts))"

lemma keys_unique_nth:
  "keys_unique ts \<longleftrightarrow> (\<forall>i < length ts. \<forall>j < length ts. t_key (ts ! i) = t_key (ts ! j) \<and> t_key (ts ! i) \<noteq> [] \<longrightarrow> i = j)"
proof (induction ts)
  case (Cons t ts)
  have "keys_unique (t # ts) \<longleftrightarrow> keys_unique ts \<and> (t_key t \<noteq> [] \<longrightarrow> (\<forall>j < length ts. t_key (ts ! j) \<noteq> t_key t))"
    by (auto simp: keys_unique_def in_set_conv_nth) (metis image_eqI nth_mem)
  also have "\<dots> \<longleftrightarrow> (\<forall>i < length (t # ts). \<forall>j < length (t # ts).
      t_key ((t # ts) ! i) = t_key ((t # ts) ! j) \<and> t_key ((t # ts) ! i) \<noteq> [] \<longrightarrow> i = j)"
    unfolding Cons.IH by (simp add: All_less_Suc2) (metis)
  finally show ?case .
qed (simp add: keys_unique_def)

text \<open>byKey has exactly the keys of the working list, each at its position.\<close>

definition keys_indexed :: "task list \<Rightarrow> (string \<Rightarrow> nat option) \<Rightarrow> bool" where
  "keys_indexed ts m \<longleftrightarrow>
     (\<forall>k i. m k = Some i \<longrightarrow> k \<noteq> [] \<and> i < length ts \<and> t_key (ts ! i) = k)
     \<and> (\<forall>i < length ts. t_key (ts ! i) \<noteq> [] \<longrightarrow> m (t_key (ts ! i)) = Some i)"

lemma keys_indexed_unique: "keys_indexed ts m \<Longrightarrow> keys_unique ts"
  unfolding keys_indexed_def keys_unique_nth by (metis option.inject)

lemma keys_indexed_append:
  assumes ix: "keys_indexed ts m" and k: "m k = None" "k \<noteq> []" "t_key t = k"
  shows "keys_indexed (ts @ [t]) (m(k \<mapsto> length ts))"
  unfolding keys_indexed_def
proof (intro conjI allI impI)
  fix k' i assume m': "(m(k \<mapsto> length ts)) k' = Some i"
  have "k' \<noteq> [] \<and> i < length (ts @ [t]) \<and> t_key ((ts @ [t]) ! i) = k'"
  proof (cases "k' = k")
    case True
    then have "i = length ts" using m' by simp
    then show ?thesis using True k by simp
  next
    case False
    then have "m k' = Some i" using m' by simp
    then show ?thesis using ix by (simp add: keys_indexed_def nth_append less_SucI)
  qed
  then show "k' \<noteq> []" "i < length (ts @ [t])" "t_key ((ts @ [t]) ! i) = k'" by simp_all
next
  fix i assume i: "i < length (ts @ [t])" "t_key ((ts @ [t]) ! i) \<noteq> []"
  show "(m(k \<mapsto> length ts)) (t_key ((ts @ [t]) ! i)) = Some i"
  proof (cases "i = length ts")
    case False
    then have "m (t_key (ts ! i)) = Some i" "i < length ts"
      using i ix by (simp_all add: keys_indexed_def nth_append)
    then show ?thesis using k by (auto simp: nth_append)
  qed (use k in simp)
qed

lemma index_keys_indexed: "keys_unique ts \<Longrightarrow> keys_indexed ts (index_keys ts)"
proof -
  assume u: "keys_unique ts"
  define ix where "ix n = foldl (\<lambda>m i. if t_key (ts ! i) \<noteq> [] then m(t_key (ts ! i) \<mapsto> i) else m) (\<lambda>_. None) [0..<n]" for n
  have "(\<forall>k i. ix n k = Some i \<longrightarrow> k \<noteq> [] \<and> i < n \<and> t_key (ts ! i) = k)
      \<and> (\<forall>i < n. t_key (ts ! i) \<noteq> [] \<longrightarrow> ix n (t_key (ts ! i)) = Some i)" if "n \<le> length ts" for n
    using that
  proof (induction n)
    case (Suc n)
    then have IH: "\<And>k i. ix n k = Some i \<Longrightarrow> k \<noteq> [] \<and> i < n \<and> t_key (ts ! i) = k"
      "\<And>i. i < n \<Longrightarrow> t_key (ts ! i) \<noteq> [] \<Longrightarrow> ix n (t_key (ts ! i)) = Some i" by auto
    have step: "ix (Suc n) = (if t_key (ts ! n) \<noteq> [] then (ix n)(t_key (ts ! n) \<mapsto> n) else ix n)"
      by (simp add: ix_def)
    have ne: "t_key (ts ! i) \<noteq> t_key (ts ! n)" if "i < n" "t_key (ts ! i) \<noteq> []" for i
      using u that Suc.prems unfolding keys_unique_nth by (metis Suc_le_lessD less_trans nat_neq_iff)
    show ?case
      using IH ne by (auto simp: step less_Suc_eq)
  qed (simp add: ix_def)
  from this[OF order_refl] show ?thesis
    unfolding keys_indexed_def index_keys_def ix_def[symmetric] by blast
qed

definition merge_inv :: "gotime \<Rightarrow> task list \<Rightarrow> merge_state \<Rightarrow> bool" where
  "merge_inv now all_tasks s \<longleftrightarrow>
     length all_tasks \<le> length (ms_tasks s)
     \<and> keys_indexed (ms_tasks s) (ms_by_key s)
     \<and> distinct (ms_changed s) \<and> (\<forall>i \<in> set (ms_changed s). i < length (ms_tasks s))
     \<and> (\<forall>i < length all_tasks. sync_keeps now (all_tasks ! i) (ms_tasks s ! i))
     \<and> (\<forall>i < length all_tasks. i \<notin> set (ms_changed s) \<longrightarrow> ms_tasks s ! i = all_tasks ! i)
     \<and> (\<forall>i. length all_tasks \<le> i \<and> i < length (ms_tasks s) \<longrightarrow>
           i \<in> set (ms_changed s) \<and> task_ok (ms_tasks s ! i) \<and> t_id (ms_tasks s ! i) = 0)"

lemma merge_init_inv: "keys_unique all_tasks \<Longrightarrow> merge_inv now all_tasks (merge_init all_tasks)"
  by (simp add: merge_inv_def merge_init_def index_keys_indexed)

lemma set_touch [simp]: "set (touch i xs) = insert i (set xs)"
  by (auto simp: touch_def)

lemma distinct_touch [simp]: "distinct (touch i xs) = distinct xs"
  by (auto simp: touch_def)

lemma sync_keeps_key: "sync_keeps now a b \<Longrightarrow> t_key b = t_key a \<and> t_id b = t_id a"
  by (simp add: sync_keeps_def identity_of_def)

lemma New_fields:
  "New inp now = Inr t \<Longrightarrow> t_key t = trim_space (in_key inp) \<and> t_id t = 0 \<and> \<not> Finished t \<and> t_title t = trim_space (in_title inp)"
  by (erule New_cases) (simp add: new_task_def Finished_def)

lemma keeps_auto_plan:
  assumes "plannable now" "task_ok t"
  shows "task_ok (auto_plan v now t) \<and> identity_of (auto_plan v now t) = identity_of t"
proof (cases "ParsePlan v now")
  case (Inr plan)
  then have "date_field plan" by (rule ParsePlan_date_field[OF assms(1)])
  moreover have "task_ok (t\<lparr>t_plan := plan, t_plan_by := a, t_plan_on := b\<rparr>)" if "date_field plan" for a b
    using assms(2) that by (simp add: task_ok_def Finished_def)
  moreover have "identity_of (t\<lparr>t_plan := plan, t_plan_by := a, t_plan_on := b\<rparr>) = identity_of t" for a b
    by (simp add: identity_of_def)
  ultimately show ?thesis using assms(2) Inr by (simp add: auto_plan_def)
qed (use assms(2) in \<open>simp add: auto_plan_def\<close>)

lemma sync_new_good:
  assumes "plannable now" "sync_new known pt key st now res = (Some t, res')"
  shows "task_ok t \<and> t_key t = trim_space key \<and> t_id t = 0"
proof -
  obtain project res0 where k: "kept_project known pt res = (project, res0)" by fastforce
  from assms(2) k have open_status: "\<not> (st = TaskDone \<or> st = TaskCancelled)"
    by (auto simp: sync_new_def simp del: TaskDone_def TaskCancelled_def)
  show ?thesis
  proof (cases "New (proposal_input pt key st project) now")
    case (Inr u)
    let ?a = "auto_plan (pt_plan pt) now u"
    have t: "t = fst (add_notes ?a (pt_timeline pt))"
      using assms(2) k open_status Inr by (simp add: sync_new_def Let_def)
    note a = keeps_auto_plan[OF assms(1) New_ok[OF assms(1) Inr], of "pt_plan pt"]
    have "sync_keeps now ?a t" unfolding t by (rule keeps_add_notes)
    then have "task_ok t" "identity_of t = identity_of u"
      using a by (simp_all add: sync_keeps_def)
    then show ?thesis using New_fields[OF Inr] by (simp add: identity_of_def proposal_input_def)
  qed (use assms(2) k open_status in \<open>simp add: sync_new_def\<close>)
qed

lemma merge_task_inv:
  assumes now: "plannable now" and inv: "merge_inv now all_tasks s"
  shows "merge_inv now all_tasks (merge_task known now s pt)"
proof -
  define key where "key = trim_space (pt_key pt)"
  define st where "st = wantedStatus pt"
  consider "key = [] \<or> trim_space (pt_title pt) = []"
    | "key \<noteq> []" "trim_space (pt_title pt) \<noteq> []" "ms_by_key s key = None"
    | i where "key \<noteq> []" "trim_space (pt_title pt) \<noteq> []" "ms_by_key s key = Some i"
    by blast
  then show ?thesis
  proof cases
    case 1
    then show ?thesis using inv by (simp add: merge_task_def key_def)
  next
    case 2
    obtain r res where r: "sync_new known pt key st now (ms_result s) = (r, res)" by fastforce
    show ?thesis
    proof (cases r)
      case None
      then show ?thesis using 2 inv r by (simp add: merge_task_def key_def st_def merge_inv_def)
    next
      case (Some t)
      let ?n = "length (ms_tasks s)"
      have eq: "merge_task known now s pt = s\<lparr>ms_tasks := ms_tasks s @ [t], ms_by_key := (ms_by_key s)(key \<mapsto> ?n),
          ms_changed := touch ?n (ms_changed s), ms_result := res\<rparr>"
        using 2 r Some by (simp add: merge_task_def key_def st_def Let_def)
      have t: "task_ok t" "t_key t = key" "t_id t = 0"
        using sync_new_good[OF now] r Some by (auto simp: key_def)
      have "keys_indexed (ms_tasks s @ [t]) ((ms_by_key s)(key \<mapsto> ?n))"
        using inv 2 t by (intro keys_indexed_append) (simp_all add: merge_inv_def)
      moreover have "\<forall>i < length all_tasks. (ms_tasks s @ [t]) ! i = ms_tasks s ! i"
        using inv by (simp add: merge_inv_def nth_append)
      moreover have "\<forall>i. length all_tasks \<le> i \<and> i < Suc ?n \<longrightarrow>
          i \<in> insert ?n (set (ms_changed s)) \<and> task_ok ((ms_tasks s @ [t]) ! i) \<and> t_id ((ms_tasks s @ [t]) ! i) = 0"
        using inv t unfolding merge_inv_def by (simp add: nth_append less_Suc_eq)
      ultimately show ?thesis
        using inv unfolding eq merge_inv_def by (simp add: less_SucI)
    qed
  next
    case (3 i)
    obtain t touched res where r: "sync_existing pt st now (ms_tasks s ! i) (ms_result s) = (t, touched, res)"
      by (metis prod_cases3)
    have eq: "merge_task known now s pt = s\<lparr>ms_tasks := (ms_tasks s)[i := t],
        ms_changed := (if touched then touch i (ms_changed s) else ms_changed s), ms_result := res\<rparr>"
      using 3 r by (simp add: merge_task_def key_def st_def)
    have k: "sync_keeps now (ms_tasks s ! i) t" "\<not> touched \<longrightarrow> t = ms_tasks s ! i"
      using sync_existing_good[OF now, of "ms_tasks s ! i" pt "ms_result s"] r by (auto simp: st_def)
    have i: "i < length (ms_tasks s)"
      using inv 3 by (auto simp: merge_inv_def keys_indexed_def)
    have "keys_indexed ((ms_tasks s)[i := t]) (ms_by_key s)"
      using inv sync_keeps_key[OF k(1)] unfolding merge_inv_def keys_indexed_def
      by (metis length_list_update nth_list_update_eq nth_list_update_neq)
    moreover have "\<forall>j < length all_tasks. sync_keeps now (all_tasks ! j) ((ms_tasks s)[i := t] ! j)"
      using inv k(1) i unfolding merge_inv_def by (metis nth_list_update_eq nth_list_update_neq sync_keeps_trans)
    moreover have "\<forall>j. length all_tasks \<le> j \<and> j < length (ms_tasks s) \<longrightarrow>
        task_ok ((ms_tasks s)[i := t] ! j) \<and> t_id ((ms_tasks s)[i := t] ! j) = 0"
      using inv k(1) i sync_keeps_key[OF k(1)] unfolding merge_inv_def sync_keeps_def
      by (metis nth_list_update_eq nth_list_update_neq)
    moreover have "\<forall>j < length all_tasks. j \<notin> insert i (set (ms_changed s)) \<longrightarrow> (ms_tasks s)[i := t] ! j = all_tasks ! j"
      using inv unfolding merge_inv_def by (metis insertCI nth_list_update_neq)
    ultimately have touched: "merge_inv now all_tasks (s\<lparr>ms_tasks := (ms_tasks s)[i := t],
        ms_changed := touch i (ms_changed s), ms_result := res\<rparr>)"
      using inv i unfolding merge_inv_def by simp
    have untouched: "merge_inv now all_tasks (s\<lparr>ms_tasks := ms_tasks s, ms_changed := ms_changed s, ms_result := res\<rparr>)"
      using inv unfolding merge_inv_def by simp
    show ?thesis using k(2) touched untouched unfolding eq by (cases touched) simp_all
  qed
qed

lemma merge_run_inv:
  assumes "plannable now" "keys_unique all_tasks"
  shows "merge_inv now all_tasks (merge_run all_tasks p known now)"
proof -
  have "merge_inv now all_tasks (foldl (merge_task known now) s ps)" if "merge_inv now all_tasks s" for s ps
    using that by (induction ps arbitrary: s) (simp_all add: merge_task_inv[OF assms(1)])
  then show ?thesis unfolding merge_run_def by (simp add: merge_init_inv[OF assms(2)])
qed

lemma merge_inv_returns:
  assumes inv: "merge_inv now all_tasks (merge_run all_tasks p known now)"
  shows "let s = merge_run all_tasks p known now
    in distinct (ms_changed s)
       \<and> (\<forall>i < length all_tasks. ms_tasks s ! i = all_tasks ! i \<or> ms_tasks s ! i \<in> set (fst (Merge all_tasks p known now)))
       \<and> (\<forall>t \<in> set (drop (length all_tasks) (ms_tasks s)).
            t \<in> set (fst (Merge all_tasks p known now)) \<and> task_ok t \<and> t_id t = 0)
       \<and> keys_unique (ms_tasks s)"
proof -
  define s where "s = merge_run all_tasks p known now"
  note inv = inv[folded s_def]
  have M: "set (fst (Merge all_tasks p known now)) = (\<lambda>i. ms_tasks s ! i) ` set (ms_changed s)"
    by (simp add: Merge_def s_def Let_def)
  have new: "t \<in> set (fst (Merge all_tasks p known now)) \<and> task_ok t \<and> t_id t = 0"
    if "t \<in> set (drop (length all_tasks) (ms_tasks s))" for t
  proof -
    from that obtain i where "i < length (ms_tasks s) - length all_tasks" "t = ms_tasks s ! (length all_tasks + i)"
      by (auto simp: in_set_conv_nth)
    then have "length all_tasks + i \<in> set (ms_changed s) \<and> task_ok t \<and> t_id t = 0"
      using inv by (simp add: merge_inv_def)
    then show ?thesis unfolding M using \<open>t = _\<close> by blast
  qed
  have old: "ms_tasks s ! i = all_tasks ! i \<or> ms_tasks s ! i \<in> set (fst (Merge all_tasks p known now))"
    if "i < length all_tasks" for i
    unfolding M using inv that unfolding merge_inv_def by blast
  have "keys_indexed (ms_tasks s) (ms_by_key s)" "distinct (ms_changed s)"
    using inv by (simp_all add: merge_inv_def)
  then show ?thesis
    unfolding Let_def s_def[symmetric] using old new keys_indexed_unique by blast
qed

section \<open>Tasks the proposal does not mention\<close>

definition mentioned :: "proposal \<Rightarrow> string set" where
  "mentioned p = trim_space ` pt_key ` set (pp_tasks p)"

lemma merge_task_other:
  assumes "keys_indexed (ms_tasks s) (ms_by_key s)" "j < length (ms_tasks s)" "t_key (ms_tasks s ! j) \<noteq> trim_space (pt_key pt)"
  shows "ms_tasks (merge_task known now s pt) ! j = ms_tasks s ! j"
  using assms
  by (auto simp: merge_task_def Let_def keys_indexed_def nth_append nth_list_update split: option.split prod.split)

lemma merge_run_other:
  assumes "plannable now" "keys_unique all_tasks" "j < length all_tasks" "t_key (all_tasks ! j) \<notin> mentioned p"
  shows "ms_tasks (merge_run all_tasks p known now) ! j = all_tasks ! j"
proof -
  have "ms_tasks (foldl (merge_task known now) s ps) ! j = all_tasks ! j"
    if "merge_inv now all_tasks s" "ms_tasks s ! j = all_tasks ! j" "t_key (all_tasks ! j) \<notin> trim_space ` pt_key ` set ps" for s ps
    using that
  proof (induction ps arbitrary: s)
    case (Cons pt ps)
    have "ms_tasks (merge_task known now s pt) ! j = ms_tasks s ! j"
      using Cons.prems assms(3) by (intro merge_task_other) (auto simp: merge_inv_def)
    then show ?case
      using Cons.IH[OF merge_task_inv[OF assms(1) Cons.prems(1)], of known pt] Cons.prems by simp
  qed simp
  then show ?thesis
    using assms merge_init_inv[OF assms(2)] unfolding merge_run_def mentioned_def by (simp add: merge_init_def)
qed

section \<open>Properties\<close>


definition sample_proposal :: proposal where
  "sample_proposal = \<lparr>pp_synced_at = [], pp_tasks =
     [\<lparr>pt_key = ''k'', pt_title = ''T'', pt_priority = 0, pt_plan = [], pt_due = [], pt_project = [],
       pt_note = [], pt_links = [''x''], pt_done = True, pt_status = [], pt_timeline = [], pt_replan = None\<rparr>],
     pp_dry_run = False\<rparr>"


text \<open>A task whose key the proposal does not name is left exactly as it was.\<close>

theorem merge_leaves_unmentioned_alone:
  assumes "plannable now" "keys_unique all_tasks" "j < length all_tasks" "t_key (all_tasks ! j) \<notin> mentioned p"
  shows "ms_tasks (merge_run all_tasks p known now) ! j = all_tasks ! j"
  using assms by (rule merge_run_other)

theorem merge_leaves_unmentioned_alone_witness:
  "ms_tasks (merge_run [sample_task\<lparr>t_key := ''other''\<rparr>] sample_proposal None sample_now) ! 0 =
   [sample_task\<lparr>t_key := ''other''\<rparr>] ! 0"
  by (rule merge_leaves_unmentioned_alone[OF sample_plannable])
     (simp_all add: keys_unique_def mentioned_def sample_proposal_def trim_space_graphic graphic_def)

text \<open>The tasks a merge hands back to save are all it changed: every task it does not hand back is as
  loaded, every new one is handed back once, well-formed and without an id, and the keys of the
  list stay unique.\<close>

theorem merge_returns_every_change:
  assumes "plannable now" "keys_unique all_tasks"
  shows "let s = merge_run all_tasks p known now
    in distinct (ms_changed s)
       \<and> (\<forall>i < length all_tasks. ms_tasks s ! i = all_tasks ! i \<or> ms_tasks s ! i \<in> set (fst (Merge all_tasks p known now)))
       \<and> (\<forall>t \<in> set (drop (length all_tasks) (ms_tasks s)).
            t \<in> set (fst (Merge all_tasks p known now)) \<and> task_ok t \<and> t_id t = 0)
       \<and> keys_unique (ms_tasks s)"
  using merge_run_inv[OF assms, of p known] by (rule merge_inv_returns)

theorem merge_returns_every_change_witness:
  "let s = merge_run [] sample_proposal None sample_now
    in distinct (ms_changed s)
       \<and> (\<forall>i < length ([] :: task list). ms_tasks s ! i = [] ! i \<or> ms_tasks s ! i \<in> set (fst (Merge [] sample_proposal None sample_now)))
       \<and> (\<forall>t \<in> set (drop (length ([] :: task list)) (ms_tasks s)).
            t \<in> set (fst (Merge [] sample_proposal None sample_now)) \<and> task_ok t \<and> t_id t = 0)
       \<and> keys_unique (ms_tasks s)"
  by (rule merge_returns_every_change[OF sample_plannable]) (simp add: keys_unique_def)

end
