(* ===== verification/Task_Legacy.thy ===== *)
theory Task_Legacy
  imports Task_Sync
begin

text \<open>
  internal/tasks/legacy.go: checking and converting a tasks.json for import, and the Markdown
  date of a plan; and the key internal/tasks/context.go hands an automated run for a task. Go maps
  are association lists. The JSON decoding of the file is encoding/json and is not
  modelled: ParseLegacy is its check of the decoded file.
\<close>

record legacy_file =
  lf_updated :: string
  lf_tasks :: "task list"
  lf_rev :: int
  lf_next_id :: int
  lf_last_sync :: string

definition legacy_task_bad :: "task \<Rightarrow> bool" where
  "legacy_task_bad t \<longleftrightarrow> t_id t \<le> 0 \<or> trim_space (t_title t) = []"

text \<open>None: the file is taken. Some i: it is refused because of its i-th task.\<close>

fun first_index :: "('a \<Rightarrow> bool) \<Rightarrow> 'a list \<Rightarrow> nat option" where
  "first_index P [] = None"
| "first_index P (x # xs) = (if P x then Some 0 else map_option Suc (first_index P xs))"

definition ParseLegacy :: "legacy_file \<Rightarrow> nat option" where
  "ParseLegacy f = first_index legacy_task_bad (lf_tasks f)"

record import_options =
  io_map :: "(string \<times> string) list"
  io_unmapped :: string

record import_plan =
  ip_projects :: "(string \<times> string) list"
  ip_create :: "string list"
  ip_unmapped :: "string list"
  ip_tasks :: nat
  ip_archived :: nat
  ip_next_id :: int
  ip_last_sync :: string
  ip_converted :: "task list"

section \<open>Projects\<close>

text \<open>What becomes of an old project: None when no decision was given.\<close>

definition project_decision :: "import_options \<Rightarrow> (string \<Rightarrow> bool) \<Rightarrow> string \<Rightarrow> string option" where
  "project_decision opt exists old =
     (case map_of (io_map opt) old of
        Some nv \<Rightarrow> Some nv
      | None \<Rightarrow>
          if exists old then Some old
          else if io_unmapped opt = ''create'' then Some old
          else if io_unmapped opt = ''drop'' then Some []
          else None)"

text \<open>The loop over the tasks: the projects decided, the ones to create, the undecided, and those seen.\<close>

record project_scan =
  ps_projects :: "(string \<times> string) list"
  ps_create :: "string list"
  ps_unmapped :: "string list"
  ps_seen :: "string list"

definition scan_project ::
  "import_options \<Rightarrow> (string \<Rightarrow> bool) \<Rightarrow> project_scan \<Rightarrow> task \<Rightarrow> project_scan"
where
  "scan_project opt exists s t =
     (let old = trim_space (t_project t)
      in if old = [] \<or> old \<in> set (ps_seen s) then s
         else
           let s = s\<lparr>ps_seen := old # ps_seen s\<rparr>
           in case project_decision opt exists old of
                None \<Rightarrow> s\<lparr>ps_unmapped := ps_unmapped s @ [old]\<rparr>
              | Some v \<Rightarrow>
                  (let nv = trim_space v;
                       s = s\<lparr>ps_projects := ps_projects s @ [(old, nv)]\<rparr>
                   in if nv \<noteq> [] \<and> \<not> exists nv then s\<lparr>ps_create := add_new nv (ps_create s)\<rparr> else s))"

definition scan_projects ::
  "import_options \<Rightarrow> (string \<Rightarrow> bool) \<Rightarrow> task list \<Rightarrow> project_scan"
where
  "scan_projects opt exists ts =
     foldl (scan_project opt exists) \<lparr>ps_projects = [], ps_create = [], ps_unmapped = [], ps_seen = []\<rparr> ts"

definition sort_strings :: "string list \<Rightarrow> string list" where
  "sort_strings = stable_sort (\<lambda>a b. a < b)"

section \<open>Tasks\<close>

definition convert_task :: "(string \<times> string) list \<Rightarrow> string \<Rightarrow> task \<Rightarrow> task" where
  "convert_task projects today t0 =
     (let t = t0\<lparr>t_project := map_get projects (trim_space (t_project t0))\<rparr>;
          t = (if t_priority t < 1 \<or> t_priority t > 4 then t\<lparr>t_priority := 4\<rparr> else t);
          t = (if \<not> ValidStatus (t_status t) then t\<lparr>t_status := TaskTodo\<rparr> else t);
          t = (if Finished t \<and> t_done_on t < today then t\<lparr>t_archived := True\<rparr> else t)
      in (fst (add_notes (t\<lparr>t_timeline := []\<rparr>) (t_timeline t)))\<lparr>t_bucket := []\<rparr>)"

text \<open>The count of tasks the import archives.\<close>

definition archived_by_import :: "string \<Rightarrow> task \<Rightarrow> bool" where
  "archived_by_import today t \<longleftrightarrow> Finished t \<and> t_done_on t < today"

definition max_id :: "task list \<Rightarrow> int" where
  "max_id ts = foldl (\<lambda>m t. max m (t_id t)) 0 ts"

definition PlanImport ::
  "legacy_file \<Rightarrow> import_options \<Rightarrow> (string \<Rightarrow> bool) \<Rightarrow> gotime \<Rightarrow> import_plan \<times> bool"
where
  "PlanImport f opt exists now =
     (let today = DateString (Day now);
          s = scan_projects opt exists (lf_tasks f);
          unmapped = sort_strings (ps_unmapped s)
      in (\<lparr>ip_projects = ps_projects s, ip_create = sort_strings (ps_create s), ip_unmapped = unmapped,
           ip_tasks = length (lf_tasks f),
           ip_archived = length (filter (archived_by_import today) (lf_tasks f)),
           ip_next_id = max (lf_next_id f) (max_id (lf_tasks f) + 1),
           ip_last_sync = lf_last_sync f,
           ip_converted = map (convert_task (ps_projects s) today) (lf_tasks f)\<rparr>,
          unmapped = []))"

definition mdDay :: "string \<Rightarrow> string" where
  "mdDay d =
     (if length d < 10 then d
      else (case cut_byte (CHR ''-'') (drop 5 d) of
              None \<Rightarrow> drop 5 d
            | Some (a, b) \<Rightarrow> a @ ''/'' @ b))"

section \<open>The key an automated run sees\<close>

definition context_key :: "task \<Rightarrow> string" where
  "context_key t = (if t_key t = [] then ''id:'' @ itoa (t_id t) else t_key t)"

section \<open>Import\<close>

lemma ParseLegacy_None: "ParseLegacy f = None \<longleftrightarrow> (\<forall>t \<in> set (lf_tasks f). 0 < t_id t \<and> trim_space (t_title t) \<noteq> [])"
proof -
  have "first_index P xs = None \<longleftrightarrow> (\<forall>x \<in> set xs. \<not> P x)" for P :: "task \<Rightarrow> bool" and xs
    by (induction xs) simp_all
  then show ?thesis by (simp add: ParseLegacy_def legacy_task_bad_def not_le)
qed

lemma max_id_ge: "t \<in> set ts \<Longrightarrow> t_id t \<le> max_id ts"
proof -
  have "m \<le> foldl (\<lambda>m t. max m (t_id t)) m ts \<and> (\<forall>t \<in> set ts. t_id t \<le> foldl (\<lambda>m t. max m (t_id t)) m ts)" for m
    by (induction ts arbitrary: m) (simp_all, metis max.bounded_iff)
  then show "t \<in> set ts \<Longrightarrow> t_id t \<le> max_id ts" by (simp add: max_id_def)
qed

text \<open>What a conversion leaves of a task: everything but project, priority, status, archive and timeline.\<close>

lemma add_notes_fields:
  "identity_of (fst (add_notes t ns)) = identity_of t \<and> outcome_of (fst (add_notes t ns)) = outcome_of t
   \<and> t_due (fst (add_notes t ns)) = t_due t \<and> t_links (fst (add_notes t ns)) = t_links t
   \<and> (timeline_ok (t_timeline t) \<longrightarrow> timeline_ok (t_timeline (fst (add_notes t ns))))"
proof -
  have "identity_of (fst (foldl note_step s ns)) = identity_of (fst s) \<and> outcome_of (fst (foldl note_step s ns)) = outcome_of (fst s)
     \<and> t_due (fst (foldl note_step s ns)) = t_due (fst s) \<and> t_links (fst (foldl note_step s ns)) = t_links (fst s)
     \<and> (timeline_ok (t_timeline (fst s)) \<longrightarrow> timeline_ok (t_timeline (fst (foldl note_step s ns))))" for s
  proof (induction ns arbitrary: s)
    case (Cons n ns)
    have "timeline_ok (t_timeline (fst s)) \<longrightarrow> timeline_ok (t_timeline (fst (note_step s n)))"
      by (simp add: note_step_def AddNote_timeline)
    with Cons[of "note_step s n"] show ?case by (simp add: note_step_def)
  qed simp
  from this[of "(t, 0)"] show ?thesis by (simp add: add_notes_def)
qed

lemma convert_fields:
  "t_id (convert_task ps today t) = t_id t" "t_title (convert_task ps today t) = t_title t"
  "t_key (convert_task ps today t) = t_key t" "t_note (convert_task ps today t) = t_note t"
  "t_project (convert_task ps today t) = map_get ps (trim_space (t_project t))"
  "t_plan (convert_task ps today t) = t_plan t"
  "timeline_ok (t_timeline (convert_task ps today t))"
  "1 \<le> t_priority (convert_task ps today t) \<and> t_priority (convert_task ps today t) \<le> 4"
  "ValidStatus (t_status (convert_task ps today t))"
proof -
  have st: "ValidStatus TaskTodo" by (simp add: ValidStatus_def StatusLabel_def)
  define u where "u = (let t = t\<lparr>t_project := map_get ps (trim_space (t_project t))\<rparr>;
          t = (if t_priority t < 1 \<or> t_priority t > 4 then t\<lparr>t_priority := 4\<rparr> else t);
          t = (if \<not> ValidStatus (t_status t) then t\<lparr>t_status := TaskTodo\<rparr> else t)
      in if Finished t \<and> t_done_on t < today then t\<lparr>t_archived := True\<rparr> else t)"
  have c: "convert_task ps today t = (fst (add_notes (u\<lparr>t_timeline := []\<rparr>) (t_timeline u)))\<lparr>t_bucket := []\<rparr>"
    unfolding convert_task_def u_def Let_def by (rule refl)
  have u: "t_id u = t_id t" "t_title u = t_title t" "t_key u = t_key t" "t_note u = t_note t"
    "t_project u = map_get ps (trim_space (t_project t))" "t_plan u = t_plan t"
    "1 \<le> t_priority u \<and> t_priority u \<le> 4" "ValidStatus (t_status u)"
    using st unfolding u_def Let_def by (simp_all add: not_less del: TaskTodo_def)
  show "t_id (convert_task ps today t) = t_id t" "t_title (convert_task ps today t) = t_title t"
    "t_key (convert_task ps today t) = t_key t" "t_note (convert_task ps today t) = t_note t"
    "t_project (convert_task ps today t) = map_get ps (trim_space (t_project t))"
    "t_plan (convert_task ps today t) = t_plan t"
    "timeline_ok (t_timeline (convert_task ps today t))"
    "1 \<le> t_priority (convert_task ps today t) \<and> t_priority (convert_task ps today t) \<le> 4"
    "ValidStatus (t_status (convert_task ps today t))"
    using add_notes_fields[of "u\<lparr>t_timeline := []\<rparr>" "t_timeline u"] u
    unfolding c by (simp_all add: identity_of_def outcome_of_def plan_of_def timeline_ok_def)
qed

text \<open>Every project a converted task has exists or is one the import creates.\<close>

definition scan_ok :: "(string \<Rightarrow> bool) \<Rightarrow> project_scan \<Rightarrow> bool" where
  "scan_ok exists s \<longleftrightarrow>
     (\<forall>(old, nv) \<in> set (ps_projects s). nv = [] \<or> exists nv \<or> nv \<in> set (ps_create s))
     \<and> set (ps_seen s) = fst ` set (ps_projects s) \<union> set (ps_unmapped s)
     \<and> distinct (ps_create s)"

lemma scan_project_ok: "scan_ok exists s \<Longrightarrow> scan_ok exists (scan_project opt exists s t)"
  by (simp add: scan_project_def scan_ok_def Let_def split: option.split) blast

lemma scan_project_seen:
  "set (ps_seen s) \<subseteq> set (ps_seen (scan_project opt exists s t))"
  "trim_space (t_project t) \<noteq> [] \<Longrightarrow> trim_space (t_project t) \<in> set (ps_seen (scan_project opt exists s t))"
  by (auto simp: scan_project_def Let_def split: option.split)

lemma scan_projects_aux:
  "scan_ok exists s \<Longrightarrow> scan_ok exists (foldl (scan_project opt exists) s ts)
    \<and> set (ps_seen s) \<subseteq> set (ps_seen (foldl (scan_project opt exists) s ts))
    \<and> (\<forall>t \<in> set ts. trim_space (t_project t) \<noteq> [] \<longrightarrow> trim_space (t_project t) \<in> set (ps_seen (foldl (scan_project opt exists) s ts)))"
proof (induction ts arbitrary: s)
  case (Cons t ts)
  note IH = Cons.IH[OF scan_project_ok[OF Cons.prems, of opt t]]
  show ?case
    using IH scan_project_seen(1)[of s opt exists t] scan_project_seen(2)[of t opt exists s] by auto
qed simp

lemma scan_projects_ok:
  "scan_ok exists (scan_projects opt exists ts)"
  "t \<in> set ts \<Longrightarrow> trim_space (t_project t) \<noteq> [] \<Longrightarrow> trim_space (t_project t) \<in> set (ps_seen (scan_projects opt exists ts))"
proof -
  let ?s0 = "\<lparr>ps_projects = [], ps_create = [], ps_unmapped = [], ps_seen = []\<rparr>"
  have "scan_ok exists ?s0" by (simp add: scan_ok_def)
  note aux = scan_projects_aux[OF this, of opt ts, folded scan_projects_def]
  then show "scan_ok exists (scan_projects opt exists ts)" by blast
  show "t \<in> set ts \<Longrightarrow> trim_space (t_project t) \<noteq> [] \<Longrightarrow> trim_space (t_project t) \<in> set (ps_seen (scan_projects opt exists ts))"
    using aux by blast
qed

lemma import_project_known:
  assumes "PlanImport f opt exists now = (plan, True)" "u \<in> set (ip_converted plan)"
  shows "t_project u = [] \<or> exists (t_project u) \<or> t_project u \<in> set (ip_create plan)"
proof -
  define s where "s = scan_projects opt exists (lf_tasks f)"
  obtain t where t: "u = convert_task (ps_projects s) (DateString (Day now)) t"
    using assms by (auto simp: PlanImport_def Let_def s_def)
  have "set (ip_create plan) = set (ps_create s)"
    using assms(1) by (auto simp: PlanImport_def Let_def s_def sort_strings_def)
  moreover have "map_get (ps_projects s) k = [] \<or> exists (map_get (ps_projects s) k) \<or> map_get (ps_projects s) k \<in> set (ps_create s)" for k
    using scan_projects_ok(1)[of exists opt "lf_tasks f"]
    by (auto simp: map_get_def s_def scan_ok_def split: option.split dest!: map_of_SomeD)
  ultimately show ?thesis by (simp add: t convert_fields)
qed

section \<open>A task without a key\<close>

lemma trim_context_key: "t_key t = [] \<Longrightarrow> trim_space (context_key t) = context_key t"
proof -
  assume k: "t_key t = []"
  have "list_all graphic (itoa (t_id t))"
    using digits_graphic[OF nat_digits_digits] by (simp add: itoa_def graphic_def)
  then show ?thesis using k by (intro trim_space_graphic) (simp add: context_key_def graphic_def)
qed

lemma context_key_new:
  assumes "plannable now" "keys_unique all_tasks" "j < length all_tasks" "t_key (all_tasks ! j) = []"
    and "context_key (all_tasks ! j) \<notin> t_key ` set all_tasks"
    and "pp_tasks p = [pt]" "pt_key pt = context_key (all_tasks ! j)" "trim_space (pt_title pt) \<noteq> []"
  shows "ms_tasks (merge_run all_tasks p known now) ! j = all_tasks ! j
    \<and> (\<forall>t. fst (sync_new known pt (trim_space (pt_key pt)) (wantedStatus pt) now empty_result) = Some t \<longrightarrow>
          fst (Merge all_tasks p known now) = [t])"
proof
  let ?k = "context_key (all_tasks ! j)"
  have k: "trim_space (pt_key pt) = ?k" using trim_context_key[OF assms(4)] assms(7) by simp
  have ne: "?k \<noteq> []" using assms(4) by (simp add: context_key_def)
  show "ms_tasks (merge_run all_tasks p known now) ! j = all_tasks ! j"
    using assms(1-4,6) k ne by (intro merge_run_other) (simp_all add: mentioned_def)
  have "index_keys all_tasks ?k = None"
  proof (rule ccontr)
    assume "index_keys all_tasks ?k \<noteq> None"
    then obtain i where "i < length all_tasks" "t_key (all_tasks ! i) = ?k"
      using index_keys_indexed[OF assms(2)] unfolding keys_indexed_def by blast
    then show False using assms(5) by (metis image_eqI nth_mem)
  qed
  then show "\<forall>t. fst (sync_new known pt (trim_space (pt_key pt)) (wantedStatus pt) now empty_result) = Some t \<longrightarrow>
      fst (Merge all_tasks p known now) = [t]"
    using assms(6,8) k ne
    by (simp add: Merge_def merge_run_def merge_init_def merge_task_def Let_def touch_def split: prod.split option.split)
qed

section \<open>Properties\<close>

text \<open>An accepted import keeps every task's id, key and title, gives it a valid status and priority, a
  sorted timeline without repeated refs, and a project that exists or that the import creates;
  the next id is above every imported one, so no id is handed out again.\<close>

theorem import_plan_sound:
  assumes "PlanImport f opt exists now = (plan, True)"
  shows "map (\<lambda>t. (t_id t, t_key t, t_title t)) (ip_converted plan) = map (\<lambda>t. (t_id t, t_key t, t_title t)) (lf_tasks f)
    \<and> (\<forall>t \<in> set (ip_converted plan). t_id t < ip_next_id plan \<and> ValidStatus (t_status t)
          \<and> 1 \<le> t_priority t \<and> t_priority t \<le> 4 \<and> timeline_ok (t_timeline t)
          \<and> (t_project t = [] \<or> exists (t_project t) \<or> t_project t \<in> set (ip_create plan)))"
proof -
  have c: "ip_converted plan = map (convert_task (ps_projects (scan_projects opt exists (lf_tasks f))) (DateString (Day now))) (lf_tasks f)"
    and n: "ip_next_id plan = max (lf_next_id f) (max_id (lf_tasks f) + 1)"
    using assms by (auto simp: PlanImport_def Let_def)
  have ids: "t_id t < ip_next_id plan" if "t \<in> set (ip_converted plan)" for t
    using that max_id_ge[of _ "lf_tasks f"] by (fastforce simp: c n convert_fields)
  show ?thesis
    using import_project_known[OF assms] ids by (auto simp: c convert_fields)
qed

definition sample_file :: legacy_file where
  "sample_file = \<lparr>lf_updated = [], lf_tasks = [sample_task], lf_rev = 0, lf_next_id = 3, lf_last_sync = []\<rparr>"

theorem import_plan_sound_witness:
  "map (\<lambda>t. (t_id t, t_key t, t_title t)) (ip_converted (fst (PlanImport sample_file \<lparr>io_map = [], io_unmapped = ''drop''\<rparr> (\<lambda>_. False) sample_now)))
   = map (\<lambda>t. (t_id t, t_key t, t_title t)) (lf_tasks sample_file)"
proof -
  let ?r = "PlanImport sample_file \<lparr>io_map = [], io_unmapped = ''drop''\<rparr> (\<lambda>_. False) sample_now"
  have "?r = (fst ?r, True)"
    by (simp add: PlanImport_def Let_def sample_file_def scan_projects_def scan_project_def sample_task_def sort_strings_def)
  from import_plan_sound[OF this] show ?thesis by blast
qed

text \<open>The context names a task without a key "id:<number>", and no merge recognises that key: a run that
  reports back on the task under the key it was given adds a second task and leaves the first as
  it was.\<close>

theorem context_key_not_recognised:
  assumes "plannable now" "keys_unique all_tasks" "j < length all_tasks" "t_key (all_tasks ! j) = []"
    and "context_key (all_tasks ! j) \<notin> t_key ` set all_tasks"
    and "pp_tasks p = [pt]" "pt_key pt = context_key (all_tasks ! j)" "trim_space (pt_title pt) \<noteq> []"
  shows "ms_tasks (merge_run all_tasks p known now) ! j = all_tasks ! j
    \<and> (\<forall>t. fst (sync_new known pt (trim_space (pt_key pt)) (wantedStatus pt) now empty_result) = Some t \<longrightarrow>
          fst (Merge all_tasks p known now) = [t])"
  using assms by (rule context_key_new)

definition keyless_proposal :: proposal where
  "keyless_proposal = sample_proposal\<lparr>pp_tasks :=
     [\<lparr>pt_key = context_key sample_task, pt_title = ''T'', pt_priority = 0, pt_plan = [], pt_due = [], pt_project = [],
       pt_note = [], pt_links = [], pt_done = False, pt_status = [], pt_timeline = [], pt_replan = None\<rparr>]\<rparr>"

theorem context_key_not_recognised_witness:
  "ms_tasks (merge_run [sample_task] keyless_proposal None sample_now) ! 0 = [sample_task] ! 0"
proof -
  have "context_key sample_task \<noteq> []" "t_key sample_task = []" by (simp_all add: context_key_def sample_task_def)
  then show ?thesis
    using context_key_not_recognised[OF sample_plannable, of "[sample_task]" 0 keyless_proposal _ None]
    by (simp add: keys_unique_def keyless_proposal_def trim_space_graphic graphic_def)
qed

end
