(* ===== verification/Task_Store.thy ===== *)
theory Task_Store
  imports Task_Legacy
begin

text \<open>
  internal/db/tasks.go: the to-do list in SQLite, one transaction per operation. A table is a
  list of its rows in insertion order; the schema's constraints (PRIMARY KEY, the unique index
  on keys, the unique index on events, AUTOINCREMENT) are checked or kept by the statements as
  SQLite does. Failures of the database itself (disk, lock, context) are outside the model, so
  the error of an operation is one the Go code raises or the violation of a constraint. The time of day
  is an argument of every operation that reads it; ids stay below 2^63.
\<close>

section \<open>Tables\<close>

record task_row =
  tr_id :: int
  tr_key :: "string option"
  tr_title :: string
  tr_priority :: int
  tr_status :: string
  tr_plan :: string
  tr_plan_by :: string
  tr_plan_on :: string
  tr_due :: string
  tr_project :: string
  tr_note :: string
  tr_links :: "string list"
  tr_source :: string
  tr_created_on :: string
  tr_done_on :: string
  tr_ord :: "rat option"
  tr_archived_at :: "int option"
  tr_updated_at :: int

record event_row =
  er_task :: int
  er_note :: task_note

record session_row =
  sn_task :: int
  sn_session :: string
  sn_created_at :: int

record project_row =
  pj_name :: string
  pj_color :: string
  pj_created_at :: int
  pj_ord :: int

record tasks_db =
  db_tasks :: "task_row list"
  db_seq :: int
  db_events :: "event_row list"
  db_sessions :: "session_row list"
  db_meta :: "(string \<times> string) list"
  db_projects :: "project_row list"

definition empty_db :: tasks_db where
  "empty_db = \<lparr>db_tasks = [], db_seq = 0, db_events = [], db_sessions = [], db_meta = [], db_projects = []\<rparr>"

datatype db_error =
    TaskNotFound string
  | KeyTaken string
  | ListNotEmpty nat
  | Undecided "string list"
  | Rule task_error

section \<open>Meta values\<close>

definition taskMeta :: "tasks_db \<Rightarrow> string \<Rightarrow> string" where
  "taskMeta db key = map_get (db_meta db) key"

definition setTaskMeta :: "string \<Rightarrow> string \<Rightarrow> tasks_db \<Rightarrow> tasks_db" where
  "setTaskMeta key v db = db\<lparr>db_meta := (key, v) # filter (\<lambda>(k, _). k \<noteq> key) (db_meta db)\<rparr>"

text \<open>CAST of a stored number; what is not one counts as 0.\<close>

definition cast_int :: "string \<Rightarrow> int" where
  "cast_int v = (case parse_int64 v of None \<Rightarrow> 0 | Some n \<Rightarrow> n)"

definition bumpTasksRev :: "tasks_db \<Rightarrow> tasks_db" where
  "bumpTasksRev db =
     (case map_of (db_meta db) ''rev'' of
        None \<Rightarrow> setTaskMeta ''rev'' ''1'' db
      | Some v \<Rightarrow> setTaskMeta ''rev'' (itoa (cast_int v + 1)) db)"

text \<open>The change counter; None is a stored value that is no number.\<close>

definition TasksRev :: "tasks_db \<Rightarrow> int option" where
  "TasksRev db = (let v = taskMeta db ''rev'' in if v = [] then Some 0 else parse_int64 v)"

section \<open>Loading\<close>

definition event_less :: "task_note \<Rightarrow> task_note \<Rightarrow> bool" where
  "event_less a b \<longleftrightarrow> n_at a < n_at b"

definition load_timeline :: "tasks_db \<Rightarrow> int \<Rightarrow> task_note list" where
  "load_timeline db i = stable_sort event_less (map er_note (filter (\<lambda>e. er_task e = i) (db_events db)))"

definition load_sessions :: "tasks_db \<Rightarrow> int \<Rightarrow> string list" where
  "load_sessions db i =
     map sn_session (stable_sort (\<lambda>a b. sn_created_at a < sn_created_at b)
       (filter (\<lambda>s. sn_task s = i) (db_sessions db)))"

definition load_row :: "tasks_db \<Rightarrow> task_row \<Rightarrow> task" where
  "load_row db r =
     \<lparr>t_id = tr_id r, t_key = (case tr_key r of None \<Rightarrow> [] | Some k \<Rightarrow> k), t_title = tr_title r,
      t_priority = tr_priority r, t_status = tr_status r, t_plan = tr_plan r, t_plan_by = tr_plan_by r,
      t_plan_on = tr_plan_on r, t_due = tr_due r, t_project = tr_project r, t_note = tr_note r,
      t_links = tr_links r, t_source = tr_source r, t_created_on = tr_created_on r,
      t_done_on = tr_done_on r, t_order = tr_ord r, t_archived = (tr_archived_at r \<noteq> None),
      t_updated_at = tr_updated_at r, t_timeline = load_timeline db (tr_id r),
      t_sessions = load_sessions db (tr_id r), t_bucket = []\<rparr>"

definition loadTasks :: "(task_row \<Rightarrow> bool) \<Rightarrow> tasks_db \<Rightarrow> task list" where
  "loadTasks wh db =
     map (load_row db) (stable_sort (\<lambda>a b. tr_id a < tr_id b) (filter wh (db_tasks db)))"

definition ListTasks :: "bool \<Rightarrow> tasks_db \<Rightarrow> task list" where
  "ListTasks includeArchived db =
     loadTasks (\<lambda>r. includeArchived \<or> tr_archived_at r = None) db"

definition taskWhere :: "string \<Rightarrow> task_row \<Rightarrow> bool" where
  "taskWhere ident0 =
     (let ident = trim_space ident0
      in case parse_int64 (trim_prefix ident ''#'') of
           Some n \<Rightarrow> (\<lambda>r. tr_id r = n)
         | None \<Rightarrow> (\<lambda>r. tr_key r = Some ident))"

definition loadOne :: "string \<Rightarrow> tasks_db \<Rightarrow> db_error + task" where
  "loadOne ident db =
     (case loadTasks (taskWhere ident) db of
        [] \<Rightarrow> Inl (TaskNotFound ident)
      | t # _ \<Rightarrow> Inr t)"

definition GetTask :: "string \<Rightarrow> tasks_db \<Rightarrow> db_error + task" where
  "GetTask ident db = loadOne ident db"

section \<open>Saving\<close>

definition row_key :: "task \<Rightarrow> string option" where
  "row_key t = (if t_key t \<noteq> [] then Some (t_key t) else None)"

definition row_of :: "task \<Rightarrow> int \<Rightarrow> int option \<Rightarrow> int \<Rightarrow> task_row" where
  "row_of t i archived now =
     \<lparr>tr_id = i, tr_key = row_key t, tr_title = t_title t, tr_priority = t_priority t, tr_status = t_status t,
      tr_plan = t_plan t, tr_plan_by = t_plan_by t, tr_plan_on = t_plan_on t, tr_due = t_due t,
      tr_project = t_project t, tr_note = t_note t, tr_links = t_links t, tr_source = t_source t,
      tr_created_on = t_created_on t, tr_done_on = t_done_on t, tr_ord = t_order t,
      tr_archived_at = archived, tr_updated_at = now\<rparr>"

text \<open>The unique index on keys: a row with another id has the key.\<close>

definition key_clash :: "tasks_db \<Rightarrow> int option \<Rightarrow> task \<Rightarrow> bool" where
  "key_clash db i t \<longleftrightarrow>
     row_key t \<noteq> None \<and> (\<exists>r \<in> set (db_tasks db). tr_key r = row_key t \<and> Some (tr_id r) \<noteq> i)"

definition next_task_id :: "tasks_db \<Rightarrow> int" where
  "next_task_id db = foldl max (db_seq db) (map tr_id (db_tasks db)) + 1"

text \<open>INSERT of a task without an id, and the upsert of one with an id.\<close>

definition insert_row :: "task \<Rightarrow> int \<Rightarrow> tasks_db \<Rightarrow> db_error + (tasks_db \<times> int)" where
  "insert_row t now db =
     (if key_clash db None t then Inl (KeyTaken (t_key t))
      else
        let i = next_task_id db;
            archived = (if t_archived t then Some now else None)
        in Inr (db\<lparr>db_tasks := db_tasks db @ [row_of t i archived now], db_seq := i\<rparr>, i))"

definition upsert_row :: "task \<Rightarrow> int \<Rightarrow> tasks_db \<Rightarrow> db_error + (tasks_db \<times> int)" where
  "upsert_row t now db =
     (let i = t_id t; archived = (if t_archived t then Some now else None)
      in if key_clash db (Some i) t then Inl (KeyTaken (t_key t))
         else if i \<in> tr_id ` set (db_tasks db) then
           Inr (db\<lparr>db_tasks := update_where (\<lambda>r. tr_id r = i)
                     (\<lambda>r. row_of t i (case archived of None \<Rightarrow> None
                                       | Some a \<Rightarrow> (case tr_archived_at r of None \<Rightarrow> Some a | Some a' \<Rightarrow> Some a'))
                             now) (db_tasks db)\<rparr>, i)
         else Inr (db\<lparr>db_tasks := db_tasks db @ [row_of t i archived now], db_seq := max (db_seq db) i\<rparr>, i))"

text \<open>INSERT OR IGNORE INTO task_events.\<close>

definition insert_event :: "int \<Rightarrow> event_row list \<Rightarrow> task_note \<Rightarrow> event_row list" where
  "insert_event i es n =
     (if (i, n_ref n) \<in> (\<lambda>e. (er_task e, n_ref (er_note e))) ` set es then es
      else es @ [\<lparr>er_task = i, er_note = n\<rparr>])"

definition insert_session :: "int \<Rightarrow> int \<Rightarrow> session_row list \<Rightarrow> nat \<times> string \<Rightarrow> session_row list" where
  "insert_session i now ss = (\<lambda>(n, sid).
     if (i, sid) \<in> (\<lambda>s. (sn_task s, sn_session s)) ` set ss then ss
     else ss @ [\<lparr>sn_task = i, sn_session = sid, sn_created_at = now + int n\<rparr>])"

definition saveTask :: "task \<Rightarrow> gotime \<Rightarrow> tasks_db \<Rightarrow> db_error + (tasks_db \<times> int)" where
  "saveTask t now db =
     (let ms = unix_milli now
      in case (if t_id t = 0 then insert_row t ms db else upsert_row t ms db) of
           Inl e \<Rightarrow> Inl e
         | Inr (db, i) \<Rightarrow>
             (let db = db\<lparr>db_events := foldl (insert_event i) (db_events db) (t_timeline t)\<rparr>;
                  db = db\<lparr>db_sessions := filter (\<lambda>s. sn_task s \<noteq> i) (db_sessions db)\<rparr>;
                  db = db\<lparr>db_sessions := foldl (insert_session i ms) (db_sessions db)
                                            (enumerate 0 (t_sessions t))\<rparr>
              in Inr (db, i)))"

section \<open>Transactions\<close>

text \<open>
  A transaction that fails or changes nothing rolls back; one that reports a change bumps the
  revision and commits. Its second component is what the operation goes on with.
\<close>

definition inTx :: "(tasks_db \<Rightarrow> db_error + (tasks_db \<times> bool \<times> 'a)) \<Rightarrow> tasks_db \<Rightarrow> tasks_db \<times> (db_error + 'a)" where
  "inTx f db =
     (case f db of
        Inl e \<Rightarrow> (db, Inl e)
      | Inr (db', changed, x) \<Rightarrow> if changed then (bumpTasksRev db', Inr x) else (db, Inr x))"

text \<open>
  Projects are created on first use, with a colour that stands apart from the others' and at the
  newest end of the list. The choice of the colour (model.PickColor: floating point, random among
  the best) is the argument pick.
\<close>

type_synonym pick_color = "string list \<Rightarrow> string \<Rightarrow> string"

definition project_names :: "tasks_db \<Rightarrow> string list" where
  "project_names db = map pj_name (db_projects db)"

definition projectColors :: "string \<Rightarrow> tasks_db \<Rightarrow> string list" where
  "projectColors skip db = filter (\<lambda>c. c \<noteq> []) (map pj_color (filter (\<lambda>p. pj_name p \<noteq> skip) (db_projects db)))"

definition min_ord :: "project_row list \<Rightarrow> int" where
  "min_ord ps = (case map pj_ord ps of [] \<Rightarrow> 0 | x # xs \<Rightarrow> foldl min x xs)"

definition ensureProject :: "pick_color \<Rightarrow> gotime \<Rightarrow> string \<Rightarrow> tasks_db \<Rightarrow> tasks_db" where
  "ensureProject pick now name db =
     (if name \<in> set (project_names db) then db
      else db\<lparr>db_projects := db_projects db @
             [\<lparr>pj_name = name, pj_color = pick (projectColors [] db) [],
               pj_created_at = unix_milli now div 1000, pj_ord = min_ord (db_projects db) - 1\<rparr>]\<rparr>)"

definition ensureProjects :: "pick_color \<Rightarrow> gotime \<Rightarrow> string list \<Rightarrow> tasks_db \<Rightarrow> tasks_db" where
  "ensureProjects pick now names db =
     foldl (\<lambda>db n. if n = [] then db else ensureProject pick now n db) db names"

section \<open>Operations\<close>

definition AddTask :: "pick_color \<Rightarrow> task_input \<Rightarrow> gotime \<Rightarrow> tasks_db \<Rightarrow> tasks_db \<times> (db_error + task)" where
  "AddTask pick inp now db =
     (case New inp now of
        Inl e \<Rightarrow> (db, Inl (Rule e))
      | Inr t \<Rightarrow>
          (case inTx (\<lambda>db. case saveTask t now db of Inl e \<Rightarrow> Inl e | Inr (db, i) \<Rightarrow> Inr (db, True, i)) db of
             (db, Inl e) \<Rightarrow> (db, Inl e)
           | (db, Inr i) \<Rightarrow>
               (let db = ensureProjects pick now [t_project t] db in (db, GetTask (itoa i) db))))"

text \<open>Load a task, edit it, save it when the edit reports a change: UpdateTask and AddTaskNote.\<close>

definition edit_tx ::
  "string \<Rightarrow> (task \<Rightarrow> db_error + (task \<times> bool)) \<Rightarrow> gotime \<Rightarrow> tasks_db \<Rightarrow> db_error + (tasks_db \<times> bool \<times> task)"
where
  "edit_tx ident f now db =
     (case loadOne ident db of
        Inl e \<Rightarrow> Inl e
      | Inr t \<Rightarrow>
          (case f t of
             Inl e \<Rightarrow> Inl e
           | Inr (t, changed) \<Rightarrow>
               (if \<not> changed then Inr (db, False, t)
                else (case saveTask t now db of
                        Inl e \<Rightarrow> Inl e
                      | Inr (db, i) \<Rightarrow> Inr (db, True, t)))))"

definition apply_edit :: "patch \<Rightarrow> gotime \<Rightarrow> task \<Rightarrow> db_error + (task \<times> bool)" where
  "apply_edit p now t =
     (case Apply t p now of
        ((t', changed), Some e) \<Rightarrow> Inl (Rule e)
      | ((t', changed), None) \<Rightarrow> Inr (t', changed))"

definition UpdateTask :: "pick_color \<Rightarrow> string \<Rightarrow> patch \<Rightarrow> gotime \<Rightarrow> tasks_db \<Rightarrow> tasks_db \<times> (db_error + task)" where
  "UpdateTask pick ident p now db =
     (case inTx (edit_tx ident (apply_edit p now) now) db of
        (db, Inl e) \<Rightarrow> (db, Inl e)
      | (db, Inr t) \<Rightarrow>
          (let db = (if p_project p \<noteq> None then ensureProjects pick now [t_project t] db else db)
           in (db, GetTask (itoa (t_id t)) db)))"

definition AddTaskNote :: "string \<Rightarrow> task_note \<Rightarrow> gotime \<Rightarrow> tasks_db \<Rightarrow> tasks_db \<times> (db_error + task)" where
  "AddTaskNote ident n0 now db =
     (let n = (if n_at n0 = [] then n0\<lparr>n_at := Stamp now\<rparr> else n0)
      in case inTx (edit_tx ident (\<lambda>t. Inr (AddNote t n)) now) db of
           (db, Inl e) \<Rightarrow> (db, Inl e)
         | (db, Inr t) \<Rightarrow> (db, GetTask (itoa (t_id t)) db))"

fun order_rows :: "nat \<Rightarrow> int \<Rightarrow> int list \<Rightarrow> tasks_db \<Rightarrow> db_error + tasks_db" where
  "order_rows i now [] db = Inr db"
| "order_rows i now (x # ids) db =
     (if x \<notin> tr_id ` set (db_tasks db) then Inl (TaskNotFound (''#'' @ itoa x))
      else order_rows (Suc i) now ids
             (db\<lparr>db_tasks := update_where (\<lambda>r. tr_id r = x)
                   (\<lambda>r. r\<lparr>tr_ord := Some (of_nat (Suc i)), tr_updated_at := now\<rparr>) (db_tasks db)\<rparr>))"

definition OrderTasks :: "int list \<Rightarrow> gotime \<Rightarrow> tasks_db \<Rightarrow> tasks_db \<times> (db_error + unit)" where
  "OrderTasks ids now db =
     (if ids = [] then (db, Inr ())
      else inTx (\<lambda>db. case order_rows 0 (unix_milli now) ids db of
                        Inl e \<Rightarrow> Inl e | Inr db \<Rightarrow> Inr (db, True, ())) db)"

fun save_all :: "task list \<Rightarrow> gotime \<Rightarrow> tasks_db \<Rightarrow> db_error + tasks_db" where
  "save_all [] now db = Inr db"
| "save_all (t # ts) now db =
     (case saveTask t now db of Inl e \<Rightarrow> Inl e | Inr (db, i) \<Rightarrow> save_all ts now db)"

definition SyncTasks :: "proposal \<Rightarrow> gotime \<Rightarrow> tasks_db \<Rightarrow> tasks_db \<times> (db_error + sync_result)" where
  "SyncTasks p now db =
     (let known = (\<lambda>n. n \<in> set (project_names db))
      in inTx (\<lambda>db.
           case Merge (loadTasks (\<lambda>_. True) db) p (Some known) now of
             (changed, res) \<Rightarrow>
               (case save_all changed now db of
                  Inl e \<Rightarrow> Inl e
                | Inr db \<Rightarrow>
                    (let db = (if pp_synced_at p \<noteq> [] then setTaskMeta ''last_sync'' (pp_synced_at p) db else db)
                     in Inr (db, \<not> pp_dry_run p \<and> (changed \<noteq> [] \<or> pp_synced_at p \<noteq> []),
                             res\<lparr>sr_dry_run := pp_dry_run p\<rparr>)))) db)"

definition LastTaskSync :: "tasks_db \<Rightarrow> string" where
  "LastTaskSync db = taskMeta db ''last_sync''"

definition ImportTasks ::
  "pick_color \<Rightarrow> legacy_file \<Rightarrow> import_options \<Rightarrow> bool \<Rightarrow> gotime \<Rightarrow> tasks_db \<Rightarrow> tasks_db \<times> (db_error + import_plan)"
where
  "ImportTasks pick f opt dryRun now db =
     (case PlanImport f opt (\<lambda>n. n \<in> set (project_names db)) now of
        (plan, False) \<Rightarrow> (db, Inl (Undecided (ip_unmapped plan)))
      | (plan, True) \<Rightarrow>
          (if dryRun then (db, Inr plan)
           else
             (case inTx (\<lambda>db.
                  if db_tasks db \<noteq> [] then Inl (ListNotEmpty (length (db_tasks db)))
                  else
                    (case save_all (ip_converted plan) now db of
                       Inl e \<Rightarrow> Inl e
                     | Inr db \<Rightarrow>
                         (let db = db\<lparr>db_seq := ip_next_id plan - 1\<rparr>;
                              db = (if ip_last_sync plan \<noteq> [] then setTaskMeta ''last_sync'' (ip_last_sync plan) db else db)
                          in Inr (db, True, ())))) db of
                (db, Inl e) \<Rightarrow> (db, Inl e)
              | (db, Inr _) \<Rightarrow> (ensureProjects pick now (ip_create plan) db, Inr plan))))"

definition TaskList :: "bool \<Rightarrow> gotime \<Rightarrow> tasks_db \<Rightarrow> task_list option" where
  "TaskList includeArchived now db =
     map_option (\<lambda>r. List (ListTasks includeArchived db) r now) (TasksRev db)"

end
