(* ===== verification/Task_Store_Facts.thy ===== *)
theory Task_Store_Facts
  imports Task_Store
begin

text \<open>
  What the to-do list's storage promises: the invariant of the tables, that saving a task and
  loading it gives it back and leaves the others alone, that a failed operation changes nothing,
  and that pollers of the revision notice every change. The interface the operations rely on is
  the locale task_table, interpreted on the tables of Task_Store.
\<close>

section \<open>The interface\<close>

text \<open>
  A store of tasks by id: saving one task changes that task only. An edit looks a task up,
  computes on it and saves the result.
\<close>

locale task_table =
  fixes lookup :: "'db \<Rightarrow> int \<Rightarrow> 'task option"
    and save :: "'task \<Rightarrow> 'db \<Rightarrow> 'err + ('db \<times> int)"
    and ident :: "'task \<Rightarrow> int"
    and ok :: "'db \<Rightarrow> bool"
  assumes save_id: "ident t \<noteq> 0 \<Longrightarrow> save t db = Inr (db', i) \<Longrightarrow> i = ident t"
    and save_other: "save t db = Inr (db', i) \<Longrightarrow> j \<noteq> i \<Longrightarrow> lookup db' j = lookup db j"
    and save_ok: "ok db \<Longrightarrow> 0 \<le> ident t \<Longrightarrow> save t db = Inr (db', i) \<Longrightarrow> ok db'"
begin

text \<open>Saving several tasks one after the other, stopping at the first refusal.\<close>

fun save_list :: "'task list \<Rightarrow> 'db \<Rightarrow> 'err + 'db" where
  "save_list [] db = Inr db"
| "save_list (t # ts) db = (case save t db of Inl e \<Rightarrow> Inl e | Inr (db, i) \<Rightarrow> save_list ts db)"

lemma save_list_ok:
  "ok db \<Longrightarrow> \<forall>t \<in> set ts. 0 \<le> ident t \<Longrightarrow> save_list ts db = Inr db' \<Longrightarrow> ok db'"
proof (induction ts arbitrary: db)
  case (Cons t ts)
  then obtain db1 i where "save t db = Inr (db1, i)" "save_list ts db1 = Inr db'"
    by (auto split: sum.splits)
  with Cons save_ok show ?case by (metis list.set_intros)
qed simp

lemma save_list_other:
  "\<forall>t \<in> set ts. ident t \<noteq> 0 \<Longrightarrow> j \<notin> ident ` set ts \<Longrightarrow> save_list ts db = Inr db' \<Longrightarrow> lookup db' j = lookup db j"
proof (induction ts arbitrary: db)
  case (Cons t ts)
  then obtain db1 i where s: "save t db = Inr (db1, i)" "save_list ts db1 = Inr db'"
    by (auto split: sum.splits)
  then have "i = ident t" using Cons.prems(1) by (simp add: save_id)
  then have "lookup db1 j = lookup db j" using s(1) Cons.prems(2) by (intro save_other) auto
  moreover have "lookup db' j = lookup db1 j" by (rule Cons.IH) (use Cons.prems s in auto)
  ultimately show ?case by simp
qed simp

end

section \<open>The invariant of the tables\<close>

text \<open>The primary key and the unique index on keys, over the (id, key) pairs of the rows.\<close>

definition index_ok :: "(int \<times> string option) list \<Rightarrow> int \<Rightarrow> bool" where
  "index_ok ps seq \<longleftrightarrow>
     distinct (map fst ps) \<and> (\<forall>i \<in> fst ` set ps. 0 < i \<and> i \<le> seq) \<and> 0 \<le> seq
     \<and> (\<forall>k i j. (i, Some k) \<in> set ps \<longrightarrow> (j, Some k) \<in> set ps \<longrightarrow> i = j)
     \<and> Some [] \<notin> snd ` set ps"

lemma index_ok_append:
  assumes ok: "index_ok ps seq" and i: "0 < i" "i \<notin> fst ` set ps" "seq \<le> seq'" "i \<le> seq'"
    and k: "k \<noteq> Some []" "k = None \<or> k \<notin> snd ` set ps"
  shows "index_ok (ps @ [(i, k)]) seq'"
proof -
  have "(\<forall>k' a b. (a, Some k') \<in> set (ps @ [(i, k)]) \<longrightarrow> (b, Some k') \<in> set (ps @ [(i, k)]) \<longrightarrow> a = b)"
  proof (cases k)
    case (Some x)
    then have "(a, Some x) \<notin> set ps" for a using k(2) by force
    then show ?thesis using ok Some unfolding index_ok_def by simp
  qed (use ok in \<open>simp add: index_ok_def; blast\<close>)
  moreover have "\<forall>j \<in> fst ` set (ps @ [(i, k)]). 0 < j \<and> j \<le> seq'"
    using ok i by (fastforce simp: index_ok_def)
  ultimately show ?thesis using ok i k(1) by (simp add: index_ok_def)
qed

lemma index_ok_update:
  assumes ok: "index_ok ps seq" and k: "k \<noteq> Some []" "\<And>j. k \<noteq> None \<Longrightarrow> (j, k) \<in> set ps \<Longrightarrow> j = i"
  shows "index_ok (map (\<lambda>p. (fst p, if fst p = i then k else snd p)) ps) seq"
proof -
  let ?qs = "map (\<lambda>p. (fst p, if fst p = i then k else snd p)) ps"
  have fst: "map fst ?qs = map fst ps" by simp
  then have sets: "fst ` set ?qs = fst ` set ps" by (metis list.set_map)
  have mem: "a = i \<and> x = k \<or> (a, x) \<in> set ps" if "(a, x) \<in> set ?qs" for a x
    using that by (auto split: if_splits)
  have keys: "a = b" if "(a, Some x) \<in> set ?qs" "(b, Some x) \<in> set ?qs" for a b x
  proof -
    have inj: "a = b" if "(a, Some x) \<in> set ps" "(b, Some x) \<in> set ps"
      using ok that by (simp add: index_ok_def)
    show ?thesis using mem[OF that(1)] mem[OF that(2)] inj k(2)[of a] k(2)[of b] by auto
  qed
  have "Some [] \<notin> snd ` set ?qs"
  proof
    assume "Some [] \<in> snd ` set ?qs"
    then obtain a where "(a, Some []) \<in> set ?qs" by force
    then have "(a, Some []) \<in> set ps" using mem k(1) by blast
    then have "Some [] \<in> snd ` set ps" by force
    then show False using ok by (simp add: index_ok_def)
  qed
  then show ?thesis
    using ok keys unfolding index_ok_def fst sets by (intro conjI allI impI) (simp_all only:, blast+)
qed

definition id_keys :: "tasks_db \<Rightarrow> (int \<times> string option) list" where
  "id_keys db = map (\<lambda>r. (tr_id r, tr_key r)) (db_tasks db)"

definition db_ok :: "tasks_db \<Rightarrow> bool" where
  "db_ok db \<longleftrightarrow>
     index_ok (id_keys db) (db_seq db)
     \<and> distinct (map (\<lambda>e. (er_task e, n_ref (er_note e))) (db_events db))
     \<and> distinct (map (\<lambda>s. (sn_task s, sn_session s)) (db_sessions db))
     \<and> er_task ` set (db_events db) \<subseteq> fst ` set (id_keys db)"

lemma db_ok_empty [simp]: "db_ok empty_db"
  by (simp add: db_ok_def empty_db_def index_ok_def id_keys_def)

lemma db_ids: "tr_id ` set (db_tasks db) = fst ` set (id_keys db)"
  by (auto simp: id_keys_def image_image)

text \<open>In a well-formed database the next id is the one after the sequence.\<close>

lemma next_task_id_eq: "db_ok db \<Longrightarrow> next_task_id db = db_seq db + 1"
proof -
  assume ok: "db_ok db"
  have "map tr_id (db_tasks db) = map fst (id_keys db)" by (simp add: id_keys_def)
  then have "foldl max (db_seq db) (map tr_id (db_tasks db)) \<le> db_seq db"
    using ok by (simp only:) (intro foldl_max_le, auto simp: db_ok_def index_ok_def)
  with foldl_max[of "db_seq db" "map tr_id (db_tasks db)"] show ?thesis by (simp add: next_task_id_def)
qed

lemma row_of_simps [simp]: "tr_id (row_of t i a now) = i" "tr_key (row_of t i a now) = row_key t"
  by (simp_all add: row_of_def)

lemma row_key_not_Nil: "row_key t \<noteq> Some []"
  by (simp add: row_key_def)

lemma key_clash_iff: "key_clash db i t \<longleftrightarrow> row_key t \<noteq> None \<and> (\<exists>j. (j, row_key t) \<in> set (id_keys db) \<and> Some j \<noteq> i)"
  unfolding key_clash_def id_keys_def by force

lemma insert_row_ok:
  assumes ok: "db_ok db" and ins: "insert_row t now db = Inr (db', i)"
  shows "db_ok db'" "i = db_seq db + 1" "i \<notin> tr_id ` set (db_tasks db)" "0 < i"
proof -
  have i: "i = db_seq db + 1" and db': "db' = db\<lparr>db_tasks := db_tasks db @ [row_of t i (if t_archived t then Some now else None) now], db_seq := i\<rparr>"
    and nc: "\<not> key_clash db None t"
    using ins unfolding insert_row_def Let_def next_task_id_eq[OF ok] by (auto split: if_splits)
  show "i = db_seq db + 1" by (fact i)
  show new: "i \<notin> tr_id ` set (db_tasks db)" using ok by (auto simp: db_ok_def index_ok_def db_ids i)
  show "0 < i" using ok by (simp add: db_ok_def index_ok_def i)
  have "id_keys db' = id_keys db @ [(i, row_key t)]" by (simp add: id_keys_def db')
  moreover have "row_key t = None \<or> row_key t \<notin> snd ` set (id_keys db)"
    using nc by (force simp: key_clash_iff)
  then have "index_ok (id_keys db @ [(i, row_key t)]) i"
    using ok new \<open>0 < i\<close> row_key_not_Nil i by (intro index_ok_append[where seq = "db_seq db"]) (simp_all add: db_ok_def db_ids)
  ultimately show "db_ok db'" using ok unfolding db_ok_def by (auto simp: db')
qed

lemma upsert_row_cases:
  assumes up: "upsert_row t now db = Inr (db', i)"
  obtains (update) f where "i = t_id t" "\<not> key_clash db (Some i) t" "i \<in> tr_id ` set (db_tasks db)"
      "db' = db\<lparr>db_tasks := update_where (\<lambda>r. tr_id r = i) (\<lambda>r. row_of t i (f r) now) (db_tasks db)\<rparr>"
      "\<And>r. f r \<noteq> None \<longleftrightarrow> t_archived t"
  | (insert) "i = t_id t" "\<not> key_clash db (Some i) t" "i \<notin> tr_id ` set (db_tasks db)"
      "db' = db\<lparr>db_tasks := db_tasks db @ [row_of t i (if t_archived t then Some now else None) now],
                db_seq := max (db_seq db) i\<rparr>"
proof -
  have i: "i = t_id t" and nc: "\<not> key_clash db (Some i) t"
    using up by (simp_all add: upsert_row_def Let_def split: if_splits)
  let ?a = "if t_archived t then Some now else None"
  let ?f = "\<lambda>r. case ?a of None \<Rightarrow> None | Some a \<Rightarrow> (case tr_archived_at r of None \<Rightarrow> Some a | Some a' \<Rightarrow> Some a')"
  show ?thesis
  proof (cases "i \<in> tr_id ` set (db_tasks db)")
    case True
    have "db' = db\<lparr>db_tasks := update_where (\<lambda>r. tr_id r = i) (\<lambda>r. row_of t i (?f r) now) (db_tasks db)\<rparr>"
      using up True i nc unfolding upsert_row_def Let_def by simp
    then show ?thesis by (rule update[OF i nc True]) (simp split: option.split)
  next
    case False
    then show ?thesis using up i nc by (intro insert) (simp_all add: upsert_row_def Let_def)
  qed
qed

lemma upsert_row_ok:
  assumes ok: "db_ok db" and up: "upsert_row t now db = Inr (db', i)" and id: "0 < t_id t"
  shows "db_ok db'"
  using up
proof (cases rule: upsert_row_cases)
  case (update f)
  have "id_keys db' = map (\<lambda>p. (fst p, if fst p = i then row_key t else snd p)) (id_keys db)"
    by (simp add: id_keys_def update update_where_def)
  moreover have "j = i" if "row_key t \<noteq> None" "(j, row_key t) \<in> set (id_keys db)" for j
    using update(2) that by (auto simp: key_clash_iff)
  ultimately show ?thesis
    using ok index_ok_update[OF _ row_key_not_Nil, of "id_keys db" "db_seq db" t i] unfolding db_ok_def
    by (simp add: update(4) image_image)
next
  case insert
  have "id_keys db' = id_keys db @ [(i, row_key t)]" by (simp add: id_keys_def insert)
  moreover have "row_key t = None \<or> row_key t \<notin> snd ` set (id_keys db)"
  proof (rule ccontr)
    assume c: "\<not> (row_key t = None \<or> row_key t \<notin> snd ` set (id_keys db))"
    then obtain j where j: "(j, row_key t) \<in> set (id_keys db)" by force
    then have "j = i" using insert(2) c by (auto simp: key_clash_iff)
    with j insert(3) show False by (force simp: db_ids)
  qed
  then have "index_ok (id_keys db @ [(i, row_key t)]) (max (db_seq db) i)"
    using ok id insert(1,3) row_key_not_Nil by (intro index_ok_append[where seq = "db_seq db"]) (simp_all add: db_ok_def db_ids)
  ultimately show ?thesis using ok unfolding db_ok_def by (auto simp: insert(4))
qed

section \<open>Events and session links\<close>

lemma insert_event_fold:
  assumes "distinct (map n_ref ns)"
  shows "foldl (insert_event i) es ns =
    es @ map (\<lambda>n. \<lparr>er_task = i, er_note = n\<rparr>)
      (filter (\<lambda>n. (i, n_ref n) \<notin> (\<lambda>e. (er_task e, n_ref (er_note e))) ` set es) ns)"
  using assms
proof (induction ns arbitrary: es)
  case (Cons n ns)
  show ?case
  proof (cases "(i, n_ref n) \<in> (\<lambda>e. (er_task e, n_ref (er_note e))) ` set es")
    case True
    then show ?thesis using Cons by (simp add: insert_event_def)
  next
    case False
    let ?es = "es @ [\<lparr>er_task = i, er_note = n\<rparr>]"
    have "filter (\<lambda>m. (i, n_ref m) \<notin> (\<lambda>e. (er_task e, n_ref (er_note e))) ` set ?es) ns =
        filter (\<lambda>m. (i, n_ref m) \<notin> (\<lambda>e. (er_task e, n_ref (er_note e))) ` set es) ns"
      using Cons.prems by (intro filter_cong) (auto simp: rev_image_eqI)
    then show ?thesis using False Cons by (simp add: insert_event_def)
  qed
qed simp

text \<open>The stored entries of one task, in insertion order.\<close>

definition events_of :: "tasks_db \<Rightarrow> int \<Rightarrow> task_note list" where
  "events_of db i = map er_note (filter (\<lambda>e. er_task e = i) (db_events db))"

lemma event_keys: "(i, r) \<in> (\<lambda>e. (er_task e, n_ref (er_note e))) ` set (db_events db) \<longleftrightarrow> r \<in> n_ref ` set (events_of db i)"
  unfolding events_of_def by force

lemma insert_session_fold:
  assumes "i \<notin> sn_task ` set ss" "distinct sids"
  shows "foldl (insert_session i now) ss (enumerate k sids) =
    ss @ map (\<lambda>(n, sid). \<lparr>sn_task = i, sn_session = sid, sn_created_at = now + int n\<rparr>) (enumerate k sids)"
proof -
  have "foldl (insert_session i now) (ss @ rows) (enumerate k sids) =
      (ss @ rows) @ map (\<lambda>(n, sid). \<lparr>sn_task = i, sn_session = sid, sn_created_at = now + int n\<rparr>) (enumerate k sids)"
    if "distinct sids" "set sids \<inter> sn_session ` set rows = {}" for rows
    using that
  proof (induction sids arbitrary: rows k)
    case (Cons sid sids)
    have "(i, sid) \<notin> (\<lambda>s. (sn_task s, sn_session s)) ` set (ss @ rows)"
      using assms(1) Cons.prems by auto
    then have "foldl (insert_session i now) (ss @ rows) (enumerate k (sid # sids)) =
        foldl (insert_session i now) (ss @ (rows @ [\<lparr>sn_task = i, sn_session = sid, sn_created_at = now + int k\<rparr>])) (enumerate (Suc k) sids)"
      by (simp add: insert_session_def)
    then show ?case
      using Cons.IH[of "rows @ [\<lparr>sn_task = i, sn_session = sid, sn_created_at = now + int k\<rparr>]" "Suc k"] Cons.prems by simp
  qed simp
  from this[of "[]"] assms(2) show ?thesis by simp
qed

text \<open>What saving does to the two tables.\<close>

lemma saveTask_cases:
  assumes "saveTask t now db = Inr (db', i)"
  obtains db1 where "(if t_id t = 0 then insert_row t (unix_milli now) db else upsert_row t (unix_milli now) db) = Inr (db1, i)"
    "db' = db1\<lparr>db_events := foldl (insert_event i) (db_events db1) (t_timeline t),
      db_sessions := foldl (insert_session i (unix_milli now)) (filter (\<lambda>s. sn_task s \<noteq> i) (db_sessions db1)) (enumerate 0 (t_sessions t))\<rparr>"
    "db_events db1 = db_events db" "db_sessions db1 = db_sessions db" "db_meta db1 = db_meta db" "db_projects db1 = db_projects db"
proof -
  obtain db1 where r: "(if t_id t = 0 then insert_row t (unix_milli now) db else upsert_row t (unix_milli now) db) = Inr (db1, i)"
    using assms by (auto simp: saveTask_def Let_def split: sum.splits prod.splits)
  have "db_events db1 = db_events db \<and> db_sessions db1 = db_sessions db \<and> db_meta db1 = db_meta db \<and> db_projects db1 = db_projects db"
    using r by (auto simp: insert_row_def upsert_row_def Let_def split: if_splits)
  then show ?thesis using assms r by (intro that[of db1]) (simp_all add: saveTask_def Let_def)
qed

lemma foldl_insert_event_tasks:
  "er_task ` set (foldl (insert_event i) es ns) \<subseteq> insert i (er_task ` set es)"
  proof (induction ns arbitrary: es)
  case (Cons n ns)
  have "er_task ` set (insert_event i es n) \<subseteq> insert i (er_task ` set es)"
    by (simp add: insert_event_def subset_insertI)
  then show ?case using Cons[of "insert_event i es n"] by (simp only: foldl_Cons) blast
qed (simp add: subset_insertI)

text \<open>The row that is stored.\<close>

lemma saved_row:
  assumes "saveTask t now db = Inr (db', i)" "db_ok db"
  shows "\<exists>a. find (\<lambda>r. tr_id r = i) (db_tasks db') = Some (row_of t i a (unix_milli now)) \<and> (a \<noteq> None \<longleftrightarrow> t_archived t)"
  using assms(1)
proof (cases rule: saveTask_cases)
  case (1 db1)
  have app: "find (\<lambda>r. tr_id r = i) (rs @ [row_of t i a m]) = Some (row_of t i a m)" if "i \<notin> tr_id ` set rs" for rs a m
    using that by (induction rs) simp_all
  have upd: "\<exists>r. find (\<lambda>r. tr_id r = i) (update_where (\<lambda>r. tr_id r = i) (\<lambda>r. row_of t i (f r) m) rs) = Some (row_of t i (f r) m)"
    if "i \<in> tr_id ` set rs" for rs f m
    using that
  proof (induction rs)
    case (Cons r rs)
    show ?case
    proof (cases "tr_id r = i")
      case True
      then have "find (\<lambda>r. tr_id r = i) (update_where (\<lambda>r. tr_id r = i) (\<lambda>r. row_of t i (f r) m) (r # rs)) = Some (row_of t i (f r) m)"
        by simp
      then show ?thesis ..
    next
      case False
      then have "find (\<lambda>r. tr_id r = i) (update_where (\<lambda>r. tr_id r = i) (\<lambda>r. row_of t i (f r) m) (r # rs)) =
          find (\<lambda>r. tr_id r = i) (update_where (\<lambda>r. tr_id r = i) (\<lambda>r. row_of t i (f r) m) rs)"
        by simp
      moreover have "i \<in> tr_id ` set rs" using False Cons.prems by (metis insertE list.simps(15) image_insert)
      ultimately show ?thesis using Cons.IH by presburger
    qed
  qed simp
  show ?thesis
  proof (cases "t_id t = 0")
    case True
    then have ins: "insert_row t (unix_milli now) db = Inr (db1, i)" using 1(1) by simp
    then have "db_tasks db1 = db_tasks db @ [row_of t i (if t_archived t then Some (unix_milli now) else None) (unix_milli now)]"
      by (auto simp: insert_row_def Let_def split: if_splits)
    then have "find (\<lambda>r. tr_id r = i) (db_tasks db') =
        Some (row_of t i (if t_archived t then Some (unix_milli now) else None) (unix_milli now))"
      using app insert_row_ok(3)[OF assms(2) ins] by (simp add: 1(2))
    then show ?thesis by (intro exI conjI) (assumption, simp)
  next
    case False
    then have "upsert_row t (unix_milli now) db = Inr (db1, i)" using 1(1) by simp
    then show ?thesis
    proof (cases rule: upsert_row_cases)
      case (update f)
      then obtain r where "find (\<lambda>r. tr_id r = i) (db_tasks db') = Some (row_of t i (f r) (unix_milli now))"
        using upd[of "db_tasks db" f "unix_milli now"] by (simp add: 1(2)) blast
      then show ?thesis using update(5) by blast
    next
      case insert
      then have "find (\<lambda>r. tr_id r = i) (db_tasks db') =
          Some (row_of t i (if t_archived t then Some (unix_milli now) else None) (unix_milli now))"
        using app by (simp add: 1(2))
      then show ?thesis by (intro exI conjI) (assumption, simp)
    qed
  qed
qed

lemma foldl_insert_event_distinct:
  "distinct (map (\<lambda>e. (er_task e, n_ref (er_note e))) es) \<Longrightarrow>
   distinct (map (\<lambda>e. (er_task e, n_ref (er_note e))) (foldl (insert_event i) es ns))"
  by (induction ns arbitrary: es) (simp_all add: insert_event_def)

lemma foldl_insert_session_distinct:
  "distinct (map (\<lambda>s. (sn_task s, sn_session s)) ss) \<Longrightarrow>
   distinct (map (\<lambda>s. (sn_task s, sn_session s)) (foldl (insert_session i now) ss ps))"
  by (induction ps arbitrary: ss) (simp_all add: insert_session_def split: prod.split)

lemma distinct_map_filter': "distinct (map f xs) \<Longrightarrow> distinct (map f (filter P xs))"
  by (induction xs) auto

lemma saveTask_ok:
  assumes ok: "db_ok db" and id: "0 \<le> t_id t" and save: "saveTask t now db = Inr (db', i)"
  shows "db_ok db'"
  using save
proof (cases rule: saveTask_cases)
  case (1 db1)
  have ok1: "db_ok db1"
    using 1(1) insert_row_ok(1)[OF ok, of t "unix_milli now" db1 i] upsert_row_ok[OF ok, of t "unix_milli now" db1 i] id
    by (simp split: if_splits)
  have "i \<in> tr_id ` set (db_tasks db')"
  proof -
    obtain r where "find (\<lambda>r. tr_id r = i) (db_tasks db') = Some r" using saved_row[OF save ok] by blast
    from find_SomeD[OF this] show ?thesis by blast
  qed
  then have row: "i \<in> fst ` set (id_keys db1)" by (simp add: db_ids[symmetric] 1(2))
  have "er_task ` set (foldl (insert_event i) (db_events db1) (t_timeline t)) \<subseteq> fst ` set (id_keys db1)"
    using foldl_insert_event_tasks[of i "db_events db1" "t_timeline t"] row ok1 unfolding db_ok_def by blast
  moreover have "id_keys db' = id_keys db1" "db_seq db' = db_seq db1" by (simp_all add: id_keys_def 1(2))
  ultimately show ?thesis
    using ok1 unfolding db_ok_def
    by (simp add: 1(2) foldl_insert_event_distinct foldl_insert_session_distinct distinct_map_filter')
qed

lemma saveTask_id: "t_id t \<noteq> 0 \<Longrightarrow> saveTask t now db = Inr (db', i) \<Longrightarrow> i = t_id t"
  by (auto simp: saveTask_def upsert_row_def Let_def split: sum.splits prod.splits if_splits)

section \<open>Looking a task up by id\<close>

definition find_task :: "tasks_db \<Rightarrow> int \<Rightarrow> task option" where
  "find_task db i = map_option (load_row db) (find (\<lambda>r. tr_id r = i) (db_tasks db))"

lemma load_row_cong:
  assumes "events_of db' (tr_id r) = events_of db (tr_id r)"
    "filter (\<lambda>s. sn_task s = tr_id r) (db_sessions db') = filter (\<lambda>s. sn_task s = tr_id r) (db_sessions db)"
  shows "load_row db' r = load_row db r"
  using assms by (simp add: load_row_def load_timeline_def load_sessions_def events_of_def)

lemma find_update_where_other:
  "j \<noteq> i \<Longrightarrow> (\<And>r. tr_id (f r) = i) \<Longrightarrow> find (\<lambda>r. tr_id r = j) (update_where (\<lambda>r. tr_id r = i) f rs) = find (\<lambda>r. tr_id r = j) rs"
  by (induction rs) simp_all

lemma filter_insert_event: "j \<noteq> i \<Longrightarrow> filter (\<lambda>e. er_task e = j) (foldl (insert_event i) es ns) = filter (\<lambda>e. er_task e = j) es"
  by (induction ns arbitrary: es) (simp_all add: insert_event_def)

lemma filter_insert_session: "j \<noteq> i \<Longrightarrow> filter (\<lambda>s. sn_task s = j) (foldl (insert_session i now) ss ps) = filter (\<lambda>s. sn_task s = j) ss"
  by (induction ps arbitrary: ss) (simp_all add: insert_session_def split: prod.split)

lemma saveTask_other:
  assumes "saveTask t now db = Inr (db', i)" "j \<noteq> i"
  shows "find_task db' j = find_task db j"
  using assms(1)
proof (cases rule: saveTask_cases)
  case (1 db1)
  have rows: "find (\<lambda>r. tr_id r = j) (db_tasks db') = find (\<lambda>r. tr_id r = j) (db_tasks db)"
  proof (cases "t_id t = 0")
    case True
    then show ?thesis using 1(1) assms(2) by (auto simp: 1(2) insert_row_def Let_def find_append split: if_splits option.splits)
  next
    case False
    then have "upsert_row t (unix_milli now) db = Inr (db1, i)" using 1(1) by simp
    then show ?thesis
      by (cases rule: upsert_row_cases)
         (use assms(2) in \<open>auto simp: 1(2) find_append find_update_where_other split: option.splits\<close>)
  qed
  have flt: "filter (\<lambda>s. sn_task s = j) (filter (\<lambda>s. sn_task s \<noteq> i) ss) = filter (\<lambda>s. sn_task s = j) ss" for ss
    using assms(2) by (induction ss) auto
  have evs: "events_of db' j = events_of db j"
    using assms(2) by (simp add: 1(2,3) events_of_def filter_insert_event)
  have sess: "filter (\<lambda>s. sn_task s = j) (db_sessions db') = filter (\<lambda>s. sn_task s = j) (db_sessions db)"
    using assms(2) by (simp add: 1(2,4) filter_insert_session flt del: filter_filter)
  have "load_row db' r = load_row db r" if "tr_id r = j" for r
    by (rule load_row_cong) (simp_all add: that evs sess)
  then show ?thesis
    unfolding find_task_def rows by (cases "find (\<lambda>r. tr_id r = j) (db_tasks db)") (auto dest: find_SomeD)
qed

interpretation tasks_table: task_table find_task "\<lambda>t. saveTask t now" t_id db_ok for now
proof
  show "t_id t \<noteq> 0 \<Longrightarrow> saveTask t now db = Inr (db', i) \<Longrightarrow> i = t_id t" for t db db' i
    by (rule saveTask_id)
  show "saveTask t now db = Inr (db', i) \<Longrightarrow> j \<noteq> i \<Longrightarrow> find_task db' j = find_task db j" for t db db' i j
    by (rule saveTask_other)
  show "db_ok db \<Longrightarrow> 0 \<le> t_id t \<Longrightarrow> saveTask t now db = Inr (db', i) \<Longrightarrow> db_ok db'" for db t db' i
    by (rule saveTask_ok)
qed

lemma save_all_list: "save_all ts now db = tasks_table.save_list now ts db"
  by (induction ts arbitrary: db) (simp_all split: sum.split)

section \<open>What was saved is what is loaded\<close>

text \<open>
  A timeline has grown from the stored entries when it is in order and, among the entries of one
  instant, the stored ones come first and the new ones follow: then the database, which appends
  the new entries and sorts when it loads, gives the same timeline back.
\<close>

definition at_time :: "string \<Rightarrow> task_note \<Rightarrow> bool" where
  "at_time k n \<longleftrightarrow> n_at n = k"

definition grown :: "task_note list \<Rightarrow> task_note list \<Rightarrow> bool" where
  "grown es ns \<longleftrightarrow>
     in_order note_less ns \<and> distinct (map n_ref ns)
     \<and> (\<forall>k. filter (at_time k) ns =
           filter (at_time k) es @ filter (at_time k) (filter (\<lambda>n. n_ref n \<notin> n_ref ` set es) ns))"

lemma event_less_eq: "event_less = note_less"
  by (intro ext) (simp add: event_less_def note_less_def)

lemma note_equiv: "(\<lambda>y. \<not> note_less k y \<and> \<not> note_less y k) = at_time (n_at k)"
  by (auto simp: note_less_def at_time_def fun_eq_iff)

lemma filter_at_sort: "filter (at_time k) (stable_sort note_less ns) = filter (at_time k) ns"
  using note_order.stable_sort_stable[of "\<lparr>n_at = k, n_source = [], n_text = [], n_link = [], n_ref = []\<rparr>" ns]
  by (simp add: note_equiv)

lemma sort_in_order: "in_order note_less (stable_sort note_less ns)"
  by (rule note_order.sorted_stable_sort) simp

lemma in_order_unique:
  assumes "in_order note_less xs" "in_order note_less ys" "\<And>k. filter (at_time k) xs = filter (at_time k) ys"
  shows "xs = ys"
  using assms(1,2) by (rule note_order.sorted_stable_unique[rotated 2]) (simp_all add: note_equiv assms(3))

lemma grown_sorted: "distinct (map n_ref es) \<Longrightarrow> grown es (stable_sort note_less es)"
  unfolding grown_def by (simp add: sort_in_order filter_at_sort)

lemma grown_append:
  assumes "grown es ns" "n_ref n \<notin> n_ref ` set ns"
  shows "grown es (stable_sort note_less (ns @ [n]))"
proof -
  let ?new = "\<lambda>m. n_ref m \<notin> n_ref ` set es"
  have at: "filter (at_time k) (filter ?new (stable_sort note_less ms)) = filter ?new (filter (at_time k) ms)" for k ms
    unfolding filter_at_sort[of k ms, symmetric] by (simp only: filter_filter conj_commute)
  show ?thesis
  proof (cases "?new n")
    case True
    have flt: "filter (at_time k) ns = filter (at_time k) es @ filter (at_time k) (filter ?new ns)" for k
      using assms(1) by (simp add: grown_def)
    have "filter (at_time k) (stable_sort note_less (ns @ [n])) =
        filter (at_time k) es @ filter (at_time k) (filter ?new (stable_sort note_less (ns @ [n])))" for k
    proof -
      have none: "filter ?new (filter (at_time k) es) = []" by (auto simp: filter_empty_conv)
      have all: "filter ?new (filter (at_time k) (filter ?new ns)) = filter (at_time k) (filter ?new ns)"
        by (rule filter_True) simp
      have "filter (at_time k) (ns @ [n]) = filter (at_time k) es @ filter ?new (filter (at_time k) (ns @ [n]))"
        using True unfolding filter_append flt[of k] none all by simp
      then show ?thesis unfolding at filter_at_sort .
    qed
    moreover have "distinct (map n_ref (stable_sort note_less (ns @ [n])))"
      using assms by (simp add: grown_def)
    ultimately show ?thesis unfolding grown_def using sort_in_order by blast
  next
    case False
    then obtain e where e: "e \<in> set es" "n_ref e = n_ref n" by auto
    have "e \<in> set (filter (at_time (n_at e)) es)" using e(1) by (simp add: at_time_def)
    then have "e \<in> set ns" using assms(1) unfolding grown_def by (metis UnI1 filter_is_subset set_append subsetD)
    then show ?thesis using e(2) assms(2) by (metis image_eqI)
  qed
qed

lemma load_grown:
  assumes "grown es ns"
  shows "stable_sort note_less (es @ filter (\<lambda>n. n_ref n \<notin> n_ref ` set es) ns) = ns"
proof (rule in_order_unique)
  show "filter (at_time k) (stable_sort note_less (es @ filter (\<lambda>n. n_ref n \<notin> n_ref ` set es) ns)) = filter (at_time k) ns" for k
    using assms unfolding filter_at_sort filter_append grown_def by metis
  show "in_order note_less ns" using assms by (simp add: grown_def)
qed (rule sort_in_order)

lemma grown_AddNote: "grown es (t_timeline t) \<Longrightarrow> grown es (t_timeline (fst (AddNote t n)))"
  by (simp add: AddNote_eq dropped_def grown_append)

section \<open>Save, then load\<close>

lemma strict_created: "strict_weak S (\<lambda>a b. sn_created_at a < sn_created_at b)"
  by (rule strict_weak_key)

lemma sessions_in_order:
  "in_order (\<lambda>a b. sn_created_at a < sn_created_at b)
     (map (\<lambda>(n, sid). \<lparr>sn_task = i, sn_session = sid, sn_created_at = now + int n\<rparr>) (enumerate k sids))"
  by (induction sids arbitrary: k) (auto simp: in_set_enumerate_eq)

lemma load_row_of:
  "load_row db (row_of t i a ms) =
     t\<lparr>t_id := i, t_archived := (a \<noteq> None), t_updated_at := ms, t_timeline := load_timeline db i,
       t_sessions := load_sessions db i, t_bucket := []\<rparr>"
  by (simp add: load_row_def row_of_def row_key_def)

lemma events_of_saved:
  assumes "saveTask t now db = Inr (db', i)" "distinct (map n_ref (t_timeline t))"
  shows "events_of db' i = events_of db i @ filter (\<lambda>n. n_ref n \<notin> n_ref ` set (events_of db i)) (t_timeline t)"
  using assms(1)
proof (cases rule: saveTask_cases)
  case (1 db1)
  have all: "filter (\<lambda>e. er_task e = i) (map (\<lambda>n. \<lparr>er_task = i, er_note = n\<rparr>) ns) = map (\<lambda>n. \<lparr>er_task = i, er_note = n\<rparr>) ns" for ns
    by (induction ns) simp_all
  have "map er_note (map (\<lambda>n. \<lparr>er_task = i, er_note = n\<rparr>) ns) = ns" for ns
    by (induction ns) simp_all
  then show ?thesis
    unfolding events_of_def[of db'] 1(2) by (simp add: 1(3) insert_event_fold[OF assms(2)] all event_keys) (simp add: events_of_def)
qed

lemma sessions_of_saved:
  assumes "saveTask t now db = Inr (db', i)" "distinct (t_sessions t)"
  shows "load_sessions db' i = t_sessions t"
  using assms(1)
proof (cases rule: saveTask_cases)
  case (1 db1)
  let ?ss = "filter (\<lambda>s. sn_task s \<noteq> i) (db_sessions db1)"
  let ?rows = "map (\<lambda>(n, sid). \<lparr>sn_task = i, sn_session = sid, sn_created_at = unix_milli now + int n\<rparr>) (enumerate 0 (t_sessions t))"
  have "i \<notin> sn_task ` set ?ss" by auto
  then have "foldl (insert_session i (unix_milli now)) ?ss (enumerate 0 (t_sessions t)) = ?ss @ ?rows"
    using assms(2) by (rule insert_session_fold)
  moreover have "filter (\<lambda>s. sn_task s = i) (?ss @ ?rows) = ?rows"
    by (simp add: filter_empty_conv split_beta filter_True)
  ultimately have "load_sessions db' i = map sn_session ?rows"
    unfolding load_sessions_def 1(2) by (simp add: strict_weak.stable_sort_id[OF strict_created subset_UNIV sessions_in_order])
  moreover have "map sn_session ?rows = t_sessions t"
    by (rule nth_equalityI) (simp_all add: nth_enumerate_eq)
  ultimately show ?thesis by simp
qed

lemma load_saved:
  assumes save: "saveTask t now db = Inr (db', i)" and ok: "db_ok db"
    and "grown (events_of db i) (t_timeline t)" "distinct (t_sessions t)"
  shows "find_task db' i = Some (t\<lparr>t_id := i, t_updated_at := unix_milli now, t_bucket := []\<rparr>)"
proof -
  have "load_timeline db' i = t_timeline t"
    using load_grown[OF assms(3)] events_of_saved[OF save] assms(3)
    unfolding load_timeline_def event_less_eq events_of_def[symmetric] by (simp add: grown_def)
  then show ?thesis
    using saved_row[OF save ok] sessions_of_saved[OF save assms(4)] by (auto simp: find_task_def load_row_of)
qed

section \<open>What an edit keeps of the storage's view of a task\<close>

text \<open>Every edit keeps the id, and only adds timeline entries.\<close>

definition tracks :: "task_note list \<Rightarrow> task \<Rightarrow> task \<Rightarrow> bool" where
  "tracks es t u \<longleftrightarrow> t_id u = t_id t \<and> (grown es (t_timeline t) \<longrightarrow> grown es (t_timeline u))"

lemma tracks_same: "t_id u = t_id t \<Longrightarrow> t_timeline u = t_timeline t \<Longrightarrow> tracks es t u"
  by (simp add: tracks_def)

lemma tracks_refl [simp]: "tracks es t t"
  by (rule tracks_same) simp_all

lemma tracks_trans: "tracks es a b \<Longrightarrow> tracks es b c \<Longrightarrow> tracks es a c"
  by (simp add: tracks_def)

lemma tracks_AddNote: "tracks es t (fst (AddNote t n))"
  by (simp add: tracks_def grown_AddNote)

lemma tracks_note: "t_id u = t_id t \<Longrightarrow> t_timeline u = t_timeline t \<Longrightarrow> tracks es t (fst (AddNote u n))"
  by (rule tracks_trans[OF tracks_same tracks_AddNote])

lemma tracks_SetStatus: "tracks es t (SetStatus t st why src now)"
  by (simp add: SetStatus_def Let_def) (intro conjI impI tracks_note; simp)+

lemma tracks_Replan: "tracks es t (fst (Replan t plan why auto src now))"
proof (cases "snd (Replan t plan why auto src now) = Inr True \<and> (auto \<or> why \<noteq> [])")
  case True
  then show ?thesis
    by (auto simp only: Replan_def Let_def snd_conv fst_conv sum.simps split: if_splits intro!: tracks_note) simp_all
next
  case False
  then show ?thesis
    by (auto simp only: Replan_def Let_def snd_conv fst_conv sum.simps split: if_splits intro!: tracks_same) simp_all
qed

lemma tracks_steps:
  "(\<And>v u. t_id (upd v u) = t_id u \<and> t_timeline (upd v u) = t_timeline u) \<Longrightarrow> tracks es (fst s) (fst (set_field get upd v trim s))"
  "tracks es (fst s) (fst (set_priority p s))"
  "tracks es (fst s) (fst (apply_status p why src now s))"
  "tracks es (fst s) (fst (fst (apply_plan p why src now s)))"
  "tracks es (fst s) (fst (add_links xs s))" "tracks es (fst s) (fst (remove_links xs s))"
  "tracks es (fst s) (fst (add_sessions xs s))" "tracks es (fst s) (fst (remove_sessions xs s))"
  "tracks es (fst s) (fst (fst (apply_archived p s)))"
proof -
  show "tracks es (fst s) (fst (set_field get upd v trim s))"
    if "\<And>v u. t_id (upd v u) = t_id u \<and> t_timeline (upd v u) = t_timeline u"
    using that by (cases s) (simp add: set_field_def Let_def tracks_same split: option.split)
  show "tracks es (fst s) (fst (set_priority p s))" by (cases s) (simp add: set_priority_def tracks_same split: option.split)
  show "tracks es (fst s) (fst (apply_status p why src now s))"
    by (cases s) (simp add: apply_status_def tracks_SetStatus split: option.split)
  show "tracks es (fst s) (fst (fst (apply_plan p why src now s)))"
  proof -
    have "tracks es t u" if "Replan t plan why (p_auto p) src now = (u, r)" for t u plan r
      using tracks_Replan[of es t plan why "p_auto p" src now] that by simp
    then show ?thesis by (cases s) (simp add: apply_plan_def split: option.split sum.split prod.split)
  qed
qed (cases s; simp add: add_links_def remove_links_def add_sessions_def remove_sessions_def apply_archived_def Let_def tracks_same split: option.split)+

lemma tracks_run: "(\<And>f s. f \<in> set fs \<Longrightarrow> tracks es (fst s) (fst (f s))) \<Longrightarrow> tracks es (fst s) (fst (run_steps fs s))"
proof (induction fs arbitrary: s)
  case (Cons f fs)
  have "tracks es (fst s) (fst (f s))" by (rule Cons.prems) simp
  moreover have "tracks es (fst (f s)) (fst (run_steps fs (f s)))" by (rule Cons.IH) (rule Cons.prems, simp)
  ultimately show ?case using tracks_trans by simp
qed simp

lemma tracks_fields: "tracks es t (fst (apply_fields t p))"
proof -
  have "tracks es (fst s) (fst (f s))" if "f \<in> set (field_steps p)" for f s
    using that by (simp only: field_steps_def set_simps insert_iff empty_iff) (elim disjE FalseE; simp add: tracks_steps)
  then have "tracks es (fst (t, False)) (fst (run_steps (field_steps p) (t, False)))" by (rule tracks_run)
  then show ?thesis by (simp add: apply_fields_def)
qed

lemma tracks_lists: "tracks es (fst s) (fst (apply_lists p s))"
  unfolding apply_lists_def by (rule tracks_run) (simp only: set_simps insert_iff empty_iff, elim disjE FalseE; simp add: tracks_steps)

lemma tracks_Apply: "tracks es t (fst (fst (Apply t p now)))"
proof (cases "apply_check p")
  case None
  define src why where "src = (if p_source p = [] then SourceClaude else p_source p)" and "why = trim_space (p_why p)"
  define s where "s = apply_status p why src now (apply_fields t p)"
  obtain s2 e where s2: "apply_plan p why src now s = (s2, e)" by (cases "apply_plan p why src now s")
  have "tracks es t (fst s)" unfolding s_def using tracks_trans tracks_fields tracks_steps(3) by blast
  then have "tracks es t (fst s2)" using tracks_steps(4)[of es s p why src now] s2 tracks_trans by fastforce
  then have "tracks es t (fst (fst (case e of None \<Rightarrow> apply_archived p (apply_lists p s2) | Some x \<Rightarrow> (s2, Some x))))"
    using tracks_trans tracks_lists tracks_steps(9) by (cases e) (simp, blast, simp)
  then show ?thesis
    using None s2 by (simp add: Apply_def src_def[symmetric] why_def[symmetric] s_def[symmetric] Let_def)
qed (simp add: Apply_def Let_def)

section \<open>Operations\<close>

lemma bump_tables [simp]:
  "db_tasks (bumpTasksRev db) = db_tasks db" "db_seq (bumpTasksRev db) = db_seq db"
  "db_events (bumpTasksRev db) = db_events db" "db_sessions (bumpTasksRev db) = db_sessions db"
  "db_projects (bumpTasksRev db) = db_projects db"
  by (simp_all add: bumpTasksRev_def setTaskMeta_def split: option.split)

lemma ensureProject_tables [simp]:
  "db_tasks (ensureProject pick now n db) = db_tasks db" "db_seq (ensureProject pick now n db) = db_seq db"
  "db_events (ensureProject pick now n db) = db_events db" "db_sessions (ensureProject pick now n db) = db_sessions db"
  "db_meta (ensureProject pick now n db) = db_meta db"
  by (simp_all add: ensureProject_def)

lemma ensureProjects_tables [simp]:
  "db_tasks (ensureProjects pick now ns db) = db_tasks db" "db_seq (ensureProjects pick now ns db) = db_seq db"
  "db_events (ensureProjects pick now ns db) = db_events db" "db_sessions (ensureProjects pick now ns db) = db_sessions db"
  "db_meta (ensureProjects pick now ns db) = db_meta db"
  unfolding ensureProjects_def by (induction ns arbitrary: db) simp_all

text \<open>The tables of tasks; the metadata and the projects are beside them.\<close>

definition task_tables where
  "task_tables db = (db_tasks db, db_seq db, db_events db, db_sessions db)"

lemma task_tables_beside [simp]:
  "task_tables (bumpTasksRev db) = task_tables db" "task_tables (ensureProjects pick now ns db) = task_tables db"
  "task_tables (setTaskMeta k v db) = task_tables db"
  by (simp_all add: task_tables_def setTaskMeta_def)

lemma task_tables_eqD:
  assumes "task_tables db' = task_tables db"
  shows "db_tasks db' = db_tasks db" "db_seq db' = db_seq db" "db_events db' = db_events db" "db_sessions db' = db_sessions db"
  using assms unfolding task_tables_def prod.inject by blast+

lemma db_ok_cong:
  assumes "task_tables db' = task_tables db"
  shows "db_ok db' = db_ok db"
  unfolding db_ok_def id_keys_def task_tables_eqD[OF assms] ..

lemma find_task_cong:
  assumes "task_tables db' = task_tables db"
  shows "find_task db' i = find_task db i"
proof -
  have "load_row db' = load_row db"
    by (rule ext, rule load_row_cong) (simp_all only: task_tables_eqD[OF assms] events_of_def)
  then show ?thesis unfolding find_task_def task_tables_eqD(1)[OF assms] by (rule arg_cong)
qed

lemma db_ok_beside [simp]:
  "db_ok (bumpTasksRev db) = db_ok db" "db_ok (ensureProjects pick now ns db) = db_ok db" "db_ok (setTaskMeta k v db) = db_ok db"
  by (rule db_ok_cong, simp)+

lemma find_task_beside [simp]:
  "find_task (bumpTasksRev db) i = find_task db i" "find_task (ensureProjects pick now ns db) i = find_task db i"
  by (rule find_task_cong, simp)+

text \<open>How a transaction ends.\<close>

lemma inTx_cases:
  obtains (keep) "fst (inTx f db) = db" "\<And>d x. f db \<noteq> Inr (d, True, x)"
  | (commit) d x where "f db = Inr (d, True, x)" "inTx f db = (bumpTasksRev d, Inr x)"
  by (cases "f db") (auto simp: inTx_def split: prod.splits if_splits)

lemma inTx_Inl: "snd (inTx f db) = Inl e \<Longrightarrow> inTx f db = (db, Inl e)"
  by (auto simp: inTx_def split: sum.splits prod.splits if_splits)

section \<open>Finding a task by its printed id\<close>

lemma itoa_ident: "0 \<le> i \<Longrightarrow> trim_space (itoa i) = itoa i \<and> trim_prefix (itoa i) ''#'' = itoa i"
proof
  assume "0 \<le> i"
  then have d: "list_all is_digit (itoa i)" by (simp add: itoa_def nat_digits_digits)
  then show "trim_space (itoa i) = itoa i" by (intro trim_space_graphic digits_graphic)
  show "trim_prefix (itoa i) ''#'' = itoa i"
    using d is_digit_not_sign[of "hd (itoa i)"] by (cases "itoa i") (auto simp: trim_prefix_def)
qed

lemma taskWhere_itoa: "0 \<le> i \<Longrightarrow> i < 2 ^ 63 \<Longrightarrow> taskWhere (itoa i) r \<longleftrightarrow> tr_id r = i"
  using itoa_ident[of i] parse_int64_itoa[of i] by (simp add: taskWhere_def Let_def)

lemma filter_id: "distinct (map tr_id rs) \<Longrightarrow> filter (\<lambda>r. tr_id r = i) rs = (case find (\<lambda>r. tr_id r = i) rs of None \<Rightarrow> [] | Some r \<Rightarrow> [r])"
proof (induction rs)
  case (Cons r rs)
  show ?case
  proof (cases "tr_id r = i")
    case True
    then have "\<And>r'. r' \<in> set rs \<Longrightarrow> tr_id r' \<noteq> i" using Cons.prems by (metis distinct.simps(2) image_eqI list.set_map list.simps(9))
    then have "filter (\<lambda>r. tr_id r = i) rs = []" by (simp add: filter_empty_conv)
    then show ?thesis using True by simp
  qed (use Cons in simp)
qed simp

lemma db_ok_distinct: "db_ok db \<Longrightarrow> distinct (map tr_id (db_tasks db))"
  by (simp add: db_ok_def index_ok_def id_keys_def comp_def)

lemma GetTask_itoa:
  assumes "db_ok db" "0 \<le> i" "i < 2 ^ 63"
  shows "GetTask (itoa i) db = (case find_task db i of None \<Rightarrow> Inl (TaskNotFound (itoa i)) | Some t \<Rightarrow> Inr t)"
proof -
  have "filter (taskWhere (itoa i)) (db_tasks db) = filter (\<lambda>r. tr_id r = i) (db_tasks db)"
    by (rule filter_cong[OF refl]) (rule taskWhere_itoa[OF assms(2,3)])
  then show ?thesis
    unfolding GetTask_def loadOne_def loadTasks_def filter_id[OF db_ok_distinct[OF assms(1)]] find_task_def
    by (simp split: option.split)
qed

lemma loadOne_row:
  assumes "loadOne ident db = Inr t"
  shows "\<exists>r \<in> set (db_tasks db). t = load_row db r"
proof -
  obtain rs where "stable_sort (\<lambda>a b. tr_id a < tr_id b) (filter (taskWhere ident) (db_tasks db)) = rs" by blast
  moreover from this have "set rs \<subseteq> set (db_tasks db)" by auto
  ultimately show ?thesis using assms by (cases rs) (auto simp: loadOne_def loadTasks_def)
qed

lemma find_task_row: "db_ok db \<Longrightarrow> r \<in> set (db_tasks db) \<Longrightarrow> find_task db (tr_id r) = Some (load_row db r)"
  using find_unique[OF db_ok_distinct] by (simp add: find_task_def)

lemma load_row_id [simp]: "t_id (load_row db r) = tr_id r"
  by (simp add: load_row_def)

lemma events_of_refs:
  "map (Pair i) (map n_ref (map er_note (filter (\<lambda>e. er_task e = i) es))) =
   filter (\<lambda>p. fst p = i) (map (\<lambda>e. (er_task e, n_ref (er_note e))) es)"
  by (induction es) simp_all

lemma events_of_distinct: "db_ok db \<Longrightarrow> distinct (map n_ref (events_of db i))"
proof -
  assume "db_ok db"
  then have "distinct (filter (\<lambda>p. fst p = i) (map (\<lambda>e. (er_task e, n_ref (er_note e))) (db_events db)))"
    by (intro distinct_filter) (simp add: db_ok_def)
  then show ?thesis unfolding events_of_def events_of_refs[symmetric] by (rule distinct_map[THEN iffD1, THEN conjunct1])
qed

lemma load_row_grown: "db_ok db \<Longrightarrow> grown (events_of db (tr_id r)) (t_timeline (load_row db r))"
  using grown_sorted[OF events_of_distinct]
  by (simp add: load_row_def load_timeline_def event_less_eq events_of_def[symmetric])

lemma row_id_pos: "db_ok db \<Longrightarrow> r \<in> set (db_tasks db) \<Longrightarrow> 0 < tr_id r \<and> tr_id r \<le> db_seq db"
proof -
  assume ok: "db_ok db" and "r \<in> set (db_tasks db)"
  then have "tr_id r \<in> fst ` set (id_keys db)" by (simp add: db_ids[symmetric])
  with ok show ?thesis unfolding db_ok_def index_ok_def by blast
qed

section \<open>What an operation can do to the database\<close>

text \<open>
  Leave the tables as they are, or commit well-formed ones and count the change; either way it
  may also create projects.
\<close>

definition same_beside :: "tasks_db \<Rightarrow> tasks_db \<Rightarrow> bool" where
  "same_beside a b \<longleftrightarrow> map_of (db_meta a) ''rev'' = map_of (db_meta b) ''rev'' \<and> db_projects a = db_projects b"

definition effect :: "tasks_db \<Rightarrow> tasks_db \<Rightarrow> bool" where
  "effect db db' \<longleftrightarrow>
     (\<exists>pick now ns. db' = ensureProjects pick now ns db)
     \<or> (\<exists>pick now ns d. db' = ensureProjects pick now ns (bumpTasksRev d) \<and> (db_ok db \<longrightarrow> db_ok d)
            \<and> same_beside d db)"

lemma ensureProjects_Nil [simp]: "ensureProjects pick now [] db = db"
  by (simp add: ensureProjects_def)

lemma effect_keep: "effect db (ensureProjects pick now ns db)" "effect db db"
  unfolding effect_def using ensureProjects_Nil[of _ _ db] by metis+

lemma effect_commit:
  "(db_ok db \<Longrightarrow> db_ok d) \<Longrightarrow> same_beside d db \<Longrightarrow> effect db (ensureProjects pick now ns (bumpTasksRev d))"
  "(db_ok db \<Longrightarrow> db_ok d) \<Longrightarrow> same_beside d db \<Longrightarrow> effect db (bumpTasksRev d)"
  unfolding effect_def using ensureProjects_Nil[of _ _ "bumpTasksRev d"] by metis+

lemma effect_ok: "effect db db' \<Longrightarrow> db_ok db \<Longrightarrow> db_ok db'"
  by (auto simp: effect_def)

lemma map_of_filter_key: "k \<noteq> k' \<Longrightarrow> map_of (filter (\<lambda>(x, _). x \<noteq> k') m) k = map_of m k"
  by (induction m) auto

text \<open>Project names stay unique.\<close>

lemma ensureProjects_names: "distinct (project_names db) \<Longrightarrow> distinct (project_names (ensureProjects pick now ns db))"
  unfolding ensureProjects_def
  by (induction ns arbitrary: db) (simp_all add: ensureProject_def project_names_def)

lemma effect_names: "effect db db' \<Longrightarrow> distinct (project_names db) \<Longrightarrow> distinct (project_names db')"
proof -
  have "project_names (bumpTasksRev d) = project_names db" if "same_beside d db" for d
    using that by (simp add: same_beside_def project_names_def)
  then show "effect db db' \<Longrightarrow> distinct (project_names db) \<Longrightarrow> distinct (project_names db')"
    unfolding effect_def using ensureProjects_names by metis
qed

lemma bump_rev:
  assumes "TasksRev db = Some r" "- (2 ^ 63) \<le> r" "r < 2 ^ 63 - 1"
  shows "TasksRev (bumpTasksRev db) = Some (r + 1)"
proof (cases "map_of (db_meta db) ''rev''")
  case None
  then have "r = 0" using assms(1) by (simp add: TasksRev_def taskMeta_def map_get_def)
  then show ?thesis using None
    by (simp add: bumpTasksRev_def TasksRev_def taskMeta_def setTaskMeta_def map_get_def parse_int64_def parse_nat_def
        Let_def digits_val_def is_digit_def byte_in_def digit_val_def)
next
  case (Some v)
  then have "cast_int v = r"
    using assms(1) by (auto simp: TasksRev_def taskMeta_def map_get_def cast_int_def parse_int64_def parse_nat_def Let_def split: if_splits)
  moreover have "itoa x \<noteq> []" for x by (simp add: itoa_def)
  ultimately show ?thesis
    using Some assms(2,3) parse_int64_itoa[of "r + 1"]
    by (simp add: bumpTasksRev_def TasksRev_def taskMeta_def setTaskMeta_def map_get_def Let_def)
qed

lemma TasksRev_cong: "map_of (db_meta a) ''rev'' = map_of (db_meta b) ''rev'' \<Longrightarrow> TasksRev a = TasksRev b"
  by (simp add: TasksRev_def taskMeta_def map_get_def)

lemma effect_rev:
  assumes "effect db db'" "TasksRev db = Some r" "- (2 ^ 63) \<le> r" "r < 2 ^ 63 - 1"
  shows "task_tables db' = task_tables db \<and> TasksRev db' = Some r \<or> TasksRev db' = Some (r + 1)"
proof -
  have keep: "TasksRev (ensureProjects pick now ns d) = TasksRev d" for pick now ns d by (rule TasksRev_cong) simp
  consider pick now ns where "db' = ensureProjects pick now ns db"
    | pick now ns d where "db' = ensureProjects pick now ns (bumpTasksRev d)" "same_beside d db"
    using assms(1) unfolding effect_def by blast
  then show ?thesis
  proof cases
    case 1
    then show ?thesis using assms(2) by (simp add: keep)
  next
    case (2 pick now ns d)
    have "TasksRev d = Some r" using TasksRev_cong[of d db] 2(2) assms(2) by (simp add: same_beside_def)
    then show ?thesis using bump_rev assms(3,4) by (simp add: 2(1) keep)
  qed
qed

lemma saveTask_meta: "saveTask t now db = Inr (db', i) \<Longrightarrow> db_meta db' = db_meta db \<and> db_projects db' = db_projects db"
  by (erule saveTask_cases) simp

lemma saveTask_beside: "saveTask t now db = Inr (db', i) \<Longrightarrow> same_beside db' db"
  by (drule saveTask_meta) (simp add: same_beside_def)

lemma save_all_meta: "save_all ts now db = Inr db' \<Longrightarrow> db_meta db' = db_meta db \<and> db_projects db' = db_projects db"
proof (induction ts arbitrary: db)
  case (Cons t ts)
  then obtain d i where d: "saveTask t now db = Inr (d, i)" "save_all ts now d = Inr db'"
    by (auto split: sum.splits)
  show ?case using Cons.IH[OF d(2)] saveTask_meta[OF d(1)] by simp
qed simp

lemma saveTask_ids:
  assumes "t_id t \<noteq> 0" "saveTask t now db = Inr (db', i)"
  shows "tr_id ` set (db_tasks db') \<subseteq> insert (t_id t) (tr_id ` set (db_tasks db))"
  using assms(2)
proof (cases rule: saveTask_cases)
  case (1 db1)
  then have up: "upsert_row t (unix_milli now) db = Inr (db1, i)" using assms(1) by simp
  have i: "i = t_id t" using saveTask_id[OF assms] .
  show ?thesis using up
  proof (cases rule: upsert_row_cases)
    case (update f)
    have "map tr_id (db_tasks db') = map tr_id (db_tasks db)"
      unfolding 1(2) update(4) by simp (rule map_update_where, simp)
    then have "tr_id ` set (db_tasks db') = tr_id ` set (db_tasks db)" by (metis list.set_map)
    then show ?thesis by blast
  next
    case insert
    then show ?thesis using i by (simp add: 1(2))
  qed
qed

lemma save_all_ids:
  "\<forall>t \<in> set ts. t_id t \<noteq> 0 \<Longrightarrow> save_all ts now db = Inr db' \<Longrightarrow>
   tr_id ` set (db_tasks db') \<subseteq> t_id ` set ts \<union> tr_id ` set (db_tasks db)"
proof (induction ts arbitrary: db)
  case (Cons t ts)
  then obtain d i where d: "saveTask t now db = Inr (d, i)" "save_all ts now d = Inr db'"
    by (auto split: sum.splits)
  have "tr_id ` set (db_tasks d) \<subseteq> insert (t_id t) (tr_id ` set (db_tasks db))"
    by (rule saveTask_ids[OF _ d(1)]) (simp add: Cons.prems)
  moreover have "tr_id ` set (db_tasks db') \<subseteq> t_id ` set ts \<union> tr_id ` set (db_tasks d)"
    by (rule Cons.IH[OF _ d(2)]) (simp add: Cons.prems)
  ultimately show ?case unfolding list.set(2) image_insert by blast
qed simp

lemma save_all_ok: "db_ok db \<Longrightarrow> \<forall>t \<in> set ts. 0 \<le> t_id t \<Longrightarrow> save_all ts now db = Inr db' \<Longrightarrow> db_ok db'"
  unfolding save_all_list by (rule tasks_table.save_list_ok)

lemma inTx_fst: "f db = Inr (d, c, x) \<Longrightarrow> fst (inTx f db) = (if c then bumpTasksRev d else db)"
  by (simp add: inTx_def)

text \<open>The operations, one by one.\<close>

lemma effect_AddTask: "effect db (fst (AddTask pick inp now db))"
proof (cases "New inp now")
  case (Inr t)
  have id: "t_id t = 0" using New_fields[OF Inr] by blast
  show ?thesis
  proof (cases "saveTask t now db")
    case (Inl e)
    then show ?thesis using Inr by (simp add: AddTask_def inTx_def effect_keep)
  next
    case (Inr r)
    then obtain d i where d: "saveTask t now db = Inr (d, i)" by (cases r) simp
    then have "fst (AddTask pick inp now db) = ensureProjects pick now [t_project t] (bumpTasksRev d)"
      using \<open>New inp now = Inr t\<close> by (simp add: AddTask_def inTx_def Let_def)
    then show ?thesis
      using saveTask_ok[OF _ _ d] id saveTask_beside[OF d] by (simp only:) (intro effect_commit, simp_all)
  qed
qed (simp add: AddTask_def effect_keep)

lemma loadOne_id: "db_ok db \<Longrightarrow> loadOne ident db = Inr t \<Longrightarrow> 0 < t_id t \<and> t_id t \<le> db_seq db"
  using loadOne_row row_id_pos load_row_id by metis

lemma edit_tx_commit:
  assumes "edit_tx ident f now db = Inr (d, True, u)"
  shows "\<exists>t i. loadOne ident db = Inr t \<and> f t = Inr (u, True) \<and> saveTask u now db = Inr (d, i)"
proof -
  obtain t where t: "loadOne ident db = Inr t" using assms(1) by (simp add: edit_tx_def split: sum.splits)
  obtain v c where f: "f t = Inr (v, c)" using assms(1) t by (simp add: edit_tx_def split: sum.splits prod.splits)
  have "c \<and> (case saveTask v now db of Inl e \<Rightarrow> Inl e | Inr (db, i) \<Rightarrow> Inr (db, True, v)) = (Inr (d, True, u) :: db_error + _)"
    using assms(1) t f unfolding edit_tx_def by (simp split: if_splits)
  then show ?thesis using t f by (simp split: sum.splits prod.splits)
qed

lemma effect_edit:
  assumes "\<And>t v c. f t = Inr (v, c) \<Longrightarrow> t_id v = t_id t"
  shows "effect db (ensureProjects pick now ns (fst (inTx (edit_tx ident f now) db)))"
proof (cases rule: inTx_cases[of "edit_tx ident f now" db])
  case (commit d u)
  obtain t i where t: "loadOne ident db = Inr t" "saveTask u now db = Inr (d, i)" "t_id u = t_id t"
    using edit_tx_commit[OF commit(1)] assms by blast
  have "db_ok d" if "db_ok db" using saveTask_ok[OF that _ t(2)] loadOne_id[OF that t(1)] t(3) by simp
  then show ?thesis using commit(2) saveTask_beside[OF t(2)] by (simp add: effect_commit)
qed (simp add: effect_keep)

lemma apply_edit_id: "apply_edit p now t = Inr (u, c) \<Longrightarrow> t_id u = t_id t"
  using tracks_Apply[of "[]" t p now] by (auto simp: apply_edit_def tracks_def split: prod.splits option.splits)

lemma effect_UpdateTask: "effect db (fst (UpdateTask pick ident p now db))"
proof -
  have "\<exists>ns. fst (UpdateTask pick ident p now db) = ensureProjects pick now ns (fst (inTx (edit_tx ident (apply_edit p now) now) db))"
    by (simp add: UpdateTask_def Let_def split: prod.split sum.split) (metis ensureProjects_Nil)
  then show ?thesis using effect_edit[where f = "apply_edit p now"] apply_edit_id by metis
qed

lemma effect_AddTaskNote: "effect db (fst (AddTaskNote ident n now db))"
proof -
  define m where "m = (if n_at n = [] then n\<lparr>n_at := Stamp now\<rparr> else n)"
  have "fst (AddTaskNote ident n now db) = ensureProjects pick now [] (fst (inTx (edit_tx ident (\<lambda>t. Inr (AddNote t m)) now) db))"
    by (simp add: AddTaskNote_def m_def Let_def split: prod.split sum.split)
  moreover have "t_id v = t_id t" if "Inr (AddNote t m) = (Inr (v, c) :: db_error + _)" for t v c
  proof -
    have "v = fst (AddNote t m)" using that by simp
    then show ?thesis by simp
  qed
  ultimately show ?thesis using effect_edit[of "\<lambda>t. Inr (AddNote t m)" db pick now "[]" ident] by simp
qed

lemma order_rows_keeps:
  "order_rows i now ids db = Inr db' \<Longrightarrow>
   id_keys db' = id_keys db \<and> db_seq db' = db_seq db \<and> db_events db' = db_events db
   \<and> db_sessions db' = db_sessions db \<and> db_meta db' = db_meta db \<and> db_projects db' = db_projects db"
proof (induction i now ids db rule: order_rows.induct)
  case (2 i now x ids db)
  let ?d = "db\<lparr>db_tasks := update_where (\<lambda>r. tr_id r = x) (\<lambda>r. r\<lparr>tr_ord := Some (of_nat (Suc i)), tr_updated_at := now\<rparr>) (db_tasks db)\<rparr>"
  have c: "x \<in> tr_id ` set (db_tasks db)" "order_rows (Suc i) now ids ?d = Inr db'"
    using "2.prems" by (simp_all split: if_splits)
  have "id_keys ?d = id_keys db" unfolding id_keys_def by simp (rule map_update_where, simp)
  with "2.IH"[OF _ c(2)] c(1) show ?case by simp
qed simp

lemma effect_OrderTasks: "effect db (fst (OrderTasks ids now db))"
proof (cases "ids = []")
  case False
  let ?f = "\<lambda>db. case order_rows 0 (unix_milli now) ids db of Inl e \<Rightarrow> Inl e | Inr db \<Rightarrow> Inr (db, True, ())"
  have eq: "OrderTasks ids now db = inTx ?f db" using False by (simp add: OrderTasks_def)
  show ?thesis
  proof (cases rule: inTx_cases[of ?f db])
    case keep
    then show ?thesis unfolding eq by (simp add: effect_keep)
  next
    case (commit d u)
    then have "order_rows 0 (unix_milli now) ids db = Inr d" by (simp split: sum.splits)
    from order_rows_keeps[OF this] have "db_ok d = db_ok db" "same_beside d db" unfolding db_ok_def same_beside_def by simp_all
    then show ?thesis unfolding eq commit(2) fst_conv by (intro effect_commit) simp_all
  qed
qed (simp add: OrderTasks_def effect_keep)

text \<open>The list a merge works on has unique keys, so what it hands back can be saved.\<close>

definition key_str :: "string option \<Rightarrow> string" where
  "key_str k = (case k of None \<Rightarrow> [] | Some s \<Rightarrow> s)"

lemma index_ok_keys:
  assumes "index_ok ps seq"
  shows "distinct (filter (\<lambda>k. k \<noteq> []) (map (\<lambda>p. key_str (snd p)) ps))"
proof -
  have "distinct (filter (\<lambda>k. k \<noteq> []) (map (\<lambda>p. key_str (snd p)) ps))"
    if "distinct (map fst ps)" "\<And>k i j. (i, Some k) \<in> set ps \<Longrightarrow> (j, Some k) \<in> set ps \<Longrightarrow> i = j"
    using that
  proof (induction ps)
    case (Cons p ps)
    obtain i k where p: "p = (i, k)" by (cases p)
    have IH: "distinct (filter (\<lambda>k. k \<noteq> []) (map (\<lambda>p. key_str (snd p)) ps))"
      by (rule Cons.IH) (use Cons.prems in \<open>auto\<close>)
    have "key_str k \<notin> (\<lambda>p. key_str (snd p)) ` set ps" if ne: "key_str k \<noteq> []"
    proof
      assume "key_str k \<in> (\<lambda>p. key_str (snd p)) ` set ps"
      then obtain j k' where j: "(j, k') \<in> set ps" "key_str k' = key_str k" by auto
      then obtain s where "k = Some s" "k' = Some s" using ne by (auto simp: key_str_def split: option.splits)
      then have "i = j" using Cons.prems(2)[of i s j] j(1) p by auto
      then show False using Cons.prems(1) j(1) p by force
    qed
    then show ?case using IH p by auto
  qed simp
  then show ?thesis using assms unfolding index_ok_def by blast
qed

lemma keys_unique_loaded:
  assumes "db_ok db"
  shows "keys_unique (loadTasks (\<lambda>_. True) db)"
proof -
  have "map t_key (loadTasks (\<lambda>_. True) db) = map (\<lambda>r. key_str (tr_key r)) (stable_sort (\<lambda>a b. tr_id a < tr_id b) (db_tasks db))"
    by (simp add: loadTasks_def load_row_def key_str_def)
  moreover have "mset (filter (\<lambda>k. k \<noteq> []) (map (\<lambda>r. key_str (tr_key r)) (stable_sort (\<lambda>a b. tr_id a < tr_id b) (db_tasks db)))) =
      mset (filter (\<lambda>k. k \<noteq> []) (map (\<lambda>p. key_str (snd p)) (id_keys db)))"
    by (simp only: mset_filter mset_map mset_stable_sort id_keys_def image_mset.compositionality comp_def snd_conv)
  moreover have "distinct (filter (\<lambda>k. k \<noteq> []) (map (\<lambda>p. key_str (snd p)) (id_keys db)))"
    using assms index_ok_keys unfolding db_ok_def by blast
  ultimately show ?thesis unfolding keys_unique_def by (metis mset_eq_imp_distinct_iff)
qed

lemma loadTasks_id: "db_ok db \<Longrightarrow> t \<in> set (loadTasks wh db) \<Longrightarrow> 0 < t_id t"
  using row_id_pos by (auto simp: loadTasks_def)

lemma Merge_ids:
  assumes "plannable now" "keys_unique ts" "\<forall>t \<in> set ts. 0 \<le> t_id t" "u \<in> set (fst (Merge ts p known now))"
  shows "0 \<le> t_id u"
proof -
  let ?s = "merge_run ts p known now"
  have inv: "merge_inv now ts ?s" by (rule merge_run_inv[OF assms(1,2)])
  obtain i where i: "i \<in> set (ms_changed ?s)" "u = ms_tasks ?s ! i"
    using assms(4) by (auto simp: Merge_def Let_def)
  show ?thesis
  proof (cases "i < length ts")
    case True
    then have "t_id u = t_id (ts ! i)" using inv sync_keeps_key i(2) unfolding merge_inv_def by blast
    then show ?thesis using assms(3) True by simp
  next
    case False
    then have "t_id u = 0" using inv i unfolding merge_inv_def by (meson not_less)
    then show ?thesis by simp
  qed
qed

lemma effect_SyncTasks:
  assumes "plannable now"
  shows "effect db (fst (SyncTasks p now db))"
proof -
  define f where "f = (\<lambda>db'. case Merge (loadTasks (\<lambda>_. True) db') p (Some (\<lambda>n. n \<in> set (project_names db))) now of (changed, res) \<Rightarrow>
      (case save_all changed now db' of
         Inl e \<Rightarrow> Inl e
       | Inr db \<Rightarrow> (let db = (if pp_synced_at p \<noteq> [] then setTaskMeta ''last_sync'' (pp_synced_at p) db else db)
            in Inr (db, \<not> pp_dry_run p \<and> (changed \<noteq> [] \<or> pp_synced_at p \<noteq> []), res\<lparr>sr_dry_run := pp_dry_run p\<rparr>))))"
  have eq: "SyncTasks p now db = inTx f db" by (simp add: SyncTasks_def f_def Let_def)
  show ?thesis
  proof (cases rule: inTx_cases[of f db])
    case keep
    then show ?thesis unfolding eq by (simp add: effect_keep)
  next
    case (commit d x)
    obtain changed res where m: "Merge (loadTasks (\<lambda>_. True) db) p (Some (\<lambda>n. n \<in> set (project_names db))) now = (changed, res)"
      by fastforce
    obtain e where e: "save_all changed now db = Inr e"
      "d = (if pp_synced_at p \<noteq> [] then setTaskMeta ''last_sync'' (pp_synced_at p) e else e)"
      using commit(1) m by (auto simp: f_def Let_def split: sum.splits)
    have "db_ok d" if ok: "db_ok db"
    proof -
      have "\<forall>t \<in> set (loadTasks (\<lambda>_. True) db). 0 \<le> t_id t" using loadTasks_id[OF ok] by (auto intro: less_imp_le)
      then have "\<forall>t \<in> set changed. 0 \<le> t_id t"
        using Merge_ids[OF assms keys_unique_loaded[OF ok], of _ p] m by (metis fst_conv)
      then show ?thesis using save_all_ok[OF ok _ e(1)] by (simp add: e(2))
    qed
    moreover have "same_beside d db"
      using save_all_meta[OF e(1)] by (simp add: same_beside_def e(2) setTaskMeta_def map_of_filter_key)
    ultimately show ?thesis unfolding eq commit(2) fst_conv by (rule effect_commit)
  qed
qed

lemma index_ok_seq: "index_ok ps seq \<Longrightarrow> \<forall>i \<in> fst ` set ps. i \<le> seq' \<Longrightarrow> 0 \<le> seq' \<Longrightarrow> index_ok ps seq'"
  unfolding index_ok_def by blast

lemma db_ok_seq:
  assumes "db_ok e" "\<forall>i \<in> fst ` set (id_keys e). i \<le> q" "0 \<le> q"
  shows "db_ok (e\<lparr>db_seq := q\<rparr>)"
proof -
  have "id_keys (e\<lparr>db_seq := q\<rparr>) = id_keys e" by (simp add: id_keys_def)
  moreover have "index_ok (id_keys e) q"
    using assms index_ok_seq unfolding db_ok_def by blast
  ultimately show ?thesis using assms(1) unfolding db_ok_def by simp
qed

lemma max_id_nonneg: "0 \<le> max_id ts"
proof -
  have "m \<le> foldl (\<lambda>m t. max m (t_id t)) m ts" for m
    by (induction ts arbitrary: m) (simp_all, metis max.bounded_iff)
  then show ?thesis by (simp add: max_id_def)
qed

lemma effect_ImportTasks:
  assumes "ParseLegacy f = None"
  shows "effect db (fst (ImportTasks pick f opt dryRun now db))"
proof (cases "dryRun \<or> \<not> snd (PlanImport f opt (\<lambda>n. n \<in> set (project_names db)) now)")
  case True
  then show ?thesis
    by (cases "PlanImport f opt (\<lambda>n. n \<in> set (project_names db)) now")
       (auto simp: ImportTasks_def effect_keep split: bool.split)
next
  case False
  then obtain plan where plan: "PlanImport f opt (\<lambda>n. n \<in> set (project_names db)) now = (plan, True)" "\<not> dryRun"
    by (cases "PlanImport f opt (\<lambda>n. n \<in> set (project_names db)) now") auto
  define g where "g = (\<lambda>db. if db_tasks db \<noteq> [] then Inl (ListNotEmpty (length (db_tasks db)))
      else (case save_all (ip_converted plan) now db of
             Inl e \<Rightarrow> Inl e
           | Inr db \<Rightarrow> (let db = db\<lparr>db_seq := ip_next_id plan - 1\<rparr>;
                db = (if ip_last_sync plan \<noteq> [] then setTaskMeta ''last_sync'' (ip_last_sync plan) db else db)
              in Inr (db, True, ()))))"
  have eq: "fst (ImportTasks pick f opt dryRun now db) = (case inTx g db of (db, Inl e) \<Rightarrow> db | (db, Inr _) \<Rightarrow> ensureProjects pick now (ip_create plan) db)"
    using plan by (simp add: ImportTasks_def g_def split: prod.split sum.split)
  show ?thesis
  proof (cases rule: inTx_cases[of g db])
    case keep
    then show ?thesis unfolding eq by (auto simp: effect_keep split: prod.split sum.split)
  next
    case (commit d x)
    from commit(1) obtain e where e: "db_tasks db = []" "save_all (ip_converted plan) now db = Inr e"
      "d = (let db = e\<lparr>db_seq := ip_next_id plan - 1\<rparr> in
              if ip_last_sync plan \<noteq> [] then setTaskMeta ''last_sync'' (ip_last_sync plan) db else db)"
      by (auto simp: g_def Let_def split: sum.splits if_splits)
    have conv: "t_id ` set (ip_converted plan) = t_id ` set (lf_tasks f)"
      "ip_next_id plan = max (lf_next_id f) (max_id (lf_tasks f) + 1)"
      using plan(1) by (auto simp: PlanImport_def Let_def convert_fields image_image)
    have pos: "0 < t_id t" if "t \<in> set (ip_converted plan)" for t
    proof -
      have "t_id t \<in> t_id ` set (lf_tasks f)" using that conv(1) by blast
      then show ?thesis using assms by (auto simp: ParseLegacy_None)
    qed
    have "db_ok d" if ok: "db_ok db"
    proof -
      have "db_ok e" by (rule save_all_ok[OF ok _ e(2)]) (use pos less_imp_le in blast)
      moreover have "fst ` set (id_keys e) \<subseteq> t_id ` set (lf_tasks f)"
        using save_all_ids[OF _ e(2)] pos e(1) conv(1) by (simp add: db_ids[symmetric]) (metis less_irrefl)
      then have "\<forall>i \<in> fst ` set (id_keys e). i \<le> ip_next_id plan - 1"
        using max_id_ge[of _ "lf_tasks f"] by (fastforce simp: conv(2))
      moreover have "0 \<le> ip_next_id plan - 1" using max_id_nonneg[of "lf_tasks f"] by (simp add: conv(2))
      ultimately have "db_ok (e\<lparr>db_seq := ip_next_id plan - 1\<rparr>)"
        by (rule db_ok_seq)
      then show ?thesis by (simp add: e(3) Let_def)
    qed
    moreover have "same_beside d db"
      using save_all_meta[OF e(2)] by (simp add: same_beside_def e(3) Let_def setTaskMeta_def map_of_filter_key)
    ultimately show ?thesis unfolding eq commit(2) prod.case sum.case by (rule effect_commit)
  qed
qed

text \<open>The states the storage goes through: any sequence of its operations on an empty database.\<close>

inductive db_step :: "tasks_db \<Rightarrow> tasks_db \<Rightarrow> bool" where
  add: "db_step db (fst (AddTask pick inp now db))"
| update: "db_step db (fst (UpdateTask pick ident p now db))"
| add_note: "db_step db (fst (AddTaskNote ident n now db))"
| order: "db_step db (fst (OrderTasks ids now db))"
| sync: "plannable now \<Longrightarrow> db_step db (fst (SyncTasks prop now db))"
| import_file: "ParseLegacy f = None \<Longrightarrow> db_step db (fst (ImportTasks pick f opt dryRun now db))"

inductive db_reach :: "tasks_db \<Rightarrow> bool" where
  start: "db_reach empty_db"
| step: "db_reach db \<Longrightarrow> db_step db db' \<Longrightarrow> db_reach db'"

lemma step_effect: "db_step db db' \<Longrightarrow> effect db db'"
  by (induction rule: db_step.induct)
     (rule effect_AddTask effect_UpdateTask effect_AddTaskNote effect_OrderTasks effect_SyncTasks effect_ImportTasks; assumption?)+

lemma reach_ok: "db_reach db \<Longrightarrow> db_ok db"
  by (induction rule: db_reach.induct) (simp_all add: effect_ok[OF step_effect])

section \<open>Failed operations\<close>

lemma GetTask_saved:
  assumes "db_ok db" "find_task db i = Some t" "i < 2 ^ 63" "0 \<le> i"
  shows "GetTask (itoa i) db = Inr t"
  using GetTask_itoa[OF assms(1,4,3)] assms(2) by simp

lemma saved_found: "db_ok db \<Longrightarrow> saveTask t now db = Inr (db', i) \<Longrightarrow> \<exists>u. find_task db' i = Some u"
  using saved_row unfolding find_task_def by fastforce

lemma AddTask_fails:
  assumes ok: "db_ok db" and bound: "db_seq db < 2 ^ 63 - 1" and err: "snd (AddTask pick inp now db) = Inl e"
  shows "fst (AddTask pick inp now db) = db"
proof (cases "New inp now")
  case (Inr t)
  have id: "t_id t = 0" using New_fields[OF Inr] by blast
  show ?thesis
  proof (cases "saveTask t now db")
    case (Inl e')
    then show ?thesis using Inr by (simp add: AddTask_def inTx_def)
  next
    case (Inr r)
    then obtain d i where d: "saveTask t now db = Inr (d, i)" by (cases r) simp
    then obtain d1 where "insert_row t (unix_milli now) db = Inr (d1, i)"
      by (cases rule: saveTask_cases) (simp add: id)
    then have i: "i = db_seq db + 1" "0 < i" using insert_row_ok[OF ok] by blast+
    have "db_ok d" by (rule saveTask_ok[OF ok _ d]) (simp add: id)
    obtain u where "find_task d i = Some u" using saved_found[OF ok d] by blast
    then have "GetTask (itoa i) (ensureProjects pick now [t_project t] (bumpTasksRev d)) = Inr u"
      using \<open>db_ok d\<close> i bound by (intro GetTask_saved) simp_all
    then have "snd (AddTask pick inp now db) = Inr u"
      using \<open>New inp now = Inr t\<close> d by (simp add: AddTask_def inTx_def Let_def)
    then show ?thesis using err by simp
  qed
qed (simp add: AddTask_def)

lemma edit_tx_found:
  assumes ok: "db_ok db" and tx: "inTx (edit_tx ident f now) db = (d, Inr u)" and bound: "db_seq db < 2 ^ 63"
    and ids: "\<forall>t v c. f t = Inr (v, c) \<longrightarrow> t_id v = t_id t"
  shows "db_ok d" "\<exists>w. find_task d (t_id u) = Some w" "0 \<le> t_id u" "t_id u < 2 ^ 63"
proof -
  obtain t c where t: "loadOne ident db = Inr t" "f t = Inr (u, c)"
    using tx by (auto simp: inTx_def edit_tx_def split: sum.splits prod.splits if_splits)
  have id: "t_id v = t_id t" if "f t = Inr (v, c)" for t v c using ids that by blast
  have i: "t_id u = t_id t" using id t(2) .
  obtain r where r: "r \<in> set (db_tasks db)" "t = load_row db r" using loadOne_row[OF t(1)] by blast
  have "0 < t_id t \<and> t_id t \<le> db_seq db" by (rule loadOne_id[OF ok t(1)])
  then show "0 \<le> t_id u" "t_id u < 2 ^ 63" using i bound by simp_all
  have "effect db (ensureProjects pick now [] (fst (inTx (edit_tx ident f now) db)))" by (rule effect_edit) (rule id)
  then show "db_ok d" using effect_ok ok tx by simp
  show "\<exists>w. find_task d (t_id u) = Some w"
  proof (cases rule: inTx_cases[of "edit_tx ident f now" db])
    case keep
    then have "d = db" using tx by simp
    then show ?thesis using find_task_row[OF ok r(1)] r(2) i by simp
  next
    case (commit e v)
    then obtain j where "saveTask u now db = Inr (e, j)" using edit_tx_commit[OF commit(1)] tx by fastforce
    moreover have "j = t_id u" using saveTask_id[OF _ calculation] i \<open>0 < t_id t \<and> _\<close> by simp
    ultimately show ?thesis using saved_found[OF ok] commit(2) tx by fastforce
  qed
qed

lemma UpdateTask_fails:
  assumes "db_ok db" "db_seq db < 2 ^ 63 - 1" "snd (UpdateTask pick ident p now db) = Inl e"
  shows "fst (UpdateTask pick ident p now db) = db"
proof (cases "snd (inTx (edit_tx ident (apply_edit p now) now) db)")
  case (Inl x)
  then show ?thesis using inTx_Inl[OF Inl] by (simp add: UpdateTask_def)
next
  case (Inr u)
  then obtain d where d: "inTx (edit_tx ident (apply_edit p now) now) db = (d, Inr u)" by (metis prod.collapse)
  have bound: "db_seq db < 2 ^ 63" using assms(2) by simp
  have ids: "\<forall>t v c. apply_edit p now t = Inr (v, c) \<longrightarrow> t_id v = t_id t" using apply_edit_id by blast
  note found = edit_tx_found[OF assms(1) d bound ids]
  obtain w where w: "find_task d (t_id u) = Some w" using found(2) by blast
  have "GetTask (itoa (t_id u)) (if p_project p \<noteq> None then ensureProjects pick now [t_project u] d else d) = Inr w"
    using found w by (intro GetTask_saved) simp_all
  then have "snd (UpdateTask pick ident p now db) = Inr w" unfolding UpdateTask_def d by (simp add: Let_def)
  then show ?thesis using assms(3) by simp
qed

lemma AddTaskNote_fails:
  assumes "db_ok db" "db_seq db < 2 ^ 63 - 1" "snd (AddTaskNote ident n now db) = Inl e"
  shows "fst (AddTaskNote ident n now db) = db"
proof -
  define m where "m = (if n_at n = [] then n\<lparr>n_at := Stamp now\<rparr> else n)"
  let ?f = "\<lambda>t. Inr (AddNote t m) :: db_error + _"
  have id: "t_id v = t_id t" if "?f t = Inr (v, c)" for t v c
  proof -
    have "v = fst (AddNote t m)" using that by simp
    then show ?thesis by simp
  qed
  show ?thesis
  proof (cases "snd (inTx (edit_tx ident ?f now) db)")
    case (Inl x)
    then show ?thesis using inTx_Inl[OF Inl] by (simp add: AddTaskNote_def m_def[symmetric])
  next
    case (Inr u)
    then obtain d where d: "inTx (edit_tx ident ?f now) db = (d, Inr u)" by (metis prod.collapse)
    have bound: "db_seq db < 2 ^ 63" using assms(2) by simp
    have ids: "\<forall>t v c. ?f t = Inr (v, c) \<longrightarrow> t_id v = t_id t" using id by blast
    note found = edit_tx_found[OF assms(1) d bound ids]
    obtain w where w: "find_task d (t_id u) = Some w" using found(2) by blast
    have "GetTask (itoa (t_id u)) d = Inr w" using found w by (intro GetTask_saved) simp_all
    then have "snd (AddTaskNote ident n now db) = Inr w"
      unfolding AddTaskNote_def m_def[symmetric] Let_def d by simp
    then show ?thesis using assms(3) by simp
  qed
qed

lemma fails_inTx:
  "snd (OrderTasks ids now db) = Inl e \<Longrightarrow> fst (OrderTasks ids now db) = db"
  "snd (SyncTasks prop now db) = Inl e \<Longrightarrow> fst (SyncTasks prop now db) = db"
  using inTx_Inl by (auto simp: OrderTasks_def SyncTasks_def Let_def split: if_splits dest!: inTx_Inl)

lemma ImportTasks_fails:
  "snd (ImportTasks pick f opt dryRun now db) = Inl e \<Longrightarrow> fst (ImportTasks pick f opt dryRun now db) = db"
proof (cases "PlanImport f opt (\<lambda>n. n \<in> set (project_names db)) now")
  case (Pair plan ok)
  assume err: "snd (ImportTasks pick f opt dryRun now db) = Inl e"
  show ?thesis
  proof (cases "ok \<and> \<not> dryRun")
    case True
    have split: "fst (case r of (d, Inl e) \<Rightarrow> (d, Inl e) | (d, Inr _) \<Rightarrow> (h d, Inr plan)) = db"
      if "snd (case r of (d, Inl e) \<Rightarrow> (d, Inl e) | (d, Inr _) \<Rightarrow> (h d, Inr plan)) = Inl e"
        "\<And>x. snd r = Inl x \<Longrightarrow> fst r = db" for r :: "tasks_db \<times> (db_error + unit)" and h
      using that by (cases r) (simp split: sum.splits)
    show ?thesis
      using err True unfolding ImportTasks_def Pair prod.case
      by (simp only: bool.case if_False) (rule split, assumption, drule inTx_Inl, simp)
  qed (use Pair in \<open>auto simp: ImportTasks_def split: bool.split\<close>)
qed

section \<open>Properties\<close>

text \<open>C8. Whatever sequence of operations has run, in the tables every id is used once and was given out by
  the sequence, no two tasks share a key, the next task gets an id never used, every timeline
  entry belongs to a task, and the timeline of a task is in order and has no ref twice.\<close>

theorem reachable_tables_consistent:
  assumes "db_reach db"
  shows "distinct (map tr_id (db_tasks db)) \<and> (\<forall>r \<in> set (db_tasks db). 0 < tr_id r \<and> tr_id r < next_task_id db)
    \<and> keys_unique (loadTasks (\<lambda>_. True) db)
    \<and> er_task ` set (db_events db) \<subseteq> tr_id ` set (db_tasks db)
    \<and> (\<forall>r \<in> set (db_tasks db). in_order note_less (t_timeline (load_row db r)) \<and> distinct (map n_ref (t_timeline (load_row db r))))"
proof -
  have ok: "db_ok db" using assms by (rule reach_ok)
  have "in_order note_less (t_timeline (load_row db r)) \<and> distinct (map n_ref (t_timeline (load_row db r)))" for r
    using load_row_grown[OF ok, of r] by (simp add: grown_def)
  moreover have "er_task ` set (db_events db) \<subseteq> tr_id ` set (db_tasks db)"
    using ok unfolding db_ids db_ok_def by blast
  moreover have "0 < tr_id r \<and> tr_id r < next_task_id db" if "r \<in> set (db_tasks db)" for r
    using row_id_pos[OF ok that] next_task_id_eq[OF ok] by simp
  ultimately show ?thesis using db_ok_distinct[OF ok] keys_unique_loaded[OF ok] by blast
qed

definition sample_db :: tasks_db where
  "sample_db = fst (AddTask (\<lambda>_ _. ''#ef4444'') sample_input sample_now empty_db)"

lemma sample_db_reach: "db_reach sample_db"
  unfolding sample_db_def by (rule db_reach.step[OF db_reach.start db_step.add])

theorem reachable_tables_consistent_witness:
  "keys_unique (loadTasks (\<lambda>_. True) sample_db) \<and> distinct (map tr_id (db_tasks sample_db))"
  using reachable_tables_consistent[OF sample_db_reach] by blast

text \<open>A task that is saved is loaded again field by field as it was saved, with its id, the time it was
  saved and no section yet; every other task is loaded as before. The timeline must be what the
  database had of it, in order, plus new entries, as every edit leaves it.\<close>

theorem saved_task_is_loaded:
  assumes "db_ok db" "saveTask t now db = Inr (db', i)" "grown (events_of db i) (t_timeline t)" "distinct (t_sessions t)"
  shows "find_task db' i = Some (t\<lparr>t_id := i, t_updated_at := unix_milli now, t_bucket := []\<rparr>)
    \<and> (\<forall>j. j \<noteq> i \<longrightarrow> find_task db' j = find_task db j)"
  using load_saved[OF assms(2,1,3,4)] tasks_table.save_other[OF assms(2)] by blast

lemma insert_empty: "insert_row t now empty_db =
    Inr (empty_db\<lparr>db_tasks := [row_of t 1 (if t_archived t then Some now else None) now], db_seq := 1\<rparr>, 1)"
  by (simp add: insert_row_def key_clash_def next_task_id_def empty_db_def Let_def)

lemma upsert_empty: "upsert_row t now empty_db =
    Inr (empty_db\<lparr>db_tasks := [row_of t (t_id t) (if t_archived t then Some now else None) now], db_seq := max 0 (t_id t)\<rparr>, t_id t)"
  by (simp add: upsert_row_def key_clash_def empty_db_def Let_def)

theorem saved_task_is_loaded_witness:
  "\<exists>db' i. find_task db' i = Some (sample_task\<lparr>t_id := i, t_updated_at := unix_milli sample_now, t_bucket := []\<rparr>)"
proof -
  obtain db' i where s: "saveTask sample_task sample_now empty_db = Inr (db', i)"
    using insert_empty upsert_empty by (cases "t_id sample_task = 0") (simp_all add: saveTask_def Let_def)
  have "grown (events_of empty_db i) (t_timeline sample_task)" "distinct (t_sessions sample_task)"
    using sample_task_ok by (simp_all add: events_of_def empty_db_def grown_def task_ok_def timeline_ok_def names_ok_def)
  from saved_task_is_loaded[OF db_ok_empty s this] show ?thesis by blast
qed

text \<open>C9. An operation that returns an error leaves the database exactly as it was.\<close>

theorem failed_operation_changes_nothing:
  assumes "db_reach db" "db_seq db < 2 ^ 63 - 1"
  shows "(snd (AddTask pick inp now db) = Inl e \<longrightarrow> fst (AddTask pick inp now db) = db)
    \<and> (snd (UpdateTask pick ident p now db) = Inl e \<longrightarrow> fst (UpdateTask pick ident p now db) = db)
    \<and> (snd (AddTaskNote ident n now db) = Inl e \<longrightarrow> fst (AddTaskNote ident n now db) = db)
    \<and> (snd (OrderTasks ids now db) = Inl e \<longrightarrow> fst (OrderTasks ids now db) = db)
    \<and> (snd (SyncTasks prop now db) = Inl e \<longrightarrow> fst (SyncTasks prop now db) = db)
    \<and> (snd (ImportTasks pick f opt dryRun now db) = Inl e \<longrightarrow> fst (ImportTasks pick f opt dryRun now db) = db)"
  by (intro conjI impI AddTask_fails UpdateTask_fails AddTaskNote_fails fails_inTx ImportTasks_fails reach_ok assms)

theorem failed_operation_changes_nothing_witness:
  "snd (UpdateTask (\<lambda>_ _. []) ''#7'' empty_patch sample_now empty_db) = Inl (TaskNotFound ''#7'')
   \<and> fst (UpdateTask (\<lambda>_ _. []) ''#7'' empty_patch sample_now empty_db) = empty_db"
proof -
  have "snd (UpdateTask (\<lambda>_ _. []) ''#7'' empty_patch sample_now empty_db) = Inl (TaskNotFound ''#7'')"
    by (simp add: UpdateTask_def inTx_def edit_tx_def loadOne_def loadTasks_def empty_db_def)
  moreover have "db_seq empty_db < 2 ^ 63 - 1" by (simp add: empty_db_def)
  ultimately show ?thesis
    using failed_operation_changes_nothing[OF db_reach.start, where ident = "''#7''" and pick = "\<lambda>_ _. []" and p = empty_patch and now = sample_now] by blast
qed



end
