(* ===== verification/Session_Store.thy ===== *)
theory Session_Store
  imports Task_Store_Facts
begin

text \<open>
  internal/db/db.go: sessions, hook events, approvals, settings and projects in SQLite. As in
  Task_Store a table is the list of its rows in insertion order and failures of the database itself are
  outside the model. A nullable column that every query coalesces is kept as its coalesced value
  (NULL as the empty string, 0 or false); grid_at and later_at keep their NULL. The time of day
  is an argument of the operations that read it; time columns are Unix seconds or milliseconds.
\<close>

section \<open>Time columns\<close>

definition unix_sec :: "gotime \<Rightarrow> int" where
  "unix_sec t = unix_milli t div 1000"

text \<open>time.UnixMilli(m).UTC() and time.Unix(s, 0).UTC().\<close>

definition utc_milli :: "int \<Rightarrow> gotime" where
  "utc_milli m = \<lparr>gt_day = m div 86400000 + 719162, gt_sec = nat (m mod 86400000 div 1000),
                  gt_ms = nat (m mod 1000), gt_off = 0\<rparr>"

definition utc_sec :: "int \<Rightarrow> gotime" where
  "utc_sec s = utc_milli (s * 1000)"

definition time_or_zero :: "int \<Rightarrow> gotime option" where
  "time_or_zero s = (if 0 < s then Some (utc_sec s) else None)"

definition milli_or_zero :: "int \<Rightarrow> gotime option" where
  "milli_or_zero m = (if 0 < m then Some (utc_milli m) else None)"

definition unixOrZero :: "gotime option \<Rightarrow> int" where
  "unixOrZero t = (case t of None \<Rightarrow> 0 | Some t \<Rightarrow> unix_sec t)"

section \<open>Tables\<close>

record session_rec =
  ses_id :: string
  ses_cwd :: string
  ses_repo :: string
  ses_branch :: string
  ses_commit :: string
  ses_wrapper_pid :: int
  ses_proc_pid :: int
  ses_pane :: string
  ses_tmux_pane :: string
  ses_tmux_session :: string
  ses_transcript_path :: string
  ses_model :: string
  ses_title :: string
  ses_custom_title :: string
  ses_gen_title :: string
  ses_gen_title_at :: int
  ses_title_status :: string
  ses_user_group :: string
  ses_archived :: bool
  ses_auto_archived :: bool
  ses_favorite :: bool
  ses_favorite_at :: int
  ses_project :: string
  ses_first_seen :: int
  ses_last_seen :: int
  ses_status :: string
  ses_account :: string
  ses_num :: int
  ses_attention :: string
  ses_attention_reason :: string
  ses_attention_at :: int
  ses_color :: string
  ses_last_activity :: int
  ses_seen_at :: int
  ses_later_at :: "int option"
  ses_grid_at :: "int option"
  ses_wait :: string
  ses_wait_note :: string
  ses_wait_at :: int
  ses_wait_stopped :: bool
  ses_entrypoint :: string
  ses_origin :: string

record event_rec =
  eve_id :: int
  eve_session :: string
  eve_ts :: int
  eve_type :: string
  eve_tool :: string
  eve_summary :: string
  eve_payload :: string

record approval_rec =
  app_id :: int
  app_session :: string
  app_ts :: int
  app_tool :: string
  app_tool_use_id :: string
  app_tool_input :: string
  app_status :: string
  app_reason :: string
  app_decided_at :: "int option"

record ccdb =
  cc_tasks :: tasks_db
  cc_sessions :: "session_rec list"
  cc_events :: "event_rec list"
  cc_event_seq :: int
  cc_approvals :: "approval_rec list"
  cc_approval_seq :: int
  cc_settings :: "(string \<times> string \<times> int) list"

definition empty_ccdb :: ccdb where
  "empty_ccdb = \<lparr>cc_tasks = empty_db, cc_sessions = [], cc_events = [], cc_event_seq = 0,
                 cc_approvals = [], cc_approval_seq = 0, cc_settings = []\<rparr>"

datatype store_error = NoSession string | NoProject string | ProjectNameRequired

text \<open>UPDATE sessions ... WHERE session_id = ?\<close>

definition on_session :: "string \<Rightarrow> (session_rec \<Rightarrow> session_rec) \<Rightarrow> ccdb \<Rightarrow> ccdb" where
  "on_session sid f db = db\<lparr>cc_sessions := update_where (\<lambda>r. ses_id r = sid) f (cc_sessions db)\<rparr>"

section \<open>Session numbers\<close>

definition max_num :: "session_rec list \<Rightarrow> int" where
  "max_num rs = foldl max 0 (map ses_num rs)"

text \<open>A row without a number has 0.\<close>

fun give_nums :: "int \<Rightarrow> string list \<Rightarrow> session_rec list \<Rightarrow> session_rec list" where
  "give_nums n [] rs = rs"
| "give_nums n (i # ids) rs = give_nums (n + 1) ids (update_where (\<lambda>r. ses_id r = i) (\<lambda>r. r\<lparr>ses_num := n + 1\<rparr>) rs)"

definition backfillNums :: "ccdb \<Rightarrow> ccdb" where
  "backfillNums db =
     (let rs = cc_sessions db;
          ids = map ses_id (stable_sort (\<lambda>a b. ses_first_seen a < ses_first_seen b) (filter (\<lambda>r. ses_num r = 0) rs))
      in db\<lparr>cc_sessions := give_nums (max_num rs) ids rs\<rparr>)"

section \<open>Upserts\<close>

datatype lastSeenMode = LastSeenMax | LastSeenSet | LastSeenKeep

definition headlessClassifyWindow :: int where
  "headlessClassifyWindow = 3600"

text \<open>COALESCE(NULLIF(excluded.x, ''), sessions.x).\<close>

definition keep_new :: "string \<Rightarrow> string \<Rightarrow> string" where
  "keep_new new old = (if new \<noteq> [] then new else old)"

text \<open>LIKE 'sdk-%', which ignores the case of ASCII letters.\<close>

definition like_sdk :: "string \<Rightarrow> bool" where
  "like_sdk ep \<longleftrightarrow> prefix ''sdk-'' (map lower_byte ep)"

definition new_row :: "session \<Rightarrow> gotime \<Rightarrow> bool \<Rightarrow> int \<Rightarrow> session_rec" where
  "new_row s now hide num =
     \<lparr>ses_id = se_id s, ses_cwd = se_cwd s, ses_repo = se_repo s, ses_branch = se_branch s, ses_commit = se_commit s,
      ses_wrapper_pid = se_wrapper_pid s, ses_proc_pid = se_proc_pid s, ses_pane = se_pane s,
      ses_tmux_pane = se_tmux_pane s, ses_tmux_session = se_tmux_session s, ses_transcript_path = se_transcript_path s,
      ses_model = se_model s, ses_title = se_title s, ses_custom_title = [], ses_gen_title = [], ses_gen_title_at = 0,
      ses_title_status = [], ses_user_group = [], ses_archived = hide, ses_auto_archived = hide,
      ses_favorite = False, ses_favorite_at = 0, ses_project = [],
      ses_first_seen = unix_sec (case se_first_seen s of None \<Rightarrow> now | Some t \<Rightarrow> t),
      ses_last_seen = unix_sec (case se_last_seen s of None \<Rightarrow> now | Some t \<Rightarrow> t),
      ses_status = se_status s, ses_account = se_account s, ses_num = num,
      ses_attention = [], ses_attention_reason = [], ses_attention_at = 0, ses_color = [],
      ses_last_activity = unixOrZero (se_last_activity s), ses_seen_at = unix_sec now,
      ses_later_at = None, ses_grid_at = None, ses_wait = [], ses_wait_note = [], ses_wait_at = 0,
      ses_wait_stopped = False, ses_entrypoint = se_entrypoint s, ses_origin = []\<rparr>"

text \<open>The two CASE expressions on archived and auto_archived: file the row away, bring it back, or neither.\<close>

definition files_away :: "bool \<Rightarrow> int \<Rightarrow> session_rec \<Rightarrow> bool" where
  "files_away hide recent old \<longleftrightarrow>
     hide \<and> ses_entrypoint old = [] \<and> \<not> ses_archived old \<and> recent \<le> ses_first_seen old"

definition brings_back :: "session_rec \<Rightarrow> session_rec \<Rightarrow> bool" where
  "brings_back new old \<longleftrightarrow>
     ses_auto_archived old \<and> \<not> like_sdk (keep_new (ses_entrypoint new) (ses_entrypoint old))
     \<and> (ses_status new \<in> {StatusActive, StatusIdle} \<or> ses_last_seen old < ses_last_seen new)"

definition merge_row :: "lastSeenMode \<Rightarrow> bool \<Rightarrow> int \<Rightarrow> session_rec \<Rightarrow> session_rec \<Rightarrow> session_rec" where
  "merge_row mode hide recent new old =
     old\<lparr>ses_cwd := keep_new (ses_cwd new) (ses_cwd old),
         ses_repo := keep_new (ses_repo new) (ses_repo old),
         ses_branch := keep_new (ses_branch new) (ses_branch old),
         ses_commit := keep_new (ses_commit new) (ses_commit old),
         ses_wrapper_pid := (if ses_wrapper_pid new \<noteq> 0 then ses_wrapper_pid new else ses_wrapper_pid old),
         ses_proc_pid := ses_proc_pid new,
         ses_pane := ses_pane new,
         ses_tmux_pane := keep_new (ses_tmux_pane new) (ses_tmux_pane old),
         ses_tmux_session := keep_new (ses_tmux_session new) (ses_tmux_session old),
         ses_transcript_path := keep_new (ses_transcript_path new) (ses_transcript_path old),
         ses_model := keep_new (ses_model new) (ses_model old),
         ses_title := keep_new (ses_title new) (ses_title old),
         ses_last_seen := (case mode of
             LastSeenSet \<Rightarrow> ses_last_seen new
           | LastSeenKeep \<Rightarrow> ses_last_seen old
           | LastSeenMax \<Rightarrow> max (ses_last_seen new) (ses_last_seen old)),
         ses_status := ses_status new,
         ses_account := keep_new (ses_account new) (ses_account old),
         ses_last_activity := max (ses_last_activity new) (ses_last_activity old),
         ses_entrypoint := keep_new (ses_entrypoint new) (ses_entrypoint old),
         ses_archived := (if files_away hide recent old then True
                          else if brings_back new old then False else ses_archived old),
         ses_auto_archived := (if files_away hide recent old then True
                               else if brings_back new old then False else ses_auto_archived old)\<rparr>"

definition upsertSession :: "lastSeenMode \<Rightarrow> session \<Rightarrow> gotime \<Rightarrow> ccdb \<Rightarrow> ccdb" where
  "upsertSession mode s now db =
     (let hide = (se_hide_headless s \<and> Headless (se_entrypoint s));
          recent = unix_sec (add_seconds now (- headlessClassifyWindow));
          rs = cc_sessions db;
          new = new_row s now hide (max_num rs + 1)
      in if se_id s \<in> ses_id ` set rs then on_session (se_id s) (merge_row mode hide recent new) db
         else db\<lparr>cc_sessions := rs @ [new]\<rparr>)"

definition UpsertSession :: "session \<Rightarrow> gotime \<Rightarrow> ccdb \<Rightarrow> ccdb" where
  "UpsertSession = upsertSession LastSeenMax"

definition UpsertSessionKeepLastSeen :: "session \<Rightarrow> gotime \<Rightarrow> ccdb \<Rightarrow> ccdb" where
  "UpsertSessionKeepLastSeen = upsertSession LastSeenKeep"

definition UpsertDiscoveredSession :: "session \<Rightarrow> gotime \<Rightarrow> ccdb \<Rightarrow> ccdb" where
  "UpsertDiscoveredSession = upsertSession LastSeenSet"

definition TouchSession :: "string \<Rightarrow> string \<Rightarrow> gotime \<Rightarrow> ccdb \<Rightarrow> ccdb" where
  "TouchSession sid status now =
     on_session sid (\<lambda>r. r\<lparr>ses_last_seen := unix_sec now, ses_status := status,
       ses_archived := (if ses_auto_archived r then False else ses_archived r), ses_auto_archived := False\<rparr>)"

section \<open>Events and approvals\<close>

definition AppendEvent :: "hook_event \<Rightarrow> gotime \<Rightarrow> ccdb \<Rightarrow> ccdb \<times> int" where
  "AppendEvent e now db =
     (let i = cc_event_seq db + 1;
          row = \<lparr>eve_id = i, eve_session = ev_session_id e,
                 eve_ts = unix_sec (case ev_timestamp e of None \<Rightarrow> now | Some t \<Rightarrow> t),
                 eve_type = ev_type e, eve_tool = ev_tool e, eve_summary = ev_summary e,
                 eve_payload = (if ev_payload e = [] then ''{}'' else ev_payload e)\<rparr>
      in (db\<lparr>cc_events := cc_events db @ [row], cc_event_seq := i\<rparr>, i))"

definition InsertApproval :: "approval \<Rightarrow> gotime \<Rightarrow> ccdb \<Rightarrow> ccdb \<times> int" where
  "InsertApproval a now db =
     (let i = cc_approval_seq db + 1;
          row = \<lparr>app_id = i, app_session = ap_session_id a,
                 app_ts = unix_sec (case ap_timestamp a of None \<Rightarrow> now | Some t \<Rightarrow> t),
                 app_tool = ap_tool a, app_tool_use_id = ap_tool_use_id a,
                 app_tool_input = (if ap_tool_input a = [] then ''{}'' else ap_tool_input a),
                 app_status = ap_status a, app_reason = ap_reason a, app_decided_at = None\<rparr>
      in (db\<lparr>cc_approvals := cc_approvals db @ [row], cc_approval_seq := i\<rparr>, i))"

definition UpdateApprovalStatus :: "int \<Rightarrow> string \<Rightarrow> string \<Rightarrow> gotime \<Rightarrow> ccdb \<Rightarrow> ccdb" where
  "UpdateApprovalStatus i status reason now db =
     db\<lparr>cc_approvals := update_where (\<lambda>a. app_id a = i)
          (\<lambda>a. a\<lparr>app_status := status, app_reason := reason, app_decided_at := Some (unix_sec now)\<rparr>) (cc_approvals db)\<rparr>"

definition decide_row :: "string \<Rightarrow> gotime \<Rightarrow> approval_rec \<Rightarrow> approval_rec" where
  "decide_row status now a = a\<lparr>app_status := status, app_decided_at := Some (unix_sec now)\<rparr>"

definition ResolvePendingByToolUseID :: "string \<Rightarrow> string \<Rightarrow> string \<Rightarrow> gotime \<Rightarrow> ccdb \<Rightarrow> ccdb" where
  "ResolvePendingByToolUseID sid use status now db =
     (if use = [] then db
      else db\<lparr>cc_approvals := update_where
               (\<lambda>a. app_session a = sid \<and> app_tool_use_id a = use \<and> app_status a = ApprovalPending)
               (decide_row status now) (cc_approvals db)\<rparr>)"

text \<open>ORDER BY ts ASC LIMIT 1 over the rows that satisfy a test.\<close>

definition oldest :: "(approval_rec \<Rightarrow> bool) \<Rightarrow> approval_rec list \<Rightarrow> approval_rec option" where
  "oldest p as = (case stable_sort (\<lambda>a b. app_ts a < app_ts b) (filter p as) of [] \<Rightarrow> None | a # _ \<Rightarrow> Some a)"

definition ResolveOldestPendingForTool :: "string \<Rightarrow> string \<Rightarrow> string \<Rightarrow> gotime \<Rightarrow> ccdb \<Rightarrow> ccdb" where
  "ResolveOldestPendingForTool sid tool status now db =
     (if sid = [] \<or> tool = [] then db
      else
        case oldest (\<lambda>a. app_session a = sid \<and> app_tool a = tool \<and> app_status a = ApprovalPending) (cc_approvals db) of
          None \<Rightarrow> db
        | Some x \<Rightarrow> db\<lparr>cc_approvals := update_where (\<lambda>a. app_id a = app_id x) (decide_row status now) (cc_approvals db)\<rparr>)"

definition MarkStalePendingTimeout :: "int \<Rightarrow> gotime \<Rightarrow> ccdb \<Rightarrow> ccdb" where
  "MarkStalePendingTimeout age now db =
     (let cutoff = unix_sec (add_seconds now (- age))
      in db\<lparr>cc_approvals := update_where (\<lambda>a. app_status a = ApprovalPending \<and> app_ts a < cutoff)
             (decide_row ApprovalTimeout now) (cc_approvals db)\<rparr>)"

section \<open>Reading sessions\<close>

definition pending_count :: "ccdb \<Rightarrow> string \<Rightarrow> nat" where
  "pending_count db sid =
     length (filter (\<lambda>a. app_session a = sid \<and> app_status a = ApprovalPending) (cc_approvals db))"

text \<open>LEFT JOIN projects ON name = project: a row without a project joins nothing.\<close>

definition joined_project :: "ccdb \<Rightarrow> string \<Rightarrow> project_row option" where
  "joined_project db name =
     (if name = [] then None else find (\<lambda>p. pj_name p = name) (db_projects (cc_tasks db)))"

definition finishSeen :: "string \<Rightarrow> int \<Rightarrow> int \<Rightarrow> session \<Rightarrow> session" where
  "finishSeen status actAt seenAt s =
     s\<lparr>se_last_activity := time_or_zero actAt, se_seen_at := time_or_zero seenAt,
       se_unseen := (seenAt < actAt \<and> status \<noteq> StatusActive)\<rparr>"

definition approval_waiting :: string where
  "approval_waiting = [CHR 0xE6, CHR 0x89, CHR 0xBF, CHR 0xE8, CHR 0xAA, CHR 0x8D, CHR 0xE5, CHR 0xBE, 
     CHR 0x85, CHR 0xE3, CHR 0x81, CHR 0xA1]"

definition finishAttention :: "int \<Rightarrow> session \<Rightarrow> session" where
  "finishAttention attAt s0 =
     (let s = s0\<lparr>se_attention_at := time_or_zero attAt\<rparr>
      in if 0 < se_pending_count s \<and> se_attention s \<noteq> AttentionNeedsYou
         then s\<lparr>se_attention := AttentionNeedsYou, se_attention_reason := approval_waiting\<rparr> else s)"

definition finishWait :: "int \<Rightarrow> session \<Rightarrow> session" where
  "finishWait waitAt s = s\<lparr>se_wait_at := milli_or_zero waitAt\<rparr>"

text \<open>ORDER BY ts DESC, id DESC LIMIT 1.\<close>

definition newest_event :: "event_rec list \<Rightarrow> event_rec option" where
  "newest_event es =
     (case stable_sort (\<lambda>a b. if eve_ts a \<noteq> eve_ts b then eve_ts b < eve_ts a else eve_id b < eve_id a) es of
        [] \<Rightarrow> None | e # _ \<Rightarrow> Some e)"

definition turn_start :: "ccdb \<Rightarrow> string \<Rightarrow> int option" where
  "turn_start db sid =
     (case map eve_ts (filter (\<lambda>e. eve_session e = sid \<and> eve_type e = EventUserPrompt) (cc_events db)) of
        [] \<Rightarrow> None | t # ts \<Rightarrow> Some (foldl max t ts))"

definition fillWork :: "ccdb \<Rightarrow> session \<Rightarrow> session" where
  "fillWork db s0 =
     (if se_status s0 \<noteq> StatusActive then s0
      else
        let turn = turn_start db (se_id s0);
            s = (case turn of None \<Rightarrow> s0 | Some t \<Rightarrow> s0\<lparr>se_turn_started_at := Some (utc_sec t)\<rparr>);
            from = (case turn of None \<Rightarrow> 0 | Some t \<Rightarrow> t)
        in case newest_event (filter (\<lambda>e. eve_session e = se_id s \<and> from \<le> eve_ts e
                  \<and> eve_type e \<in> {EventPreTool, EventPostTool, EventPostToolFailure, EventStop}) (cc_events db)) of
             None \<Rightarrow> s
           | Some e \<Rightarrow>
               if eve_type e = EventPreTool
               then s\<lparr>se_tool := eve_tool e, se_tool_summary := eve_summary e, se_tool_at := Some (utc_sec (eve_ts e))\<rparr>
               else s)"

definition scan_base :: "ccdb \<Rightarrow> session_rec \<Rightarrow> session" where
  "scan_base db r =
     \<lparr>se_id = ses_id r, se_host_letter = [], se_cwd = ses_cwd r, se_repo = ses_repo r, se_branch = ses_branch r,
      se_commit = ses_commit r, se_wrapper_pid = ses_wrapper_pid r, se_proc_pid = ses_proc_pid r, se_pane = ses_pane r,
      se_tmux_pane = ses_tmux_pane r, se_tmux_session = ses_tmux_session r, se_transcript_path = ses_transcript_path r,
      se_model = ses_model r, se_entrypoint = [], se_hide_headless = False, se_num = ses_num r, se_title = ses_title r,
      se_gen_title = ses_gen_title r, se_gen_title_at = time_or_zero (ses_gen_title_at r),
      se_title_status = ses_title_status r, se_custom_title = ses_custom_title r, se_user_group = ses_user_group r,
      se_account = ses_account r, se_archived = ses_archived r, se_favorite = ses_favorite r, se_pinned_at = None,
      se_color_override = ses_color r, se_project = ses_project r,
      se_project_color = (case joined_project db (ses_project r) of None \<Rightarrow> [] | Some p \<Rightarrow> pj_color p),
      se_project_order = (case joined_project db (ses_project r) of None \<Rightarrow> 0 | Some p \<Rightarrow> pj_ord p),
      se_first_seen = Some (utc_sec (ses_first_seen r)), se_last_seen = Some (utc_sec (ses_last_seen r)),
      se_status = ses_status r, se_pending_count = int (pending_count db (ses_id r)),
      se_attention = ses_attention r, se_attention_reason = ses_attention_reason r, se_attention_at = None,
      se_wait = ses_wait r, se_wait_note = ses_wait_note r, se_wait_at = None, se_origin = ses_origin r,
      se_last_activity = None, se_seen_at = None, se_unseen = False,
      se_later = (case ses_later_at r of None \<Rightarrow> False | Some a \<Rightarrow> 0 < a),
      se_later_at = (case ses_later_at r of None \<Rightarrow> None | Some a \<Rightarrow> milli_or_zero a),
      se_grid = (case ses_grid_at r of None \<Rightarrow> False | Some a \<Rightarrow> 0 < a),
      se_grid_at = (case ses_grid_at r of None \<Rightarrow> None | Some a \<Rightarrow> milli_or_zero a),
      se_turn_started_at = None, se_tool = [], se_tool_summary = [], se_tool_at = None\<rparr>"

definition scan_session :: "ccdb \<Rightarrow> session_rec \<Rightarrow> session" where
  "scan_session db r =
     finishSeen (ses_status r) (ses_last_activity r) (ses_seen_at r)
       (finishWait (ses_wait_at r) (finishAttention (ses_attention_at r) (scan_base db r)))"

text \<open>Pins first, the most recent first, then by last_seen, the most recent first.\<close>

definition list_before :: "session_rec \<Rightarrow> session_rec \<Rightarrow> bool" where
  "list_before a b \<longleftrightarrow>
     (if ses_favorite a \<noteq> ses_favorite b then ses_favorite a
      else if ses_favorite a \<and> ses_favorite_at a \<noteq> ses_favorite_at b then ses_favorite_at b < ses_favorite_at a
      else ses_last_seen b < ses_last_seen a)"

text \<open>Only the list sets when a session was pinned.\<close>

definition list_entry :: "ccdb \<Rightarrow> session_rec \<Rightarrow> session" where
  "list_entry db r =
     (let s = scan_session db r
      in if ses_favorite r \<and> 0 < ses_favorite_at r then s\<lparr>se_pinned_at := Some (utc_milli (ses_favorite_at r))\<rparr> else s)"

definition ListSessions :: "bool \<Rightarrow> ccdb \<Rightarrow> session list" where
  "ListSessions archived db =
     map (\<lambda>r. fillWork db (list_entry db r))
       (stable_sort list_before (filter (\<lambda>r. ses_archived r = archived) (cc_sessions db)))"

definition GetSession :: "string \<Rightarrow> ccdb \<Rightarrow> session option" where
  "GetSession sid db =
     map_option (\<lambda>r. fillWork db (scan_session db r)) (find (\<lambda>r. ses_id r = sid) (cc_sessions db))"

definition scan_event :: "event_rec \<Rightarrow> hook_event" where
  "scan_event e =
     \<lparr>ev_id = eve_id e, ev_session_id = eve_session e, ev_timestamp = Some (utc_sec (eve_ts e)), ev_type = eve_type e,
      ev_tool = eve_tool e, ev_summary = eve_summary e, ev_payload = eve_payload e\<rparr>"

definition ListEvents :: "string \<Rightarrow> int \<Rightarrow> ccdb \<Rightarrow> hook_event list" where
  "ListEvents sid limit0 db =
     (let limit = (if limit0 \<le> 0 then 200 else limit0)
      in map scan_event (rev (take (nat limit)
           (stable_sort (\<lambda>a b. eve_id b < eve_id a) (filter (\<lambda>e. eve_session e = sid) (cc_events db))))))"

definition scan_approval :: "approval_rec \<Rightarrow> approval" where
  "scan_approval a =
     \<lparr>ap_id = app_id a, ap_session_id = app_session a, ap_timestamp = Some (utc_sec (app_ts a)), ap_tool = app_tool a,
      ap_tool_use_id = app_tool_use_id a, ap_tool_input = app_tool_input a, ap_status = app_status a,
      ap_reason = app_reason a, ap_decided_at = None\<rparr>"

definition ListPendingApprovals :: "ccdb \<Rightarrow> approval list" where
  "ListPendingApprovals db =
     map scan_approval (stable_sort (\<lambda>a b. app_ts a < app_ts b)
       (filter (\<lambda>a. app_status a = ApprovalPending) (cc_approvals db)))"

section \<open>What a session declares and wants\<close>

definition SetWait :: "string \<Rightarrow> string \<Rightarrow> string \<Rightarrow> gotime \<Rightarrow> ccdb \<Rightarrow> ccdb \<times> store_error option" where
  "SetWait sid kind note now db =
     (if sid \<in> ses_id ` set (cc_sessions db) then
        (on_session sid (\<lambda>r. r\<lparr>ses_wait := kind, ses_wait_note := (if kind \<noteq> [] then note else []),
            ses_wait_at := (if kind \<noteq> [] then unix_milli now else 0), ses_wait_stopped := False\<rparr>) db, None)
      else (db, Some (NoSession sid)))"

definition TurnWait :: "string \<Rightarrow> gotime \<Rightarrow> ccdb \<Rightarrow> ccdb \<times> string \<times> string" where
  "TurnWait sid now db =
     (case find (\<lambda>r. ses_id r = sid) (cc_sessions db) of
        None \<Rightarrow> (db, [], [])
      | Some r \<Rightarrow>
          if ses_wait r = [] then (db, [], [])
          else if ses_wait_stopped r then (fst (SetWait sid [] [] now db), [], [])
          else (on_session sid (\<lambda>r. r\<lparr>ses_wait_stopped := True\<rparr>) db, ses_wait r, ses_wait_note r))"

definition SetAttention :: "string \<Rightarrow> string \<Rightarrow> string \<Rightarrow> gotime \<Rightarrow> ccdb \<Rightarrow> ccdb" where
  "SetAttention sid kind reason now =
     on_session sid (\<lambda>r. r\<lparr>ses_attention := kind, ses_attention_reason := reason, ses_attention_at := unix_sec now\<rparr>)"

definition ClearAttention :: "string \<Rightarrow> string \<Rightarrow> ccdb \<Rightarrow> ccdb" where
  "ClearAttention sid only =
     on_session sid (\<lambda>r. if only \<noteq> [] \<and> ses_attention r \<noteq> only then r
                        else r\<lparr>ses_attention := [], ses_attention_reason := []\<rparr>)"

definition MarkSeen :: "string \<Rightarrow> gotime \<Rightarrow> ccdb \<Rightarrow> ccdb" where
  "MarkSeen sid now db =
     ClearAttention sid AttentionDone
       (on_session sid (\<lambda>r. r\<lparr>ses_seen_at := max (unix_sec now) (ses_last_activity r)\<rparr>) db)"

section \<open>The operator's marks\<close>

definition SetArchived :: "string \<Rightarrow> bool \<Rightarrow> ccdb \<Rightarrow> ccdb" where
  "SetArchived sid archived = on_session sid (\<lambda>r. r\<lparr>ses_archived := archived, ses_auto_archived := False\<rparr>)"

definition is_running :: "session_rec \<Rightarrow> bool" where
  "is_running r \<longleftrightarrow> ses_status r \<in> {StatusActive, StatusIdle} \<and> \<not> ses_archived r"

definition row_color :: "session_rec \<Rightarrow> ccdb \<Rightarrow> string" where
  "row_color r db = Color (scan_base db r)"

definition runningColors :: "ccdb \<Rightarrow> (string \<times> string) list" where
  "runningColors db = map (\<lambda>r. (ses_id r, row_color r db)) (filter is_running (cc_sessions db))"

definition ColorRandom :: string where
  "ColorRandom = ''random''"

definition SetColor :: "pick_color \<Rightarrow> string \<Rightarrow> string \<Rightarrow> ccdb \<Rightarrow> ccdb" where
  "SetColor pick sid color0 db =
     (let color =
        (if color0 = ColorRandom then
           let running = runningColors db;
               cur = map_get running sid;
               others = filter (\<lambda>(i, c). i \<noteq> sid) running;
               cur = (if cur = [] then (case GetSession sid db of None \<Rightarrow> [] | Some s \<Rightarrow> Color s) else cur)
           in pick (map snd others) cur
         else color0)
      in on_session sid (\<lambda>r. r\<lparr>ses_color := color\<rparr>) db)"

fun assign_colors :: "pick_color \<Rightarrow> string list \<Rightarrow> string list \<Rightarrow> ccdb \<Rightarrow> ccdb" where
  "assign_colors pick used [] db = db"
| "assign_colors pick used (i # ids) db =
     (let c = pick used []
      in assign_colors pick (used @ [c]) ids
           (on_session i (\<lambda>r. if ses_color r = [] then r\<lparr>ses_color := c\<rparr> else r) db))"

definition AssignRunningColors :: "pick_color \<Rightarrow> ccdb \<Rightarrow> ccdb" where
  "AssignRunningColors pick db =
     (let rs = stable_sort (\<lambda>a b. ses_first_seen a < ses_first_seen b) (filter is_running (cc_sessions db))
      in assign_colors pick (filter (\<lambda>c. c \<noteq> []) (map ses_color rs))
           (map ses_id (filter (\<lambda>r. ses_color r = []) rs)) db)"

definition SetFavorite :: "string \<Rightarrow> bool \<Rightarrow> gotime \<Rightarrow> ccdb \<Rightarrow> ccdb" where
  "SetFavorite sid favorite now =
     on_session sid (\<lambda>r. r\<lparr>ses_favorite := favorite, ses_favorite_at := (if favorite then unix_milli now else 0)\<rparr>)"

definition SetLater :: "string \<Rightarrow> bool \<Rightarrow> gotime \<Rightarrow> ccdb \<Rightarrow> ccdb" where
  "SetLater sid later now =
     on_session sid (\<lambda>r. r\<lparr>ses_later_at := (if later then Some (unix_milli now) else None)\<rparr>)"

definition SetGrid :: "string \<Rightarrow> bool \<Rightarrow> gotime \<Rightarrow> ccdb \<Rightarrow> ccdb" where
  "SetGrid sid on now =
     on_session sid (\<lambda>r. r\<lparr>ses_grid_at :=
       (if on then (case ses_grid_at r of None \<Rightarrow> Some (unix_milli now) | Some a \<Rightarrow> Some a) else None)\<rparr>)"

definition SetOrigin :: "string \<Rightarrow> string \<Rightarrow> ccdb \<Rightarrow> ccdb" where
  "SetOrigin sid origin = on_session sid (\<lambda>r. if ses_origin r = [] then r\<lparr>ses_origin := origin\<rparr> else r)"

definition SetCustomTitle :: "string \<Rightarrow> string \<Rightarrow> ccdb \<Rightarrow> ccdb" where
  "SetCustomTitle sid title = on_session sid (\<lambda>r. r\<lparr>ses_custom_title := title\<rparr>)"

definition SetUserGroup :: "string \<Rightarrow> string \<Rightarrow> ccdb \<Rightarrow> ccdb" where
  "SetUserGroup sid grp = on_session sid (\<lambda>r. r\<lparr>ses_user_group := grp\<rparr>)"

definition SetTitleStatus :: "string list \<Rightarrow> string \<Rightarrow> ccdb \<Rightarrow> ccdb" where
  "SetTitleStatus ids status db = foldl (\<lambda>db i. on_session i (\<lambda>r. r\<lparr>ses_title_status := status\<rparr>) db) db ids"

definition SetGenTitle :: "string \<Rightarrow> string \<Rightarrow> gotime \<Rightarrow> ccdb \<Rightarrow> ccdb" where
  "SetGenTitle sid title now =
     on_session sid (\<lambda>r. r\<lparr>ses_gen_title := title, ses_gen_title_at := unix_sec now, ses_title_status := ''done''\<rparr>)"

definition SweepRunningTitles :: "ccdb \<Rightarrow> ccdb" where
  "SweepRunningTitles db =
     db\<lparr>cc_sessions := update_where (\<lambda>r. ses_title_status r = ''running'') (\<lambda>r. r\<lparr>ses_title_status := ''error''\<rparr>) (cc_sessions db)\<rparr>"

definition AutoArchive :: "gotime \<Rightarrow> ccdb \<Rightarrow> ccdb \<times> nat" where
  "AutoArchive before db =
     (let p = (\<lambda>r. \<not> ses_archived r \<and> \<not> ses_favorite r \<and> ses_project r = []
                 \<and> ses_status r \<notin> {StatusActive, StatusIdle} \<and> ses_last_seen r < unix_sec before)
      in (db\<lparr>cc_sessions := update_where p (\<lambda>r. r\<lparr>ses_archived := True, ses_auto_archived := True\<rparr>) (cc_sessions db)\<rparr>,
          length (filter p (cc_sessions db))))"

section \<open>Settings\<close>

definition GetSetting :: "string \<Rightarrow> ccdb \<Rightarrow> string" where
  "GetSetting key db = (case map_of (cc_settings db) key of None \<Rightarrow> [] | Some (v, _) \<Rightarrow> v)"

definition SetSetting :: "string \<Rightarrow> string \<Rightarrow> gotime \<Rightarrow> ccdb \<Rightarrow> ccdb" where
  "SetSetting key v now db =
     db\<lparr>cc_settings := (if key \<in> fst ` set (cc_settings db)
          then update_where (\<lambda>(k, _). k = key) (\<lambda>_. (key, v, unix_sec now)) (cc_settings db)
          else cc_settings db @ [(key, v, unix_sec now)])\<rparr>"

definition AllSettings :: "ccdb \<Rightarrow> string \<rightharpoonup> string" where
  "AllSettings db = map_option fst \<circ> map_of (cc_settings db)"

section \<open>Projects\<close>

record project =
  po_name :: string
  po_color :: string
  po_sessions :: nat
  po_tasks :: nat

definition on_tasks :: "(tasks_db \<Rightarrow> tasks_db) \<Rightarrow> ccdb \<Rightarrow> ccdb" where
  "on_tasks f db = db\<lparr>cc_tasks := f (cc_tasks db)\<rparr>"

definition SetProject :: "pick_color \<Rightarrow> string \<Rightarrow> string \<Rightarrow> gotime \<Rightarrow> ccdb \<Rightarrow> ccdb" where
  "SetProject pick sid name now db =
     on_session sid (\<lambda>r. r\<lparr>ses_project := name\<rparr>)
       (if name \<noteq> [] then on_tasks (ensureProject pick now name) db else db)"

definition list_projects :: "ccdb \<Rightarrow> project_row list" where
  "list_projects db =
     stable_sort (\<lambda>a b. if pj_ord a \<noteq> pj_ord b then pj_ord a < pj_ord b else pj_name a < pj_name b) (db_projects (cc_tasks db))"

definition ListProjects :: "ccdb \<Rightarrow> project list" where
  "ListProjects db =
     map (\<lambda>p. \<lparr>po_name = pj_name p, po_color = pj_color p,
         po_sessions = length (filter (\<lambda>s. ses_project s = pj_name p \<and> ses_project s \<noteq> [] \<and> \<not> ses_archived s) (cc_sessions db)),
         po_tasks = length (filter (\<lambda>t. tr_project t = pj_name p \<and> tr_archived_at t = None
                              \<and> tr_status t \<notin> {TaskDone, TaskCancelled}) (db_tasks (cc_tasks db)))\<rparr>)
       (list_projects db)"

text \<open>The requested order: the named projects, each once, then the others; None when a name is not known.\<close>

fun named_first :: "string list \<Rightarrow> string list \<Rightarrow> string list \<Rightarrow> store_error + string list" where
  "named_first known order [] = Inr order"
| "named_first known order (n # names) =
     (if n \<notin> set known then Inl (NoProject n)
      else named_first known (if n \<in> set order then order else order @ [n]) names)"

fun set_ords :: "int \<Rightarrow> string list \<Rightarrow> project_row list \<Rightarrow> project_row list" where
  "set_ords i [] ps = ps"
| "set_ords i (n # names) ps = set_ords (i + 1) names (update_where (\<lambda>p. pj_name p = n) (\<lambda>p. p\<lparr>pj_ord := i\<rparr>) ps)"

definition SetProjectOrder :: "string list \<Rightarrow> ccdb \<Rightarrow> ccdb \<times> store_error option" where
  "SetProjectOrder names db =
     (let known = map po_name (ListProjects db)
      in case named_first known [] names of
           Inl e \<Rightarrow> (db, Some e)
         | Inr order \<Rightarrow>
             (let order = order @ filter (\<lambda>n. n \<notin> set order) known
              in (on_tasks (\<lambda>t. t\<lparr>db_projects := set_ords 0 order (db_projects t)\<rparr>) db, None)))"

definition place_of :: "string \<Rightarrow> string list \<Rightarrow> nat option" where
  "place_of name names = foldl (\<lambda>pos (i, n). if n = name then Some i else pos) None (enumerate 0 names)"

definition MoveProject :: "string \<Rightarrow> int \<Rightarrow> ccdb \<Rightarrow> ccdb \<times> store_error option" where
  "MoveProject name delta db =
     (let names = map po_name (ListProjects db)
      in case place_of name names of
           None \<Rightarrow> (db, Some (NoProject name))
         | Some pos \<Rightarrow>
             (let to = nat (min (max (int pos + delta) 0) (int (length names) - 1))
              in if to = pos then (db, None)
                 else
                   (let names = take pos names @ drop (pos + 1) names;
                        names = take to names @ [name] @ drop to names
                    in SetProjectOrder names db)))"

definition RenameProject :: "string \<Rightarrow> string \<Rightarrow> ccdb \<Rightarrow> ccdb \<times> store_error option" where
  "RenameProject frm to db =
     (if frm = [] \<or> to = [] then (db, Some ProjectNameRequired)
      else if frm = to then (db, None)
      else
        let t = cc_tasks db;
            t = (if to \<in> set (project_names t)
                 then t\<lparr>db_projects := filter (\<lambda>p. pj_name p \<noteq> frm) (db_projects t)\<rparr>
                 else t\<lparr>db_projects := update_where (\<lambda>p. pj_name p = frm) (\<lambda>p. p\<lparr>pj_name := to\<rparr>) (db_projects t)\<rparr>);
            t = t\<lparr>db_tasks := update_where (\<lambda>r. tr_project r = frm) (\<lambda>r. r\<lparr>tr_project := to\<rparr>) (db_tasks t)\<rparr>
        in (db\<lparr>cc_sessions := update_where (\<lambda>r. ses_project r = frm) (\<lambda>r. r\<lparr>ses_project := to\<rparr>) (cc_sessions db),
              cc_tasks := bumpTasksRev t\<rparr>, None))"

definition SetProjectColor :: "pick_color \<Rightarrow> string \<Rightarrow> string \<Rightarrow> gotime \<Rightarrow> ccdb \<Rightarrow> ccdb" where
  "SetProjectColor pick name color0 now db0 =
     (let db = on_tasks (ensureProject pick now name) db0;
          color = (if color0 = ColorRandom then
                     pick (projectColors name (cc_tasks db))
                       (case find (\<lambda>p. pj_name p = name) (db_projects (cc_tasks db)) of None \<Rightarrow> [] | Some p \<Rightarrow> pj_color p)
                   else color0)
      in on_tasks (\<lambda>t. t\<lparr>db_projects := update_where (\<lambda>p. pj_name p = name) (\<lambda>p. p\<lparr>pj_color := color\<rparr>) (db_projects t)\<rparr>) db)"

end
