(* ===== verification/Session_Store_Facts.thy ===== *)
theory Session_Store_Facts
  imports Session_Store
begin

text \<open>
  What the session storage promises: unique handles, marks of the operator that no hook touches,
  archiving that only undoes what it did itself, and projects that can be renamed, merged and
  ordered without losing a session or a task.
\<close>

section \<open>The invariant of the tables\<close>

definition row_fine :: "session_rec \<Rightarrow> bool" where
  "row_fine r \<longleftrightarrow> 0 < ses_num r \<and> (ses_auto_archived r \<longrightarrow> ses_archived r)"

definition rows_ok :: "session_rec list \<Rightarrow> bool" where
  "rows_ok rs \<longleftrightarrow> distinct (map ses_id rs) \<and> distinct (map ses_num rs) \<and> list_all row_fine rs"

definition serial_ok :: "int list \<Rightarrow> int \<Rightarrow> bool" where
  "serial_ok ids seq \<longleftrightarrow> distinct ids \<and> (\<forall>i \<in> set ids. i \<le> seq)"

definition store_ok :: "ccdb \<Rightarrow> bool" where
  "store_ok db \<longleftrightarrow>
     rows_ok (cc_sessions db)
     \<and> serial_ok (map eve_id (cc_events db)) (cc_event_seq db)
     \<and> serial_ok (map app_id (cc_approvals db)) (cc_approval_seq db)
     \<and> db_ok (cc_tasks db) \<and> distinct (project_names (cc_tasks db))"

lemma store_ok_empty [simp]: "store_ok empty_ccdb"
  by (simp add: store_ok_def empty_ccdb_def rows_ok_def serial_ok_def project_names_def) (simp add: empty_db_def)

lemma serial_ok_append: "serial_ok ids seq \<Longrightarrow> serial_ok (ids @ [seq + 1]) (seq + 1)"
  by (fastforce simp: serial_ok_def)

text \<open>An update that keeps the handles keeps the rows well-formed.\<close>

definition keeps_handles :: "(session_rec \<Rightarrow> session_rec) \<Rightarrow> bool" where
  "keeps_handles f \<longleftrightarrow> (\<forall>r. ses_id (f r) = ses_id r \<and> ses_num (f r) = ses_num r \<and> (row_fine r \<longrightarrow> row_fine (f r)))"

lemma rows_ok_update:
  assumes "rows_ok rs" "keeps_handles f"
  shows "rows_ok (update_where p f rs)"
proof -
  have "map ses_id (update_where p f rs) = map ses_id rs" "map ses_num (update_where p f rs) = map ses_num rs"
    by (rule map_update_where, use assms(2) in \<open>simp add: keeps_handles_def\<close>)+
  moreover have "list_all row_fine (update_where p f rs)"
    using assms unfolding rows_ok_def keeps_handles_def by (induction rs) simp_all
  ultimately show ?thesis using assms(1) by (simp add: rows_ok_def)
qed

lemma on_session_other [simp]:
  "cc_tasks (on_session sid f db) = cc_tasks db" "cc_events (on_session sid f db) = cc_events db"
  "cc_event_seq (on_session sid f db) = cc_event_seq db" "cc_approvals (on_session sid f db) = cc_approvals db"
  "cc_approval_seq (on_session sid f db) = cc_approval_seq db" "cc_settings (on_session sid f db) = cc_settings db"
  by (simp_all add: on_session_def)

lemma cc_sessions_on_session: "cc_sessions (on_session sid f db) = update_where (\<lambda>r. ses_id r = sid) f (cc_sessions db)"
  by (simp add: on_session_def)

lemma on_session_ok: "store_ok db \<Longrightarrow> keeps_handles f \<Longrightarrow> store_ok (on_session sid f db)"
  unfolding store_ok_def by (simp add: cc_sessions_on_session rows_ok_update)

lemma max_num_ge: "r \<in> set rs \<Longrightarrow> ses_num r \<le> max_num rs"
  using foldl_max[of 0 "map ses_num rs"] by (simp add: max_num_def)

lemma max_num_nonneg: "0 \<le> max_num rs"
  using foldl_max[of 0 "map ses_num rs"] by (simp add: max_num_def)

lemma keeps_handlesI:
  "(\<And>r. ses_id (f r) = ses_id r) \<Longrightarrow> (\<And>r. ses_num (f r) = ses_num r) \<Longrightarrow> (\<And>r. row_fine r \<Longrightarrow> row_fine (f r)) \<Longrightarrow> keeps_handles f"
  by (simp add: keeps_handles_def)

lemma keeps_merge_row: "keeps_handles (merge_row mode hide recent new)"
  by (rule keeps_handlesI) (simp_all add: merge_row_def row_fine_def)

lemma upsertSession_ok: "store_ok db \<Longrightarrow> store_ok (upsertSession mode s now db)"
proof -
  assume ok: "store_ok db"
  show ?thesis
  proof (cases "se_id s \<in> ses_id ` set (cc_sessions db)")
    case True
    then show ?thesis by (simp add: upsertSession_def Let_def on_session_ok[OF ok keeps_merge_row])
  next
    case False
    let ?new = "new_row s now (se_hide_headless s \<and> Headless (se_entrypoint s)) (max_num (cc_sessions db) + 1)"
    have "ses_num ?new \<notin> ses_num ` set (cc_sessions db)"
      using max_num_ge by (force simp: new_row_def)
    moreover have "row_fine ?new" using max_num_nonneg[of "cc_sessions db"] by (simp add: row_fine_def new_row_def)
    moreover have "ses_id ?new = se_id s" by (simp add: new_row_def)
    ultimately have "rows_ok (cc_sessions db @ [?new])"
      using ok False unfolding store_ok_def rows_ok_def by simp
    moreover have "upsertSession mode s now db = db\<lparr>cc_sessions := cc_sessions db @ [?new]\<rparr>"
      using False by (simp add: upsertSession_def Let_def)
    ultimately show ?thesis using ok unfolding store_ok_def by simp
  qed
qed

text \<open>The simple updates.\<close>

lemma keeps_simple:
  "keeps_handles (\<lambda>r. r\<lparr>ses_last_seen := v, ses_status := st,
       ses_archived := (if ses_auto_archived r then False else ses_archived r), ses_auto_archived := False\<rparr>)"
  "keeps_handles (\<lambda>r. r\<lparr>ses_wait := k, ses_wait_note := n, ses_wait_at := a, ses_wait_stopped := b\<rparr>)"
  "keeps_handles (\<lambda>r. r\<lparr>ses_wait_stopped := b\<rparr>)"
  "keeps_handles (\<lambda>r. r\<lparr>ses_attention := k, ses_attention_reason := n, ses_attention_at := a\<rparr>)"
  "keeps_handles (\<lambda>r. if only \<noteq> [] \<and> ses_attention r \<noteq> only then r else r\<lparr>ses_attention := [], ses_attention_reason := []\<rparr>)"
  "keeps_handles (\<lambda>r. r\<lparr>ses_seen_at := h r\<rparr>)"
  "keeps_handles (\<lambda>r. r\<lparr>ses_archived := b, ses_auto_archived := False\<rparr>)"
  "keeps_handles (\<lambda>r. r\<lparr>ses_archived := True, ses_auto_archived := True\<rparr>)"
  "keeps_handles (\<lambda>r. r\<lparr>ses_color := k\<rparr>)"
  "keeps_handles (\<lambda>r. if ses_color r = [] then r\<lparr>ses_color := k\<rparr> else r)"
  "keeps_handles (\<lambda>r. r\<lparr>ses_favorite := b, ses_favorite_at := a\<rparr>)"
  "keeps_handles (\<lambda>r. r\<lparr>ses_later_at := l\<rparr>)" "keeps_handles (\<lambda>r. r\<lparr>ses_grid_at := g r\<rparr>)"
  "keeps_handles (\<lambda>r. if ses_origin r = [] then r\<lparr>ses_origin := k\<rparr> else r)"
  "keeps_handles (\<lambda>r. r\<lparr>ses_custom_title := k\<rparr>)" "keeps_handles (\<lambda>r. r\<lparr>ses_user_group := k\<rparr>)"
  "keeps_handles (\<lambda>r. r\<lparr>ses_title_status := k\<rparr>)" "keeps_handles (\<lambda>r. r\<lparr>ses_project := k\<rparr>)"
  "keeps_handles (\<lambda>r. r\<lparr>ses_gen_title := k, ses_gen_title_at := a, ses_title_status := n\<rparr>)"
  by (rule keeps_handlesI; simp add: row_fine_def)+

lemmas simple_ok = keeps_simple[THEN on_session_ok[rotated]]

lemma ClearAttention_ok: "store_ok db \<Longrightarrow> store_ok (ClearAttention sid only db)"
  unfolding ClearAttention_def by (rule simple_ok)

lemma marks_ok:
  assumes "store_ok db"
  shows "store_ok (TouchSession sid st now db)" "store_ok (fst (SetWait sid kind note now db))"
    "store_ok (fst (TurnWait sid now db))" "store_ok (SetAttention sid kind reason now db)"
    "store_ok (ClearAttention sid only db)" "store_ok (MarkSeen sid now db)" "store_ok (SetArchived sid b db)"
    "store_ok (SetColor pick sid color db)" "store_ok (SetFavorite sid b now db)" "store_ok (SetLater sid b now db)"
    "store_ok (SetGrid sid b now db)" "store_ok (SetOrigin sid origin db)" "store_ok (SetCustomTitle sid title db)"
    "store_ok (SetUserGroup sid grp db)" "store_ok (SetGenTitle sid title now db)"
  using assms
  by (auto simp: TouchSession_def SetWait_def TurnWait_def SetAttention_def ClearAttention_ok MarkSeen_def
      SetArchived_def SetColor_def SetFavorite_def SetLater_def SetGrid_def SetOrigin_def SetCustomTitle_def
      SetUserGroup_def SetGenTitle_def Let_def intro!: simple_ok ClearAttention_ok split: option.split)

lemma assign_colors_ok: "store_ok db \<Longrightarrow> store_ok (assign_colors pick used ids db)"
  by (induction pick used ids db rule: assign_colors.induct) (simp_all add: Let_def simple_ok)

lemma where_ok: "store_ok db \<Longrightarrow> keeps_handles f \<Longrightarrow> store_ok (db\<lparr>cc_sessions := update_where p f (cc_sessions db)\<rparr>)"
  unfolding store_ok_def by (simp add: rows_ok_update)

lemma more_marks_ok:
  assumes ok: "store_ok db"
  shows "store_ok (AssignRunningColors pick db)" "store_ok (SetTitleStatus ids status db)"
    "store_ok (SweepRunningTitles db)" "store_ok (fst (AutoArchive before db))"
proof -
  show "store_ok (AssignRunningColors pick db)" unfolding AssignRunningColors_def Let_def by (rule assign_colors_ok[OF ok])
  show "store_ok (SetTitleStatus ids status db)"
    unfolding SetTitleStatus_def using ok by (induction ids arbitrary: db) (simp_all add: simple_ok)
  show "store_ok (SweepRunningTitles db)" unfolding SweepRunningTitles_def by (rule where_ok[OF ok]) (rule keeps_simple)
  show "store_ok (fst (AutoArchive before db))"
    unfolding AutoArchive_def Let_def fst_conv by (rule where_ok[OF ok]) (rule keeps_simple)
qed

text \<open>Events and approvals.\<close>

lemma approvals_ok:
  assumes ok: "store_ok db" and ids: "map app_id as = map app_id (cc_approvals db)"
  shows "store_ok (db\<lparr>cc_approvals := as\<rparr>)"
  using ok unfolding store_ok_def by (simp add: ids)

lemma approval_ids: "(\<And>a. app_id (f a) = app_id a) \<Longrightarrow> map app_id (update_where p f as) = map app_id as"
  by (rule map_update_where) simp

lemma app_id_decide_row [simp]: "app_id (decide_row st now a) = app_id a"
  by (simp add: decide_row_def)

lemma records_ok:
  assumes ok: "store_ok db"
  shows "store_ok (fst (AppendEvent e now db))" "store_ok (fst (InsertApproval a now db))"
    "store_ok (UpdateApprovalStatus i st reason now db)" "store_ok (ResolvePendingByToolUseID sid use st now db)"
    "store_ok (ResolveOldestPendingForTool sid tool st now db)" "store_ok (MarkStalePendingTimeout age now db)"
    "store_ok (SetSetting key v now db)"
proof -
  show "store_ok (fst (AppendEvent e now db))" "store_ok (fst (InsertApproval a now db))"
    using ok unfolding store_ok_def by (simp_all add: AppendEvent_def InsertApproval_def Let_def serial_ok_append)
  show "store_ok (UpdateApprovalStatus i st reason now db)"
    unfolding UpdateApprovalStatus_def by (rule approvals_ok[OF ok]) (rule approval_ids, simp)
  show "store_ok (ResolvePendingByToolUseID sid use st now db)"
    unfolding ResolvePendingByToolUseID_def by (simp add: ok) (intro impI approvals_ok[OF ok] approval_ids, simp)
  show "store_ok (ResolveOldestPendingForTool sid tool st now db)"
    unfolding ResolveOldestPendingForTool_def
    by (simp add: ok split: option.split) (intro impI allI approvals_ok[OF ok] approval_ids, simp)
  show "store_ok (MarkStalePendingTimeout age now db)"
    unfolding MarkStalePendingTimeout_def Let_def by (rule approvals_ok[OF ok]) (rule approval_ids, simp)
  show "store_ok (SetSetting key v now db)" using ok unfolding store_ok_def SetSetting_def by simp
qed

text \<open>Projects.\<close>

lemma tasks_ok:
  assumes "store_ok db" "db_ok t" "distinct (project_names t)"
  shows "store_ok (db\<lparr>cc_tasks := t\<rparr>)"
  using assms unfolding store_ok_def by simp

lemma on_tasks_ok:
  "store_ok db \<Longrightarrow> db_ok (f (cc_tasks db)) \<Longrightarrow> distinct (project_names (f (cc_tasks db))) \<Longrightarrow> store_ok (on_tasks f db)"
  unfolding on_tasks_def by (rule tasks_ok)

lemma on_tasks_other [simp]:
  "cc_tasks (on_tasks f db) = f (cc_tasks db)" "cc_sessions (on_tasks f db) = cc_sessions db"
  by (simp_all add: on_tasks_def)

lemma db_ok_projects [simp]: "db_ok (t\<lparr>db_projects := ps\<rparr>) = db_ok t"
  by (rule db_ok_cong) (simp add: task_tables_def)

lemma store_ok_tasks: "store_ok db \<Longrightarrow> db_ok (cc_tasks db) \<and> distinct (project_names (cc_tasks db))"
  by (simp add: store_ok_def)

lemma ensureProject_ok:
  assumes "store_ok db"
  shows "store_ok (on_tasks (ensureProject pick now name) db)"
proof (rule on_tasks_ok[OF assms])
  show "db_ok (ensureProject pick now name (cc_tasks db))"
    using store_ok_tasks[OF assms] by (simp add: ensureProject_def)
  show "distinct (project_names (ensureProject pick now name (cc_tasks db)))"
    using store_ok_tasks[OF assms] by (simp add: ensureProject_def project_names_def)
qed

lemma set_ords_names: "map pj_name (set_ords i names ps) = map pj_name ps"
  by (induction i names ps rule: set_ords.induct) (simp_all, simp add: map_update_where)

lemma SetProjectOrder_ok:
  assumes "store_ok db"
  shows "store_ok (fst (SetProjectOrder names db))"
  using assms store_ok_tasks[OF assms]
  by (simp add: SetProjectOrder_def Let_def split: sum.split)
     (intro allI impI on_tasks_ok, simp_all add: project_names_def set_ords_names)

lemma MoveProject_ok: "store_ok db \<Longrightarrow> store_ok (fst (MoveProject name delta db))"
  by (simp add: MoveProject_def Let_def SetProjectOrder_ok split: option.split)

lemma rename_tasks_keys: "id_keys (t\<lparr>db_tasks := update_where p (\<lambda>r. r\<lparr>tr_project := v\<rparr>) (db_tasks t)\<rparr>) = id_keys t"
  unfolding id_keys_def by simp (rule map_update_where, simp)

lemma rename_set: "pj_name ` set (update_where (\<lambda>p. pj_name p = frm) (\<lambda>p. p\<lparr>pj_name := to\<rparr>) ps) \<subseteq> insert to (pj_name ` set ps - {frm})"
  by (induction ps) auto

lemma rename_distinct:
  "distinct (map pj_name ps) \<Longrightarrow> to \<notin> pj_name ` set ps \<Longrightarrow>
   distinct (map pj_name (update_where (\<lambda>p. pj_name p = frm) (\<lambda>p. p\<lparr>pj_name := to\<rparr>) ps))"
proof (induction ps)
  case (Cons p ps)
  have "pj_name ` set (update_where (\<lambda>p. pj_name p = frm) (\<lambda>p. p\<lparr>pj_name := to\<rparr>) ps) \<subseteq> insert to (pj_name ` set ps - {frm})"
    by (rule rename_set)
  moreover have "frm \<notin> pj_name ` set ps \<Longrightarrow> update_where (\<lambda>p. pj_name p = frm) (\<lambda>p. p\<lparr>pj_name := to\<rparr>) ps = ps"
    by (induction ps) auto
  ultimately show ?case using Cons by (cases "pj_name p = frm") auto
qed simp

text \<open>What a rename leaves of the tables, with the projects' new rows.\<close>

definition renamed_projects :: "string \<Rightarrow> string \<Rightarrow> project_row list \<Rightarrow> project_row list" where
  "renamed_projects frm to ps =
     (if to \<in> pj_name ` set ps then filter (\<lambda>p. pj_name p \<noteq> frm) ps
      else update_where (\<lambda>p. pj_name p = frm) (\<lambda>p. p\<lparr>pj_name := to\<rparr>) ps)"

lemma RenameProject_eq:
  assumes "frm \<noteq> []" "to \<noteq> []" "frm \<noteq> to"
  shows "RenameProject frm to db =
    (db\<lparr>cc_sessions := update_where (\<lambda>r. ses_project r = frm) (\<lambda>r. r\<lparr>ses_project := to\<rparr>) (cc_sessions db),
        cc_tasks := bumpTasksRev ((cc_tasks db)\<lparr>db_projects := renamed_projects frm to (db_projects (cc_tasks db)),
          db_tasks := update_where (\<lambda>r. tr_project r = frm) (\<lambda>r. r\<lparr>tr_project := to\<rparr>) (db_tasks (cc_tasks db))\<rparr>)\<rparr>, None)"
  using assms by (simp add: RenameProject_def renamed_projects_def project_names_def Let_def)

lemma db_ok_rename:
  assumes "db_ok t"
  shows "db_ok (t\<lparr>db_projects := ps, db_tasks := update_where p (\<lambda>r. r\<lparr>tr_project := v\<rparr>) (db_tasks t)\<rparr>)"
proof -
  have "id_keys (t\<lparr>db_projects := ps, db_tasks := update_where p (\<lambda>r. r\<lparr>tr_project := v\<rparr>) (db_tasks t)\<rparr>) = id_keys t"
    unfolding id_keys_def by simp (rule map_update_where, simp)
  then show ?thesis using assms unfolding db_ok_def by simp
qed

lemma RenameProject_ok:
  assumes ok: "store_ok db"
  shows "store_ok (fst (RenameProject frm to db))"
proof (cases "frm = [] \<or> to = [] \<or> frm = to")
  case False
  let ?t = "(cc_tasks db)\<lparr>db_projects := renamed_projects frm to (db_projects (cc_tasks db)),
      db_tasks := update_where (\<lambda>r. tr_project r = frm) (\<lambda>r. r\<lparr>tr_project := to\<rparr>) (db_tasks (cc_tasks db))\<rparr>"
  have "db_ok ?t" by (rule db_ok_rename) (use store_ok_tasks[OF ok] in blast)
  then have "db_ok (bumpTasksRev ?t)" by simp
  moreover have "distinct (map pj_name (renamed_projects frm to (db_projects (cc_tasks db))))"
    using store_ok_tasks[OF ok] unfolding renamed_projects_def project_names_def
    by (simp add: rename_distinct distinct_map_filter')
  then have "distinct (project_names (bumpTasksRev ?t))" by (simp add: project_names_def)
  moreover have "store_ok (db\<lparr>cc_sessions := update_where (\<lambda>r. ses_project r = frm) (\<lambda>r. r\<lparr>ses_project := to\<rparr>) (cc_sessions db)\<rparr>)"
    by (rule where_ok[OF ok]) (rule keeps_simple)
  ultimately have "store_ok (db\<lparr>cc_sessions := update_where (\<lambda>r. ses_project r = frm) (\<lambda>r. r\<lparr>ses_project := to\<rparr>) (cc_sessions db),
      cc_tasks := bumpTasksRev ?t\<rparr>)" by (rule tasks_ok[rotated])
  then show ?thesis using False RenameProject_eq[of frm to db] by simp
qed (auto simp: RenameProject_def ok)

lemma project_ops_ok:
  assumes ok: "store_ok db"
  shows "store_ok (SetProject pick sid name now db)" "store_ok (SetProjectColor pick name color now db)"
proof -
  show "store_ok (SetProject pick sid name now db)"
    unfolding SetProject_def by (rule simple_ok) (simp add: ok ensureProject_ok)
  have "store_ok (on_tasks (\<lambda>t. t\<lparr>db_projects := update_where (\<lambda>p. pj_name p = name) (\<lambda>p. p\<lparr>pj_color := c\<rparr>) (db_projects t)\<rparr>) d)"
    if "store_ok d" for d c
    using store_ok_tasks[OF that] that by (intro on_tasks_ok) (simp_all add: project_names_def map_update_where)
  then show "store_ok (SetProjectColor pick name color now db)"
    unfolding SetProjectColor_def Let_def by (simp add: ok ensureProject_ok)
qed

section \<open>Reachable states\<close>

text \<open>Every operation of the storage, the to-do list's among them.\<close>

inductive store_step :: "ccdb \<Rightarrow> ccdb \<Rightarrow> bool" where
  upsert: "store_step db (upsertSession mode s now db)"
| touch: "store_step db (TouchSession sid st now db)"
| event: "store_step db (fst (AppendEvent e now db))"
| approval: "store_step db (fst (InsertApproval a now db))"
| approval_status: "store_step db (UpdateApprovalStatus i st reason now db)"
| resolve_id: "store_step db (ResolvePendingByToolUseID sid use st now db)"
| resolve_tool: "store_step db (ResolveOldestPendingForTool sid tool st now db)"
| stale: "store_step db (MarkStalePendingTimeout age now db)"
| wait: "store_step db (fst (SetWait sid kind note now db))"
| turn_wait: "store_step db (fst (TurnWait sid now db))"
| attention: "store_step db (SetAttention sid kind reason now db)"
| clear_attention: "store_step db (ClearAttention sid only db)"
| seen: "store_step db (MarkSeen sid now db)"
| archived: "store_step db (SetArchived sid b db)"
| color: "store_step db (SetColor pick sid color db)"
| colors: "store_step db (AssignRunningColors pick db)"
| favorite: "store_step db (SetFavorite sid b now db)"
| later: "store_step db (SetLater sid b now db)"
| grid: "store_step db (SetGrid sid b now db)"
| origin: "store_step db (SetOrigin sid origin db)"
| custom_title: "store_step db (SetCustomTitle sid title db)"
| user_group: "store_step db (SetUserGroup sid grp db)"
| title_status: "store_step db (SetTitleStatus ids status db)"
| gen_title: "store_step db (SetGenTitle sid title now db)"
| sweep: "store_step db (SweepRunningTitles db)"
| auto_archive: "store_step db (fst (AutoArchive before db))"
| setting: "store_step db (SetSetting key v now db)"
| set_project: "store_step db (SetProject pick sid name now db)"
| project_order: "store_step db (fst (SetProjectOrder names db))"
| move_project: "store_step db (fst (MoveProject name delta db))"
| rename_project: "store_step db (fst (RenameProject frm to db))"
| project_color: "store_step db (SetProjectColor pick name color now db)"
| tasks: "db_step (cc_tasks db) t \<Longrightarrow> store_step db (db\<lparr>cc_tasks := t\<rparr>)"

inductive store_reach :: "ccdb \<Rightarrow> bool" where
  start: "store_reach empty_ccdb"
| step: "store_reach db \<Longrightarrow> store_step db db' \<Longrightarrow> store_reach db'"

lemma store_step_ok: "store_step db db' \<Longrightarrow> store_ok db \<Longrightarrow> store_ok db'"
proof (induction rule: store_step.induct)
  case (tasks db t)
  show ?case
    by (rule tasks_ok[OF tasks.prems])
       (use store_ok_tasks[OF tasks.prems] effect_ok effect_names step_effect[OF tasks.hyps] in blast)+
qed (simp_all only: upsertSession_ok marks_ok more_marks_ok records_ok project_ops_ok SetProjectOrder_ok MoveProject_ok RenameProject_ok)

lemma store_reach_ok: "store_reach db \<Longrightarrow> store_ok db"
  by (induction rule: store_reach.induct) (simp_all add: store_step_ok)

section \<open>What upserts leave alone\<close>

text \<open>The marks of the operator and of the session itself, as opposed to what hooks and discovery know.\<close>

definition marks_of where
  "marks_of r = (ses_num r, ses_first_seen r, ses_custom_title r, ses_gen_title r, ses_gen_title_at r, ses_title_status r,
     ses_user_group r, ses_favorite r, ses_favorite_at r, ses_project r, ses_color r, ses_later_at r, ses_grid_at r,
     ses_origin r, (ses_wait r, ses_wait_note r, ses_wait_at r, ses_wait_stopped r),
     (ses_attention r, ses_attention_reason r, ses_attention_at r), ses_seen_at r)"

definition by_hand :: "session_rec \<Rightarrow> bool" where
  "by_hand r \<longleftrightarrow> ses_archived r \<and> \<not> ses_auto_archived r"

lemma merge_row_keeps:
  "ses_id (merge_row mode hide recent new r) = ses_id r" "marks_of (merge_row mode hide recent new r) = marks_of r"
  "mode \<noteq> LastSeenSet \<Longrightarrow> ses_last_seen r \<le> ses_last_seen (merge_row mode hide recent new r)"
  "ses_last_activity r \<le> ses_last_activity (merge_row mode hide recent new r)"
  "by_hand r \<Longrightarrow> by_hand (merge_row mode hide recent new r)"
  by (simp_all add: merge_row_def marks_of_def by_hand_def files_away_def brings_back_def split: lastSeenMode.split)

lemma upsert_row:
  assumes "r \<in> set (cc_sessions db)"
  obtains "r \<in> set (cc_sessions (upsertSession mode s now db))"
  | hide recent new where "merge_row mode hide recent new r \<in> set (cc_sessions (upsertSession mode s now db))"
proof -
  have image: "(if p x then f x else x) \<in> set (update_where p f xs)" if "x \<in> set xs" for p f and x :: session_rec and xs
    using that by (simp add: update_where_def)
  show ?thesis
  proof (cases "se_id s \<in> ses_id ` set (cc_sessions db)")
    case True
    define hide where "hide = (se_hide_headless s \<and> Headless (se_entrypoint s))"
    define recent where "recent = unix_sec (add_seconds now (- headlessClassifyWindow))"
    define new where "new = new_row s now hide (max_num (cc_sessions db) + 1)"
    have "cc_sessions (upsertSession mode s now db) =
        update_where (\<lambda>r. ses_id r = se_id s) (merge_row mode hide recent new) (cc_sessions db)"
      using True by (simp add: upsertSession_def Let_def cc_sessions_on_session hide_def recent_def new_def)
    then show ?thesis using image[OF assms, of "\<lambda>r. ses_id r = se_id s" "merge_row mode hide recent new"] that
      by (cases "ses_id r = se_id s") simp_all
  next
    case False
    then show ?thesis using assms that(1) by (simp add: upsertSession_def Let_def)
  qed
qed

lemma upsert_keeps_row:
  assumes "r \<in> set (cc_sessions db)"
  shows "\<exists>r' \<in> set (cc_sessions (upsertSession mode s now db)).
    ses_id r' = ses_id r \<and> marks_of r' = marks_of r \<and> ses_last_activity r \<le> ses_last_activity r'
    \<and> (mode \<noteq> LastSeenSet \<longrightarrow> ses_last_seen r \<le> ses_last_seen r') \<and> (by_hand r \<longrightarrow> by_hand r')"
proof (cases rule: upsert_row[OF assms, of mode s now])
  case 1
  then show ?thesis by (intro bexI[OF _ 1]) simp
next
  case (2 hide recent new)
  then show ?thesis by (intro bexI[OF _ 2] conjI impI merge_row_keeps; simp?)
qed

section \<open>Archiving\<close>

definition kept :: "session_rec \<Rightarrow> bool" where
  "kept r \<longleftrightarrow> ses_favorite r \<or> ses_project r \<noteq> [] \<or> ses_status r \<in> {StatusActive, StatusIdle}"

lemma AutoArchive_sessions:
  "cc_sessions (fst (AutoArchive before db)) =
     map (\<lambda>r. if \<not> ses_archived r \<and> \<not> kept r \<and> ses_last_seen r < unix_sec before
              then r\<lparr>ses_archived := True, ses_auto_archived := True\<rparr> else r) (cc_sessions db)"
proof -
  have "(\<not> ses_archived r \<and> \<not> ses_favorite r \<and> ses_project r = [] \<and> ses_status r \<notin> {StatusActive, StatusIdle}
      \<and> ses_last_seen r < unix_sec before) = (\<not> ses_archived r \<and> \<not> kept r \<and> ses_last_seen r < unix_sec before)" for r :: session_rec
    unfolding kept_def by blast
  then show ?thesis unfolding AutoArchive_def Let_def fst_conv update_where_def by simp
qed

text \<open>A row that was filed away automatically comes back when the session runs again, unless it runs headless.\<close>

lemma brings_back_running:
  "ses_auto_archived r \<Longrightarrow> st = StatusActive \<or> st = StatusIdle \<Longrightarrow> ses_status new = st \<Longrightarrow>
   \<not> like_sdk (keep_new (ses_entrypoint new) (ses_entrypoint r)) \<Longrightarrow> \<not> files_away hide recent r \<Longrightarrow>
   \<not> ses_archived (merge_row mode hide recent new r) \<and> \<not> ses_auto_archived (merge_row mode hide recent new r)"
  by (auto simp: merge_row_def brings_back_def)

section \<open>Projects in order\<close>

lemma list_projects_names: "map po_name (ListProjects db) = map pj_name (list_projects db)"
  by (simp add: ListProjects_def)

lemma set_list_projects [simp]: "set (list_projects db) = set (db_projects (cc_tasks db))"
  by (simp add: list_projects_def)

lemma named_first_ok:
  "set names \<subseteq> set known \<Longrightarrow> distinct (order @ names) \<Longrightarrow> named_first known order names = Inr (order @ names)"
  by (induction known order names rule: named_first.induct) auto

lemma named_first_bad: "\<not> set names \<subseteq> set known \<Longrightarrow> \<exists>n. n \<in> set names - set known \<and> named_first known order names = Inl (NoProject n)"
proof (induction known order names rule: named_first.induct)
  case (2 known order n names)
  then show ?case by (cases "n \<in> set known") auto
qed simp

text \<open>After renumbering, the number of a project is its place in the order.\<close>

definition ord_in :: "string list \<Rightarrow> string \<Rightarrow> nat" where
  "ord_in order n = length (takeWhile (\<lambda>m. m \<noteq> n) order)"

lemma set_ords_other: "n \<notin> set names \<Longrightarrow> p \<in> set (set_ords i names ps) \<Longrightarrow> pj_name p = n \<Longrightarrow> p \<in> set ps"
proof (induction i names ps rule: set_ords.induct)
  case (2 i m names ps)
  then have "p \<in> set (update_where (\<lambda>p. pj_name p = m) (\<lambda>p. p\<lparr>pj_ord := i\<rparr>) ps)" by auto
  then show ?case using "2.prems" by (auto simp: update_where_def split: if_splits)
qed simp

lemma set_ords_ord:
  "distinct names \<Longrightarrow> p \<in> set (set_ords i names ps) \<Longrightarrow> pj_name p \<in> set names \<Longrightarrow> pj_ord p = i + int (ord_in names (pj_name p))"
proof (induction i names ps rule: set_ords.induct)
  case (2 i m names ps)
  show ?case
  proof (cases "pj_name p = m")
    case True
    then have "p \<in> set (update_where (\<lambda>p. pj_name p = m) (\<lambda>p. p\<lparr>pj_ord := i\<rparr>) ps)"
      using "2.prems" set_ords_other[of m names p "i + 1"] by simp
    then obtain q where "p = (if pj_name q = m then q\<lparr>pj_ord := i\<rparr> else q)" by (auto simp only: update_where_def set_map image_iff)
    then have "pj_ord p = i" using True by (cases "pj_name q = m") simp_all
    then show ?thesis using True by (simp add: ord_in_def)
  next
    case False
    have "pj_ord p = i + 1 + int (ord_in names (pj_name p))"
      by (rule "2.IH") (use "2.prems" False in simp_all)
    then show ?thesis using False by (simp add: ord_in_def)
  qed
qed simp

lemma ord_in_nth: "distinct order \<Longrightarrow> i < length order \<Longrightarrow> ord_in order (order ! i) = i"
proof -
  assume d: "distinct order" and i: "i < length order"
  have "takeWhile (\<lambda>m. m \<noteq> order ! i) order = take i order"
    using d i by (intro takeWhile_eq_take_P_nth) (auto simp: nth_eq_iff_index_eq)
  then show ?thesis using i by (simp add: ord_in_def)
qed

lemma list_order: "strict_weak UNIV (\<lambda>a b. if pj_ord a \<noteq> pj_ord b then pj_ord a < pj_ord b else pj_name a < pj_name b)"
  by (rule strict_weak_by) (rule strict_weak_key)

lemma list_projects_ordered:
  assumes d: "distinct order" and ps: "set order = pj_name ` set ps" "distinct (map pj_name ps)"
    and db: "db_projects (cc_tasks db) = set_ords 0 order ps"
  shows "map pj_name (list_projects db) = order"
proof -
  let ?lt = "\<lambda>a b. if pj_ord a \<noteq> pj_ord b then pj_ord a < pj_ord b else pj_name a < pj_name b"
  let ?l = "list_projects db"
  have names: "set (map pj_name ?l) = set order" "distinct (map pj_name ?l)"
  proof -
    have "map pj_name (set_ords 0 order ps) = map pj_name ps" by (rule set_ords_names)
    then show "set (map pj_name ?l) = set order" using ps(1) by (simp add: db) (metis list.set_map)
    show "distinct (map pj_name ?l)" using ps(2) by (simp add: list_projects_def db set_ords_names)
  qed
  have ord: "pj_ord p = int (ord_in order (pj_name p))" if "p \<in> set ?l" for p
  proof -
    have "pj_name p \<in> set order" using imageI[OF that, of pj_name] names(1) unfolding set_map by blast
    then show ?thesis using set_ords_ord[OF d, of p 0 ps] that by (simp add: db)
  qed
  have "in_order ?lt ?l" unfolding list_projects_def by (rule strict_weak.sorted_stable_sort[OF list_order]) simp
  then have "sorted_wrt (\<lambda>a b. ord_in order (pj_name a) \<le> ord_in order (pj_name b)) ?l"
  proof (rule sorted_wrt_mono_rel[rotated])
    fix a b assume "a \<in> set ?l" "b \<in> set ?l" "\<not> ?lt b a"
    then show "ord_in order (pj_name a) \<le> ord_in order (pj_name b)" using ord by (auto split: if_splits)
  qed
  then have s: "sorted (map (ord_in order) (map pj_name ?l))" by (simp add: sorted_wrt_map)
  have "map (ord_in order) order = [0..<length order]"
    using ord_in_nth[OF d] by (intro nth_equalityI) simp_all
  then have srt: "sorted (map (ord_in order) order)" and inj: "inj_on (ord_in order) (set order)"
    by (simp, metis distinct_map distinct_upt)
  have "map (ord_in order) ns = map (ord_in order) order"
    if "sorted (map (ord_in order) ns)" "set ns = set order" "distinct ns" for ns
    using that srt inj d by (intro sorted_distinct_set_unique) (simp_all add: distinct_map)
  from this[OF s names] show ?thesis using inj names(1) inj_on_map_eq_map by (metis Un_absorb)
qed

lemma SetProjectOrder_result:
  assumes ok: "store_ok db" and names: "distinct names" "set names \<subseteq> set (map po_name (ListProjects db))"
  shows "snd (SetProjectOrder names db) = None"
    "map po_name (ListProjects (fst (SetProjectOrder names db))) =
       names @ filter (\<lambda>n. n \<notin> set names) (map po_name (ListProjects db))"
proof -
  let ?known = "map po_name (ListProjects db)"
  let ?order = "names @ filter (\<lambda>n. n \<notin> set names) ?known"
  have nf: "named_first ?known [] names = Inr names" using named_first_ok[of names ?known "[]"] names by simp
  then have eq: "SetProjectOrder names db = (on_tasks (\<lambda>t. t\<lparr>db_projects := set_ords 0 ?order (db_projects t)\<rparr>) db, None)"
    by (simp add: SetProjectOrder_def Let_def)
  then show "snd (SetProjectOrder names db) = None" by simp
  have dn: "distinct (map pj_name (db_projects (cc_tasks db)))"
    using store_ok_tasks[OF ok] by (simp add: project_names_def)
  have "distinct ?known" using dn by (simp add: list_projects_names list_projects_def)
  then have d: "distinct ?order" using names(1) by (auto simp: distinct_append)
  have "set ?order = set ?known" using names(2) by auto
  also have "set ?known = pj_name ` set (db_projects (cc_tasks db))" unfolding list_projects_names by simp
  finally have "map pj_name (list_projects (fst (SetProjectOrder names db))) = ?order"
    by (rule list_projects_ordered[OF d _ dn]) (simp add: eq)
  then show "map po_name (ListProjects (fst (SetProjectOrder names db))) = ?order" unfolding list_projects_names .
qed

lemma place_of_snoc: "place_of name (xs @ [x]) = (if x = name then Some (length xs) else place_of name xs)"
  by (simp add: place_of_def enumerate_append_eq)

lemma place_of_Some: "place_of name xs = Some i \<Longrightarrow> i < length xs \<and> xs ! i = name"
proof (induction xs rule: rev_induct)
  case (snoc x xs)
  then show ?case by (auto simp: place_of_snoc nth_append split: if_splits)
qed (simp add: place_of_def)

lemma place_of_None: "place_of name xs = None \<longleftrightarrow> name \<notin> set xs"
  by (induction xs rule: rev_induct) (auto simp: place_of_snoc, simp add: place_of_def)

lemma place_of_nth: "distinct xs \<Longrightarrow> i < length xs \<Longrightarrow> place_of (xs ! i) xs = Some i"
  using place_of_Some[of "xs ! i" xs] place_of_None[of "xs ! i" xs] nth_eq_iff_index_eq
  by (cases "place_of (xs ! i) xs") fastforce+

definition moved :: "nat \<Rightarrow> int \<Rightarrow> string list \<Rightarrow> string list" where
  "moved i delta xs =
     (let rest = take i xs @ drop (i + 1) xs; to = nat (min (max (int i + delta) 0) (int (length xs) - 1))
      in take to rest @ [xs ! i] @ drop to rest)"

lemma moved_same: "i < length xs \<Longrightarrow> nat (min (max (int i + delta) 0) (int (length xs) - 1)) = i \<Longrightarrow> moved i delta xs = xs"
  by (simp add: moved_def Let_def id_take_nth_drop[symmetric])

lemma MoveProject_result:
  assumes ok: "store_ok db" and i: "i < length (ListProjects db)" "po_name (ListProjects db ! i) = name"
  shows "snd (MoveProject name delta db) = None"
    "map po_name (ListProjects (fst (MoveProject name delta db))) = moved i delta (map po_name (ListProjects db))"
proof -
  let ?xs = "map po_name (ListProjects db)"
  let ?to = "nat (min (max (int i + delta) 0) (int (length ?xs) - 1))"
  let ?rest = "take i ?xs @ drop (i + 1) ?xs"
  have len: "i < length ?xs" and nth: "?xs ! i = name" using i by simp_all
  have d: "distinct ?xs"
    using store_ok_tasks[OF ok] by (simp add: list_projects_names list_projects_def project_names_def)
  have split: "?xs = take i ?xs @ name # drop (i + 1) ?xs" using id_take_nth_drop[OF len] nth by simp
  have pl: "place_of name ?xs = Some i" using place_of_nth[OF d len] nth by simp
  have "distinct (take i ?xs @ name # drop (i + 1) ?xs)" "set (take i ?xs @ name # drop (i + 1) ?xs) = set ?xs"
    using d split by metis+
  then have rest: "distinct ?rest" "name \<notin> set ?rest" "insert name (set ?rest) = set ?xs" by auto
  have new: "distinct (moved i delta ?xs)" "set (moved i delta ?xs) = set ?xs"
  proof -
    have "distinct (take t ys @ x # drop t ys) \<and> set (take t ys @ x # drop t ys) = insert x (set ys)"
      if "distinct ys" "x \<notin> set ys" for t ys and x :: string
    proof -
      have "mset (take t ys @ x # drop t ys) = mset (x # ys)"
        using mset_append[of "take t ys" "drop t ys"] append_take_drop_id[of t ys] by simp
      then have "distinct (take t ys @ x # drop t ys) = distinct (x # ys)" "set (take t ys @ x # drop t ys) = set (x # ys)"
        by (rule mset_eq_imp_distinct_iff, rule mset_eq_setD)
      then show ?thesis using that by simp
    qed
    from this[OF rest(1,2)] rest(3) show "distinct (moved i delta ?xs)" "set (moved i delta ?xs) = set ?xs"
      by (simp_all add: moved_def Let_def nth)
  qed
  have eq: "MoveProject name delta db = (if ?to = i then (db, None) else SetProjectOrder (moved i delta ?xs) db)"
    by (simp add: MoveProject_def pl Let_def moved_def nth)
  have "filter (\<lambda>n. n \<notin> set (moved i delta ?xs)) ?xs = []" by (simp add: new(2) filter_empty_conv)
  then have res: "snd (SetProjectOrder (moved i delta ?xs) db) = None"
    "map po_name (ListProjects (fst (SetProjectOrder (moved i delta ?xs) db))) = moved i delta ?xs"
    using SetProjectOrder_result[OF ok new(1)] new(2) by simp_all
  show "snd (MoveProject name delta db) = None" using res by (simp add: eq)
  show "map po_name (ListProjects (fst (MoveProject name delta db))) = moved i delta ?xs"
    using res moved_same[OF len, of delta] by (simp add: eq)
qed

section \<open>Listing\<close>

lemma list_before_weak: "strict_weak UNIV list_before"
  unfolding list_before_def
  by unfold_locales (auto split: if_splits)

lemma se_id_list [simp]: "se_id (fillWork db s) = se_id s" "se_id (list_entry db r) = ses_id r"
proof -
  show "se_id (fillWork db s) = se_id s"
    by (simp add: fillWork_def Let_def split: option.split)
  show "se_id (list_entry db r) = ses_id r"
    by (simp add: list_entry_def scan_session_def finishSeen_def finishWait_def finishAttention_def scan_base_def Let_def)
qed

lemma ListSessions_ids:
  "map se_id (ListSessions a db) = map ses_id (stable_sort list_before (filter (\<lambda>r. ses_archived r = a) (cc_sessions db)))"
  by (simp add: ListSessions_def)

section \<open>Renaming\<close>

lemma count_moved:
  assumes "\<And>x. g (f x) = to" "frm \<noteq> to"
  shows "length (filter (\<lambda>x. g x = to) (update_where (\<lambda>x. g x = frm) f xs)) =
           length (filter (\<lambda>x. g x = frm) xs) + length (filter (\<lambda>x. g x = to) xs)"
    "length (filter (\<lambda>x. g x = frm) (update_where (\<lambda>x. g x = frm) f xs)) = 0"
    "n \<noteq> frm \<Longrightarrow> n \<noteq> to \<Longrightarrow> filter (\<lambda>x. g x = n) (update_where (\<lambda>x. g x = frm) f xs) = filter (\<lambda>x. g x = n) xs"
  using assms by (induction xs) (simp_all)

lemma renamed_names:
  assumes "frm \<noteq> to"
  shows "pj_name ` set (renamed_projects frm to ps) =
    (if frm \<in> pj_name ` set ps then insert to (pj_name ` set ps - {frm}) else pj_name ` set ps)"
proof (cases "to \<in> pj_name ` set ps")
  case True
  have "pj_name ` set (filter (\<lambda>p. pj_name p \<noteq> frm) ps) = pj_name ` set ps - {frm}" by auto
  moreover have "S - {frm} = (if frm \<in> S then insert to (S - {frm}) else S)" if "to \<in> S" for S
    using that assms by auto
  from this[OF True] calculation show ?thesis unfolding renamed_projects_def if_P[OF True] by (rule trans[rotated])
next
  case False
  have "pj_name ` set (update_where (\<lambda>p. pj_name p = frm) (\<lambda>p. p\<lparr>pj_name := to\<rparr>) ps) =
      (if frm \<in> pj_name ` set ps then insert to (pj_name ` set ps - {frm}) else pj_name ` set ps)"
    using assms by (induction ps) (auto split: if_splits)
  then show ?thesis using False by (simp add: renamed_projects_def)
qed

section \<open>Properties\<close>

text \<open>C11. Whatever operations have run, on sessions, events, approvals, projects or the to-do list: a session id
  has one row, every session has a number of its own, only archived sessions are marked as filed
  away automatically, ids of events and approvals are given out once, and no two projects share
  a name.\<close>

theorem store_consistent:
  assumes "store_reach db"
  shows "distinct (map ses_id (cc_sessions db)) \<and> distinct (map ses_num (cc_sessions db))
    \<and> (\<forall>r \<in> set (cc_sessions db). 0 < ses_num r \<and> (ses_auto_archived r \<longrightarrow> ses_archived r))
    \<and> distinct (map eve_id (cc_events db)) \<and> distinct (map app_id (cc_approvals db))
    \<and> distinct (project_names (cc_tasks db)) \<and> distinct (map tr_id (db_tasks (cc_tasks db)))"
  using store_reach_ok[OF assms] db_ok_distinct
  unfolding store_ok_def rows_ok_def serial_ok_def row_fine_def list_all_iff by blast

definition sample_store :: ccdb where
  "sample_store = upsertSession LastSeenMax sample_session sample_now empty_ccdb"

lemma sample_store_reach: "store_reach sample_store"
  unfolding sample_store_def by (rule store_reach.step[OF store_reach.start store_step.upsert])

theorem store_consistent_witness:
  "distinct (map ses_num (cc_sessions sample_store)) \<and> distinct (project_names (cc_tasks sample_store))"
  using store_consistent[OF sample_store_reach] by blast

text \<open>C12. What hooks and discovery report about a session never touches what the operator and the session set
  (titles, group, pin, project, colour, marks, origin, attention, declared wait, number), never
  moves its last activity back, never moves last_seen back unless discovery says so, never brings
  back a session archived by hand, and never drops a session.\<close>

theorem reports_keep_marks:
  assumes "r \<in> set (cc_sessions db)"
  shows "\<exists>r' \<in> set (cc_sessions (upsertSession mode s now db)).
    ses_id r' = ses_id r \<and> marks_of r' = marks_of r \<and> ses_last_activity r \<le> ses_last_activity r'
    \<and> (mode \<noteq> LastSeenSet \<longrightarrow> ses_last_seen r \<le> ses_last_seen r') \<and> (by_hand r \<longrightarrow> by_hand r')"
  using assms by (rule upsert_keeps_row)

lemma sample_row: "new_row sample_session sample_now False 1 \<in> set (cc_sessions sample_store)"
  by (simp add: sample_store_def upsertSession_def empty_ccdb_def max_num_def Let_def sample_session_def Headless_def)

theorem reports_keep_marks_witness:
  "\<exists>r' \<in> set (cc_sessions (upsertSession LastSeenKeep sample_session sample_now sample_store)).
     marks_of r' = marks_of (new_row sample_session sample_now False 1)"
  using reports_keep_marks[OF sample_row] by blast

text \<open>Archiving old sessions leaves those that are pinned, in a project, running or already archived as they
  are and files away every other one not seen since the day; and a session filed away so comes
  back as soon as a hook reports it running, unless it runs headless.\<close>

theorem auto_archive_spares_and_undoes:
  assumes "r \<in> set (cc_sessions db)"
  shows "(kept r \<or> ses_archived r \<longrightarrow> r \<in> set (cc_sessions (fst (AutoArchive before db))))
    \<and> (\<not> kept r \<and> \<not> ses_archived r \<and> ses_last_seen r < unix_sec before \<longrightarrow>
         r\<lparr>ses_archived := True, ses_auto_archived := True\<rparr> \<in> set (cc_sessions (fst (AutoArchive before db)))
         \<and> (\<forall>new hide recent. ses_status new \<in> {StatusActive, StatusIdle}
              \<and> \<not> like_sdk (keep_new (ses_entrypoint new) (ses_entrypoint r)) \<longrightarrow>
              \<not> ses_archived (merge_row mode hide recent new (r\<lparr>ses_archived := True, ses_auto_archived := True\<rparr>))))"
proof -
  have img: "(if \<not> ses_archived r \<and> \<not> kept r \<and> ses_last_seen r < unix_sec before
      then r\<lparr>ses_archived := True, ses_auto_archived := True\<rparr> else r) \<in> set (cc_sessions (fst (AutoArchive before db)))"
    unfolding AutoArchive_sessions set_map using assms by (rule imageI)
  have undo: "\<not> ses_archived (merge_row mode hide recent new (r\<lparr>ses_archived := True, ses_auto_archived := True\<rparr>))"
    if "ses_status new \<in> {StatusActive, StatusIdle}" "\<not> like_sdk (keep_new (ses_entrypoint new) (ses_entrypoint r))" for new hide recent
    using that by (auto simp: merge_row_def brings_back_def files_away_def)
  have "r \<in> set (cc_sessions (fst (AutoArchive before db)))" if "kept r \<or> ses_archived r"
    using img that by (simp only: de_Morgan_disj not_not if_not_P split: if_splits) blast
  moreover have "r\<lparr>ses_archived := True, ses_auto_archived := True\<rparr> \<in> set (cc_sessions (fst (AutoArchive before db)))"
    if "\<not> kept r \<and> \<not> ses_archived r \<and> ses_last_seen r < unix_sec before"
    using img that by (simp only: if_True simp_thms)
  ultimately show ?thesis using undo by blast
qed

theorem auto_archive_spares_and_undoes_witness:
  "new_row sample_session sample_now False 1 \<in> set (cc_sessions (fst (AutoArchive sample_now sample_store)))"
  using auto_archive_spares_and_undoes[OF sample_row]
  by (simp add: kept_def new_row_def sample_session_def)

text \<open>Renaming a project, or merging it into another, loses nothing: no session or task is left in the old
  project, the new one has the sessions and tasks of both, every other project has the ones it
  had, the old name is gone and the new one listed if either was.\<close>

theorem rename_moves_everything:
  assumes "frm \<noteq> []" "to \<noteq> []" "frm \<noteq> to" "n \<noteq> frm" "n \<noteq> to"
  shows "let db' = fst (RenameProject frm to db);
      sessions_in = (\<lambda>d p. length (filter (\<lambda>r. ses_project r = p) (cc_sessions d)));
      tasks_in = (\<lambda>d p. length (filter (\<lambda>r. tr_project r = p) (db_tasks (cc_tasks d))))
    in snd (RenameProject frm to db) = None
       \<and> sessions_in db' frm = 0 \<and> tasks_in db' frm = 0
       \<and> sessions_in db' to = sessions_in db frm + sessions_in db to
       \<and> tasks_in db' to = tasks_in db frm + tasks_in db to
       \<and> sessions_in db' n = sessions_in db n \<and> tasks_in db' n = tasks_in db n
       \<and> set (project_names (cc_tasks db')) =
           (if frm \<in> set (project_names (cc_tasks db)) then insert to (set (project_names (cc_tasks db)) - {frm})
            else set (project_names (cc_tasks db)))"
  using count_moved[where g = "ses_project :: session_rec \<Rightarrow> string" and f = "\<lambda>r. r\<lparr>ses_project := to\<rparr>" and to = to and frm = frm, OF _ assms(3)]
    count_moved[where g = "tr_project :: task_row \<Rightarrow> string" and f = "\<lambda>r. r\<lparr>tr_project := to\<rparr>" and to = to and frm = frm, OF _ assms(3)]
    renamed_names[OF assms(3)] assms(4,5)
  by (simp add: RenameProject_eq[OF assms(1-3)] project_names_def Let_def)

theorem rename_moves_everything_witness:
  "length (filter (\<lambda>r. ses_project r = ''a'') (cc_sessions (fst (RenameProject ''a'' ''b'' sample_store)))) = 0"
  using rename_moves_everything[of "''a''" "''b''" "''c''" sample_store] by (simp add: Let_def)

text \<open>Ordering projects lists the named ones first, as named, and the others after them in the order they had;
  moving one by delta places puts it that many places on, stopping at the ends, with the others in their
  order; an unknown name is an error and changes nothing.\<close>

theorem project_order_as_asked:
  assumes "store_reach db" "distinct names"
  shows "(set names \<subseteq> set (map po_name (ListProjects db)) \<longrightarrow>
       map po_name (ListProjects (fst (SetProjectOrder names db))) =
         names @ filter (\<lambda>n. n \<notin> set names) (map po_name (ListProjects db)))
    \<and> (\<not> set names \<subseteq> set (map po_name (ListProjects db)) \<longrightarrow>
         (\<exists>n. SetProjectOrder names db = (db, Some (NoProject n)) \<and> n \<in> set names))
    \<and> (\<forall>i < length (ListProjects db).
         map po_name (ListProjects (fst (MoveProject (po_name (ListProjects db ! i)) delta db))) =
           moved i delta (map po_name (ListProjects db)))"
proof -
  have ok: "store_ok db" using assms(1) by (rule store_reach_ok)
  have "\<exists>n. SetProjectOrder names db = (db, Some (NoProject n)) \<and> n \<in> set names"
    if "\<not> set names \<subseteq> set (map po_name (ListProjects db))"
    using named_first_bad[OF that, of "[]"] by (auto simp: SetProjectOrder_def Let_def)
  then show ?thesis using SetProjectOrder_result(2)[OF ok assms(2)] MoveProject_result(2)[OF ok] by blast
qed

theorem project_order_as_asked_witness:
  "\<exists>n. SetProjectOrder [''x''] empty_ccdb = (empty_ccdb, Some (NoProject n))"
proof -
  have "\<not> set [''x''] \<subseteq> set (map po_name (ListProjects empty_ccdb))"
    by (simp add: ListProjects_def list_projects_def empty_ccdb_def empty_db_def)
  then show ?thesis using project_order_as_asked[OF store_reach.start, of "[''x'']"] by force
qed

text \<open>Every session is in exactly one of the two lists, the working set and the archive, and in the list
  pins come first, the most recently pinned ahead, then the others by when they were last seen.\<close>

theorem every_session_is_listed:
  "mset (map se_id (ListSessions False db)) + mset (map se_id (ListSessions True db)) = mset (map ses_id (cc_sessions db))
   \<and> (\<exists>rs. map se_id (ListSessions archived db) = map ses_id rs \<and> in_order list_before rs
        \<and> mset rs = mset (filter (\<lambda>r. ses_archived r = archived) (cc_sessions db)))"
proof -
  have "mset (filter (\<lambda>r. \<not> ses_archived r) rs) + mset (filter ses_archived rs) = mset rs" for rs :: "session_rec list"
    by (induction rs) auto
  then have "mset (map se_id (ListSessions False db)) + mset (map se_id (ListSessions True db)) = mset (map ses_id (cc_sessions db))"
    unfolding ListSessions_ids mset_map by (simp add: image_mset_union[symmetric] del: mset_filter image_mset_union)
  moreover have "in_order list_before (stable_sort list_before (filter (\<lambda>r. ses_archived r = archived) (cc_sessions db)))"
    by (rule strict_weak.sorted_stable_sort[OF list_before_weak]) simp
  ultimately show ?thesis unfolding ListSessions_ids
    by (intro conjI exI[of _ "stable_sort list_before (filter (\<lambda>r. ses_archived r = archived) (cc_sessions db))"]) simp_all
qed

end
