(* ===== verification/Settings.thy ===== *)
theory Settings
  imports Session_Store_Facts
begin

text \<open>
  internal/settings: the typed view of the settings table. Load folds the stored strings into a
  snapshot over the defaults, Set changes one value in the snapshot and stores it, Get reads it
  back for the settings page. The numbers are Go's 64-bit ints, with the wrap-around written out
  in the only place that multiplies what a person typed (ParsePaneRatio).
\<close>

section \<open>Pane ratios\<close>

record pane_ratio =
  pr_list :: int
  pr_work :: int
  pr_tasks :: int

datatype ratio_error = NotThreeFields | NotPositive | NoRoomForWork | DivideByZero

definition wrap64 :: "int \<Rightarrow> int" where
  "wrap64 x = (x + 2 ^ 63) mod 2 ^ 64 - 2 ^ 63"

text \<open>Division of Go's ints rounds towards zero.\<close>

definition go_div :: "int \<Rightarrow> int \<Rightarrow> int" where
  "go_div a b = sgn a * sgn b * (\<bar>a\<bar> div \<bar>b\<bar>)"

definition MinPaneShare :: int where
  "MinPaneShare = 10"

text \<open>strings.FieldsFunc: the non-empty runs between separators.\<close>

fun fields_by :: "(char \<Rightarrow> bool) \<Rightarrow> string \<Rightarrow> string \<Rightarrow> string list" where
  "fields_by sep cur [] = (if cur = [] then [] else [cur])"
| "fields_by sep cur (c # s) =
     (if sep c then (if cur = [] then [] else [cur]) @ fields_by sep [] s else fields_by sep (cur @ [c]) s)"

definition positive_number :: "string \<Rightarrow> int option" where
  "positive_number x =
     (case parse_int64 (trim_space x) of None \<Rightarrow> None | Some v \<Rightarrow> if v \<le> 0 then None else Some v)"

definition scale_share :: "int \<Rightarrow> int \<Rightarrow> int" where
  "scale_share tot n = max (wrap64 (go_div (wrap64 (n * 100)) tot)) MinPaneShare"

text \<open>Three positive numbers made to add up to 100, the second taking the rounding.\<close>

definition balance :: "int \<Rightarrow> int \<Rightarrow> int \<Rightarrow> ratio_error + pane_ratio" where
  "balance a b c =
     (let tot = wrap64 (wrap64 (a + b) + c)
      in if tot = 0 then Inl DivideByZero
         else
           let l = scale_share tot a; w = scale_share tot b; t = scale_share tot c;
               w = wrap64 (w + (100 - l - w - t))
           in if w < MinPaneShare then Inl NoRoomForWork
              else Inr \<lparr>pr_list = l, pr_work = w, pr_tasks = t\<rparr>)"

definition ratio_fields :: "string \<Rightarrow> string list" where
  "ratio_fields = fields_by (\<lambda>c. c \<in> set '':/ ,'') []"

definition ParsePaneRatio :: "string \<Rightarrow> ratio_error + pane_ratio" where
  "ParsePaneRatio v =
     (case ratio_fields v of
        [x, y, z] \<Rightarrow>
          (case (positive_number x, positive_number y, positive_number z) of
             (Some a, Some b, Some c) \<Rightarrow> balance a b c
           | _ \<Rightarrow> Inl NotPositive)
      | _ \<Rightarrow> Inl NotThreeFields)"

definition ratio_string :: "pane_ratio \<Rightarrow> string" where
  "ratio_string r = itoa (pr_list r) @ '':'' @ itoa (pr_work r) @ '':'' @ itoa (pr_tasks r)"

definition ListShare :: "pane_ratio \<Rightarrow> int" where
  "ListShare r = go_div (pr_list r * 100) (max 1 (pr_list r + pr_work r))"

definition MoveList :: "pane_ratio \<Rightarrow> int \<Rightarrow> pane_ratio" where
  "MoveList r step0 =
     (let step = min (max step0 (MinPaneShare - pr_list r)) (pr_work r - MinPaneShare)
      in r\<lparr>pr_list := pr_list r + step, pr_work := pr_work r - step\<rparr>)"

section \<open>Values\<close>

definition formatBool :: "bool \<Rightarrow> string" where
  "formatBool b = (if b then ''1'' else ''0'')"

definition parseBool :: "string \<Rightarrow> bool \<Rightarrow> bool" where
  "parseBool s fallback =
     (if s \<in> {''1'', ''true'', ''TRUE'', ''yes''} then True
      else if s \<in> {''0'', ''false'', ''FALSE'', ''no''} then False else fallback)"

definition parseInt :: "string \<Rightarrow> int \<Rightarrow> int" where
  "parseInt s fallback = (case parse_int64 s of Some v \<Rightarrow> v | None \<Rightarrow> fallback)"

section \<open>Settings\<close>

record settings =
  cfg_auto_repo_tabs :: bool
  cfg_bell_on_pending :: bool
  cfg_newest_at_bottom :: bool
  cfg_work_anim :: bool
  cfg_layout_mode :: string
  cfg_vertical_auto_cols :: int
  cfg_approve_enabled :: bool
  cfg_summary_enabled :: bool
  cfg_attach_enabled :: bool
  cfg_auto_install_sync :: bool
  cfg_hub_enabled :: bool
  cfg_tail_budget_kb :: int
  cfg_summary_timeout_sec :: int
  cfg_refresh_interval_ms :: int
  cfg_new_session_dir :: string
  cfg_trusted_dirs :: string
  cfg_pane_ratio :: string
  cfg_tasks_pane :: bool
  cfg_list_collapsed :: bool
  cfg_recent_order :: bool
  cfg_task_spacing :: bool
  cfg_invert_list_scroll :: bool
  cfg_time_format :: string
  cfg_update_channel :: string
  cfg_language :: string
  cfg_auto_archive_days :: int
  cfg_auto_title :: bool
  cfg_hide_headless :: bool

definition keyAutoRepoTabs :: string where "keyAutoRepoTabs = ''auto_repo_tabs''"
definition keyBellOnPending :: string where "keyBellOnPending = ''bell_on_pending''"
definition keyNewestAtBottom :: string where "keyNewestAtBottom = ''newest_at_bottom''"
definition keyWorkAnim :: string where "keyWorkAnim = ''work_anim''"
definition keyLayoutMode :: string where "keyLayoutMode = ''layout_mode''"
definition keyVerticalAutoCols :: string where "keyVerticalAutoCols = ''vertical_auto_cols''"
definition keyApproveEnabled :: string where "keyApproveEnabled = ''approve_enabled''"
definition keySummaryEnabled :: string where "keySummaryEnabled = ''summary_enabled''"
definition keyAttachEnabled :: string where "keyAttachEnabled = ''attach_enabled''"
definition keyAutoInstallSync :: string where "keyAutoInstallSync = ''auto_install_sync''"
definition keyHubEnabled :: string where "keyHubEnabled = ''hub_enabled''"
definition keyTailBudgetKB :: string where "keyTailBudgetKB = ''tail_budget_kb''"
definition keySummaryTimeoutSec :: string where "keySummaryTimeoutSec = ''summary_timeout_sec''"
definition keyRefreshIntervalMs :: string where "keyRefreshIntervalMs = ''refresh_interval_ms''"
definition keyNewSessionDir :: string where "keyNewSessionDir = ''new_session_dir''"
definition keyTrustedDirs :: string where "keyTrustedDirs = ''trusted_dirs''"
definition keyPaneRatio :: string where "keyPaneRatio = ''pane_ratio''"
definition keyTasksPane :: string where "keyTasksPane = ''tasks_pane''"
definition keyListCollapsed :: string where "keyListCollapsed = ''list_collapsed''"
definition keyRecentOrder :: string where "keyRecentOrder = ''recent_order''"
definition keyTaskSpacing :: string where "keyTaskSpacing = ''task_spacing''"
definition keyInvertListScroll :: string where "keyInvertListScroll = ''invert_list_scroll''"
definition keyTimeFormat :: string where "keyTimeFormat = ''time_format''"
definition keyUpdateChannel :: string where "keyUpdateChannel = ''update_channel''"
definition keyLanguage :: string where "keyLanguage = ''language''"
definition keyAutoArchiveDays :: string where "keyAutoArchiveDays = ''auto_archive_days''"
definition keyAutoTitle :: string where "keyAutoTitle = ''auto_title''"
definition keyHideHeadless :: string where "keyHideHeadless = ''hide_headless''"

lemmas key_defs =
  keyAutoRepoTabs_def keyBellOnPending_def keyNewestAtBottom_def keyWorkAnim_def keyLayoutMode_def keyVerticalAutoCols_def keyApproveEnabled_def keySummaryEnabled_def keyAttachEnabled_def keyAutoInstallSync_def keyHubEnabled_def keyTailBudgetKB_def keySummaryTimeoutSec_def keyRefreshIntervalMs_def keyNewSessionDir_def keyTrustedDirs_def keyPaneRatio_def keyTasksPane_def keyListCollapsed_def keyRecentOrder_def keyTaskSpacing_def keyInvertListScroll_def keyTimeFormat_def keyUpdateChannel_def keyLanguage_def keyAutoArchiveDays_def keyAutoTitle_def keyHideHeadless_def

definition Defaults :: settings where
  "Defaults =
     \<lparr>cfg_auto_repo_tabs = True,
      cfg_bell_on_pending = True,
      cfg_newest_at_bottom = False,
      cfg_work_anim = True,
      cfg_layout_mode = ''auto'',
      cfg_vertical_auto_cols = 100,
      cfg_approve_enabled = True,
      cfg_summary_enabled = True,
      cfg_attach_enabled = True,
      cfg_auto_install_sync = True,
      cfg_hub_enabled = True,
      cfg_tail_budget_kb = 256,
      cfg_summary_timeout_sec = 180,
      cfg_refresh_interval_ms = 1000,
      cfg_new_session_dir = [],
      cfg_trusted_dirs = [],
      cfg_pane_ratio = ''36:36:28'',
      cfg_tasks_pane = True,
      cfg_list_collapsed = False,
      cfg_recent_order = False,
      cfg_task_spacing = False,
      cfg_invert_list_scroll = False,
      cfg_time_format = ''relative'',
      cfg_update_channel = ''stable'',
      cfg_language = ''auto'',
      cfg_auto_archive_days = 7,
      cfg_auto_title = True,
      cfg_hide_headless = True\<rparr>"

text \<open>The setters of Load: what each key's stored value does to the snapshot (loadPairs).\<close>

definition one_of :: "string list \<Rightarrow> string \<Rightarrow> string \<Rightarrow> string" where
  "one_of vs v old = (if v \<in> set vs then v else old)"

definition pane_value :: "string \<Rightarrow> string \<Rightarrow> string" where
  "pane_value v old = (case ParsePaneRatio v of Inl e \<Rightarrow> old | Inr r \<Rightarrow> ratio_string r)"

definition loadPairs :: "(string \<times> (string \<Rightarrow> settings \<Rightarrow> settings)) list" where
  "loadPairs =
     [(keyAutoRepoTabs, \<lambda>v. cfg_auto_repo_tabs_update (parseBool v)),
      (keyBellOnPending, \<lambda>v. cfg_bell_on_pending_update (parseBool v)),
      (keyNewestAtBottom, \<lambda>v. cfg_newest_at_bottom_update (parseBool v)),
      (keyWorkAnim, \<lambda>v. cfg_work_anim_update (parseBool v)),
      (keyLayoutMode, \<lambda>v. cfg_layout_mode_update (one_of [''auto'', ''vertical'', ''horizontal''] v)),
      (keyVerticalAutoCols, \<lambda>v. cfg_vertical_auto_cols_update (parseInt v)),
      (keyApproveEnabled, \<lambda>v. cfg_approve_enabled_update (parseBool v)),
      (keySummaryEnabled, \<lambda>v. cfg_summary_enabled_update (parseBool v)),
      (keyAttachEnabled, \<lambda>v. cfg_attach_enabled_update (parseBool v)),
      (keyAutoInstallSync, \<lambda>v. cfg_auto_install_sync_update (parseBool v)),
      (keyHubEnabled, \<lambda>v. cfg_hub_enabled_update (parseBool v)),
      (keyTailBudgetKB, \<lambda>v. cfg_tail_budget_kb_update (parseInt v)),
      (keySummaryTimeoutSec, \<lambda>v. cfg_summary_timeout_sec_update (parseInt v)),
      (keyRefreshIntervalMs, \<lambda>v. cfg_refresh_interval_ms_update (parseInt v)),
      (keyNewSessionDir, \<lambda>v. cfg_new_session_dir_update (\<lambda>_. v)),
      (keyTrustedDirs, \<lambda>v. cfg_trusted_dirs_update (\<lambda>_. v)),
      (keyPaneRatio, \<lambda>v. cfg_pane_ratio_update (pane_value v)),
      (keyInvertListScroll, \<lambda>v. cfg_invert_list_scroll_update (parseBool v)),
      (keyTasksPane, \<lambda>v. cfg_tasks_pane_update (parseBool v)),
      (keyListCollapsed, \<lambda>v. cfg_list_collapsed_update (parseBool v)),
      (keyRecentOrder, \<lambda>v. cfg_recent_order_update (parseBool v)),
      (keyTaskSpacing, \<lambda>v. cfg_task_spacing_update (parseBool v)),
      (keyAutoArchiveDays, \<lambda>v. cfg_auto_archive_days_update (parseInt v)),
      (keyAutoTitle, \<lambda>v. cfg_auto_title_update (parseBool v)),
      (keyHideHeadless, \<lambda>v. cfg_hide_headless_update (parseBool v)),
      (keyTimeFormat, \<lambda>v. cfg_time_format_update (one_of [''relative'', ''absolute''] v)),
      (keyLanguage, \<lambda>v. cfg_language_update (one_of [''auto'', ''en'', ''ja''] v)),
      (keyUpdateChannel, \<lambda>v. cfg_update_channel_update (one_of [''stable'', ''dev''] v))]"

section \<open>Loading\<close>

definition stored_value :: "(string \<rightharpoonup> string) \<Rightarrow> string \<Rightarrow> string" where
  "stored_value all k = (case all k of None \<Rightarrow> [] | Some v \<Rightarrow> v)"

definition load_pair :: "(string \<rightharpoonup> string) \<Rightarrow> settings \<Rightarrow> string \<times> (string \<Rightarrow> settings \<Rightarrow> settings) \<Rightarrow> settings" where
  "load_pair all s = (\<lambda>(k, f). if stored_value all k \<noteq> [] then f (stored_value all k) s else s)"

definition load_values :: "(string \<rightharpoonup> string) \<Rightarrow> settings" where
  "load_values all = foldl (load_pair all) Defaults loadPairs"

text \<open>The one-time migrations from older keys.\<close>

definition legacy_layout :: "ccdb \<Rightarrow> string option" where
  "legacy_layout db =
     (let auto = GetSetting ''layout_auto'' db; vert = GetSetting ''layout_vertical'' db
      in if auto \<noteq> [] \<or> vert \<noteq> [] then
           Some (if \<not> parseBool auto True then (if parseBool vert False then ''vertical'' else ''horizontal'') else ''auto'')
         else None)"

definition migrate_layout :: "(string \<rightharpoonup> string) \<Rightarrow> gotime \<Rightarrow> settings \<times> ccdb \<Rightarrow> settings \<times> ccdb" where
  "migrate_layout all now = (\<lambda>(out, db).
     if stored_value all keyLayoutMode = [] then
       (case legacy_layout db of
          None \<Rightarrow> (out, db)
        | Some mode \<Rightarrow> (out\<lparr>cfg_layout_mode := mode\<rparr>, SetSetting keyLayoutMode mode now db))
     else (out, db))"

definition legacyPaneRatio :: "(string \<rightharpoonup> string) \<Rightarrow> pane_ratio option" where
  "legacyPaneRatio all =
     (let lst = (if stored_value all ''pane_list_pct'' \<noteq> [] then parseInt (stored_value all ''pane_list_pct'') (- 1)
                 else if stored_value all ''pane_split'' = ''30/70'' then 30
                 else if stored_value all ''pane_split'' = ''50/50'' then 50 else - 1);
          tasks = (if stored_value all ''pane_tasks_pct'' \<noteq> [] then parseInt (stored_value all ''pane_tasks_pct'') (- 1) else - 1)
      in if lst < 0 \<and> tasks < 0 then None
         else
           let lst = (if lst < 0 then 50 else lst);
               tasks = (if tasks < 0 then 28 else tasks);
               lst = min (max lst 10) 90;
               tasks = min (max tasks 10) 60;
               l = go_div (lst * (100 - tasks)) 100
           in Some \<lparr>pr_list = l, pr_work = 100 - tasks - l, pr_tasks = tasks\<rparr>)"

definition migrate_panes :: "(string \<rightharpoonup> string) \<Rightarrow> gotime \<Rightarrow> settings \<times> ccdb \<Rightarrow> settings \<times> ccdb" where
  "migrate_panes all now = (\<lambda>(out, db).
     if stored_value all keyPaneRatio = [] then
       (case legacyPaneRatio all of
          None \<Rightarrow> (out, db)
        | Some r \<Rightarrow> (out\<lparr>cfg_pane_ratio := ratio_string r\<rparr>, SetSetting keyPaneRatio (ratio_string r) now db))
     else (out, db))"

text \<open>None is the panic of a division by zero while a stored ratio is parsed.\<close>

definition load_panics :: "(string \<rightharpoonup> string) \<Rightarrow> bool" where
  "load_panics all \<longleftrightarrow> ParsePaneRatio (stored_value all keyPaneRatio) = Inl DivideByZero"

definition Load :: "gotime \<Rightarrow> ccdb \<Rightarrow> (settings \<times> ccdb) option" where
  "Load now db =
     (let all = AllSettings db
      in if load_panics all then None
         else Some (migrate_panes all now (migrate_layout all now (load_values all, db))))"

definition Ratio :: "settings \<Rightarrow> ratio_error + pane_ratio" where
  "Ratio s =
     (case ParsePaneRatio (cfg_pane_ratio s) of
        Inr r \<Rightarrow> Inr r
      | Inl e \<Rightarrow> if e = DivideByZero then Inl e else ParsePaneRatio (cfg_pane_ratio Defaults))"

section \<open>Specs\<close>

datatype setting_kind = KindBool | KindInt int int | KindAction | KindEnum "string list" | KindString

definition AllSpecs :: "(string \<times> setting_kind) list" where
  "AllSpecs =
     [(keyAutoRepoTabs, KindBool),
      (keyBellOnPending, KindBool),
      (keyNewestAtBottom, KindBool),
      (keyWorkAnim, KindBool),
      (keyLayoutMode, KindEnum [''auto'', ''on'', ''off'']),
      (keyPaneRatio, KindString),
      (keyTasksPane, KindBool),
      (keyTaskSpacing, KindBool),
      (keyRecentOrder, KindBool),
      (keyListCollapsed, KindBool),
      (keyInvertListScroll, KindBool),
      (keyTimeFormat, KindEnum [''relative'', ''absolute'']),
      (keyLanguage, KindEnum [''auto'', ''en'', ''ja'']),
      (keyUpdateChannel, KindEnum [''stable'', ''dev'']),
      (keyVerticalAutoCols, KindInt 40 240),
      (keyApproveEnabled, KindBool),
      (keySummaryEnabled, KindBool),
      (keyAutoTitle, KindBool),
      (keyHideHeadless, KindBool),
      (keyAttachEnabled, KindBool),
      (keyAutoInstallSync, KindBool),
      (keyHubEnabled, KindBool),
      (''preset_secure'', KindAction),
      (keyTailBudgetKB, KindInt 32 8192),
      (keySummaryTimeoutSec, KindInt 30 600),
      (keyAutoArchiveDays, KindInt 0 365),
      (keyRefreshIntervalMs, KindInt 250 10000),
      (keyNewSessionDir, KindString),
      (keyTrustedDirs, KindString),
      (''update'', KindAction),
      (''restart'', KindAction)]"

definition AllKeys :: "string list" where
  "AllKeys = map fst (filter (\<lambda>(k, kind). kind \<noteq> KindAction) AllSpecs)"

section \<open>Reading and changing one setting\<close>

datatype sval = VBool bool | VInt int | VStr string

datatype set_error = WrongType | BadRatio ratio_error

text \<open>The operator's words for the layout and the stored ones.\<close>

definition layout_label :: "string \<Rightarrow> string" where
  "layout_label m = (if m = ''vertical'' then ''on'' else if m = ''horizontal'' then ''off'' else ''auto'')"

definition layout_mode_of :: "string \<Rightarrow> string" where
  "layout_mode_of m = (if m = ''on'' then ''vertical'' else if m = ''off'' then ''horizontal'' else ''auto'')"

text \<open>
  One case of the switch of Set: change the field and say what is to be persisted. A value of another type
  is a failed type assertion, a panic in the sources.
\<close>

definition set_bool :: "(bool \<Rightarrow> settings \<Rightarrow> settings) \<Rightarrow> sval \<Rightarrow> settings \<Rightarrow> set_error + (settings \<times> sval)" where
  "set_bool f v s = (case v of VBool b \<Rightarrow> Inr (f b s, v) | _ \<Rightarrow> Inl WrongType)"

definition set_int :: "(int \<Rightarrow> settings \<Rightarrow> settings) \<Rightarrow> sval \<Rightarrow> settings \<Rightarrow> set_error + (settings \<times> sval)" where
  "set_int f v s = (case v of VInt i \<Rightarrow> Inr (f i s, v) | _ \<Rightarrow> Inl WrongType)"

definition set_str :: "(string \<Rightarrow> settings \<Rightarrow> settings) \<Rightarrow> sval \<Rightarrow> settings \<Rightarrow> set_error + (settings \<times> sval)" where
  "set_str f v s = (case v of VStr x \<Rightarrow> Inr (f x s, v) | _ \<Rightarrow> Inl WrongType)"

definition set_layout :: "sval \<Rightarrow> settings \<Rightarrow> set_error + (settings \<times> sval)" where
  "set_layout = set_str (\<lambda>x s. s\<lparr>cfg_layout_mode := layout_mode_of x\<rparr>)"

definition set_pane :: "sval \<Rightarrow> settings \<Rightarrow> set_error + (settings \<times> sval)" where
  "set_pane v s =
     (case v of
        VStr x \<Rightarrow> (case ParsePaneRatio x of
                     Inl e \<Rightarrow> Inl (BadRatio e)
                   | Inr r \<Rightarrow> Inr (s\<lparr>cfg_pane_ratio := ratio_string r\<rparr>, VStr (ratio_string r)))
      | _ \<Rightarrow> Inl WrongType)"

definition Get :: "settings \<Rightarrow> string \<Rightarrow> sval option" where
  "Get s key =
     map_of
       [(keyAutoRepoTabs, VBool (cfg_auto_repo_tabs s)),
        (keyBellOnPending, VBool (cfg_bell_on_pending s)),
        (keyNewestAtBottom, VBool (cfg_newest_at_bottom s)),
        (keyWorkAnim, VBool (cfg_work_anim s)),
        (keyLayoutMode, VStr (layout_label (cfg_layout_mode s))),
        (keyVerticalAutoCols, VInt (cfg_vertical_auto_cols s)),
        (keyApproveEnabled, VBool (cfg_approve_enabled s)),
        (keySummaryEnabled, VBool (cfg_summary_enabled s)),
        (keyAttachEnabled, VBool (cfg_attach_enabled s)),
        (keyAutoInstallSync, VBool (cfg_auto_install_sync s)),
        (keyHubEnabled, VBool (cfg_hub_enabled s)),
        (keyTailBudgetKB, VInt (cfg_tail_budget_kb s)),
        (keySummaryTimeoutSec, VInt (cfg_summary_timeout_sec s)),
        (keyRefreshIntervalMs, VInt (cfg_refresh_interval_ms s)),
        (keyNewSessionDir, VStr (cfg_new_session_dir s)),
        (keyTrustedDirs, VStr (cfg_trusted_dirs s)),
        (keyPaneRatio, VStr (cfg_pane_ratio s)),
        (keyTasksPane, VBool (cfg_tasks_pane s)),
        (keyListCollapsed, VBool (cfg_list_collapsed s)),
        (keyRecentOrder, VBool (cfg_recent_order s)),
        (keyTaskSpacing, VBool (cfg_task_spacing s)),
        (keyInvertListScroll, VBool (cfg_invert_list_scroll s)),
        (keyTimeFormat, VStr (cfg_time_format s)),
        (keyUpdateChannel, VStr (cfg_update_channel s)),
        (keyLanguage, VStr (cfg_language s)),
        (keyAutoArchiveDays, VInt (cfg_auto_archive_days s)),
        (keyAutoTitle, VBool (cfg_auto_title s)),
        (keyHideHeadless, VBool (cfg_hide_headless s))] key"

definition setters :: "(string \<times> (sval \<Rightarrow> settings \<Rightarrow> set_error + (settings \<times> sval))) list" where
  "setters =
     [(keyAutoRepoTabs, set_bool (\<lambda>b s. s\<lparr>cfg_auto_repo_tabs := b\<rparr>)),
      (keyBellOnPending, set_bool (\<lambda>b s. s\<lparr>cfg_bell_on_pending := b\<rparr>)),
      (keyNewestAtBottom, set_bool (\<lambda>b s. s\<lparr>cfg_newest_at_bottom := b\<rparr>)),
      (keyWorkAnim, set_bool (\<lambda>b s. s\<lparr>cfg_work_anim := b\<rparr>)),
      (keyLayoutMode, set_layout),
      (keyVerticalAutoCols, set_int (\<lambda>i s. s\<lparr>cfg_vertical_auto_cols := i\<rparr>)),
      (keyApproveEnabled, set_bool (\<lambda>b s. s\<lparr>cfg_approve_enabled := b\<rparr>)),
      (keySummaryEnabled, set_bool (\<lambda>b s. s\<lparr>cfg_summary_enabled := b\<rparr>)),
      (keyAttachEnabled, set_bool (\<lambda>b s. s\<lparr>cfg_attach_enabled := b\<rparr>)),
      (keyAutoInstallSync, set_bool (\<lambda>b s. s\<lparr>cfg_auto_install_sync := b\<rparr>)),
      (keyHubEnabled, set_bool (\<lambda>b s. s\<lparr>cfg_hub_enabled := b\<rparr>)),
      (keyTailBudgetKB, set_int (\<lambda>i s. s\<lparr>cfg_tail_budget_kb := i\<rparr>)),
      (keySummaryTimeoutSec, set_int (\<lambda>i s. s\<lparr>cfg_summary_timeout_sec := i\<rparr>)),
      (keyRefreshIntervalMs, set_int (\<lambda>i s. s\<lparr>cfg_refresh_interval_ms := i\<rparr>)),
      (keyNewSessionDir, set_str (\<lambda>x s. s\<lparr>cfg_new_session_dir := x\<rparr>)),
      (keyTrustedDirs, set_str (\<lambda>x s. s\<lparr>cfg_trusted_dirs := x\<rparr>)),
      (keyPaneRatio, set_pane),
      (keyTasksPane, set_bool (\<lambda>b s. s\<lparr>cfg_tasks_pane := b\<rparr>)),
      (keyListCollapsed, set_bool (\<lambda>b s. s\<lparr>cfg_list_collapsed := b\<rparr>)),
      (keyRecentOrder, set_bool (\<lambda>b s. s\<lparr>cfg_recent_order := b\<rparr>)),
      (keyTaskSpacing, set_bool (\<lambda>b s. s\<lparr>cfg_task_spacing := b\<rparr>)),
      (keyInvertListScroll, set_bool (\<lambda>b s. s\<lparr>cfg_invert_list_scroll := b\<rparr>)),
      (keyTimeFormat, set_str (\<lambda>x s. s\<lparr>cfg_time_format := x\<rparr>)),
      (keyUpdateChannel, set_str (\<lambda>x s. s\<lparr>cfg_update_channel := x\<rparr>)),
      (keyLanguage, set_str (\<lambda>x s. s\<lparr>cfg_language := x\<rparr>)),
      (keyAutoArchiveDays, set_int (\<lambda>i s. s\<lparr>cfg_auto_archive_days := i\<rparr>)),
      (keyAutoTitle, set_bool (\<lambda>b s. s\<lparr>cfg_auto_title := b\<rparr>)),
      (keyHideHeadless, set_bool (\<lambda>b s. s\<lparr>cfg_hide_headless := b\<rparr>))]"

definition persist_value :: "string \<Rightarrow> sval \<Rightarrow> string" where
  "persist_value key v =
     (case v of
        VBool b \<Rightarrow> formatBool b
      | VInt i \<Rightarrow> itoa i
      | VStr x \<Rightarrow>
          if key = keyLayoutMode then
            (if x = ''on'' then ''vertical'' else if x = ''off'' then ''horizontal''
             else if x \<noteq> ''vertical'' \<and> x \<noteq> ''horizontal'' then ''auto'' else x)
          else x)"

definition persist :: "string \<Rightarrow> sval \<Rightarrow> gotime \<Rightarrow> ccdb \<Rightarrow> ccdb" where
  "persist key v now db = SetSetting key (persist_value key v) now db"

definition Set :: "settings \<Rightarrow> string \<Rightarrow> sval \<Rightarrow> gotime \<Rightarrow> ccdb \<Rightarrow> set_error + (settings \<times> ccdb)" where
  "Set s key v now db =
     (case map_of setters key of
        None \<Rightarrow> Inr (s, persist key v now db)
      | Some f \<Rightarrow>
          (case f v s of
             Inl e \<Rightarrow> Inl e
           | Inr (s', v') \<Rightarrow> Inr (s', persist key v' now db)))"

fun set_each :: "string list \<Rightarrow> sval \<Rightarrow> gotime \<Rightarrow> settings \<times> ccdb \<Rightarrow> set_error + (settings \<times> ccdb)" where
  "set_each [] v now p = Inr p"
| "set_each (k # ks) v now (s, db) =
     (case Set s k v now db of Inl e \<Rightarrow> Inl e | Inr p \<Rightarrow> set_each ks v now p)"

definition applySecurePreset :: "settings \<Rightarrow> gotime \<Rightarrow> ccdb \<Rightarrow> set_error + (settings \<times> ccdb)" where
  "applySecurePreset s now db =
     set_each [keyApproveEnabled, keySummaryEnabled, keyAttachEnabled, keyAutoInstallSync, keyHubEnabled] (VBool False) now (s, db)"

end
