(* ===== verification/Settings_Facts.thy ===== *)
theory Settings_Facts
  imports Settings
begin

text \<open>
  What the settings promise: a change is what the next start reads, every key the settings page
  offers is loaded, pane ratios are normal forms, and what the one-time migrations do.
\<close>

section \<open>The table of strings\<close>

lemma AllSettings_SetSetting: "AllSettings (SetSetting k v now db) = (AllSettings db)(k \<mapsto> v)"
proof -
  have upd: "map_option fst (map_of (update_where (\<lambda>(x, _). x = k) (\<lambda>_. (k, v, t)) ps) y) =
      (if y = k then Some v else map_option fst (map_of ps y))" if "y = k \<longrightarrow> k \<in> fst ` set ps" for ps :: "(string \<times> string \<times> int) list" and t y
    using that
  proof (induction ps)
    case (Cons p ps)
    then show ?case by (cases p; cases "k \<in> fst ` set ps"; cases "y = k") auto
  qed simp
  have app: "map_option fst (map_of (ps @ [(k, v, t)]) y) = (if y = k then Some v else map_option fst (map_of ps y))"
    if "k \<notin> fst ` set ps" for ps :: "(string \<times> string \<times> int) list" and t y
    using that by (induction ps) auto
  have "AllSettings (SetSetting k v now db) y = ((AllSettings db)(k \<mapsto> v)) y" for y
  proof (cases "k \<in> fst ` set (cc_settings db)")
    case True
    then have "map_of (cc_settings db) k \<noteq> None" by (simp add: map_of_eq_None_iff)
    then show ?thesis
      using upd[of y "cc_settings db" "unix_sec now"] True
      by (simp add: AllSettings_def SetSetting_def)
  next
    case False
    then have "map_of (cc_settings db) k = None" by (simp add: map_of_eq_None_iff)
    then show ?thesis
      using app[OF False, of "unix_sec now" y] False by (simp add: AllSettings_def SetSetting_def map_add_def)
  qed
  then show ?thesis by (rule ext)
qed

lemma GetSetting_eq: "GetSetting k db = stored_value (AllSettings db) k"
  by (simp add: GetSetting_def stored_value_def AllSettings_def split: option.split)

lemma stored_value_upd [simp]: "stored_value (all(k \<mapsto> v)) k' = (if k' = k then v else stored_value all k')"
  by (simp add: stored_value_def)

lemma GetSetting_SetSetting: "GetSetting k' (SetSetting k v now db) = (if k' = k then v else GetSetting k' db)"
  by (simp add: GetSetting_eq AllSettings_SetSetting)

section \<open>Loading, field by field\<close>

definition field :: "(string \<rightharpoonup> string) \<Rightarrow> string \<Rightarrow> (string \<Rightarrow> 'a \<Rightarrow> 'a) \<Rightarrow> 'a \<Rightarrow> 'a" where
  "field all k p old = (if stored_value all k \<noteq> [] then p (stored_value all k) old else old)"

lemma load_pair_upd:
  assumes "\<And>v. f v = upd (p v)" "\<And>s. upd (\<lambda>x. x) s = s"
  shows "load_pair all s (k, f) = upd (field all k p) s"
proof -
  have "field all k p = (if stored_value all k \<noteq> [] then p (stored_value all k) else (\<lambda>x. x))"
    by (rule ext) (simp add: field_def)
  then show ?thesis using assms by (simp add: load_pair_def)
qed

lemma load_field:
  "load_pair all s (k, \<lambda>v. cfg_auto_repo_tabs_update (qb v)) = cfg_auto_repo_tabs_update (field all k qb) s"
  "load_pair all s (k, \<lambda>v. cfg_bell_on_pending_update (qb v)) = cfg_bell_on_pending_update (field all k qb) s"
  "load_pair all s (k, \<lambda>v. cfg_newest_at_bottom_update (qb v)) = cfg_newest_at_bottom_update (field all k qb) s"
  "load_pair all s (k, \<lambda>v. cfg_work_anim_update (qb v)) = cfg_work_anim_update (field all k qb) s"
  "load_pair all s (k, \<lambda>v. cfg_layout_mode_update (qs v)) = cfg_layout_mode_update (field all k qs) s"
  "load_pair all s (k, \<lambda>v. cfg_vertical_auto_cols_update (qi v)) = cfg_vertical_auto_cols_update (field all k qi) s"
  "load_pair all s (k, \<lambda>v. cfg_approve_enabled_update (qb v)) = cfg_approve_enabled_update (field all k qb) s"
  "load_pair all s (k, \<lambda>v. cfg_summary_enabled_update (qb v)) = cfg_summary_enabled_update (field all k qb) s"
  "load_pair all s (k, \<lambda>v. cfg_attach_enabled_update (qb v)) = cfg_attach_enabled_update (field all k qb) s"
  "load_pair all s (k, \<lambda>v. cfg_auto_install_sync_update (qb v)) = cfg_auto_install_sync_update (field all k qb) s"
  "load_pair all s (k, \<lambda>v. cfg_hub_enabled_update (qb v)) = cfg_hub_enabled_update (field all k qb) s"
  "load_pair all s (k, \<lambda>v. cfg_tail_budget_kb_update (qi v)) = cfg_tail_budget_kb_update (field all k qi) s"
  "load_pair all s (k, \<lambda>v. cfg_summary_timeout_sec_update (qi v)) = cfg_summary_timeout_sec_update (field all k qi) s"
  "load_pair all s (k, \<lambda>v. cfg_refresh_interval_ms_update (qi v)) = cfg_refresh_interval_ms_update (field all k qi) s"
  "load_pair all s (k, \<lambda>v. cfg_new_session_dir_update (qs v)) = cfg_new_session_dir_update (field all k qs) s"
  "load_pair all s (k, \<lambda>v. cfg_trusted_dirs_update (qs v)) = cfg_trusted_dirs_update (field all k qs) s"
  "load_pair all s (k, \<lambda>v. cfg_pane_ratio_update (qs v)) = cfg_pane_ratio_update (field all k qs) s"
  "load_pair all s (k, \<lambda>v. cfg_tasks_pane_update (qb v)) = cfg_tasks_pane_update (field all k qb) s"
  "load_pair all s (k, \<lambda>v. cfg_list_collapsed_update (qb v)) = cfg_list_collapsed_update (field all k qb) s"
  "load_pair all s (k, \<lambda>v. cfg_recent_order_update (qb v)) = cfg_recent_order_update (field all k qb) s"
  "load_pair all s (k, \<lambda>v. cfg_task_spacing_update (qb v)) = cfg_task_spacing_update (field all k qb) s"
  "load_pair all s (k, \<lambda>v. cfg_invert_list_scroll_update (qb v)) = cfg_invert_list_scroll_update (field all k qb) s"
  "load_pair all s (k, \<lambda>v. cfg_time_format_update (qs v)) = cfg_time_format_update (field all k qs) s"
  "load_pair all s (k, \<lambda>v. cfg_update_channel_update (qs v)) = cfg_update_channel_update (field all k qs) s"
  "load_pair all s (k, \<lambda>v. cfg_language_update (qs v)) = cfg_language_update (field all k qs) s"
  "load_pair all s (k, \<lambda>v. cfg_auto_archive_days_update (qi v)) = cfg_auto_archive_days_update (field all k qi) s"
  "load_pair all s (k, \<lambda>v. cfg_auto_title_update (qb v)) = cfg_auto_title_update (field all k qb) s"
  "load_pair all s (k, \<lambda>v. cfg_hide_headless_update (qb v)) = cfg_hide_headless_update (field all k qb) s"
  by (rule load_pair_upd; simp)+

lemma load_values_eq:
  "load_values all =
    cfg_update_channel_update (field all keyUpdateChannel (one_of [''stable'', ''dev'']))
     (cfg_language_update (field all keyLanguage (one_of [''auto'', ''en'', ''ja'']))
     (cfg_time_format_update (field all keyTimeFormat (one_of [''relative'', ''absolute'']))
     (cfg_hide_headless_update (field all keyHideHeadless parseBool)
     (cfg_auto_title_update (field all keyAutoTitle parseBool)
     (cfg_auto_archive_days_update (field all keyAutoArchiveDays parseInt)
     (cfg_task_spacing_update (field all keyTaskSpacing parseBool)
     (cfg_recent_order_update (field all keyRecentOrder parseBool)
     (cfg_list_collapsed_update (field all keyListCollapsed parseBool)
     (cfg_tasks_pane_update (field all keyTasksPane parseBool)
     (cfg_invert_list_scroll_update (field all keyInvertListScroll parseBool)
     (cfg_pane_ratio_update (field all keyPaneRatio pane_value)
     (cfg_trusted_dirs_update (field all keyTrustedDirs (\<lambda>v _. v))
     (cfg_new_session_dir_update (field all keyNewSessionDir (\<lambda>v _. v))
     (cfg_refresh_interval_ms_update (field all keyRefreshIntervalMs parseInt)
     (cfg_summary_timeout_sec_update (field all keySummaryTimeoutSec parseInt)
     (cfg_tail_budget_kb_update (field all keyTailBudgetKB parseInt)
     (cfg_hub_enabled_update (field all keyHubEnabled parseBool)
     (cfg_auto_install_sync_update (field all keyAutoInstallSync parseBool)
     (cfg_attach_enabled_update (field all keyAttachEnabled parseBool)
     (cfg_summary_enabled_update (field all keySummaryEnabled parseBool)
     (cfg_approve_enabled_update (field all keyApproveEnabled parseBool)
     (cfg_vertical_auto_cols_update (field all keyVerticalAutoCols parseInt)
     (cfg_layout_mode_update (field all keyLayoutMode (one_of [''auto'', ''vertical'', ''horizontal'']))
     (cfg_work_anim_update (field all keyWorkAnim parseBool)
     (cfg_newest_at_bottom_update (field all keyNewestAtBottom parseBool)
     (cfg_bell_on_pending_update (field all keyBellOnPending parseBool)
     (cfg_auto_repo_tabs_update (field all keyAutoRepoTabs parseBool) Defaults)))))))))))))))))))))))))))"
  unfolding load_values_def loadPairs_def foldl_Cons foldl_Nil
  by (simp only: load_field)

lemma field_upd:
  "field (all(k \<mapsto> v)) k' p = (if k' = k then (if v \<noteq> [] then p v else (\<lambda>x. x)) else field all k' p)"
  by (rule ext) (simp add: field_def)

text \<open>What one stored value does to the snapshot.\<close>

lemma load_one_1:
  "v \<noteq> [] \<Longrightarrow> parseBool v = (\<lambda>_. w) \<Longrightarrow> load_values (all(keyAutoRepoTabs \<mapsto> v)) = (load_values all)\<lparr>cfg_auto_repo_tabs := w\<rparr>"
  "v \<noteq> [] \<Longrightarrow> parseBool v = (\<lambda>_. w) \<Longrightarrow> load_values (all(keyBellOnPending \<mapsto> v)) = (load_values all)\<lparr>cfg_bell_on_pending := w\<rparr>"
  "v \<noteq> [] \<Longrightarrow> parseBool v = (\<lambda>_. w) \<Longrightarrow> load_values (all(keyNewestAtBottom \<mapsto> v)) = (load_values all)\<lparr>cfg_newest_at_bottom := w\<rparr>"
  "v \<noteq> [] \<Longrightarrow> parseBool v = (\<lambda>_. w) \<Longrightarrow> load_values (all(keyWorkAnim \<mapsto> v)) = (load_values all)\<lparr>cfg_work_anim := w\<rparr>"
  "v \<noteq> [] \<Longrightarrow> parseBool v = (\<lambda>_. w) \<Longrightarrow> load_values (all(keyApproveEnabled \<mapsto> v)) = (load_values all)\<lparr>cfg_approve_enabled := w\<rparr>"
  "v \<noteq> [] \<Longrightarrow> parseBool v = (\<lambda>_. w) \<Longrightarrow> load_values (all(keySummaryEnabled \<mapsto> v)) = (load_values all)\<lparr>cfg_summary_enabled := w\<rparr>"
  unfolding load_values_eq
  by (simp_all add: field_upd key_defs)

lemma load_one_2:
  "v \<noteq> [] \<Longrightarrow> parseBool v = (\<lambda>_. w) \<Longrightarrow> load_values (all(keyAttachEnabled \<mapsto> v)) = (load_values all)\<lparr>cfg_attach_enabled := w\<rparr>"
  "v \<noteq> [] \<Longrightarrow> parseBool v = (\<lambda>_. w) \<Longrightarrow> load_values (all(keyAutoInstallSync \<mapsto> v)) = (load_values all)\<lparr>cfg_auto_install_sync := w\<rparr>"
  "v \<noteq> [] \<Longrightarrow> parseBool v = (\<lambda>_. w) \<Longrightarrow> load_values (all(keyHubEnabled \<mapsto> v)) = (load_values all)\<lparr>cfg_hub_enabled := w\<rparr>"
  "v \<noteq> [] \<Longrightarrow> parseBool v = (\<lambda>_. w) \<Longrightarrow> load_values (all(keyTasksPane \<mapsto> v)) = (load_values all)\<lparr>cfg_tasks_pane := w\<rparr>"
  "v \<noteq> [] \<Longrightarrow> parseBool v = (\<lambda>_. w) \<Longrightarrow> load_values (all(keyListCollapsed \<mapsto> v)) = (load_values all)\<lparr>cfg_list_collapsed := w\<rparr>"
  "v \<noteq> [] \<Longrightarrow> parseBool v = (\<lambda>_. w) \<Longrightarrow> load_values (all(keyRecentOrder \<mapsto> v)) = (load_values all)\<lparr>cfg_recent_order := w\<rparr>"
  unfolding load_values_eq
  by (simp_all add: field_upd key_defs)

lemma load_one_3:
  "v \<noteq> [] \<Longrightarrow> parseBool v = (\<lambda>_. w) \<Longrightarrow> load_values (all(keyTaskSpacing \<mapsto> v)) = (load_values all)\<lparr>cfg_task_spacing := w\<rparr>"
  "v \<noteq> [] \<Longrightarrow> parseBool v = (\<lambda>_. w) \<Longrightarrow> load_values (all(keyInvertListScroll \<mapsto> v)) = (load_values all)\<lparr>cfg_invert_list_scroll := w\<rparr>"
  "v \<noteq> [] \<Longrightarrow> parseBool v = (\<lambda>_. w) \<Longrightarrow> load_values (all(keyAutoTitle \<mapsto> v)) = (load_values all)\<lparr>cfg_auto_title := w\<rparr>"
  "v \<noteq> [] \<Longrightarrow> parseBool v = (\<lambda>_. w) \<Longrightarrow> load_values (all(keyHideHeadless \<mapsto> v)) = (load_values all)\<lparr>cfg_hide_headless := w\<rparr>"
  "v \<noteq> [] \<Longrightarrow> one_of [''auto'', ''vertical'', ''horizontal''] v = (\<lambda>_. x) \<Longrightarrow> load_values (all(keyLayoutMode \<mapsto> v)) = (load_values all)\<lparr>cfg_layout_mode := x\<rparr>"
  "v \<noteq> [] \<Longrightarrow> parseInt v = (\<lambda>_. i) \<Longrightarrow> load_values (all(keyVerticalAutoCols \<mapsto> v)) = (load_values all)\<lparr>cfg_vertical_auto_cols := i\<rparr>"
  unfolding load_values_eq
  by (simp_all add: field_upd key_defs)

lemma load_one_4:
  "v \<noteq> [] \<Longrightarrow> parseInt v = (\<lambda>_. i) \<Longrightarrow> load_values (all(keyTailBudgetKB \<mapsto> v)) = (load_values all)\<lparr>cfg_tail_budget_kb := i\<rparr>"
  "v \<noteq> [] \<Longrightarrow> parseInt v = (\<lambda>_. i) \<Longrightarrow> load_values (all(keySummaryTimeoutSec \<mapsto> v)) = (load_values all)\<lparr>cfg_summary_timeout_sec := i\<rparr>"
  "v \<noteq> [] \<Longrightarrow> parseInt v = (\<lambda>_. i) \<Longrightarrow> load_values (all(keyRefreshIntervalMs \<mapsto> v)) = (load_values all)\<lparr>cfg_refresh_interval_ms := i\<rparr>"
  "v \<noteq> [] \<Longrightarrow> v = x \<Longrightarrow> load_values (all(keyNewSessionDir \<mapsto> v)) = (load_values all)\<lparr>cfg_new_session_dir := x\<rparr>"
  "v \<noteq> [] \<Longrightarrow> v = x \<Longrightarrow> load_values (all(keyTrustedDirs \<mapsto> v)) = (load_values all)\<lparr>cfg_trusted_dirs := x\<rparr>"
  "v \<noteq> [] \<Longrightarrow> pane_value v = (\<lambda>_. x) \<Longrightarrow> load_values (all(keyPaneRatio \<mapsto> v)) = (load_values all)\<lparr>cfg_pane_ratio := x\<rparr>"
  unfolding load_values_eq
  by (simp_all add: field_upd key_defs)

lemma load_one_5:
  "v \<noteq> [] \<Longrightarrow> one_of [''relative'', ''absolute''] v = (\<lambda>_. x) \<Longrightarrow> load_values (all(keyTimeFormat \<mapsto> v)) = (load_values all)\<lparr>cfg_time_format := x\<rparr>"
  "v \<noteq> [] \<Longrightarrow> one_of [''stable'', ''dev''] v = (\<lambda>_. x) \<Longrightarrow> load_values (all(keyUpdateChannel \<mapsto> v)) = (load_values all)\<lparr>cfg_update_channel := x\<rparr>"
  "v \<noteq> [] \<Longrightarrow> one_of [''auto'', ''en'', ''ja''] v = (\<lambda>_. x) \<Longrightarrow> load_values (all(keyLanguage \<mapsto> v)) = (load_values all)\<lparr>cfg_language := x\<rparr>"
  "v \<noteq> [] \<Longrightarrow> parseInt v = (\<lambda>_. i) \<Longrightarrow> load_values (all(keyAutoArchiveDays \<mapsto> v)) = (load_values all)\<lparr>cfg_auto_archive_days := i\<rparr>"
  unfolding load_values_eq
  by (simp_all add: field_upd key_defs)

lemmas load_one = load_one_1 load_one_2 load_one_3 load_one_4 load_one_5

text \<open>What Set does with a value of the right type, and what Get then says.\<close>

lemma Set_key:
  "Set s keyAutoRepoTabs (VBool b) now db = Inr (s\<lparr>cfg_auto_repo_tabs := b\<rparr>, SetSetting keyAutoRepoTabs (formatBool b) now db)"
  "Set s keyBellOnPending (VBool b) now db = Inr (s\<lparr>cfg_bell_on_pending := b\<rparr>, SetSetting keyBellOnPending (formatBool b) now db)"
  "Set s keyNewestAtBottom (VBool b) now db = Inr (s\<lparr>cfg_newest_at_bottom := b\<rparr>, SetSetting keyNewestAtBottom (formatBool b) now db)"
  "Set s keyWorkAnim (VBool b) now db = Inr (s\<lparr>cfg_work_anim := b\<rparr>, SetSetting keyWorkAnim (formatBool b) now db)"
  "x \<in> {''auto'', ''on'', ''off''} \<Longrightarrow> Set s keyLayoutMode (VStr x) now db = Inr (s\<lparr>cfg_layout_mode := layout_mode_of x\<rparr>, SetSetting keyLayoutMode (layout_mode_of x) now db)"
  "Set s keyVerticalAutoCols (VInt i) now db = Inr (s\<lparr>cfg_vertical_auto_cols := i\<rparr>, SetSetting keyVerticalAutoCols (itoa i) now db)"
  "Set s keyApproveEnabled (VBool b) now db = Inr (s\<lparr>cfg_approve_enabled := b\<rparr>, SetSetting keyApproveEnabled (formatBool b) now db)"
  "Set s keySummaryEnabled (VBool b) now db = Inr (s\<lparr>cfg_summary_enabled := b\<rparr>, SetSetting keySummaryEnabled (formatBool b) now db)"
  "Set s keyAttachEnabled (VBool b) now db = Inr (s\<lparr>cfg_attach_enabled := b\<rparr>, SetSetting keyAttachEnabled (formatBool b) now db)"
  "Set s keyAutoInstallSync (VBool b) now db = Inr (s\<lparr>cfg_auto_install_sync := b\<rparr>, SetSetting keyAutoInstallSync (formatBool b) now db)"
  "Set s keyHubEnabled (VBool b) now db = Inr (s\<lparr>cfg_hub_enabled := b\<rparr>, SetSetting keyHubEnabled (formatBool b) now db)"
  "Set s keyTailBudgetKB (VInt i) now db = Inr (s\<lparr>cfg_tail_budget_kb := i\<rparr>, SetSetting keyTailBudgetKB (itoa i) now db)"
  "Set s keySummaryTimeoutSec (VInt i) now db = Inr (s\<lparr>cfg_summary_timeout_sec := i\<rparr>, SetSetting keySummaryTimeoutSec (itoa i) now db)"
  "Set s keyRefreshIntervalMs (VInt i) now db = Inr (s\<lparr>cfg_refresh_interval_ms := i\<rparr>, SetSetting keyRefreshIntervalMs (itoa i) now db)"
  "Set s keyNewSessionDir (VStr x) now db = Inr (s\<lparr>cfg_new_session_dir := x\<rparr>, SetSetting keyNewSessionDir x now db)"
  "Set s keyTrustedDirs (VStr x) now db = Inr (s\<lparr>cfg_trusted_dirs := x\<rparr>, SetSetting keyTrustedDirs x now db)"
  "ParsePaneRatio x = Inr r \<Longrightarrow> Set s keyPaneRatio (VStr x) now db = Inr (s\<lparr>cfg_pane_ratio := ratio_string r\<rparr>, SetSetting keyPaneRatio (ratio_string r) now db)"
  "Set s keyTasksPane (VBool b) now db = Inr (s\<lparr>cfg_tasks_pane := b\<rparr>, SetSetting keyTasksPane (formatBool b) now db)"
  "Set s keyListCollapsed (VBool b) now db = Inr (s\<lparr>cfg_list_collapsed := b\<rparr>, SetSetting keyListCollapsed (formatBool b) now db)"
  "Set s keyRecentOrder (VBool b) now db = Inr (s\<lparr>cfg_recent_order := b\<rparr>, SetSetting keyRecentOrder (formatBool b) now db)"
  "Set s keyTaskSpacing (VBool b) now db = Inr (s\<lparr>cfg_task_spacing := b\<rparr>, SetSetting keyTaskSpacing (formatBool b) now db)"
  "Set s keyInvertListScroll (VBool b) now db = Inr (s\<lparr>cfg_invert_list_scroll := b\<rparr>, SetSetting keyInvertListScroll (formatBool b) now db)"
  "Set s keyTimeFormat (VStr x) now db = Inr (s\<lparr>cfg_time_format := x\<rparr>, SetSetting keyTimeFormat x now db)"
  "Set s keyUpdateChannel (VStr x) now db = Inr (s\<lparr>cfg_update_channel := x\<rparr>, SetSetting keyUpdateChannel x now db)"
  "Set s keyLanguage (VStr x) now db = Inr (s\<lparr>cfg_language := x\<rparr>, SetSetting keyLanguage x now db)"
  "Set s keyAutoArchiveDays (VInt i) now db = Inr (s\<lparr>cfg_auto_archive_days := i\<rparr>, SetSetting keyAutoArchiveDays (itoa i) now db)"
  "Set s keyAutoTitle (VBool b) now db = Inr (s\<lparr>cfg_auto_title := b\<rparr>, SetSetting keyAutoTitle (formatBool b) now db)"
  "Set s keyHideHeadless (VBool b) now db = Inr (s\<lparr>cfg_hide_headless := b\<rparr>, SetSetting keyHideHeadless (formatBool b) now db)"
  by (simp_all add: Set_def setters_def set_bool_def set_int_def set_str_def set_layout_def set_pane_def persist_def persist_value_def layout_mode_of_def key_defs)
     auto

lemma Get_same:
  "Get (s\<lparr>cfg_auto_repo_tabs := b\<rparr>) keyAutoRepoTabs = Some (VBool b)"
  "Get (s\<lparr>cfg_bell_on_pending := b\<rparr>) keyBellOnPending = Some (VBool b)"
  "Get (s\<lparr>cfg_newest_at_bottom := b\<rparr>) keyNewestAtBottom = Some (VBool b)"
  "Get (s\<lparr>cfg_work_anim := b\<rparr>) keyWorkAnim = Some (VBool b)"
  "Get (s\<lparr>cfg_layout_mode := x\<rparr>) keyLayoutMode = Some (VStr (layout_label x))"
  "Get (s\<lparr>cfg_vertical_auto_cols := i\<rparr>) keyVerticalAutoCols = Some (VInt i)"
  "Get (s\<lparr>cfg_approve_enabled := b\<rparr>) keyApproveEnabled = Some (VBool b)"
  "Get (s\<lparr>cfg_summary_enabled := b\<rparr>) keySummaryEnabled = Some (VBool b)"
  "Get (s\<lparr>cfg_attach_enabled := b\<rparr>) keyAttachEnabled = Some (VBool b)"
  "Get (s\<lparr>cfg_auto_install_sync := b\<rparr>) keyAutoInstallSync = Some (VBool b)"
  "Get (s\<lparr>cfg_hub_enabled := b\<rparr>) keyHubEnabled = Some (VBool b)"
  "Get (s\<lparr>cfg_tail_budget_kb := i\<rparr>) keyTailBudgetKB = Some (VInt i)"
  "Get (s\<lparr>cfg_summary_timeout_sec := i\<rparr>) keySummaryTimeoutSec = Some (VInt i)"
  "Get (s\<lparr>cfg_refresh_interval_ms := i\<rparr>) keyRefreshIntervalMs = Some (VInt i)"
  "Get (s\<lparr>cfg_new_session_dir := x\<rparr>) keyNewSessionDir = Some (VStr x)"
  "Get (s\<lparr>cfg_trusted_dirs := x\<rparr>) keyTrustedDirs = Some (VStr x)"
  "Get (s\<lparr>cfg_pane_ratio := x\<rparr>) keyPaneRatio = Some (VStr x)"
  "Get (s\<lparr>cfg_tasks_pane := b\<rparr>) keyTasksPane = Some (VBool b)"
  "Get (s\<lparr>cfg_list_collapsed := b\<rparr>) keyListCollapsed = Some (VBool b)"
  "Get (s\<lparr>cfg_recent_order := b\<rparr>) keyRecentOrder = Some (VBool b)"
  "Get (s\<lparr>cfg_task_spacing := b\<rparr>) keyTaskSpacing = Some (VBool b)"
  "Get (s\<lparr>cfg_invert_list_scroll := b\<rparr>) keyInvertListScroll = Some (VBool b)"
  "Get (s\<lparr>cfg_time_format := x\<rparr>) keyTimeFormat = Some (VStr x)"
  "Get (s\<lparr>cfg_update_channel := x\<rparr>) keyUpdateChannel = Some (VStr x)"
  "Get (s\<lparr>cfg_language := x\<rparr>) keyLanguage = Some (VStr x)"
  "Get (s\<lparr>cfg_auto_archive_days := i\<rparr>) keyAutoArchiveDays = Some (VInt i)"
  "Get (s\<lparr>cfg_auto_title := b\<rparr>) keyAutoTitle = Some (VBool b)"
  "Get (s\<lparr>cfg_hide_headless := b\<rparr>) keyHideHeadless = Some (VBool b)"
  by (simp_all add: Get_def key_defs)

lemma Get_other_1:
  "k \<noteq> keyAutoRepoTabs \<Longrightarrow> Get (s\<lparr>cfg_auto_repo_tabs := b\<rparr>) k = Get s k"
  "k \<noteq> keyBellOnPending \<Longrightarrow> Get (s\<lparr>cfg_bell_on_pending := b\<rparr>) k = Get s k"
  "k \<noteq> keyNewestAtBottom \<Longrightarrow> Get (s\<lparr>cfg_newest_at_bottom := b\<rparr>) k = Get s k"
  "k \<noteq> keyWorkAnim \<Longrightarrow> Get (s\<lparr>cfg_work_anim := b\<rparr>) k = Get s k"
  "k \<noteq> keyApproveEnabled \<Longrightarrow> Get (s\<lparr>cfg_approve_enabled := b\<rparr>) k = Get s k"
  "k \<noteq> keySummaryEnabled \<Longrightarrow> Get (s\<lparr>cfg_summary_enabled := b\<rparr>) k = Get s k"
  by (simp_all add: Get_def key_defs)

lemma Get_other_2:
  "k \<noteq> keyAttachEnabled \<Longrightarrow> Get (s\<lparr>cfg_attach_enabled := b\<rparr>) k = Get s k"
  "k \<noteq> keyAutoInstallSync \<Longrightarrow> Get (s\<lparr>cfg_auto_install_sync := b\<rparr>) k = Get s k"
  "k \<noteq> keyHubEnabled \<Longrightarrow> Get (s\<lparr>cfg_hub_enabled := b\<rparr>) k = Get s k"
  "k \<noteq> keyTasksPane \<Longrightarrow> Get (s\<lparr>cfg_tasks_pane := b\<rparr>) k = Get s k"
  "k \<noteq> keyListCollapsed \<Longrightarrow> Get (s\<lparr>cfg_list_collapsed := b\<rparr>) k = Get s k"
  "k \<noteq> keyRecentOrder \<Longrightarrow> Get (s\<lparr>cfg_recent_order := b\<rparr>) k = Get s k"
  by (simp_all add: Get_def key_defs)

lemma Get_other_3:
  "k \<noteq> keyTaskSpacing \<Longrightarrow> Get (s\<lparr>cfg_task_spacing := b\<rparr>) k = Get s k"
  "k \<noteq> keyInvertListScroll \<Longrightarrow> Get (s\<lparr>cfg_invert_list_scroll := b\<rparr>) k = Get s k"
  "k \<noteq> keyAutoTitle \<Longrightarrow> Get (s\<lparr>cfg_auto_title := b\<rparr>) k = Get s k"
  "k \<noteq> keyHideHeadless \<Longrightarrow> Get (s\<lparr>cfg_hide_headless := b\<rparr>) k = Get s k"
  "k \<noteq> keyLayoutMode \<Longrightarrow> Get (s\<lparr>cfg_layout_mode := x\<rparr>) k = Get s k"
  "k \<noteq> keyVerticalAutoCols \<Longrightarrow> Get (s\<lparr>cfg_vertical_auto_cols := i\<rparr>) k = Get s k"
  by (simp_all add: Get_def key_defs)

lemma Get_other_4:
  "k \<noteq> keyTailBudgetKB \<Longrightarrow> Get (s\<lparr>cfg_tail_budget_kb := i\<rparr>) k = Get s k"
  "k \<noteq> keySummaryTimeoutSec \<Longrightarrow> Get (s\<lparr>cfg_summary_timeout_sec := i\<rparr>) k = Get s k"
  "k \<noteq> keyRefreshIntervalMs \<Longrightarrow> Get (s\<lparr>cfg_refresh_interval_ms := i\<rparr>) k = Get s k"
  "k \<noteq> keyNewSessionDir \<Longrightarrow> Get (s\<lparr>cfg_new_session_dir := x\<rparr>) k = Get s k"
  "k \<noteq> keyTrustedDirs \<Longrightarrow> Get (s\<lparr>cfg_trusted_dirs := x\<rparr>) k = Get s k"
  "k \<noteq> keyPaneRatio \<Longrightarrow> Get (s\<lparr>cfg_pane_ratio := x\<rparr>) k = Get s k"
  by (simp_all add: Get_def key_defs)

lemma Get_other_5:
  "k \<noteq> keyTimeFormat \<Longrightarrow> Get (s\<lparr>cfg_time_format := x\<rparr>) k = Get s k"
  "k \<noteq> keyUpdateChannel \<Longrightarrow> Get (s\<lparr>cfg_update_channel := x\<rparr>) k = Get s k"
  "k \<noteq> keyLanguage \<Longrightarrow> Get (s\<lparr>cfg_language := x\<rparr>) k = Get s k"
  "k \<noteq> keyAutoArchiveDays \<Longrightarrow> Get (s\<lparr>cfg_auto_archive_days := i\<rparr>) k = Get s k"
  by (simp_all add: Get_def key_defs)

lemmas Get_other = Get_other_1 Get_other_2 Get_other_3 Get_other_4 Get_other_5

end
