(* ===== verification/Redact.thy ===== *)
theory Redact
  imports Settings_Facts "HOL-Library.Countable"
begin

text \<open>
  internal/redact: masking secrets before anything reaches the database, over JSON values. The
  regular expressions (patterns) and the JSON reader and writer of the standard library are
  arguments, collected in the record outside together with what git says of a directory; a number is
  kept as its literal. An object keeps its members in the order of the text, duplicates included.
\<close>

datatype json = JNull | JBool bool | JNum string | JStr string | JArr "json list" | JObj "(string \<times> json) list"

instance json :: countable
  by countable_datatype

record git_info =
  gi_repo :: string
  gi_branch :: string
  gi_commit :: string

record outside =
  out_patterns :: "string \<Rightarrow> string"
  out_decode :: "string \<Rightarrow> json option"
  out_encode :: "json \<Rightarrow> string"
  out_git :: "string \<Rightarrow> git_info"

section \<open>Redaction\<close>

definition redacted :: string where
  "redacted = ''<REDACTED>''"

definition sensitiveKeys :: "string list" where
  "sensitiveKeys =
     [''password'', ''passwd'', ''secret'', ''token'', ''api_key'', ''apikey'', ''auth'', ''authorization'',
      ''access_key'', ''access_token'', ''private_key'', ''client_secret'', ''session_key'']"

definition isSensitiveKey :: "string \<Rightarrow> bool" where
  "isSensitiveKey k =
     (let lower = to_lower k
      in lower \<in> set sensitiveKeys
         \<or> list_ex (\<lambda>sfx. suffix sfx lower) [''_token'', ''_key'', ''_secret'', ''_password'', ''_passwd''])"

definition redact_string :: "outside \<Rightarrow> string \<Rightarrow> string" where
  "redact_string out s = (if s = [] then s else out_patterns out s)"

lemma size_member [termination_simp]: "(k, v) \<in> set fs \<Longrightarrow> size v < Suc (size_list (size_prod (\<lambda>_. 0) size) fs)"
  by (induction fs) auto

fun walk :: "outside \<Rightarrow> json \<Rightarrow> json" where
  "walk out (JStr s) = JStr (redact_string out s)"
| "walk out (JObj fs) = JObj (map (\<lambda>(k, v). (k, if isSensitiveKey k then JStr redacted else walk out v)) fs)"
| "walk out (JArr vs) = JArr (map (walk out) vs)"
| "walk out JNull = JNull"
| "walk out (JBool b) = JBool b"
| "walk out (JNum x) = JNum x"

definition redact_JSON :: "outside \<Rightarrow> string \<Rightarrow> string" where
  "redact_JSON out raw =
     (if raw = [] then raw
      else case out_decode out raw of
             None \<Rightarrow> redact_string out raw
           | Some v \<Rightarrow> out_encode out (walk out v))"

section \<open>What a redacted value looks like\<close>

text \<open>Every string is one the patterns leave alone and every sensitive key holds the mask.\<close>

fun clean :: "outside \<Rightarrow> json \<Rightarrow> bool" where
  "clean out (JStr s) = (redact_string out s = s)"
| "clean out (JObj fs) = list_all (\<lambda>(k, v). if isSensitiveKey k then v = JStr redacted else clean out v) fs"
| "clean out (JArr vs) = list_all (clean out) vs"
| "clean out JNull = True"
| "clean out (JBool b) = True"
| "clean out (JNum x) = True"

lemma clean_walk:
  "\<forall>s. redact_string out (redact_string out s) = redact_string out s \<Longrightarrow> clean out (walk out v)"
  by (induction out v rule: walk.induct) (auto simp: list_all_iff)

lemma walk_clean: "clean out v \<Longrightarrow> walk out v = v"
proof (induction out v rule: walk.induct)
  case (2 out fs)
  then have "map (\<lambda>(k, v). (k, if isSensitiveKey k then JStr redacted else walk out v)) fs = map (\<lambda>p. p) fs"
    by (intro map_cong refl) (auto simp: list_all_iff split: if_splits)
  then show ?case by simp
next
  case (3 out vs)
  then show ?case by (simp add: list_all_iff map_idI)
qed simp_all

end
