(* ===== verification/Session_Hooks.thy ===== *)
theory Session_Hooks
  imports Redact
begin

text \<open>
  internal/server: what the hooks Claude Code runs do to the sessions, events, approvals and
  attention (server.go and attention.go), and the approval a permission request waits for. The
  state is the database with the collector's own tables: which hosted terminal belongs to which
  session, and the requests that are held open. A handler reads the clock once. A request body is
  its text; headers are looked up by name.
\<close>

section \<open>State\<close>

record approvalDecision =
  ad_behavior :: string
  ad_reason :: string
  ad_keep :: bool

text \<open>
  One permission request that is held open: its approval, what a rule for it needs, when the wait began, the
  decision waiting in its channel, and whether its handler has stopped listening (before it deletes its entry).
\<close>

record hold =
  ho_id :: int
  ho_tool :: string
  ho_input :: string
  ho_since :: int
  ho_chan :: "approvalDecision option"
  ho_over :: bool

text \<open>Terminals are named by the tag their hooks carry; a session id is one more name of one.\<close>

record srv =
  sv_db :: ccdb
  sv_ptys :: "(string \<times> int) list"
  sv_holds :: "hold list"

definition on_db :: "(ccdb \<Rightarrow> ccdb) \<Rightarrow> srv \<Rightarrow> srv" where
  "on_db f s = s\<lparr>sv_db := f (sv_db s)\<rparr>"

section \<open>Payloads\<close>

record hookPayload =
  hp_session :: string
  hp_transcript :: string
  hp_cwd :: string
  hp_source :: string
  hp_model :: string
  hp_prompt :: string
  hp_tool_name :: string
  hp_tool_input :: string
  hp_tool_use_id :: string
  hp_error :: string
  hp_duration_ms :: int
  hp_message :: string

definition empty_payload :: hookPayload where
  "empty_payload =
     \<lparr>hp_session = [], hp_transcript = [], hp_cwd = [], hp_source = [], hp_model = [], hp_prompt = [],
      hp_tool_name = [], hp_tool_input = [], hp_tool_use_id = [], hp_error = [], hp_duration_ms = 0, hp_message = []\<rparr>"

text \<open>
  Decoding an object into a struct: a member fills the field of its name, whatever the case of its letters; null
  leaves the field, a later member replaces an earlier one, and a value of another type is an error (None).
\<close>

definition members :: "string \<Rightarrow> (string \<times> json) list \<Rightarrow> json list" where
  "members name fs = map snd (filter (\<lambda>(k, v). equal_fold k name) fs)"

definition string_value :: "string option \<Rightarrow> json \<Rightarrow> string option" where
  "string_value acc v =
     (case acc of
        None \<Rightarrow> None
      | Some s \<Rightarrow> (case v of JStr x \<Rightarrow> Some x | JNull \<Rightarrow> Some s | _ \<Rightarrow> None))"

definition string_field :: "string \<Rightarrow> (string \<times> json) list \<Rightarrow> string option" where
  "string_field name fs = foldl string_value (Some []) (members name fs)"

definition int_value :: "int option \<Rightarrow> json \<Rightarrow> int option" where
  "int_value acc v =
     (case acc of
        None \<Rightarrow> None
      | Some i \<Rightarrow> (case v of JNum x \<Rightarrow> parse_int64 x | JNull \<Rightarrow> Some i | _ \<Rightarrow> None))"

definition int_field :: "string \<Rightarrow> (string \<times> json) list \<Rightarrow> int option" where
  "int_field name fs = foldl int_value (Some 0) (members name fs)"

definition bool_value :: "bool option \<Rightarrow> json \<Rightarrow> bool option" where
  "bool_value acc v =
     (case acc of
        None \<Rightarrow> None
      | Some b \<Rightarrow> (case v of JBool x \<Rightarrow> Some x | JNull \<Rightarrow> Some b | _ \<Rightarrow> None))"

definition bool_field :: "string \<Rightarrow> (string \<times> json) list \<Rightarrow> bool option" where
  "bool_field name fs = foldl bool_value (Some False) (members name fs)"

text \<open>A raw member is kept as text.\<close>

definition raw_field :: "outside \<Rightarrow> string \<Rightarrow> (string \<times> json) list \<Rightarrow> string" where
  "raw_field out name fs = (case members name fs of [] \<Rightarrow> [] | vs \<Rightarrow> out_encode out (last vs))"

definition decode_payload :: "outside \<Rightarrow> json \<Rightarrow> hookPayload option" where
  "decode_payload out v =
     (case v of
        JNull \<Rightarrow> Some empty_payload
      | JObj fs \<Rightarrow>
          (let text = (\<lambda>name. string_field name fs)
           in if list_ex (\<lambda>name. text name = None)
                   [''session_id'', ''transcript_path'', ''cwd'', ''hook_event_name'', ''permission_mode'', ''source'', ''model'',
                    ''prompt'', ''tool_name'', ''tool_use_id'', ''error'', ''message'']
                 \<or> int_field ''duration_ms'' fs = None
              then None
              else Some \<lparr>hp_session = the (text ''session_id''), hp_transcript = the (text ''transcript_path''),
                     hp_cwd = the (text ''cwd''), hp_source = the (text ''source''), hp_model = the (text ''model''),
                     hp_prompt = the (text ''prompt''), hp_tool_name = the (text ''tool_name''),
                     hp_tool_input = raw_field out ''tool_input'' fs, hp_tool_use_id = the (text ''tool_use_id''),
                     hp_error = the (text ''error''), hp_duration_ms = the (int_field ''duration_ms'' fs),
                     hp_message = the (text ''message'')\<rparr>)
      | _ \<Rightarrow> None)"

text \<open>The payload with its secrets masked, and the whole body masked, which is what is stored.\<close>

definition readPayload :: "outside \<Rightarrow> string \<Rightarrow> (hookPayload \<times> string) option" where
  "readPayload out body0 =
     (let body = take (8 * 2 ^ 20) body0
      in if body = [] then Some (empty_payload, ''{}'')
         else
           case Option.bind (out_decode out body) (decode_payload out) of
             None \<Rightarrow> None
           | Some p \<Rightarrow>
               Some (p\<lparr>hp_prompt := redact_string out (hp_prompt p), hp_error := redact_string out (hp_error p),
                       hp_tool_input := redact_JSON out (hp_tool_input p)\<rparr>,
                     redact_JSON out body))"

definition headerVal :: "(string \<Rightarrow> string) \<Rightarrow> string \<Rightarrow> string" where
  "headerVal hdr key =
     (let v = trim_space (hdr key)
      in if v = [] then [] else if prefix ''${'' v \<and> suffix ''}'' v then [] else v)"

text \<open>strconv.Atoi with its error dropped: 0 for what is no number, the nearest int for what does not fit.\<close>

definition atoi :: "string \<Rightarrow> int" where
  "atoi s =
     (let neg = (s \<noteq> [] \<and> hd s = CHR ''-'');
          body = (if s \<noteq> [] \<and> (hd s = CHR ''-'' \<or> hd s = CHR ''+'') then tl s else s)
      in case parse_nat body of
           None \<Rightarrow> 0
         | Some n \<Rightarrow> max (- (2 ^ 63)) (min (2 ^ 63 - 1) (if neg then - int n else int n)))"

section \<open>Texts\<close>

definition rune_start :: "char \<Rightarrow> bool" where
  "rune_start c \<longleftrightarrow> \<not> byte_in 0x80 0xBF c"

fun cut_point :: "string \<Rightarrow> nat \<Rightarrow> nat" where
  "cut_point s 0 = 0"
| "cut_point s (Suc n) = (if rune_start (s ! Suc n) then Suc n else cut_point s n)"

definition truncate_text :: "string \<Rightarrow> nat \<Rightarrow> string" where
  "truncate_text s n = (if length s \<le> n then s else take (cut_point s n) s @ ''...'')"

text \<open>The first of some keys whose value is a non-empty string, as decoding to a map sees it.\<close>

fun pick_key :: "(string \<times> json) list \<Rightarrow> string list \<Rightarrow> string" where
  "pick_key fs [] = []"
| "pick_key fs (k # ks) =
     (case map_of (rev fs) k of
        Some (JStr x) \<Rightarrow> if x \<noteq> [] then x else pick_key fs ks
      | _ \<Rightarrow> pick_key fs ks)"

definition summarize_object :: "string \<Rightarrow> (string \<times> json) list \<Rightarrow> string" where
  "summarize_object tool fs =
     (if tool = ''Bash'' then truncate_text (pick_key fs [''command'']) 200
      else if tool \<in> {''Edit'', ''Write'', ''Read''} then pick_key fs [''file_path'']
      else if tool \<in> {''Glob'', ''Grep''} then pick_key fs [''pattern'', ''query'']
      else if tool \<in> {''WebFetch'', ''WebSearch''} then pick_key fs [''url'', ''query'']
      else
        let s = pick_key fs [''file_path'', ''command'', ''url'', ''query'', ''pattern'']
        in if s \<noteq> [] then truncate_text s 200 else tool)"

definition summarizeToolInput :: "outside \<Rightarrow> string \<Rightarrow> string \<Rightarrow> string" where
  "summarizeToolInput out tool input =
     (if input = [] then tool
      else
        case out_decode out (redact_JSON out input) of
          Some (JObj fs) \<Rightarrow> summarize_object tool fs
        | Some JNull \<Rightarrow> summarize_object tool []
        | _ \<Rightarrow> tool)"

section \<open>Attention\<close>

definition question_label :: string where "question_label = [CHR 0xE8, CHR 0xB3, CHR 0xAA, CHR 0xE5, CHR 0x95, CHR 0x8F]"
definition plan_label :: string where "plan_label = [CHR 0xE3, CHR 0x83, CHR 0x97, CHR 0xE3, CHR 0x83, CHR 0xA9, CHR 0xE3, CHR 0x83, 
     CHR 0xB3, CHR 0xE3, CHR 0x81, CHR 0xAE, CHR 0xE6, CHR 0x89, CHR 0xBF, CHR 0xE8, 
     CHR 0xAA, CHR 0x8D]"

definition attentionTools :: "string \<Rightarrow> string option" where
  "attentionTools = map_of [(''AskUserQuestion'', question_label), (''ExitPlanMode'', plan_label)]"

text \<open>The texts of the questions of an AskUserQuestion call; None when the input has another shape.\<close>

definition question_text :: "json \<Rightarrow> string option" where
  "question_text v = (case v of JNull \<Rightarrow> Some [] | JObj fs \<Rightarrow> string_field ''question'' fs | _ \<Rightarrow> None)"

definition questions_value :: "string list option \<Rightarrow> json \<Rightarrow> string list option" where
  "questions_value acc v =
     (case acc of
        None \<Rightarrow> None
      | Some qs \<Rightarrow>
          (case v of
             JNull \<Rightarrow> Some []
           | JArr vs \<Rightarrow> if list_ex (\<lambda>x. question_text x = None) vs then None else Some (map (the \<circ> question_text) vs)
           | _ \<Rightarrow> None))"

definition questions :: "outside \<Rightarrow> string \<Rightarrow> string list option" where
  "questions out input =
     (case out_decode out input of
        Some (JObj fs) \<Rightarrow> foldl questions_value (Some []) (members ''questions'' fs)
      | Some JNull \<Rightarrow> Some []
      | _ \<Rightarrow> None)"

definition pre_tool_reason :: "outside \<Rightarrow> hookPayload \<Rightarrow> string \<Rightarrow> string" where
  "pre_tool_reason out p label =
     (if hp_tool_name p = ''AskUserQuestion'' then
        (case questions out (hp_tool_input p) of
           Some (q # qs) \<Rightarrow> if q \<noteq> [] then label @ '': '' @ truncate_text q 120 else label
         | _ \<Rightarrow> label)
      else label)"

definition attentionFromPreTool :: "outside \<Rightarrow> hookPayload \<Rightarrow> gotime \<Rightarrow> ccdb \<Rightarrow> ccdb" where
  "attentionFromPreTool out p now db =
     (case attentionTools (hp_tool_name p) of
        None \<Rightarrow> db
      | Some label \<Rightarrow> SetAttention (hp_session p) AttentionNeedsYou (pre_tool_reason out p label) now db)"

definition stopAttention :: "string \<Rightarrow> string \<Rightarrow> string \<times> string" where
  "stopAttention wait note =
     (if \<not> WaitNeedsYou wait then (AttentionDone, [])
      else (AttentionNeedsYou, WaitLabel wait @ (if note \<noteq> [] then '': '' @ truncate_text note 120 else [])))"

definition attentionFromPostTool :: "hookPayload \<Rightarrow> ccdb \<Rightarrow> ccdb" where
  "attentionFromPostTool p db =
     (if attentionTools (hp_tool_name p) \<noteq> None then ClearAttention (hp_session p) AttentionNeedsYou db else db)"

definition attentionFromNotification :: "hookPayload \<Rightarrow> gotime \<Rightarrow> ccdb \<Rightarrow> ccdb" where
  "attentionFromNotification p now db =
     (let msg = trim_space (hp_message p)
      in if msg = [] \<or> \<not> sublist ''permission'' (to_lower msg) then db
         else SetAttention (hp_session p) AttentionNeedsYou (truncate_text msg 120) now db)"

section \<open>The session of a hook\<close>

text \<open>Settings are loaded where they are needed; loading may panic, which ends the request where it is.\<close>

definition hideHeadless :: "gotime \<Rightarrow> srv \<Rightarrow> srv + bool \<times> srv" where
  "hideHeadless now s =
     (case Load now (sv_db s) of
        None \<Rightarrow> Inl s
      | Some (cfg, db) \<Rightarrow> Inr (cfg_hide_headless cfg, s\<lparr>sv_db := db\<rparr>))"

definition ptyTagBase :: int where
  "ptyTagBase = 2 ^ 30"

definition aliasPTYByTag :: "int \<Rightarrow> string \<Rightarrow> srv \<Rightarrow> srv" where
  "aliasPTYByTag tag sid s =
     (if sid = [] \<or> sid \<in> fst ` set (sv_ptys s) \<or> tag \<notin> snd ` set (sv_ptys s) then s
      else s\<lparr>sv_ptys := sv_ptys s @ [(sid, tag)]\<rparr>)"

definition zero_session :: session where
  "zero_session =
     \<lparr>se_id = [], se_host_letter = [], se_cwd = [], se_repo = [], se_branch = [], se_commit = [], se_wrapper_pid = 0,
      se_proc_pid = 0, se_pane = [], se_tmux_pane = [], se_tmux_session = [], se_transcript_path = [], se_model = [],
      se_entrypoint = [], se_hide_headless = False, se_num = 0, se_title = [], se_gen_title = [], se_gen_title_at = None,
      se_title_status = [], se_custom_title = [], se_user_group = [], se_account = [], se_archived = False,
      se_favorite = False, se_pinned_at = None, se_color_override = [], se_project = [], se_project_color = [],
      se_project_order = 0, se_first_seen = None, se_last_seen = None, se_status = [], se_pending_count = 0,
      se_attention = [], se_attention_reason = [], se_attention_at = None, se_wait = [], se_wait_note = [],
      se_wait_at = None, se_origin = [], se_last_activity = None, se_seen_at = None, se_unseen = False,
      se_later = False, se_later_at = None, se_grid = False, se_grid_at = None, se_turn_started_at = None, se_tool = [],
      se_tool_summary = [], se_tool_at = None\<rparr>"

definition hook_session :: "outside \<Rightarrow> (string \<Rightarrow> string) \<Rightarrow> hookPayload \<Rightarrow> string \<Rightarrow> bool \<Rightarrow> bool \<Rightarrow> gotime \<Rightarrow> session" where
  "hook_session out hdr p status hide activity now =
     (let repo = headerVal hdr ''X-Ccdash-Git-Repo'';
          branch = headerVal hdr ''X-Ccdash-Git-Branch'';
          commit = headerVal hdr ''X-Ccdash-Git-Commit'';
          asked = (repo = [] \<and> branch = [] \<and> commit = [] \<and> hp_cwd p \<noteq> []);
          g = out_git out (hp_cwd p)
      in zero_session\<lparr>se_id := hp_session p, se_cwd := hp_cwd p,
           se_repo := (if asked then gi_repo g else repo),
           se_branch := (if asked then gi_branch g else branch),
           se_commit := (if asked then gi_commit g else commit),
           se_wrapper_pid := atoi (headerVal hdr ''X-Ccdash-Wrapper-Pid''),
           se_tmux_pane := headerVal hdr ''X-Ccdash-Tmux-Pane'',
           se_tmux_session := headerVal hdr ''X-Ccdash-Tmux-Session'',
           se_transcript_path := hp_transcript p, se_model := hp_model p,
           se_entrypoint := headerVal hdr ''X-Ccdash-Entrypoint'', se_status := status,
           se_hide_headless := hide, se_last_activity := (if activity then Some now else None)\<rparr>)"

definition ensureSessionAt ::
  "outside \<Rightarrow> (string \<Rightarrow> string) \<Rightarrow> hookPayload \<Rightarrow> string \<Rightarrow> bool \<Rightarrow> bool \<Rightarrow> gotime \<Rightarrow> srv \<Rightarrow> srv + srv"
where
  "ensureSessionAt out hdr p status bump activity now s0 =
     (if hp_session p = [] then Inr s0
      else
        let pid = atoi (headerVal hdr ''X-Ccdash-Wrapper-Pid'');
            s = (if ptyTagBase \<le> pid then aliasPTYByTag pid (hp_session p) s0 else s0);
            save = (\<lambda>(hide, s).
              let sess = hook_session out hdr p status hide activity now
              in on_db (if bump then UpsertSession sess now else UpsertSessionKeepLastSeen sess now) s)
        in if Headless (headerVal hdr ''X-Ccdash-Entrypoint'') then
             (case hideHeadless now s of Inl s \<Rightarrow> Inl s | Inr hs \<Rightarrow> Inr (save hs))
           else Inr (save (False, s)))"

definition ensureSession ::
  "outside \<Rightarrow> (string \<Rightarrow> string) \<Rightarrow> hookPayload \<Rightarrow> string \<Rightarrow> gotime \<Rightarrow> srv \<Rightarrow> srv + srv"
where
  "ensureSession out hdr p status now s = ensureSessionAt out hdr p status False True now s"

definition add_event :: "hookPayload \<Rightarrow> string \<Rightarrow> string \<Rightarrow> string \<Rightarrow> string \<Rightarrow> gotime \<Rightarrow> srv \<Rightarrow> srv" where
  "add_event p type tool summary raw now =
     on_db (\<lambda>db. fst (AppendEvent
       \<lparr>ev_id = 0, ev_session_id = hp_session p, ev_timestamp = None, ev_type = type, ev_tool = tool,
        ev_summary = summary, ev_payload = raw\<rparr> now db))"

section \<open>The handlers\<close>

datatype hook_reply =
  BadRequest | Panicked | NoOutput | Holding int | Decided string string "string option"

text \<open>What every handler does around its own part: refuse a body it cannot read, end at a panic.\<close>

definition with_payload ::
  "outside \<Rightarrow> string \<Rightarrow> (hookPayload \<Rightarrow> string \<Rightarrow> srv \<Rightarrow> srv \<times> hook_reply) \<Rightarrow> srv \<Rightarrow> srv \<times> hook_reply"
where
  "with_payload out body f s =
     (case readPayload out body of None \<Rightarrow> (s, BadRequest) | Some (p, raw) \<Rightarrow> f p raw s)"

definition unless_panic :: "srv + srv \<Rightarrow> (srv \<Rightarrow> srv \<times> hook_reply) \<Rightarrow> srv \<times> hook_reply" where
  "unless_panic r f = (case r of Inl s \<Rightarrow> (s, Panicked) | Inr s \<Rightarrow> f s)"

definition handleSessionStart :: "outside \<Rightarrow> (string \<Rightarrow> string) \<Rightarrow> string \<Rightarrow> gotime \<Rightarrow> srv \<Rightarrow> srv \<times> hook_reply" where
  "handleSessionStart out hdr body now =
     with_payload out body (\<lambda>p raw s.
       let fresh = (hp_source p \<noteq> ''resume'')
       in unless_panic (ensureSessionAt out hdr p StatusActive fresh fresh now s) (\<lambda>s.
         (add_event p EventSessionStart [] (''session started ('' @ hp_source p @ '')'') raw now s, NoOutput)))"

definition handleSessionEnd :: "outside \<Rightarrow> (string \<Rightarrow> string) \<Rightarrow> string \<Rightarrow> gotime \<Rightarrow> srv \<Rightarrow> srv \<times> hook_reply" where
  "handleSessionEnd out hdr body now =
     with_payload out body (\<lambda>p raw s.
       unless_panic (ensureSessionAt out hdr p StatusStopped False False now s) (\<lambda>s.
         (add_event p EventSessionEnd [] ''session ended'' raw now s, NoOutput)))"

definition handleUserPrompt :: "outside \<Rightarrow> (string \<Rightarrow> string) \<Rightarrow> string \<Rightarrow> gotime \<Rightarrow> srv \<Rightarrow> srv \<times> hook_reply" where
  "handleUserPrompt out hdr body now =
     with_payload out body (\<lambda>p raw s.
       unless_panic (ensureSessionAt out hdr p StatusActive True True now s) (\<lambda>s.
         let s = on_db (ClearAttention (hp_session p) []) s;
             s = on_db (\<lambda>db. fst (SetWait (hp_session p) [] [] now db)) s
         in (add_event p EventUserPrompt [] (truncate_text (trim_space (hp_prompt p)) 200) raw now s, NoOutput)))"

definition handlePreTool :: "outside \<Rightarrow> (string \<Rightarrow> string) \<Rightarrow> string \<Rightarrow> gotime \<Rightarrow> srv \<Rightarrow> srv \<times> hook_reply" where
  "handlePreTool out hdr body now =
     with_payload out body (\<lambda>p raw s.
       unless_panic (ensureSession out hdr p StatusActive now s) (\<lambda>s.
         let s = add_event p EventPreTool (hp_tool_name p) (summarizeToolInput out (hp_tool_name p) (hp_tool_input p)) raw now s
         in (on_db (attentionFromPreTool out p now) s, NoOutput)))"

definition handlePostTool :: "outside \<Rightarrow> (string \<Rightarrow> string) \<Rightarrow> string \<Rightarrow> gotime \<Rightarrow> srv \<Rightarrow> srv \<times> hook_reply" where
  "handlePostTool out hdr body now =
     with_payload out body (\<lambda>p raw s.
       unless_panic (ensureSession out hdr p StatusActive now s) (\<lambda>s.
         let summary = summarizeToolInput out (hp_tool_name p) (hp_tool_input p);
             summary = (if 0 < hp_duration_ms p then summary @ '' ('' @ itoa (hp_duration_ms p) @ ''ms)'' else summary);
             s = add_event p EventPostTool (hp_tool_name p) summary raw now s;
             s = on_db (ResolvePendingByToolUseID (hp_session p) (hp_tool_use_id p) ApprovalResolved now) s;
             s = on_db (ResolveOldestPendingForTool (hp_session p) (hp_tool_name p) ApprovalResolved now) s
         in (on_db (attentionFromPostTool p) s, NoOutput)))"

definition handlePostToolFailure :: "outside \<Rightarrow> (string \<Rightarrow> string) \<Rightarrow> string \<Rightarrow> gotime \<Rightarrow> srv \<Rightarrow> srv \<times> hook_reply" where
  "handlePostToolFailure out hdr body now =
     with_payload out body (\<lambda>p raw s.
       unless_panic (ensureSession out hdr p StatusActive now s) (\<lambda>s.
         let summary = (if hp_error p \<noteq> [] then hp_tool_name p @ '': '' @ truncate_text (hp_error p) 200 else hp_tool_name p);
             s = add_event p EventPostToolFailure (hp_tool_name p) summary raw now s;
             s = on_db (ResolvePendingByToolUseID (hp_session p) (hp_tool_use_id p) ApprovalFailed now) s;
             s = on_db (ResolveOldestPendingForTool (hp_session p) (hp_tool_name p) ApprovalFailed now) s
         in (on_db (attentionFromPostTool p) s, NoOutput)))"

definition handleStop :: "outside \<Rightarrow> (string \<Rightarrow> string) \<Rightarrow> string \<Rightarrow> gotime \<Rightarrow> srv \<Rightarrow> srv \<times> hook_reply" where
  "handleStop out hdr body now =
     with_payload out body (\<lambda>p raw s.
       unless_panic (ensureSession out hdr p StatusIdle now s) (\<lambda>s.
         let (db, wait, note) = TurnWait (hp_session p) now (sv_db s);
             s = add_event p EventStop [] ''stop'' raw now (s\<lparr>sv_db := db\<rparr>)
         in if Headless (headerVal hdr ''X-Ccdash-Entrypoint'') then (s, NoOutput)
            else
              let (kind, reason) = stopAttention wait note
              in (on_db (SetAttention (hp_session p) kind reason now) s, NoOutput)))"

definition handleSubagentStop :: "outside \<Rightarrow> (string \<Rightarrow> string) \<Rightarrow> string \<Rightarrow> gotime \<Rightarrow> srv \<Rightarrow> srv \<times> hook_reply" where
  "handleSubagentStop out hdr body now =
     with_payload out body (\<lambda>p raw s. (add_event p EventSubagentStop [] ''subagent stop'' raw now s, NoOutput))"

definition handleNotification :: "outside \<Rightarrow> (string \<Rightarrow> string) \<Rightarrow> string \<Rightarrow> gotime \<Rightarrow> srv \<Rightarrow> srv \<times> hook_reply" where
  "handleNotification out hdr body now =
     with_payload out body (\<lambda>p raw s.
       (on_db (attentionFromNotification p now) (add_event p EventNotification [] ''notification'' raw now s), NoOutput))"

section \<open>Permission requests\<close>

definition dialogTools :: "string list" where
  "dialogTools = [''AskUserQuestion'', ''ExitPlanMode'']"

text \<open>The handler up to where it waits: the reply Holding names the approval it waits for.\<close>

definition handlePermissionRequest :: "outside \<Rightarrow> (string \<Rightarrow> string) \<Rightarrow> string \<Rightarrow> gotime \<Rightarrow> srv \<Rightarrow> srv \<times> hook_reply" where
  "handlePermissionRequest out hdr body now =
     with_payload out body (\<lambda>p raw s.
       unless_panic (ensureSession out hdr p StatusActive now s) (\<lambda>s.
         let s = add_event p EventPermissionRequest (hp_tool_name p)
               (summarizeToolInput out (hp_tool_name p) (hp_tool_input p)) raw now s
         in if hp_tool_name p \<in> set dialogTools then (s, NoOutput)
            else
              let (db, i) = InsertApproval
                    \<lparr>ap_id = 0, ap_session_id = hp_session p, ap_timestamp = None, ap_tool = hp_tool_name p,
                     ap_tool_use_id = hp_tool_use_id p, ap_tool_input = hp_tool_input p, ap_status = ApprovalPending,
                     ap_reason = [], ap_decided_at = None\<rparr> now (sv_db s)
              in case Load now db of
                   None \<Rightarrow> (s\<lparr>sv_db := db\<rparr>, Panicked)
                 | Some (cfg, db) \<Rightarrow>
                     (let s = s\<lparr>sv_db := db\<rparr>
                      in if \<not> cfg_approve_enabled cfg then (s, NoOutput)
                         else (s\<lparr>sv_holds := sv_holds s @
                                 [\<lparr>ho_id = i, ho_tool = hp_tool_name p, ho_input = hp_tool_input p,
                                   ho_since = unix_milli now, ho_chan = None, ho_over = False\<rparr>]\<rparr>, Holding i))))"

definition first_blank :: "string \<Rightarrow> string option" where
  "first_blank cmd =
     (let w = takeWhile (\<lambda>c. c \<notin> {CHR '' '', CHR 0x09}) cmd in if length w < length cmd then Some w else None)"

definition ruleFor :: "outside \<Rightarrow> string \<Rightarrow> string \<Rightarrow> string" where
  "ruleFor out tool input =
     (if tool = ''Bash'' \<and> input \<noteq> [] then
        (case (case out_decode out input of
                 Some (JObj fs) \<Rightarrow> string_field ''command'' fs | Some JNull \<Rightarrow> Some [] | _ \<Rightarrow> None) of
           None \<Rightarrow> ''Bash''
         | Some command \<Rightarrow>
             (let cmd = trim_space command
              in if cmd = [] then ''Bash''
                 else case first_blank cmd of
                        Some w \<Rightarrow> ''Bash('' @ w @ '' *)''
                      | None \<Rightarrow> ''Bash('' @ cmd @ '')''))
      else tool)"

definition on_hold :: "int \<Rightarrow> (hold \<Rightarrow> hold) \<Rightarrow> srv \<Rightarrow> srv" where
  "on_hold i f s = s\<lparr>sv_holds := update_where (\<lambda>h. ho_id h = i) f (sv_holds s)\<rparr>"

definition find_hold :: "int \<Rightarrow> srv \<Rightarrow> hold option" where
  "find_hold i s = find (\<lambda>h. ho_id h = i) (sv_holds s)"

text \<open>The ways a wait ends, each when it can: a decision, the end of the window, the request given up.\<close>

definition decideWindow :: int where
  "decideWindow = 25000"

definition answer_hold :: "outside \<Rightarrow> int \<Rightarrow> gotime \<Rightarrow> srv \<Rightarrow> (srv \<times> hook_reply) option" where
  "answer_hold out i now s =
     (case find_hold i s of
        None \<Rightarrow> None
      | Some h \<Rightarrow>
          (case ho_chan h of
             None \<Rightarrow> None
           | Some d \<Rightarrow>
               if ho_over h then None
               else
                 let status = (if ad_behavior d = ''deny'' then ApprovalDenied else ApprovalApproved);
                     s = on_hold i (\<lambda>h. h\<lparr>ho_chan := None, ho_over := True\<rparr>) s;
                     s = on_db (UpdateApprovalStatus i status (ad_reason d) now) s
                 in Some (s, Decided (ad_behavior d) (ad_reason d)
                        (if ad_keep d \<and> ad_behavior d = ''allow'' then Some (ruleFor out (ho_tool h) (ho_input h)) else None))))"

definition timeout_hold :: "int \<Rightarrow> gotime \<Rightarrow> srv \<Rightarrow> (srv \<times> hook_reply) option" where
  "timeout_hold i now s =
     (case find_hold i s of
        None \<Rightarrow> None
      | Some h \<Rightarrow>
          if ho_over h \<or> unix_milli now < ho_since h + decideWindow then None
          else Some (on_db (UpdateApprovalStatus i ApprovalTimeout ''ccdash: no decision within 25s'' now)
                       (on_hold i (\<lambda>h. h\<lparr>ho_over := True\<rparr>) s), NoOutput))"

definition abandon_hold :: "int \<Rightarrow> srv \<Rightarrow> srv option" where
  "abandon_hold i s =
     (case find_hold i s of
        None \<Rightarrow> None
      | Some h \<Rightarrow> if ho_over h then None else Some (on_hold i (\<lambda>h. h\<lparr>ho_over := True\<rparr>) s))"

text \<open>The deferred removal of the entry.\<close>

definition close_hold :: "int \<Rightarrow> srv \<Rightarrow> srv option" where
  "close_hold i s =
     (case find_hold i s of
        None \<Rightarrow> None
      | Some h \<Rightarrow> if ho_over h then Some (s\<lparr>sv_holds := filter (\<lambda>h. ho_id h \<noteq> i) (sv_holds s)\<rparr>) else None)"

datatype decide_reply = PostOnly | NotFound | BadId | BadBody | BadBehavior | Gone | Accepted | AlreadyAccepted

definition decide_body :: "json option \<Rightarrow> approvalDecision option" where
  "decide_body v =
     (case v of
        Some JNull \<Rightarrow> Some \<lparr>ad_behavior = [], ad_reason = [], ad_keep = False\<rparr>
      | Some (JObj fs) \<Rightarrow>
          (case (string_field ''behavior'' fs, string_field ''reason'' fs, bool_field ''keep'' fs) of
             (Some b, Some r, Some k) \<Rightarrow> Some \<lparr>ad_behavior = b, ad_reason = r, ad_keep = k\<rparr>
           | _ \<Rightarrow> None)
      | _ \<Rightarrow> None)"

definition decide :: "int \<Rightarrow> approvalDecision \<Rightarrow> srv \<Rightarrow> srv \<times> decide_reply" where
  "decide i d s =
     (case find_hold i s of
        None \<Rightarrow> (s, Gone)
      | Some h \<Rightarrow>
          if ho_chan h = None then (on_hold i (\<lambda>h. h\<lparr>ho_chan := Some d\<rparr>) s, Accepted) else (s, AlreadyAccepted))"

text \<open>The body is what the decoder read from it.\<close>

definition handleApprovalDecide :: "string \<Rightarrow> string \<Rightarrow> json option \<Rightarrow> srv \<Rightarrow> srv \<times> decide_reply" where
  "handleApprovalDecide meth path body s =
     (if meth \<noteq> ''POST'' then (s, PostOnly)
      else
        case split_byte (CHR ''/'') (trim_prefix path ''/approvals/'') of
          x # y # rest \<Rightarrow>
            (if y \<noteq> ''decide'' then (s, NotFound)
             else
               case parse_int64 x of
                 None \<Rightarrow> (s, BadId)
               | Some i \<Rightarrow>
                   (case decide_body body of
                      None \<Rightarrow> (s, BadBody)
                    | Some d \<Rightarrow>
                        if ad_behavior d \<notin> {''allow'', ''deny''} then (s, BadBehavior) else decide i d s))
        | _ \<Rightarrow> (s, NotFound))"

section \<open>Requests of the operator's tools, and the daily archiving\<close>

definition handleAPIWait :: "outside \<Rightarrow> string \<Rightarrow> string \<Rightarrow> string \<Rightarrow> gotime \<Rightarrow> srv \<Rightarrow> srv \<times> bool" where
  "handleAPIWait out sid wait note now s =
     (if wait \<noteq> [] \<and> WaitLabel wait = [] then (s, False)
      else
        case SetWait sid wait (redact_string out (truncate_text note 300)) now (sv_db s) of
          (db, err) \<Rightarrow> (s\<lparr>sv_db := db\<rparr>, err = None))"

definition handleAPISeen :: "string \<Rightarrow> gotime \<Rightarrow> srv \<Rightarrow> srv" where
  "handleAPISeen sid now = on_db (MarkSeen sid now)"

definition handleAPIArchive :: "string \<Rightarrow> bool \<Rightarrow> srv \<Rightarrow> srv" where
  "handleAPIArchive sid archived = on_db (SetArchived sid archived)"

definition handleAPIColor :: "pick_color \<Rightarrow> string \<Rightarrow> string \<Rightarrow> srv \<Rightarrow> srv \<times> bool" where
  "handleAPIColor pick sid color s =
     (if color \<noteq> [] \<and> color \<noteq> ColorRandom \<and> \<not> ValidColor color then (s, False)
      else (on_db (SetColor pick sid (to_lower color)) s, True))"

definition handleAPILater :: "string \<Rightarrow> bool \<Rightarrow> gotime \<Rightarrow> srv \<Rightarrow> srv" where
  "handleAPILater sid later now = on_db (SetLater sid later now)"

definition KeyAutoArchiveLast :: string where
  "KeyAutoArchiveLast = ''auto_archive_last''"

text \<open>Local time is the time as it is given; going back whole days keeps its clock.\<close>

definition days_before :: "gotime \<Rightarrow> int \<Rightarrow> gotime" where
  "days_before now n = now\<lparr>gt_day := gt_day now - n\<rparr>"

definition maybeAutoArchive :: "gotime \<Rightarrow> srv \<Rightarrow> srv option" where
  "maybeAutoArchive now s =
     (case Load now (sv_db s) of
        None \<Rightarrow> None
      | Some (cfg, db) \<Rightarrow>
          Some (s\<lparr>sv_db :=
            (if cfg_auto_archive_days cfg \<le> 0 \<or> GetSetting KeyAutoArchiveLast db = date_string (gt_day now) then db
             else SetSetting KeyAutoArchiveLast (date_string (gt_day now)) now
                    (fst (AutoArchive (days_before now (cfg_auto_archive_days cfg)) db)))\<rparr>))"

definition classifyStatus :: "gotime \<Rightarrow> gotime \<Rightarrow> string \<Rightarrow> string" where
  "classifyStatus mtime now claude =
     (if claude = ''busy'' then StatusActive
      else if claude = ''idle'' then StatusIdle
      else if unix_milli now - unix_milli mtime < 6 * 3600000 then StatusRecent
      else StatusStopped)"

section \<open>All hooks\<close>

datatype hook = SessionStart | SessionEnd | UserPrompt | PreTool | PostTool | PostToolFailure
  | PermissionRequest | Stop | SubagentStop | Notification

fun handle_hook :: "outside \<Rightarrow> hook \<Rightarrow> (string \<Rightarrow> string) \<Rightarrow> string \<Rightarrow> gotime \<Rightarrow> srv \<Rightarrow> srv \<times> hook_reply" where
  "handle_hook out SessionStart = handleSessionStart out"
| "handle_hook out SessionEnd = handleSessionEnd out"
| "handle_hook out UserPrompt = handleUserPrompt out"
| "handle_hook out PreTool = handlePreTool out"
| "handle_hook out PostTool = handlePostTool out"
| "handle_hook out PostToolFailure = handlePostToolFailure out"
| "handle_hook out PermissionRequest = handlePermissionRequest out"
| "handle_hook out Stop = handleStop out"
| "handle_hook out SubagentStop = handleSubagentStop out"
| "handle_hook out Notification = handleNotification out"

end
