(* ===== verification/Session_Hooks_Facts.thy ===== *)
theory Session_Hooks_Facts
  imports Session_Hooks
begin

text \<open>
  What the hooks promise: they only touch their own session, the attention they leave follows a
  small state machine, only prompts and fresh starts move a session in the list, and a held
  permission request gets at most one answer, the first accepted decision.
\<close>

section \<open>Tables updated by key\<close>

definition lookup_row :: "('r \<Rightarrow> 'k) \<Rightarrow> 'k \<Rightarrow> 'r list \<Rightarrow> 'r option" where
  "lookup_row key k = find (\<lambda>r. key r = k)"

lemma find_update_where:
  "(\<And>r. key (f r) = key r) \<Longrightarrow>
    find (\<lambda>r. key r = k') (update_where (\<lambda>r. key r = k) f rs) =
      (if k' = k then map_option f (find (\<lambda>r. key r = k') rs) else find (\<lambda>r. key r = k') rs)"
  by (induction rs) auto

lemma filter_update_where:
  "(\<And>r. q (f r) \<longleftrightarrow> q r) \<Longrightarrow> (\<And>r. p r \<Longrightarrow> \<not> q r) \<Longrightarrow> filter q (update_where p f rs) = filter q rs"
  by (induction rs) auto

text \<open>A table of some state whose one update changes the row of a key.\<close>

locale row_table =
  fixes rows :: "'s \<Rightarrow> 'r list" and key :: "'r \<Rightarrow> 'k" and put :: "'k \<Rightarrow> ('r \<Rightarrow> 'r) \<Rightarrow> 's \<Rightarrow> 's"
  assumes rows_put: "rows (put k f s) = update_where (\<lambda>r. key r = k) f (rows s)"
begin

lemma lookup_put:
  "(\<And>r. key (f r) = key r) \<Longrightarrow>
    lookup_row key k' (rows (put k f s)) =
      (if k' = k then map_option f (lookup_row key k' (rows s)) else lookup_row key k' (rows s))"
  unfolding lookup_row_def rows_put by (rule find_update_where)

lemma others_put:
  "(\<And>r. key (f r) = key r) \<Longrightarrow> filter (\<lambda>r. key r \<noteq> k) (rows (put k f s)) = filter (\<lambda>r. key r \<noteq> k) (rows s)"
  unfolding rows_put by (rule filter_update_where) simp_all

lemma keys_put: "(\<And>r. key (f r) = key r) \<Longrightarrow> map key (rows (put k f s)) = map key (rows s)"
  unfolding rows_put by (rule map_update_where)

end

interpretation sessions: row_table cc_sessions ses_id on_session
  by unfold_locales (simp add: on_session_def)

interpretation holds: row_table sv_holds ho_id on_hold
  by unfold_locales (simp add: on_hold_def)

section \<open>Small facts about the state\<close>

lemma on_db_simps [simp]:
  "sv_db (on_db f s) = f (sv_db s)" "sv_ptys (on_db f s) = sv_ptys s" "sv_holds (on_db f s) = sv_holds s"
  by (simp_all add: on_db_def)

lemma on_hold_simps [simp]: "sv_db (on_hold i f s) = sv_db s" "sv_ptys (on_hold i f s) = sv_ptys s"
  by (simp_all add: on_hold_def)

lemma aliasPTYByTag_simps [simp]:
  "sv_db (aliasPTYByTag tag sid s) = sv_db s" "sv_holds (aliasPTYByTag tag sid s) = sv_holds s"
  by (simp_all add: aliasPTYByTag_def)

text \<open>Loading the settings changes at most the settings.\<close>

lemma Load_same:
  assumes "Load now db = Some (cfg, db')"
  obtains st where "db' = db\<lparr>cc_settings := st\<rparr>"
proof -
  have set: "\<exists>st. SetSetting k v now d = d\<lparr>cc_settings := st\<rparr>" for k v d
    by (simp add: SetSetting_def) blast
  have idem: "\<exists>st. d = d\<lparr>cc_settings := st\<rparr>" for d :: ccdb
    by (rule exI[of _ "cc_settings d"]) simp
  have layout: "\<exists>st. snd (migrate_layout all now (x, db)) = db\<lparr>cc_settings := st\<rparr>" for all x
    using set idem by (simp add: migrate_layout_def split: option.split)
  have panes: "\<exists>st. snd (migrate_panes all now p) = (snd p)\<lparr>cc_settings := st\<rparr>" for all p
    using set idem by (cases p) (simp add: migrate_panes_def split: option.split)
  have "db' = snd (migrate_panes (AllSettings db) now (migrate_layout (AllSettings db) now (load_values (AllSettings db), db)))"
    using assms by (simp add: Load_def Let_def split: if_splits)
  with layout panes obtain st st' where "db' = (db\<lparr>cc_settings := st\<rparr>)\<lparr>cc_settings := st'\<rparr>" by metis
  with that show ?thesis by simp
qed

section \<open>What a change of one session may touch\<close>

text \<open>From one database to a later one: only the session's row, its approvals, and new events of it.\<close>

definition only_touches :: "string \<Rightarrow> ccdb \<Rightarrow> ccdb \<Rightarrow> bool" where
  "only_touches sid db db' \<longleftrightarrow>
     cc_tasks db' = cc_tasks db
     \<and> filter (\<lambda>r. ses_id r \<noteq> sid) (cc_sessions db') = filter (\<lambda>r. ses_id r \<noteq> sid) (cc_sessions db)
     \<and> (\<exists>es. cc_events db' = cc_events db @ es \<and> list_all (\<lambda>e. eve_session e = sid) es)
     \<and> filter (\<lambda>a. app_session a \<noteq> sid) (cc_approvals db') = filter (\<lambda>a. app_session a \<noteq> sid) (cc_approvals db)
     \<and> cc_approval_seq db \<le> cc_approval_seq db'"

text \<open>Such a change of consistent tables that keeps them consistent.\<close>

definition tidy :: "string \<Rightarrow> ccdb \<Rightarrow> ccdb \<Rightarrow> bool" where
  "tidy sid db db' \<longleftrightarrow> (store_ok db \<longrightarrow> only_touches sid db db' \<and> store_ok db')"

lemma tidy_refl [simp]: "tidy sid db db"
  by (simp add: tidy_def only_touches_def)

lemma tidy_trans [trans]: "tidy sid db db' \<Longrightarrow> tidy sid db' db'' \<Longrightarrow> tidy sid db db''"
  by (auto simp: tidy_def only_touches_def)

lemma tidy_settings: "tidy sid db (db\<lparr>cc_settings := st\<rparr>)"
  by (simp add: tidy_def only_touches_def store_ok_def)

lemma tidy_Load: "Load now db = Some (cfg, db') \<Longrightarrow> tidy sid db db'"
  by (erule Load_same) (simp add: tidy_settings)

lemma tidy_session: "keeps_handles f \<Longrightarrow> tidy sid db (on_session sid f db)"
  using sessions.others_put[of f sid db]
  by (simp add: tidy_def only_touches_def on_session_ok keeps_handles_def)

lemmas tidy_simple = keeps_simple[THEN tidy_session]

lemma tidy_upsert: "tidy (se_id x) db (upsertSession mode x now db)"
  by (simp add: tidy_def only_touches_def upsertSession_ok)
     (simp add: upsertSession_def Let_def new_row_def tidy_session[OF keeps_merge_row, unfolded tidy_def only_touches_def])

lemma tidy_marks:
  "tidy sid db (fst (SetWait sid kind note now db))" "tidy sid db (SetAttention sid k reason now db)"
  "tidy sid db (ClearAttention sid only db)" "tidy sid db (fst (TurnWait sid now db))"
  by (simp_all add: SetWait_def SetAttention_def ClearAttention_def TurnWait_def tidy_simple split: option.split)

lemma tidy_event: "ev_session_id e = sid \<Longrightarrow> tidy sid db (fst (AppendEvent e now db))"
  by (simp add: tidy_def only_touches_def records_ok) (simp add: AppendEvent_def Let_def)

lemma tidy_insert: "ap_session_id a = sid \<Longrightarrow> tidy sid db (fst (InsertApproval a now db))"
  by (simp add: tidy_def only_touches_def records_ok) (simp add: InsertApproval_def Let_def)

lemma tidy_approvals:
  assumes "store_ok db \<Longrightarrow> store_ok (db\<lparr>cc_approvals := as\<rparr>)"
    "filter (\<lambda>a. app_session a \<noteq> sid) as = filter (\<lambda>a. app_session a \<noteq> sid) (cc_approvals db)"
  shows "tidy sid db (db\<lparr>cc_approvals := as\<rparr>)"
  using assms by (simp add: tidy_def only_touches_def)

lemma app_session_decide_row [simp]: "app_session (decide_row st now a) = app_session a"
  by (simp add: decide_row_def)

lemma tidy_ResolvePending: "tidy sid db (ResolvePendingByToolUseID sid use st now db)"
  using records_ok(4)[of db sid use st now] unfolding ResolvePendingByToolUseID_def
  by (cases "use = []") (auto intro!: tidy_approvals filter_update_where)

lemma oldest_in: "oldest p as = Some x \<Longrightarrow> x \<in> set as \<and> p x"
proof -
  assume "oldest p as = Some x"
  then obtain ys where "stable_sort (\<lambda>a b. app_ts a < app_ts b) (filter p as) = x # ys"
    by (auto simp: oldest_def split: list.splits)
  then have "x \<in> set (stable_sort (\<lambda>a b. app_ts a < app_ts b) (filter p as))" by simp
  then show ?thesis by (simp only: set_stable_sort set_filter mem_Collect_eq)
qed

lemma same_approval: "store_ok db \<Longrightarrow> a \<in> set (cc_approvals db) \<Longrightarrow> b \<in> set (cc_approvals db) \<Longrightarrow> app_id a = app_id b \<Longrightarrow> a = b"
  unfolding store_ok_def serial_ok_def distinct_map by (meson inj_onD)

lemma tidyI: "(store_ok db \<Longrightarrow> tidy sid db db') \<Longrightarrow> tidy sid db db'"
  by (simp add: tidy_def)

lemma tidy_ResolveOldest: "tidy sid db (ResolveOldestPendingForTool sid tool st now db)"
proof (rule tidyI)
  assume ok: "store_ok db"
  have "tidy sid db (db\<lparr>cc_approvals := update_where (\<lambda>a. app_id a = app_id x) (decide_row st now) (cc_approvals db)\<rparr>)"
    if "oldest (\<lambda>a. app_session a = sid \<and> app_tool a = tool \<and> app_status a = ApprovalPending) (cc_approvals db) = Some x" for x
  proof (rule tidy_approvals)
    show "store_ok (db\<lparr>cc_approvals := update_where (\<lambda>a. app_id a = app_id x) (decide_row st now) (cc_approvals db)\<rparr>)"
      by (rule approvals_ok[OF ok]) (rule approval_ids, simp)
    have x: "x \<in> set (cc_approvals db)" "app_session x = sid" using oldest_in[OF that] by simp_all
    have "(if app_id a = app_id x then decide_row st now a else a) = (if a = x then decide_row st now a else a)"
      if "a \<in> set (cc_approvals db)" for a
      using same_approval[OF ok that x(1)] by auto
    then have "update_where (\<lambda>a. app_id a = app_id x) (decide_row st now) (cc_approvals db) =
        update_where (\<lambda>a. a = x) (decide_row st now) (cc_approvals db)"
      unfolding update_where_def by (rule map_cong[OF refl])
    then show "filter (\<lambda>a. app_session a \<noteq> sid) (update_where (\<lambda>a. app_id a = app_id x) (decide_row st now) (cc_approvals db)) =
        filter (\<lambda>a. app_session a \<noteq> sid) (cc_approvals db)"
      using x(2) by (auto intro: filter_update_where)
  qed
  then show "tidy sid db (ResolveOldestPendingForTool sid tool st now db)" by (simp add: ResolveOldestPendingForTool_def split: option.split)
qed

section \<open>The session of a hook\<close>

lemma se_id_hook_session [simp]: "se_id (hook_session out hdr p status hide activity now) = hp_session p"
  by (simp add: hook_session_def Let_def)

lemma ensure_cases:
  assumes "ensureSessionAt out hdr p status bump activity now s = r"
  obtains (nobody) "hp_session p = []" "r = Inr s"
  | (panic) s' where "r = Inl s'" "sv_db s' = sv_db s" "sv_holds s' = sv_holds s"
      "Headless (headerVal hdr ''X-Ccdash-Entrypoint'')" "Load now (sv_db s) = None"
  | (saved) s' db hide where "hp_session p \<noteq> []" "r = Inr s'" "sv_holds s' = sv_holds s"
      "db = sv_db s \<or> (\<exists>cfg. Load now (sv_db s) = Some (cfg, db))"
      "sv_db s' = upsertSession (if bump then LastSeenMax else LastSeenKeep)
         (hook_session out hdr p status hide activity now) now db"
proof (cases "hp_session p = []")
  case True
  with assms nobody show ?thesis by (simp add: ensureSessionAt_def)
next
  case False
  define s1 where "s1 = (if ptyTagBase \<le> atoi (headerVal hdr ''X-Ccdash-Wrapper-Pid'')
    then aliasPTYByTag (atoi (headerVal hdr ''X-Ccdash-Wrapper-Pid'')) (hp_session p) s else s)"
  have s1: "sv_db s1 = sv_db s" "sv_holds s1 = sv_holds s" by (simp_all add: s1_def)
  define save where "save = (\<lambda>(hide, s). let sess = hook_session out hdr p status hide activity now
    in on_db (if bump then UpsertSession sess now else UpsertSessionKeepLastSeen sess now) s)"
  have r: "r = (if Headless (headerVal hdr ''X-Ccdash-Entrypoint'')
      then (case hideHeadless now s1 of Inl s \<Rightarrow> Inl s | Inr hs \<Rightarrow> Inr (save hs)) else Inr (save (False, s1)))"
    using assms False unfolding ensureSessionAt_def s1_def save_def Let_def by (simp only: if_False)
  have save: "sv_db (save (hide, x)) = upsertSession (if bump then LastSeenMax else LastSeenKeep)
      (hook_session out hdr p status hide activity now) now (sv_db x)" "sv_holds (save (hide, x)) = sv_holds x" for hide x
    by (simp_all add: save_def Let_def UpsertSession_def UpsertSessionKeepLastSeen_def)
  show ?thesis
  proof (cases "Headless (headerVal hdr ''X-Ccdash-Entrypoint'')")
    case headless: True
    show ?thesis
    proof (cases "Load now (sv_db s)")
      case None
      then show ?thesis using panic[of s1] r headless s1 by (simp add: hideHeadless_def)
    next
      case (Some cd)
      then show ?thesis
        using saved[of "save (cfg_hide_headless (fst cd), s1\<lparr>sv_db := snd cd\<rparr>)" "snd cd" "cfg_hide_headless (fst cd)"]
          r headless False s1 save by (cases cd) (simp add: hideHeadless_def)
    qed
  next
    case loud: False
    then show ?thesis using saved[of "save (False, s1)" "sv_db s" False] r False s1 save by simp
  qed
qed

lemma with_payload_fst:
  "readPayload out body = Some (p, raw) \<Longrightarrow> with_payload out body f s = f p raw s"
  by (simp add: with_payload_def)

text \<open>
  A relation between databases that every operation a hook performs for its session keeps: then
  a whole hook keeps it, whichever it is and wherever it ends.
\<close>

locale hook_relation =
  fixes sid :: string and raw :: string and R :: "ccdb \<Rightarrow> ccdb \<Rightarrow> bool"
  assumes R_refl: "R db db"
    and R_trans: "R db db' \<Longrightarrow> R db' db'' \<Longrightarrow> R db db''"
    and R_Load: "Load now db = Some (cfg, db') \<Longrightarrow> R db db'"
    and R_upsert: "se_id x = sid \<Longrightarrow> R db (upsertSession mode x now db)"
    and R_SetWait: "R db (fst (SetWait sid kind nt now db))"
    and R_TurnWait: "R db (fst (TurnWait sid now db))"
    and R_SetAttention: "R db (SetAttention sid kind reason now db)"
    and R_ClearAttention: "R db (ClearAttention sid only db)"
    and R_AppendEvent: "ev_session_id e = sid \<Longrightarrow> ev_payload e = raw \<Longrightarrow> R db (fst (AppendEvent e now db))"
    and R_InsertApproval: "ap_session_id a = sid \<Longrightarrow> R db (fst (InsertApproval a now db))"
    and R_ResolvePending: "R db (ResolvePendingByToolUseID sid use st now db)"
    and R_ResolveOldest: "R db (ResolveOldestPendingForTool sid tool st now db)"
begin

lemma ensure:
  assumes "hp_session p = sid"
  shows "case ensureSessionAt out hdr p status bump activity now s of
     Inl s' \<Rightarrow> R (sv_db s) (sv_db s') | Inr s' \<Rightarrow> R (sv_db s) (sv_db s')"
  using refl[of "ensureSessionAt out hdr p status bump activity now s"]
proof (cases rule: ensure_cases)
  case (saved s' db hide)
  have "R (sv_db s) db" using saved(4) R_Load R_refl by auto
  moreover have "R db (sv_db s')"
    using R_upsert[of "hook_session out hdr p status hide activity now"] assms by (simp add: saved(5))
  ultimately show ?thesis using R_trans by (simp add: saved(2))
qed (simp_all add: R_refl)

lemma unless:
  assumes "hp_session p = sid" "\<And>s'. R (sv_db s') (sv_db (fst (f s')))"
  shows "R (sv_db s) (sv_db (fst (unless_panic (ensureSessionAt out hdr p status bump activity now s) f)))"
  using ensure[OF assms(1), where out = out and hdr = hdr and status = status and bump = bump and activity = activity and now = now and s = s] R_trans[OF _ assms(2)]
  by (simp add: unless_panic_def split: sum.splits)

lemma event: "hp_session p = sid \<Longrightarrow> R (sv_db s) (sv_db (add_event p type tool summary raw now s))"
  by (simp add: add_event_def R_AppendEvent)

lemma attention:
  assumes "hp_session p = sid"
  shows "R db (attentionFromPreTool out p now db)" "R db (attentionFromPostTool p db)" "R db (attentionFromNotification p now db)"
  using assms by (simp_all add: attentionFromPreTool_def attentionFromPostTool_def attentionFromNotification_def
      R_SetAttention R_ClearAttention R_refl Let_def split: option.split)

lemma then_db: "R (sv_db s) (sv_db s') \<Longrightarrow> R (sv_db s') (f (sv_db s')) \<Longrightarrow> R (sv_db s) (sv_db (on_db f s'))"
  using R_trans by simp

lemma then_event:
  "hp_session p = sid \<Longrightarrow> R (sv_db s) (sv_db s') \<Longrightarrow> R (sv_db s) (sv_db (add_event p type tool summary raw now s'))"
  using R_trans event by blast

lemmas steps = then_db then_event attention R_refl R_SetWait R_SetAttention R_ClearAttention R_ResolvePending R_ResolveOldest

lemma permission:
  assumes "readPayload out body = Some (p, raw)" "hp_session p = sid"
  shows "R (sv_db s) (sv_db (fst (handlePermissionRequest out hdr body now s)))"
  unfolding handlePermissionRequest_def ensureSession_def with_payload_fst[OF assms(1)]
proof (rule unless[OF assms(2)], goal_cases)
  case (1 s')
  define s2 where "s2 = add_event p EventPermissionRequest (hp_tool_name p)
    (summarizeToolInput out (hp_tool_name p) (hp_tool_input p)) raw now s'"
  define a where "a = \<lparr>ap_id = 0, ap_session_id = hp_session p, ap_timestamp = None, ap_tool = hp_tool_name p,
    ap_tool_use_id = hp_tool_use_id p, ap_tool_input = hp_tool_input p, ap_status = ApprovalPending,
    ap_reason = [], ap_decided_at = None\<rparr>"
  have s2: "R (sv_db s') (sv_db s2)" by (simp add: s2_def event assms(2))
  have insert: "R (sv_db s2) (fst (InsertApproval a now (sv_db s2)))"
    by (rule R_InsertApproval) (simp add: a_def assms(2))
  note both = R_trans[OF s2 insert]
  have "R (sv_db s') db'" if "Load now (fst (InsertApproval a now (sv_db s2))) = Some (cfg, db')" for cfg db'
    using R_trans[OF both R_Load[OF that]] .
  with s2 both show ?case
    unfolding s2_def[symmetric] a_def[symmetric] Let_def
    by (auto split: prod.split option.split)
qed

lemma stop:
  assumes "readPayload out body = Some (p, raw)" "hp_session p = sid"
  shows "R (sv_db s) (sv_db (fst (handleStop out hdr body now s)))"
  unfolding handleStop_def with_payload_fst[OF assms(1)] ensureSession_def
proof (rule unless[OF assms(2)], goal_cases)
  case (1 s')
  obtain db wait nt where turn: "TurnWait (hp_session p) now (sv_db s') = (db, wait, nt)"
    by (cases "TurnWait (hp_session p) now (sv_db s')") auto
  have "R (sv_db s') db" using R_TurnWait[of "sv_db s'" now] turn assms(2) by simp
  then have "R (sv_db s') (sv_db (add_event p EventStop [] ''stop'' raw now (s'\<lparr>sv_db := db\<rparr>)))"
    by (intro then_event assms(2)) simp
  then show ?case unfolding turn prod.case Let_def
    using R_trans[OF _ R_SetAttention] assms(2) by (simp split: prod.split)
qed

lemma hook:
  assumes "readPayload out body = Some (p, raw)" "hp_session p = sid"
  shows "R (sv_db s) (sv_db (fst (handle_hook out h hdr body now s)))"
proof -
  note D = handleSessionStart_def handleSessionEnd_def handleUserPrompt_def handlePreTool_def handlePostTool_def
    handlePostToolFailure_def handleSubagentStop_def handleNotification_def ensureSession_def with_payload_fst[OF assms(1)] Let_def fst_conv
  show ?thesis
  proof (cases h)
    case PermissionRequest
    then show ?thesis using permission[OF assms] by simp
  next
    case Stop
    then show ?thesis using stop[OF assms] by simp
  qed (simp only: handle_hook.simps D assms(2), (rule unless[OF assms(2)], unfold fst_conv)?, intro steps assms(2))+
qed

end

interpretation tidy: hook_relation sid raw "tidy sid" for sid raw
proof unfold_locales
  show "tidy sid db db''" if "tidy sid db db'" "tidy sid db' db''" for db db' db'' using that by (rule tidy_trans)
  show "tidy sid db db'" if "Load now db = Some (cfg, db')" for now db cfg db' using that by (rule tidy_Load)
  show "tidy sid db (upsertSession mode x now db)" if "se_id x = sid" for mode x now db
    using tidy_upsert[of x] that by simp
qed (simp_all add: tidy_marks tidy_event tidy_insert tidy_ResolvePending tidy_ResolveOldest)

text \<open>Every event added has the masked body.\<close>

definition logs :: "string \<Rightarrow> ccdb \<Rightarrow> ccdb \<Rightarrow> bool" where
  "logs raw db db' \<longleftrightarrow>
     (\<exists>es. cc_events db' = cc_events db @ es \<and> list_all (\<lambda>e. eve_payload e = (if raw = [] then ''{}'' else raw)) es)"

lemma logs_same: "cc_events db' = cc_events db \<Longrightarrow> logs raw db db'"
  by (simp add: logs_def)

interpretation logged: hook_relation sid raw "logs raw" for sid raw
proof unfold_locales
  show "logs raw db db''" if "logs raw db db'" "logs raw db' db''" for db db' db'' using that by (auto simp: logs_def)
  show "logs raw db db'" if "Load now db = Some (cfg, db')" for now db cfg db' using that by (rule Load_same) (simp add: logs_same)
  show "logs raw db (fst (AppendEvent e now db))" if "ev_payload e = raw" for e now db
    using that by (simp add: logs_def AppendEvent_def Let_def)
qed (simp_all add: logs_same upsertSession_def SetWait_def TurnWait_def SetAttention_def ClearAttention_def InsertApproval_def
    ResolvePendingByToolUseID_def ResolveOldestPendingForTool_def Let_def split: option.split)

section \<open>The attention machine\<close>

text \<open>What a session shows and has declared: the abstract state the hooks move.\<close>

record signal =
  sg_attention :: string
  sg_reason :: string
  sg_wait :: string
  sg_note :: string
  sg_counted :: bool

definition calm :: signal where
  "calm = \<lparr>sg_attention = [], sg_reason = [], sg_wait = [], sg_note = [], sg_counted = False\<rparr>"

definition signal_of :: "session_rec \<Rightarrow> signal" where
  "signal_of r = \<lparr>sg_attention = ses_attention r, sg_reason = ses_attention_reason r, sg_wait = ses_wait r,
     sg_note = ses_wait_note r, sg_counted = ses_wait_stopped r\<rparr>"

definition view :: "string \<Rightarrow> ccdb \<Rightarrow> signal option" where
  "view sid db = map_option signal_of (lookup_row ses_id sid (cc_sessions db))"

definition opened :: "signal option \<Rightarrow> signal" where
  "opened g = (case g of None \<Rightarrow> calm | Some x \<Rightarrow> x)"

definition show_attention :: "string \<Rightarrow> string \<Rightarrow> signal \<Rightarrow> signal" where
  "show_attention kind reason g = g\<lparr>sg_attention := kind, sg_reason := reason\<rparr>"

definition answered :: "signal \<Rightarrow> signal" where
  "answered g = (if sg_attention g = AttentionNeedsYou then show_attention [] [] g else g)"

text \<open>A turn ends: what was declared in it counts once, a declaration already counted is dropped.\<close>

definition turn_over :: "bool \<Rightarrow> signal \<Rightarrow> signal" where
  "turn_over headless g =
     (let declared = (sg_wait g \<noteq> [] \<and> \<not> sg_counted g);
          g' = (if sg_wait g = [] then g
                else if sg_counted g then g\<lparr>sg_wait := [], sg_note := [], sg_counted := False\<rparr>
                else g\<lparr>sg_counted := True\<rparr>);
          (kind, reason) = (if declared then stopAttention (sg_wait g) (sg_note g) else (AttentionDone, []))
      in if headless then g' else show_attention kind reason g')"

definition asks_permission :: "hookPayload \<Rightarrow> bool" where
  "asks_permission p \<longleftrightarrow> trim_space (hp_message p) \<noteq> [] \<and> sublist ''permission'' (to_lower (trim_space (hp_message p)))"

fun hook_signal :: "outside \<Rightarrow> hook \<Rightarrow> hookPayload \<Rightarrow> bool \<Rightarrow> signal option \<Rightarrow> signal option" where
  "hook_signal out UserPrompt p headless g = Some calm"
| "hook_signal out PreTool p headless g =
     Some (case attentionTools (hp_tool_name p) of
       None \<Rightarrow> opened g
     | Some label \<Rightarrow> show_attention AttentionNeedsYou (pre_tool_reason out p label) (opened g))"
| "hook_signal out PostTool p headless g =
     Some (if attentionTools (hp_tool_name p) \<noteq> None then answered (opened g) else opened g)"
| "hook_signal out PostToolFailure p headless g =
     Some (if attentionTools (hp_tool_name p) \<noteq> None then answered (opened g) else opened g)"
| "hook_signal out Stop p headless g = Some (turn_over headless (opened g))"
| "hook_signal out SubagentStop p headless g = g"
| "hook_signal out Notification p headless g =
     (if asks_permission p
      then map_option (show_attention AttentionNeedsYou (truncate_text (trim_space (hp_message p)) 120)) g else g)"
| "hook_signal out _ p headless g = Some (opened g)"

lemma lookup_None: "lookup_row key k rs = None \<longleftrightarrow> k \<notin> key ` set rs"
  unfolding lookup_row_def find_None_iff by blast

lemma lookup_upsert:
  "lookup_row ses_id (se_id x) (cc_sessions (upsertSession mode x now db)) =
    Some (case lookup_row ses_id (se_id x) (cc_sessions db) of
        None \<Rightarrow> new_row x now (se_hide_headless x \<and> Headless (se_entrypoint x)) (max_num (cc_sessions db) + 1)
      | Some r \<Rightarrow> merge_row mode (se_hide_headless x \<and> Headless (se_entrypoint x))
          (unix_sec (add_seconds now (- headlessClassifyWindow)))
          (new_row x now (se_hide_headless x \<and> Headless (se_entrypoint x)) (max_num (cc_sessions db) + 1)) r)"
proof (cases "se_id x \<in> ses_id ` set (cc_sessions db)")
  case True
  then obtain r where "lookup_row ses_id (se_id x) (cc_sessions db) = Some r"
    using lookup_None[of ses_id "se_id x" "cc_sessions db"] by (cases "lookup_row ses_id (se_id x) (cc_sessions db)") simp_all
  then show ?thesis
    using True sessions.lookup_put[where f = "merge_row mode h c n" for h c n, where k = "se_id x" and k' = "se_id x"]
    by (simp add: upsertSession_def Let_def merge_row_def)
next
  case False
  then have "lookup_row ses_id (se_id x) (cc_sessions db) = None"
    by (simp add: lookup_None)
  then show ?thesis using False
    by (simp add: upsertSession_def Let_def lookup_row_def find_append new_row_def)
qed

lemma signal_of_rows [simp]:
  "signal_of (new_row x now hide n) = calm" "signal_of (merge_row mode hide recent new r) = signal_of r"
  by (simp_all add: signal_of_def calm_def new_row_def merge_row_def)

lemma view_upsert: "view (se_id x) (upsertSession mode x now db) = Some (opened (view (se_id x) db))"
  by (simp add: view_def lookup_upsert opened_def split: option.split)

lemma view_settings [simp]: "view sid (db\<lparr>cc_settings := st\<rparr>) = view sid db"
  and view_events [simp]: "view sid (db\<lparr>cc_events := es, cc_event_seq := n\<rparr>) = view sid db"
  and view_approvals [simp]: "view sid (db\<lparr>cc_approvals := as\<rparr>) = view sid db"
  by (simp_all add: view_def)

lemma view_on_session:
  "(\<And>r. ses_id (f r) = ses_id r) \<Longrightarrow> (\<And>r. signal_of (f r) = g (signal_of r)) \<Longrightarrow>
    view sid (on_session sid f db) = map_option g (view sid db)"
  by (simp add: view_def sessions.lookup_put option.map_comp comp_def)

lemma view_SetAttention: "view sid (SetAttention sid kind reason now db) = map_option (show_attention kind reason) (view sid db)"
  unfolding SetAttention_def by (rule view_on_session) (simp_all add: signal_of_def show_attention_def)

lemma view_ClearAttention:
  "view sid (ClearAttention sid only db) =
    map_option (\<lambda>g. if only \<noteq> [] \<and> sg_attention g \<noteq> only then g else show_attention [] [] g) (view sid db)"
  unfolding ClearAttention_def by (rule view_on_session) (simp_all add: signal_of_def show_attention_def)

lemma view_SetWait:
  "view sid (fst (SetWait sid kind nt now db)) =
    map_option (\<lambda>g. g\<lparr>sg_wait := kind, sg_note := (if kind \<noteq> [] then nt else []), sg_counted := False\<rparr>) (view sid db)"
proof (cases "sid \<in> ses_id ` set (cc_sessions db)")
  case True
  then show ?thesis
    by (simp add: SetWait_def) (intro conjI impI view_on_session; simp add: signal_of_def)
next
  case False
  then have "view sid db = None" by (simp add: view_def lookup_None)
  with False show ?thesis by (simp add: SetWait_def)
qed

lemma view_AppendEvent: "view sid (fst (AppendEvent e now db)) = view sid db"
  by (simp add: AppendEvent_def Let_def)

lemma view_Resolve [simp]:
  "view sid (ResolvePendingByToolUseID sid' use st now db) = view sid db"
  "view sid (ResolveOldestPendingForTool sid' tool st now db) = view sid db"
  by (simp_all add: ResolvePendingByToolUseID_def ResolveOldestPendingForTool_def split: option.split)

lemma view_TurnWait:
  assumes "TurnWait sid now db = (db', wait, nt)" "view sid db = Some g"
  shows "view sid db' = Some (if sg_wait g = [] then g
        else if sg_counted g then g\<lparr>sg_wait := [], sg_note := [], sg_counted := False\<rparr>
        else g\<lparr>sg_counted := True\<rparr>)"
    "(wait, nt) = (if sg_wait g \<noteq> [] \<and> \<not> sg_counted g then (sg_wait g, sg_note g) else ([], []))"
proof -
  obtain r where r: "find (\<lambda>r. ses_id r = sid) (cc_sessions db) = Some r" "g = signal_of r"
    using assms(2) by (auto simp: view_def lookup_row_def)
  have counted: "view sid (on_session sid (\<lambda>r. r\<lparr>ses_wait_stopped := True\<rparr>) db) = map_option (\<lambda>g. g\<lparr>sg_counted := True\<rparr>) (view sid db)"
    by (rule view_on_session) (simp_all add: signal_of_def)
  show "view sid db' = Some (if sg_wait g = [] then g
        else if sg_counted g then g\<lparr>sg_wait := [], sg_note := [], sg_counted := False\<rparr>
        else g\<lparr>sg_counted := True\<rparr>)"
    using assms r counted view_SetWait[of sid "[]" "[]" now db]
    by (simp add: TurnWait_def signal_of_def split: if_splits)
  show "(wait, nt) = (if sg_wait g \<noteq> [] \<and> \<not> sg_counted g then (sg_wait g, sg_note g) else ([], []))"
    using assms(1) r by (simp add: TurnWait_def signal_of_def split: if_splits)
qed

lemma view_ensure:
  assumes "ensureSessionAt out hdr p status bump activity now s = Inr s'" "hp_session p \<noteq> []"
  shows "view (hp_session p) (sv_db s') = Some (opened (view (hp_session p) (sv_db s)))"
  using assms(1)
proof (cases rule: ensure_cases)
  case (saved s1 db hide)
  have "view (hp_session p) db = view (hp_session p) (sv_db s)"
    using saved(4)
  proof (elim disjE exE)
    show "view (hp_session p) db = view (hp_session p) (sv_db s)" if "Load now (sv_db s) = Some (cfg, db)" for cfg
      using that by (rule Load_same) simp
  qed simp
  then show ?thesis
    using saved view_upsert[of "hook_session out hdr p status hide activity now"] by simp
qed (use assms(2) in simp_all)

lemma view_add_event [simp]: "view sid (sv_db (add_event p type tool summary raw now s)) = view sid (sv_db s)"
  by (simp add: add_event_def view_AppendEvent)

lemma unless_panicD:
  "unless_panic r f = (s', reply) \<Longrightarrow> reply \<noteq> Panicked \<Longrightarrow> \<exists>s1. r = Inr s1 \<and> f s1 = (s', reply)"
  by (simp add: unless_panic_def split: sum.splits)

lemma view_Load: "Load now db = Some (cfg, db') \<Longrightarrow> view sid db' = view sid db"
  by (erule Load_same) simp

lemma view_InsertApproval: "view sid (fst (InsertApproval a now db)) = view sid db"
  by (simp add: InsertApproval_def Let_def view_def)

lemma view_permission:
  assumes "readPayload out body = Some (p, raw)" "hp_session p \<noteq> []"
    "handlePermissionRequest out hdr body now s = (s', reply)" "reply \<noteq> Panicked"
  shows "view (hp_session p) (sv_db s') = Some (opened (view (hp_session p) (sv_db s)))"
proof -
  define ev where "ev s1 = add_event p EventPermissionRequest (hp_tool_name p)
    (summarizeToolInput out (hp_tool_name p) (hp_tool_input p)) raw now s1" for s1
  define a where "a = \<lparr>ap_id = 0, ap_session_id = hp_session p, ap_timestamp = None, ap_tool = hp_tool_name p,
    ap_tool_use_id = hp_tool_use_id p, ap_tool_input = hp_tool_input p, ap_status = ApprovalPending,
    ap_reason = [], ap_decided_at = None\<rparr>"
  obtain s1 where s1: "ensureSessionAt out hdr p StatusActive False True now s = Inr s1"
    and f: "(if hp_tool_name p \<in> set dialogTools then (ev s1, NoOutput)
       else let (db, i) = InsertApproval a now (sv_db (ev s1))
            in case Load now db of None \<Rightarrow> ((ev s1)\<lparr>sv_db := db\<rparr>, Panicked)
               | Some (cfg, db) \<Rightarrow>
                   (let s = (ev s1)\<lparr>sv_db := db\<rparr>
                    in if \<not> cfg_approve_enabled cfg then (s, NoOutput)
                       else (s\<lparr>sv_holds := sv_holds s @
                               [\<lparr>ho_id = i, ho_tool = hp_tool_name p, ho_input = hp_tool_input p,
                                 ho_since = unix_milli now, ho_chan = None, ho_over = False\<rparr>]\<rparr>, Holding i))) = (s', reply)"
    using assms(3,4) unfolding handlePermissionRequest_def ensureSession_def with_payload_fst[OF assms(1)] ev_def a_def Let_def
    by (blast dest: unless_panicD)
  have ev: "view (hp_session p) (sv_db (ev s1)) = Some (opened (view (hp_session p) (sv_db s)))"
    using view_ensure[OF s1 assms(2)] by (simp add: ev_def)
  have insert: "view (hp_session p) db = view (hp_session p) (sv_db (ev s1))" if "InsertApproval a now (sv_db (ev s1)) = (db, i)" for db i
    using view_InsertApproval[of "hp_session p" a now "sv_db (ev s1)"] that by simp
  show ?thesis
    using f assms(4) ev
    by (auto simp: Let_def insert dest: view_Load[of _ _ _ _ "hp_session p"] split: if_splits prod.splits option.splits)
qed

lemma view_stop:
  assumes "readPayload out body = Some (p, raw)" "hp_session p \<noteq> []"
    "handleStop out hdr body now s = (s', reply)" "reply \<noteq> Panicked"
  shows "view (hp_session p) (sv_db s') =
    Some (turn_over (Headless (headerVal hdr ''X-Ccdash-Entrypoint'')) (opened (view (hp_session p) (sv_db s))))"
proof -
  obtain s1 where s1: "ensureSessionAt out hdr p StatusIdle False True now s = Inr s1"
    and f: "(let (db, wait, nt) = TurnWait (hp_session p) now (sv_db s1);
             s = add_event p EventStop [] ''stop'' raw now (s1\<lparr>sv_db := db\<rparr>)
         in if Headless (headerVal hdr ''X-Ccdash-Entrypoint'') then (s, NoOutput)
            else let (kind, reason) = stopAttention wait nt
                 in (on_db (SetAttention (hp_session p) kind reason now) s, NoOutput)) = (s', reply)"
    using assms(3,4) unfolding handleStop_def ensureSession_def with_payload_fst[OF assms(1)]
    by (blast dest: unless_panicD)
  obtain db wait nt where turn: "TurnWait (hp_session p) now (sv_db s1) = (db, wait, nt)"
    by (cases "TurnWait (hp_session p) now (sv_db s1)") auto
  note after = view_TurnWait[OF turn view_ensure[OF s1 assms(2)]]
  show ?thesis
    using f after
    by (auto simp: turn Let_def turn_over_def view_SetAttention stopAttention_def WaitNeedsYou_def split: if_splits prod.splits)
qed

definition sample_out :: "(string \<Rightarrow> json) \<Rightarrow> outside" where
  "sample_out f =
     \<lparr>out_patterns = id, out_decode = (\<lambda>s. Some (f s)), out_encode = (\<lambda>_. ''{}''),
      out_git = (\<lambda>_. \<lparr>gi_repo = [], gi_branch = [], gi_commit = []\<rparr>)\<rparr>"

text \<open>A body of a finished Bash call of the session s.\<close>

definition bash_out :: outside where
  "bash_out = sample_out (\<lambda>_. JObj [(''session_id'', JStr ''s''), (''tool_name'', JStr ''Bash'')])"

definition bash_payload :: hookPayload where
  "bash_payload = empty_payload\<lparr>hp_session := ''s'', hp_tool_name := ''Bash''\<rparr>"

lemma read_bash: "readPayload bash_out ''x'' = Some (bash_payload, ''{}'')"
  by (simp add: readPayload_def bash_out_def sample_out_def decode_payload_def string_field_def int_field_def members_def
      equal_fold_def lower_byte_def string_value_def raw_field_def redact_string_def redact_JSON_def bash_payload_def empty_payload_def Let_def)

text \<open>C14. What a session shows and has declared follows the attention machine: a hook that ends without a panic moves its
  session from one state of the machine to the next, whatever else is in the database.
\<close>

theorem hooks_follow_attention_machine:
  assumes "readPayload out body = Some (p, raw)" "hp_session p \<noteq> []"
    "handle_hook out h hdr body now s = (s', reply)" "reply \<noteq> Panicked"
  shows "view (hp_session p) (sv_db s') =
    hook_signal out h p (Headless (headerVal hdr ''X-Ccdash-Entrypoint'')) (view (hp_session p) (sv_db s))"
proof -
  note D = handleSessionStart_def handleSessionEnd_def handleUserPrompt_def handlePreTool_def handlePostTool_def
    handlePostToolFailure_def handlePermissionRequest_def handleStop_def handleSubagentStop_def handleNotification_def
  let ?v = "\<lambda>s. view (hp_session p) (sv_db s)"
  have open1: "?v s1 = Some (opened (?v s))" if "ensureSessionAt out hdr p st bump act now s = Inr s1" for st bump act s1
    using view_ensure[OF that assms(2)] .
  show ?thesis
  proof (cases h)
    case SessionStart
    then show ?thesis using assms(3,4) open1
      by (auto simp: D with_payload_fst[OF assms(1)] Let_def dest!: unless_panicD)
  next
    case SessionEnd
    then show ?thesis using assms(3,4) open1
      by (auto simp: D with_payload_fst[OF assms(1)] dest!: unless_panicD)
  next
    case UserPrompt
    then show ?thesis using assms(3,4) open1
      by (auto simp: D with_payload_fst[OF assms(1)] Let_def view_SetWait view_ClearAttention show_attention_def calm_def dest!: unless_panicD)
  next
    case PreTool
    then show ?thesis using assms(3,4) open1
      by (auto simp: D with_payload_fst[OF assms(1)] Let_def ensureSession_def attentionFromPreTool_def view_SetAttention
          split: option.splits dest!: unless_panicD)
  next
    case PostTool
    then show ?thesis using assms(3,4) open1
      by (auto simp: D with_payload_fst[OF assms(1)] Let_def ensureSession_def attentionFromPostTool_def view_ClearAttention answered_def
          dest!: unless_panicD)
  next
    case PostToolFailure
    then show ?thesis using assms(3,4) open1
      by (auto simp: D with_payload_fst[OF assms(1)] Let_def ensureSession_def attentionFromPostTool_def view_ClearAttention answered_def
          dest!: unless_panicD)
  next
    case PermissionRequest
    then show ?thesis using assms view_permission by simp
  next
    case Stop
    then show ?thesis using assms view_stop by simp
  next
    case SubagentStop
    then show ?thesis using assms(3) by (auto simp: D with_payload_fst[OF assms(1)])
  next
    case Notification
    then show ?thesis using assms(3)
      by (auto simp: D with_payload_fst[OF assms(1)] attentionFromNotification_def asks_permission_def view_SetAttention Let_def)
  qed
qed

theorem hooks_follow_attention_machine_witness:
  "view ''s'' (sv_db (fst (handle_hook bash_out PostTool (\<lambda>_. []) ''x'' sample_now \<lparr>sv_db = empty_ccdb, sv_ptys = [], sv_holds = []\<rparr>))) = Some calm"
proof -
  have "snd (handle_hook bash_out PostTool (\<lambda>_. []) ''x'' sample_now \<lparr>sv_db = empty_ccdb, sv_ptys = [], sv_holds = []\<rparr>) \<noteq> Panicked"
    by (simp add: handlePostTool_def with_payload_fst[OF read_bash] ensureSession_def ensureSessionAt_def unless_panic_def
        Let_def headerVal_def Headless_def bash_payload_def)
  then show ?thesis
    using hooks_follow_attention_machine[OF read_bash _ prod.collapse[symmetric], of PostTool "\<lambda>_. []" sample_now
        "\<lparr>sv_db = empty_ccdb, sv_ptys = [], sv_holds = []\<rparr>"]
    by (simp add: bash_payload_def empty_payload_def attentionTools_def view_def empty_ccdb_def lookup_row_def opened_def)
qed

end
