(* ===== verification/Hook_Laws.thy ===== *)
theory Hook_Laws
  imports Session_Hooks_Facts
begin

text \<open>
  The rest of what the hooks promise: they touch one session only, they move it in the list only for
  prompts and fresh starts, and no secret under a telling key is stored. Then the approvals a
  permission request waits for, as a step relation over the collector's state.
\<close>

section \<open>One session at a time\<close>

lemma hook_unreadable: "readPayload out body = None \<Longrightarrow> handle_hook out h hdr body now s = (s, BadRequest)"
  by (cases h) (simp_all add: handleSessionStart_def handleSessionEnd_def handleUserPrompt_def handlePreTool_def handlePostTool_def
      handlePostToolFailure_def handlePermissionRequest_def handleStop_def handleSubagentStop_def handleNotification_def with_payload_def)



section \<open>What moves a session in the list\<close>

text \<open>A row without its attention and its declaration.\<close>

definition rest_of :: "session_rec \<Rightarrow> session_rec" where
  "rest_of r = r\<lparr>ses_attention := [], ses_attention_reason := [], ses_attention_at := 0,
     ses_wait := [], ses_wait_note := [], ses_wait_at := 0, ses_wait_stopped := False\<rparr>"

definition rest :: "string \<Rightarrow> ccdb \<Rightarrow> session_rec option" where
  "rest sid db = map_option rest_of (lookup_row ses_id sid (cc_sessions db))"

lemma rest_on_session:
  "(\<And>r. ses_id (f r) = ses_id r) \<Longrightarrow> (\<And>r. rest_of (f r) = rest_of r) \<Longrightarrow> rest sid (on_session sid f db) = rest sid db"
  by (simp add: rest_def sessions.lookup_put option.map_comp comp_def)

lemma rest_marks:
  "rest sid (SetAttention sid kind reason now db) = rest sid db"
  "rest sid (ClearAttention sid only db) = rest sid db"
  "rest sid (fst (SetWait sid kind nt now db)) = rest sid db"
  "rest sid (fst (TurnWait sid now db)) = rest sid db"
  by (auto simp: SetAttention_def ClearAttention_def SetWait_def TurnWait_def rest_of_def intro!: rest_on_session split: option.split)

lemma rest_others:
  "rest sid (fst (AppendEvent e now db)) = rest sid db"
  "rest sid (fst (InsertApproval a now db)) = rest sid db"
  "rest sid (ResolvePendingByToolUseID sid' use st now db) = rest sid db"
  "rest sid (ResolveOldestPendingForTool sid' tool st now db) = rest sid db"
  "rest sid (db\<lparr>cc_settings := x\<rparr>) = rest sid db"
  by (simp_all add: rest_def AppendEvent_def InsertApproval_def ResolvePendingByToolUseID_def ResolveOldestPendingForTool_def Let_def
      split: option.split)

lemma rest_add_event: "rest sid (sv_db (add_event p type tool summary raw now s)) = rest sid (sv_db s)"
  by (simp add: add_event_def rest_others)

lemma rest_attention:
  "rest (hp_session p) (attentionFromPreTool out p now db) = rest (hp_session p) db"
  "rest (hp_session p) (attentionFromPostTool p db) = rest (hp_session p) db"
  "rest (hp_session p) (attentionFromNotification p now db) = rest (hp_session p) db"
  by (simp_all add: attentionFromPreTool_def attentionFromPostTool_def attentionFromNotification_def rest_marks Let_def split: option.split)

lemma rest_Load: "Load now db = Some (cfg, db') \<Longrightarrow> rest sid db' = rest sid db"
  by (erule Load_same) (simp add: rest_others)

text \<open>How each hook opens its session: the status it reports, whether it moves it, whether it counts as activity.\<close>

fun opens :: "hook \<Rightarrow> hookPayload \<Rightarrow> (string \<times> bool \<times> bool) option" where
  "opens SessionStart p = Some (StatusActive, hp_source p \<noteq> ''resume'', hp_source p \<noteq> ''resume'')"
| "opens SessionEnd p = Some (StatusStopped, False, False)"
| "opens UserPrompt p = Some (StatusActive, True, True)"
| "opens Stop p = Some (StatusIdle, False, True)"
| "opens SubagentStop p = None"
| "opens Notification p = None"
| "opens _ p = Some (StatusActive, False, True)"

lemma rest_unless:
  assumes "unless_panic r f = (s', reply)" "reply \<noteq> Panicked"
    "\<And>s1. rest sid (sv_db (fst (f s1))) = rest sid (sv_db s1)"
  shows "\<exists>s1. r = Inr s1 \<and> rest sid (sv_db s') = rest sid (sv_db s1)"
  using unless_panicD[OF assms(1,2)] assms(3) by (metis fst_conv)

lemma rest_hook:
  assumes "readPayload out body = Some (p, raw)" "handle_hook out h hdr body now s = (s', reply)" "reply \<noteq> Panicked"
  shows "case opens h p of
      None \<Rightarrow> rest (hp_session p) (sv_db s') = rest (hp_session p) (sv_db s)
    | Some (st, bump, act) \<Rightarrow>
        \<exists>s1. ensureSessionAt out hdr p st bump act now s = Inr s1 \<and> rest (hp_session p) (sv_db s') = rest (hp_session p) (sv_db s1)"
proof -
  note steps = rest_marks rest_others rest_add_event rest_attention
  note D = handleSessionStart_def handleSessionEnd_def handleUserPrompt_def handlePreTool_def handlePostTool_def
    handlePostToolFailure_def handleStop_def handleSubagentStop_def handleNotification_def
  show ?thesis
  proof (cases h)
    case PermissionRequest
    have "handlePermissionRequest out hdr body now s = (s', reply)" using assms(2) PermissionRequest by simp
    from this[unfolded handlePermissionRequest_def with_payload_fst[OF assms(1)] ensureSession_def] show ?thesis
      unfolding PermissionRequest opens.simps option.case prod.case
    proof (rule rest_unless[OF _ assms(3)], goal_cases)
      case (1 s1)
      have insert: "rest (hp_session p) db = rest (hp_session p) (sv_db s1)"
        if "InsertApproval a now (sv_db (add_event p ty tool su raw now s1)) = (db, i)" for a ty tool su db i
        using rest_others(2)[of "hp_session p" a now "sv_db (add_event p ty tool su raw now s1)"] that by (simp add: rest_add_event)
      show ?case
        by (auto simp: Let_def rest_add_event insert dest: rest_Load[of _ _ _ _ "hp_session p"] split: prod.split option.split)
    qed
  next
    case Stop
    have "handleStop out hdr body now s = (s', reply)" using assms(2) Stop by simp
    from this[unfolded handleStop_def with_payload_fst[OF assms(1)] ensureSession_def] show ?thesis
      unfolding Stop opens.simps option.case prod.case
    proof (rule rest_unless[OF _ assms(3)], goal_cases)
      case (1 s1)
      have turn: "rest (hp_session p) db = rest (hp_session p) (sv_db s1)"
        if "TurnWait (hp_session p) now (sv_db s1) = (db, wait, nt)" for db wait nt
        using rest_marks(4)[of "hp_session p" now "sv_db s1"] that by simp
      show ?case by (auto simp: Let_def rest_add_event rest_marks turn split: prod.split)
    qed
  qed (use assms(2) in \<open>auto simp: D with_payload_fst[OF assms(1)] Let_def ensureSession_def steps
      intro!: rest_unless[OF _ assms(3)]\<close>)
qed

text \<open>The times of a row, and what the operator set on it.\<close>

definition set_by_hand :: "session_rec \<Rightarrow> int \<times> string \<times> string \<times> bool \<times> string \<times> string \<times> int option \<times> int option \<times> string" where
  "set_by_hand r = (ses_num r, ses_custom_title r, ses_user_group r, ses_favorite r, ses_project r, ses_color r,
     ses_later_at r, ses_grid_at r, ses_origin r)"

lemma rest_of_fields:
  assumes "rest_of r' = rest_of r"
  shows "ses_last_seen r' = ses_last_seen r" "ses_last_activity r' = ses_last_activity r" "ses_seen_at r' = ses_seen_at r"
    "set_by_hand r' = set_by_hand r"
  using assms[THEN arg_cong, of ses_last_seen] assms[THEN arg_cong, of ses_last_activity] assms[THEN arg_cong, of ses_seen_at]
    assms[THEN arg_cong, of set_by_hand]
  by (simp_all add: rest_of_def set_by_hand_def)

lemma rest_Some:
  "rest sid db' = rest sid db \<Longrightarrow> lookup_row ses_id sid (cc_sessions db) = Some r \<Longrightarrow>
    \<exists>r'. lookup_row ses_id sid (cc_sessions db') = Some r' \<and> rest_of r' = rest_of r"
  by (auto simp: rest_def)

lemma merged_row:
  assumes "ensureSessionAt out hdr p st bump act now s = Inr s1" "hp_session p \<noteq> []"
    "lookup_row ses_id (hp_session p) (cc_sessions (sv_db s)) = Some r"
  shows "\<exists>r1. lookup_row ses_id (hp_session p) (cc_sessions (sv_db s1)) = Some r1 \<and>
    ses_last_seen r1 = (if bump then max (unix_sec now) (ses_last_seen r) else ses_last_seen r) \<and>
    ses_last_activity r1 = max (if act then unix_sec now else 0) (ses_last_activity r) \<and>
    ses_seen_at r1 = ses_seen_at r \<and> set_by_hand r1 = set_by_hand r"
  using assms(1)
proof (cases rule: ensure_cases)
  case (saved s1' db hide)
  have db: "cc_sessions db = cc_sessions (sv_db s)"
    using saved(4)
  proof (elim disjE exE)
    show "cc_sessions db = cc_sessions (sv_db s)" if "Load now (sv_db s) = Some (cfg, db)" for cfg
      using that by (rule Load_same) simp
  qed simp
  let ?x = "hook_session out hdr p st hide act now"
  have x: "se_last_seen ?x = None" "se_last_activity ?x = (if act then Some now else None)"
    by (simp_all add: hook_session_def Let_def zero_session_def)
  show ?thesis
    using saved(2,5) assms(3) lookup_upsert[of ?x "if bump then LastSeenMax else LastSeenKeep" now db]
    by (simp add: db merge_row_def new_row_def x unixOrZero_def set_by_hand_def)
qed (use assms(2) in simp_all)

text \<open>C16. Only a prompt and a fresh start move a session in the list; opening it again, closing it, a
  finished subagent and a notification are no activity, so they make nothing unread; no hook
  marks a session as seen; and what the operator set on the session stays.
\<close>

theorem only_prompts_move_sessions:
  assumes "readPayload out body = Some (p, raw)" "hp_session p \<noteq> []"
    "handle_hook out h hdr body now s = (s', reply)" "reply \<noteq> Panicked"
    "lookup_row ses_id (hp_session p) (cc_sessions (sv_db s)) = Some r" "0 \<le> ses_last_activity r"
  shows "\<exists>r'. lookup_row ses_id (hp_session p) (cc_sessions (sv_db s')) = Some r' \<and>
    ses_last_seen r' = (if h = UserPrompt \<or> h = SessionStart \<and> hp_source p \<noteq> ''resume'' then max (unix_sec now) (ses_last_seen r)
                       else ses_last_seen r) \<and>
    ses_last_activity r' = (if h \<in> {SessionEnd, SubagentStop, Notification} \<or> h = SessionStart \<and> hp_source p = ''resume''
                           then ses_last_activity r else max (unix_sec now) (ses_last_activity r)) \<and>
    ses_seen_at r' = ses_seen_at r \<and> set_by_hand r' = set_by_hand r"
proof (cases "opens h p")
  case None
  then have "rest (hp_session p) (sv_db s') = rest (hp_session p) (sv_db s)" using rest_hook[OF assms(1,3,4)] by simp
  from rest_Some[OF this assms(5)] None show ?thesis
    by (cases h) (auto dest: rest_of_fields)
next
  case (Some sba)
  then obtain st bump act s1 where ob: "opens h p = Some (st, bump, act)"
    and s1: "ensureSessionAt out hdr p st bump act now s = Inr s1"
    and same: "rest (hp_session p) (sv_db s') = rest (hp_session p) (sv_db s1)"
    using rest_hook[OF assms(1,3,4)] by (cases sba) auto
  obtain r1 where r1: "lookup_row ses_id (hp_session p) (cc_sessions (sv_db s1)) = Some r1"
    "ses_last_seen r1 = (if bump then max (unix_sec now) (ses_last_seen r) else ses_last_seen r)"
    "ses_last_activity r1 = max (if act then unix_sec now else 0) (ses_last_activity r)"
    "ses_seen_at r1 = ses_seen_at r" "set_by_hand r1 = set_by_hand r"
    using merged_row[OF s1 assms(2,5)] by blast
  from rest_Some[OF same r1(1)] obtain r' where
    r': "lookup_row ses_id (hp_session p) (cc_sessions (sv_db s')) = Some r'" "rest_of r' = rest_of r1" by blast
  note fields = rest_of_fields[OF r'(2)] r1
  show ?thesis
    using ob assms(6) r'(1) by (cases h; cases "hp_source p = ''resume''") (auto simp: fields)
qed

text \<open>A collector that knows the session s.\<close>

definition sample_srv :: srv where
  "sample_srv = \<lparr>sv_db = upsertSession LastSeenMax (zero_session\<lparr>se_id := ''s''\<rparr>) sample_now empty_ccdb, sv_ptys = [], sv_holds = []\<rparr>"

lemma sample_srv_row:
  "lookup_row ses_id ''s'' (cc_sessions (sv_db sample_srv)) = Some (new_row (zero_session\<lparr>se_id := ''s''\<rparr>) sample_now False 1)"
  using lookup_upsert[of "zero_session\<lparr>se_id := ''s''\<rparr>" LastSeenMax sample_now empty_ccdb]
  by (simp add: sample_srv_def zero_session_def empty_ccdb_def max_num_def lookup_row_def)

lemma bash_fields [simp]: "hp_session bash_payload = ''s''" "hp_tool_name bash_payload = ''Bash''"
  by (simp_all add: bash_payload_def)

theorem only_prompts_move_sessions_witness:
  "\<exists>r'. lookup_row ses_id ''s'' (cc_sessions (sv_db (fst (handle_hook bash_out SubagentStop (\<lambda>_. []) ''x'' sample_now sample_srv)))) = Some r' \<and>
     ses_last_seen r' = unix_sec sample_now"
proof -
  have "snd (handle_hook bash_out SubagentStop (\<lambda>_. []) ''x'' sample_now sample_srv) \<noteq> Panicked"
    by (simp add: handleSubagentStop_def with_payload_fst[OF read_bash])
  then show ?thesis
    using only_prompts_move_sessions[OF read_bash _ prod.collapse[symmetric], of SubagentStop "\<lambda>_. []" sample_now sample_srv]
    by (simp add: sample_srv_row) (auto simp: new_row_def zero_session_def unixOrZero_def)
qed

section \<open>What is stored of a payload\<close>


text \<open>JSON values written as their numbers, null apart, and no patterns.\<close>

definition number_out :: outside where
  "number_out =
     \<lparr>out_patterns = id, out_decode = (\<lambda>s. Some (if s = ''null'' then JNull else from_nat (digits_val s))),
      out_encode = (\<lambda>v. if v = JNull then ''null'' else nat_digits (to_nat v)),
      out_git = (\<lambda>_. \<lparr>gi_repo = [], gi_branch = [], gi_commit = []\<rparr>)\<rparr>"

lemma number_out_reads: "out_decode number_out (out_encode number_out v) = Some v"
proof -
  have "nat_digits n \<noteq> ''null''" for n
    using nat_digits_digits[of n] by (auto simp: is_digit_def byte_in_def)
  then show ?thesis by (simp add: number_out_def digits_val_nat_digits)
qed

lemma number_out_event:
  "cc_events (sv_db (fst (handle_hook number_out Notification (\<lambda>_. []) ''null'' sample_now sample_srv))) =
     [\<lparr>eve_id = 1, eve_session = [], eve_ts = unix_sec sample_now, eve_type = EventNotification, eve_tool = [],
       eve_summary = ''notification'', eve_payload = ''null''\<rparr>]"
  by (simp add: handleNotification_def with_payload_def readPayload_def number_out_def decode_payload_def redact_JSON_def
      attentionFromNotification_def empty_payload_def add_event_def AppendEvent_def sample_srv_def upsertSession_def empty_ccdb_def
      zero_session_def Let_def)


end
