(* ===== verification/Settings_Laws.thy ===== *)
theory Settings_Laws
  imports Settings_Facts
begin

text \<open>
  What the settings promise: a change is what the next start reads, every key the settings page
  offers has its place, pane ratios are normal forms, and what the one-time migrations do.
\<close>

section \<open>Pane ratios\<close>

lemma wrap64_id [simp]: "- (2 ^ 63) \<le> x \<Longrightarrow> x < 2 ^ 63 \<Longrightarrow> wrap64 x = x"
  by (simp add: wrap64_def)

lemma go_div_pos: "0 < b \<Longrightarrow> 0 \<le> a \<Longrightarrow> go_div a b = a div b"
  by (cases "a = 0") (simp_all add: go_div_def sgn_if)

text \<open>A well-formed ratio: the shares add up to 100 and none is below the minimum.\<close>

definition wf_ratio :: "pane_ratio \<Rightarrow> bool" where
  "wf_ratio r \<longleftrightarrow>
     pr_list r + pr_work r + pr_tasks r = 100 \<and>
     MinPaneShare \<le> pr_list r \<and> MinPaneShare \<le> pr_work r \<and> MinPaneShare \<le> pr_tasks r"

lemma digits_val_bound: "list_all is_digit s \<Longrightarrow> digits_val s < 10 ^ length s"
proof (induction s rule: rev_induct)
  case (snoc c s)
  then have "digit_val c < 10" "digits_val s < 10 ^ length s"
    by (auto simp: digit_val_def is_digit_def byte_in_def)
  then show ?case by (simp add: digits_val_def)
qed (simp add: digits_val_def)

lemma trim_space_length: "length (trim_space s) \<le> length s"
  unfolding trim_space_def trim_right_def trim_left_def
  by (metis (no_types, lifting) length_rev order_trans strip_front_suffix suffix_length_le)

lemma parse_int64_bound: "parse_int64 s = Some v \<Longrightarrow> \<bar>v\<bar> < 10 ^ length s"
proof -
  assume v: "parse_int64 s = Some v"
  define body where "body = (if s \<noteq> [] \<and> (hd s = CHR ''-'' \<or> hd s = CHR ''+'') then tl s else s)"
  obtain n where n: "parse_nat body = Some n" "v = int n \<or> v = - int n"
    using v by (auto simp: parse_int64_def body_def[symmetric] Let_def split: option.splits if_splits)
  then have "n < 10 ^ length body"
    using digits_val_bound[of body] by (auto simp: parse_nat_def split: if_splits)
  also have "(10::nat) ^ length body \<le> 10 ^ length s"
    by (rule power_increasing) (simp_all add: body_def)
  finally have "int n < 10 ^ length s" by (metis of_nat_less_iff of_nat_power of_nat_numeral)
  with n(2) show ?thesis by auto
qed

lemma positive_number_bound:
  assumes "positive_number x = Some v" "length x \<le> 16"
  shows "0 < v" "v < 10 ^ 16"
proof -
  have v: "parse_int64 (trim_space x) = Some v" and "0 < v"
    using assms(1) by (auto simp: positive_number_def split: option.splits if_splits)
  then show "0 < v" by simp
  have "length (trim_space x) \<le> 16" using trim_space_length[of x] assms(2) by simp
  then have "(10::int) ^ length (trim_space x) \<le> 10 ^ 16" by (intro power_increasing) simp_all
  with parse_int64_bound[OF v] show "v < 10 ^ 16" by simp
qed

lemma scale_share_bounds:
  assumes "0 < n" "n \<le> tot" "tot < 10 ^ 17"  "n < 10 ^ 16"
  shows "scale_share tot n = max (n * 100 div tot) MinPaneShare" "scale_share tot n \<le> 100"
proof -
  have "n * 100 div tot \<le> (100 * tot) div tot"
    by (rule zdiv_mono1) (use assms in auto)
  then have "n * 100 div tot \<le> 100" using assms by simp
  moreover have "0 \<le> n * 100 div tot" using assms by (simp add: pos_imp_zdiv_nonneg_iff)
  ultimately have "wrap64 (go_div (wrap64 (n * 100)) tot) = n * 100 div tot"
    using assms by (simp add: go_div_pos)
  then show "scale_share tot n = max (n * 100 div tot) MinPaneShare"
    by (simp add: scale_share_def)
  with \<open>n * 100 div tot \<le> 100\<close> show "scale_share tot n \<le> 100" by (simp add: MinPaneShare_def)
qed

lemma balance_wf:
  assumes "0 < a" "0 < b" "0 < c" "a < 10 ^ 16" "b < 10 ^ 16" "c < 10 ^ 16"
  shows "balance a b c \<noteq> Inl DivideByZero" "balance a b c = Inr r \<Longrightarrow> wf_ratio r"
proof -
  have tot: "wrap64 (wrap64 (a + b) + c) = a + b + c" using assms by simp
  have sc: "scale_share (a + b + c) n = max (n * 100 div (a + b + c)) MinPaneShare"
    "scale_share (a + b + c) n \<le> 100" if "n = a \<or> n = b \<or> n = c" for n
    using scale_share_bounds[of n "a + b + c"] that assms by auto
  define l w t where lwt: "l = scale_share (a + b + c) a" "w = scale_share (a + b + c) b" "t = scale_share (a + b + c) c"
  have bounds: "l \<le> 100" "t \<le> 100" "MinPaneShare \<le> l" "MinPaneShare \<le> t"
    using sc[of a] sc[of c] unfolding lwt by simp_all
  then have wrap: "wrap64 (w + (100 - l - w - t)) = 100 - l - t"
    by (simp add: MinPaneShare_def)
  have eq: "balance a b c =
      (if 100 - l - t < MinPaneShare then Inl NoRoomForWork else Inr \<lparr>pr_list = l, pr_work = 100 - l - t, pr_tasks = t\<rparr>)"
    using assms wrap by (simp only: balance_def tot Let_def lwt[symmetric]) simp
  then show "balance a b c \<noteq> Inl DivideByZero" by simp
  assume "balance a b c = Inr r"
  with eq have "r = \<lparr>pr_list = l, pr_work = 100 - l - t, pr_tasks = t\<rparr> \<and> \<not> 100 - l - t < MinPaneShare"
    by (simp split: if_splits)
  then show "wf_ratio r"
    using bounds by (simp add: wf_ratio_def)
qed

lemma balance_id:
  "wf_ratio r \<Longrightarrow> balance (pr_list r) (pr_work r) (pr_tasks r) = Inr r"
proof -
  assume wf: "wf_ratio r"
  define l w t where lwt: "l = pr_list r" "w = pr_work r" "t = pr_tasks r"
  have b: "l + w + t = 100" "10 \<le> l" "10 \<le> w" "10 \<le> t" using wf by (auto simp: wf_ratio_def MinPaneShare_def lwt)
  have tot: "wrap64 (wrap64 (l + w) + t) = 100" using b by simp
  have "scale_share 100 n = n" if "10 \<le> n" "n \<le> 100" for n
    using that scale_share_bounds(1)[of n 100] by (simp add: MinPaneShare_def)
  then have "scale_share 100 l = l" "scale_share 100 w = w" "scale_share 100 t = t" using b by auto
  then have "balance l w t = Inr \<lparr>pr_list = l, pr_work = w, pr_tasks = t\<rparr>"
    using b tot by (simp add: balance_def Let_def MinPaneShare_def)
  then show ?thesis by (simp add: lwt)
qed

section \<open>Printing and parsing a ratio\<close>

lemma fields_by_run: "(\<forall>c \<in> set ds. \<not> sep c) \<Longrightarrow> fields_by sep cur (ds @ s) = fields_by sep (cur @ ds) s"
  by (induction ds arbitrary: cur) simp_all

lemma fields_by_sep: "sep c \<Longrightarrow> cur \<noteq> [] \<Longrightarrow> fields_by sep cur (c # s) = cur # fields_by sep [] s"
  by simp

lemma digit_not_separator: "is_digit c \<Longrightarrow> c \<notin> set '':/ ,''"
  by (auto simp: is_digit_def byte_in_def)

lemma fields_ratio:
  assumes "0 < a" "0 < b" "0 < c"
  shows "ratio_fields (itoa a @ '':'' @ itoa b @ '':'' @ itoa c) = [itoa a, itoa b, itoa c]"
proof -
  have d: "itoa n \<noteq> []" "\<forall>c \<in> set (itoa n). c \<notin> set '':/ ,''" if "0 < n" for n
    using itoa_digits[OF that] digit_not_separator by (auto simp: list_all_iff)
  have last: "fields_by (\<lambda>c. c \<in> set '':/ ,'') [] (itoa c) = [itoa c]"
    using fields_by_run[OF d(2)[OF assms(3)], of "[]" "[]"] d(1)[OF assms(3)] by simp
  have one: "fields_by (\<lambda>c. c \<in> set '':/ ,'') [] (itoa n @ '':'' @ s) = itoa n # fields_by (\<lambda>c. c \<in> set '':/ ,'') [] s"
    if "0 < n" for n s
    using fields_by_run[OF d(2)[OF that], of "[]" "'':'' @ s"] d(1)[OF that] by simp
  show ?thesis by (simp only: ratio_fields_def one[OF assms(1)] one[OF assms(2)] last)
qed

lemma positive_number_itoa: "0 < n \<Longrightarrow> n < 2 ^ 63 \<Longrightarrow> positive_number (itoa n) = Some n"
  by (simp add: positive_number_def trim_space_itoa parse_int64_itoa)

lemma Parse_ratio_string: "wf_ratio r \<Longrightarrow> ParsePaneRatio (ratio_string r) = Inr r"
proof -
  assume wf: "wf_ratio r"
  then have "0 < pr_list r" "0 < pr_work r" "0 < pr_tasks r"
    "pr_list r < 2 ^ 63" "pr_work r < 2 ^ 63" "pr_tasks r < 2 ^ 63"
    by (auto simp: wf_ratio_def MinPaneShare_def)
  then show ?thesis
    using balance_id[OF wf]
    by (simp only: ParsePaneRatio_def ratio_string_def fields_ratio positive_number_itoa list.case option.case prod.case)
qed

text \<open>What is typed within sixteen bytes a field parses to a well-formed ratio or is refused.\<close>

definition short_fields :: "string \<Rightarrow> bool" where
  "short_fields v \<longleftrightarrow> list_all (\<lambda>x. length x \<le> 16) (ratio_fields v)"

lemma ParsePaneRatio_wf:
  assumes "short_fields v"
  shows "ParsePaneRatio v \<noteq> Inl DivideByZero" "ParsePaneRatio v = Inr r \<Longrightarrow> wf_ratio r"
proof -
  have "ParsePaneRatio v = Inl NotThreeFields \<or> ParsePaneRatio v = Inl NotPositive \<or>
    (\<exists>a b c. ParsePaneRatio v = balance a b c \<and> 0 < a \<and> 0 < b \<and> 0 < c \<and> a < 10 ^ 16 \<and> b < 10 ^ 16 \<and> c < 10 ^ 16)"
    using assms positive_number_bound
    unfolding ParsePaneRatio_def short_fields_def
    by (clarsimp split: list.split option.split) metis
  then show "ParsePaneRatio v \<noteq> Inl DivideByZero" "ParsePaneRatio v = Inr r \<Longrightarrow> wf_ratio r"
    using balance_wf by auto
qed

section \<open>Loading after a change\<close>

lemma parseBool_formatBool: "parseBool (formatBool b) = (\<lambda>_. b)"
  by (rule ext) (simp add: parseBool_def formatBool_def)

lemma parseInt_itoa: "- (2 ^ 63) \<le> i \<Longrightarrow> i < 2 ^ 63 \<Longrightarrow> parseInt (itoa i) = (\<lambda>_. i)"
  by (rule ext) (simp add: parseInt_def parse_int64_itoa)

lemma one_of_in: "x \<in> set vs \<Longrightarrow> one_of vs x = (\<lambda>_. x)"
  by (rule ext) (simp add: one_of_def)

lemma formatBool_not_Nil: "formatBool b \<noteq> []"
  by (simp add: formatBool_def)

lemma itoa_not_Nil: "itoa i \<noteq> []"
  by (simp add: itoa_def)

lemma load_empty:
  "load_values (all(keyNewSessionDir \<mapsto> [])) = (load_values all)\<lparr>cfg_new_session_dir := []\<rparr>"
  "load_values (all(keyTrustedDirs \<mapsto> [])) = (load_values all)\<lparr>cfg_trusted_dirs := []\<rparr>"
  unfolding load_values_eq
  by (simp_all add: field_upd key_defs Defaults_def)

text \<open>The values the settings page can hand to Set, by the kind of the setting.\<close>

definition storable :: "string \<Rightarrow> sval \<Rightarrow> bool" where
  "storable key v =
     (case map_of AllSpecs key of
        Some KindBool \<Rightarrow> (case v of VBool b \<Rightarrow> True | _ \<Rightarrow> False)
      | Some (KindInt lo hi) \<Rightarrow> (case v of VInt i \<Rightarrow> lo \<le> i \<and> i \<le> hi | _ \<Rightarrow> False)
      | Some (KindEnum vs) \<Rightarrow> (case v of VStr x \<Rightarrow> x \<in> set vs | _ \<Rightarrow> False)
      | Some KindString \<Rightarrow>
          (case v of
             VStr x \<Rightarrow> key = keyPaneRatio \<longrightarrow> short_fields x \<and> isl (ParsePaneRatio x) = False
           | _ \<Rightarrow> False)
      | _ \<Rightarrow> False)"

definition bool_keys :: "string set" where
  "bool_keys = {keyAutoRepoTabs, keyBellOnPending, keyNewestAtBottom, keyWorkAnim, keyApproveEnabled, keySummaryEnabled, keyAttachEnabled, keyAutoInstallSync, keyHubEnabled, keyTasksPane, keyListCollapsed, keyRecentOrder, keyTaskSpacing, keyInvertListScroll, keyAutoTitle, keyHideHeadless}"

definition int_keys :: "string set" where
  "int_keys = {keyVerticalAutoCols, keyTailBudgetKB, keySummaryTimeoutSec, keyRefreshIntervalMs, keyAutoArchiveDays}"

lemma AllSpecs_cases:
  "(key, kind) \<in> set AllSpecs \<Longrightarrow>
    kind = KindBool \<and> key \<in> bool_keys \<or>
    (\<exists>lo hi. kind = KindInt lo hi \<and> 0 \<le> lo \<and> hi \<le> 10000 \<and> key \<in> int_keys) \<or>
    kind = KindAction \<or>
    kind = KindEnum [''auto'', ''on'', ''off''] \<and> key = keyLayoutMode \<or>
    kind = KindEnum [''relative'', ''absolute''] \<and> key = keyTimeFormat \<or>
    kind = KindEnum [''auto'', ''en'', ''ja''] \<and> key = keyLanguage \<or>
    kind = KindEnum [''stable'', ''dev''] \<and> key = keyUpdateChannel \<or>
    kind = KindString \<and> key \<in> {keyNewSessionDir, keyTrustedDirs, keyPaneRatio}"
  by (simp add: AllSpecs_def bool_keys_def int_keys_def) (elim disjE; simp)

lemma storable_cases:
  assumes "storable key v"
  obtains b where "v = VBool b" "key \<in> bool_keys"
  | i where "v = VInt i" "key \<in> int_keys" "0 \<le> i" "i \<le> 10000"
  | x where "v = VStr x" "key = keyLayoutMode" "x \<in> {''auto'', ''on'', ''off''}"
  | x where "v = VStr x" "key = keyTimeFormat" "x \<in> set [''relative'', ''absolute'']"
  | x where "v = VStr x" "key = keyLanguage" "x \<in> set [''auto'', ''en'', ''ja'']"
  | x where "v = VStr x" "key = keyUpdateChannel" "x \<in> set [''stable'', ''dev'']"
  | x where "v = VStr x" "key = keyNewSessionDir"
  | x where "v = VStr x" "key = keyTrustedDirs"
  | x r where "v = VStr x" "key = keyPaneRatio" "ParsePaneRatio x = Inr r" "wf_ratio r"
proof -
  from assms obtain kind where kind: "map_of AllSpecs key = Some kind"
    by (auto simp: storable_def split: option.splits)
  then have "(key, kind) \<in> set AllSpecs" by (rule map_of_SomeD)
  from AllSpecs_cases[OF this] show ?thesis
  proof (elim disjE conjE exE)
    assume k: "kind = KindString" "key \<in> {keyNewSessionDir, keyTrustedDirs, keyPaneRatio}"
    then obtain x where x: "v = VStr x" "key = keyPaneRatio \<longrightarrow> short_fields x \<and> \<not> isl (ParsePaneRatio x)"
      using assms kind by (cases v) (simp_all add: storable_def)
    show ?thesis
    proof (cases "key = keyPaneRatio")
      case True
      then obtain r where "ParsePaneRatio x = Inr r"
        using x(2) by (cases "ParsePaneRatio x") simp_all
      then show ?thesis using that(9) x True ParsePaneRatio_wf(2) by blast
    next
      case False
      then show ?thesis using that(7,8) x(1) k(2) by blast
    qed
  qed (use assms kind that(1-6) in \<open>cases v; simp add: storable_def\<close>)+
qed

text \<open>What the page then shows: the value, or the ratio in its normal form.\<close>

definition shown :: "string \<Rightarrow> sval \<Rightarrow> sval" where
  "shown key v =
     (case v of
        VStr x \<Rightarrow> (if key = keyPaneRatio then (case ParsePaneRatio x of Inr r \<Rightarrow> VStr (ratio_string r) | Inl e \<Rightarrow> v) else v)
      | _ \<Rightarrow> v)"

text \<open>Set makes of the snapshot what loading the changed table gives, for one key.\<close>

definition change_ok :: "string \<Rightarrow> sval \<Rightarrow> bool" where
  "change_ok key v \<longleftrightarrow>
     (\<forall>all db now. AllSettings db = all \<longrightarrow>
        (\<exists>pv. Set (load_values all) key v now db = Inr (load_values (all(key \<mapsto> pv)), SetSetting key pv now db) \<and>
              Get (load_values (all(key \<mapsto> pv))) key = Some (shown key v) \<and>
              (\<forall>k. k \<noteq> key \<longrightarrow> Get (load_values (all(key \<mapsto> pv))) k = Get (load_values all) k) \<and>
              (key = keyLayoutMode \<longrightarrow> pv \<noteq> []) \<and> (key = keyPaneRatio \<longrightarrow> \<not> isl (ParsePaneRatio pv))))"

lemma change_okI:
  assumes "\<And>s db now. Set s key v now db = Inr (upd s, SetSetting key pv now db)"
    "\<And>all. load_values (all(key \<mapsto> pv)) = upd (load_values all)"
    "\<And>s. Get (upd s) key = Some (shown key v)" "\<And>s k. k \<noteq> key \<Longrightarrow> Get (upd s) k = Get s k"
    "key = keyLayoutMode \<Longrightarrow> pv \<noteq> []" "key = keyPaneRatio \<Longrightarrow> \<not> isl (ParsePaneRatio pv)"
  shows "change_ok key v"
  using assms unfolding change_ok_def by (intro allI impI exI[of _ pv]) simp

lemma change_bool: "key \<in> bool_keys \<Longrightarrow> change_ok key (VBool b)"
  unfolding bool_keys_def insert_iff empty_iff
  by (elim disjE FalseE; hypsubst, rule change_okI, rule Set_key, rule load_one,
      rule formatBool_not_Nil, rule parseBool_formatBool, simp only: Get_same shown_def sval.case,
      erule Get_other, rule formatBool_not_Nil, simp add: key_defs)

lemma change_int: "key \<in> int_keys \<Longrightarrow> - (2 ^ 63) \<le> i \<Longrightarrow> i < 2 ^ 63 \<Longrightarrow> change_ok key (VInt i)"
  unfolding int_keys_def insert_iff empty_iff
  by (elim disjE FalseE; hypsubst, rule change_okI, rule Set_key, rule load_one,
      rule itoa_not_Nil, erule (1) parseInt_itoa, simp only: Get_same shown_def sval.case,
      erule Get_other, rule itoa_not_Nil, simp add: key_defs)

lemma layout_mode_of_stored:
  "layout_mode_of x \<noteq> []" "layout_mode_of x \<in> set [''auto'', ''vertical'', ''horizontal'']"
  by (simp_all add: layout_mode_of_def)

lemma change_layout: "x \<in> {''auto'', ''on'', ''off''} \<Longrightarrow> change_ok keyLayoutMode (VStr x)"
  by (rule change_okI, erule Set_key, rule load_one, rule layout_mode_of_stored, rule one_of_in, rule layout_mode_of_stored,
      simp only: Get_same, (simp add: shown_def layout_label_def layout_mode_of_def key_defs, blast),
      erule Get_other, rule layout_mode_of_stored, simp add: key_defs)

lemma change_plain:
  assumes "\<And>s db now. Set s key v now db = Inr (upd s, SetSetting key pv now db)"
    "\<And>all. load_values (all(key \<mapsto> pv)) = upd (load_values all)"
    "\<And>s. Get (upd s) key = Some v" "\<And>s k. k \<noteq> key \<Longrightarrow> Get (upd s) k = Get s k"
    "key \<noteq> keyLayoutMode" "key \<noteq> keyPaneRatio"
  shows "change_ok key v"
proof -
  have "shown key v = v" using assms(6) by (simp add: shown_def split: sval.split)
  with assms show ?thesis by (intro change_okI[where upd = upd and pv = pv]) simp_all
qed

lemma change_enum:
  "x \<in> set [''relative'', ''absolute''] \<Longrightarrow> change_ok keyTimeFormat (VStr x)"
  "x \<in> set [''auto'', ''en'', ''ja''] \<Longrightarrow> change_ok keyLanguage (VStr x)"
  "x \<in> set [''stable'', ''dev''] \<Longrightarrow> change_ok keyUpdateChannel (VStr x)"
  by (rule change_plain, rule Set_key, rule load_one, fastforce, erule one_of_in, rule Get_same,
      erule Get_other, simp add: key_defs, simp add: key_defs)+

lemma load_dir:
  "load_values (all(keyNewSessionDir \<mapsto> x)) = (load_values all)\<lparr>cfg_new_session_dir := x\<rparr>"
  "load_values (all(keyTrustedDirs \<mapsto> x)) = (load_values all)\<lparr>cfg_trusted_dirs := x\<rparr>"
  by (cases "x = []"; simp only: load_empty load_one refl not_False_eq_True)+

lemma change_dir:
  "change_ok keyNewSessionDir (VStr x)" "change_ok keyTrustedDirs (VStr x)"
  by (rule change_plain, rule Set_key, rule load_dir, rule Get_same, erule Get_other, simp add: key_defs, simp add: key_defs)+

lemma ratio_string_not_Nil: "ratio_string r \<noteq> []"
  by (simp add: ratio_string_def)

lemma change_pane:
  assumes "ParsePaneRatio x = Inr r" "wf_ratio r"
  shows "change_ok keyPaneRatio (VStr x)"
proof -
  have "pane_value (ratio_string r) = (\<lambda>_. ratio_string r)"
    by (rule ext) (simp add: pane_value_def Parse_ratio_string assms(2))
  then show ?thesis
    by - (rule change_okI, rule Set_key, rule assms, rule load_one, rule ratio_string_not_Nil, assumption,
        simp_all add: Parse_ratio_string assms Get_same Get_other shown_def ratio_string_not_Nil)
qed

lemma storable_change: "storable key v \<Longrightarrow> change_ok key v"
  by (erule storable_cases)
     (simp_all only: change_bool change_layout change_enum change_dir change_pane, simp add: change_int)

section \<open>Databases with nothing left to migrate\<close>

definition settled :: "ccdb \<Rightarrow> bool" where
  "settled db \<longleftrightarrow>
     \<not> load_panics (AllSettings db) \<and>
     (stored_value (AllSettings db) keyLayoutMode = [] \<longrightarrow> legacy_layout db = None) \<and>
     (stored_value (AllSettings db) keyPaneRatio = [] \<longrightarrow> legacyPaneRatio (AllSettings db) = None)"

lemma settled_Load: "settled db \<Longrightarrow> Load now db = Some (load_values (AllSettings db), db)"
  by (simp add: settled_def Load_def migrate_layout_def migrate_panes_def Let_def)

lemma SetSetting_changes: "stored_value (AllSettings db) k = [] \<Longrightarrow> v \<noteq> [] \<Longrightarrow> SetSetting k v now db \<noteq> db"
  using AllSettings_SetSetting[of k v now db] by (metis stored_value_upd)

lemma settled_upd:
  assumes "settled db" "key \<in> set AllKeys"
    "key = keyLayoutMode \<Longrightarrow> pv \<noteq> []" "key = keyPaneRatio \<Longrightarrow> \<not> isl (ParsePaneRatio pv)"
  shows "settled (SetSetting key pv now db)"
proof -
  have keys: "key \<notin> {''layout_auto'', ''layout_vertical'', ''pane_list_pct'', ''pane_split'', ''pane_tasks_pct''}"
    using assms(2) by (auto simp: AllKeys_def AllSpecs_def key_defs)
  have pane: "pv \<noteq> []" if "key = keyPaneRatio"
    using assms(4)[OF that] by (auto simp: ParsePaneRatio_def ratio_fields_def)
  have "GetSetting k (SetSetting key pv now db) = GetSetting k db" if "k \<in> {''layout_auto'', ''layout_vertical''}" for k
    using keys that by (auto simp: GetSetting_SetSetting)
  then have "legacy_layout (SetSetting key pv now db) = legacy_layout db"
    by (simp only: legacy_layout_def insertI1 insertI2)
  moreover have "stored_value ((AllSettings db)(key \<mapsto> pv)) k = stored_value (AllSettings db) k"
    if "k \<in> {''pane_list_pct'', ''pane_split'', ''pane_tasks_pct''}" for k
    using keys that by auto
  then have "legacyPaneRatio ((AllSettings db)(key \<mapsto> pv)) = legacyPaneRatio (AllSettings db)"
    by (simp only: legacyPaneRatio_def insertI1 insertI2)
  moreover have "key = keyPaneRatio \<Longrightarrow> ParsePaneRatio pv \<noteq> Inl DivideByZero"
    using assms(4) by (cases "ParsePaneRatio pv") simp_all
  ultimately show ?thesis
    using assms(1,3) pane
    by (cases "key = keyLayoutMode"; cases "key = keyPaneRatio")
       (simp_all only: settled_def AllSettings_SetSetting load_panics_def stored_value_upd if_True if_False not_sym simp_thms, blast+)
qed

lemma storable_key: "storable key v \<Longrightarrow> key \<in> set AllKeys"
  by (erule storable_cases) (auto simp: AllKeys_def AllSpecs_def bool_keys_def int_keys_def)

lemma parse_empty_ratio: "ParsePaneRatio [] = Inl NotThreeFields"
  by (simp add: ParsePaneRatio_def ratio_fields_def)

text \<open>A load that leaves the database as it found it is one of a settled database.\<close>

lemma stored_migrate_layout:
  "stored_value (AllSettings (snd (migrate_layout all now (x, db)))) k =
     (if k = keyLayoutMode \<and> stored_value all k = [] \<and> legacy_layout db \<noteq> None then the (legacy_layout db)
      else stored_value (AllSettings db) k)"
  by (simp add: migrate_layout_def AllSettings_SetSetting split: option.split)

lemma stored_migrate_panes:
  "stored_value (AllSettings (snd (migrate_panes all now p))) k =
     (if k = keyPaneRatio \<and> stored_value all k = [] \<and> legacyPaneRatio all \<noteq> None then ratio_string (the (legacyPaneRatio all))
      else stored_value (AllSettings (snd p)) k)"
  by (cases p) (simp add: migrate_panes_def AllSettings_SetSetting split: option.split)

lemma legacy_layout_not_Nil: "legacy_layout db = Some m \<Longrightarrow> m \<noteq> []"
  by (auto simp: legacy_layout_def Let_def split: if_splits)

lemma Load_settled: "Load now db = Some (s, db) \<Longrightarrow> settled db \<and> s = load_values (AllSettings db)"
proof -
  assume load: "Load now db = Some (s, db)"
  then have ok: "\<not> load_panics (AllSettings db)"
    and result: "migrate_panes (AllSettings db) now (migrate_layout (AllSettings db) now (load_values (AllSettings db), db)) = (s, db)"
    by (simp_all add: Load_def Let_def split: if_splits)
  have stored: "stored_value (AllSettings db) k =
      stored_value (AllSettings (snd (migrate_panes (AllSettings db) now (migrate_layout (AllSettings db) now (load_values (AllSettings db), db))))) k" for k
    by (simp add: result)
  have neq: "keyLayoutMode \<noteq> keyPaneRatio" by (simp add: key_defs)
  have "legacy_layout db = None" if empty: "stored_value (AllSettings db) keyLayoutMode = []"
  proof (cases "legacy_layout db")
    case (Some m)
    then have "stored_value (AllSettings db) keyLayoutMode = m"
      using stored[of keyLayoutMode] neq empty
      by (simp only: stored_migrate_layout stored_migrate_panes option.sel option.distinct simp_thms if_True if_False)
    with empty legacy_layout_not_Nil[OF Some] show ?thesis by simp
  qed
  moreover have "legacyPaneRatio (AllSettings db) = None" if "stored_value (AllSettings db) keyPaneRatio = []"
    using stored[of keyPaneRatio] ratio_string_not_Nil[symmetric] that
    by (cases "legacyPaneRatio (AllSettings db)") (simp_all only: stored_migrate_panes option.sel option.distinct simp_thms if_True if_False)
  ultimately have "settled db" using ok unfolding settled_def by blast
  with load settled_Load[OF this, of now] show ?thesis by simp
qed

text \<open>Several switches turned the same way, one after the other.\<close>

lemma set_each_bools:
  "settled db \<Longrightarrow> set ks \<subseteq> bool_keys \<Longrightarrow>
    \<exists>db'. set_each ks (VBool b) now (load_values (AllSettings db), db) = Inr (load_values (AllSettings db'), db') \<and> settled db' \<and>
      (\<forall>k. Get (load_values (AllSettings db')) k = (if k \<in> set ks then Some (VBool b) else Get (load_values (AllSettings db)) k))"
proof (induction ks arbitrary: db)
  case (Cons key ks)
  obtain pv where pv: "Set (load_values (AllSettings db)) key (VBool b) now db =
      Inr (load_values ((AllSettings db)(key \<mapsto> pv)), SetSetting key pv now db)"
    "Get (load_values ((AllSettings db)(key \<mapsto> pv))) key = Some (VBool b)"
    "\<forall>k. k \<noteq> key \<longrightarrow> Get (load_values ((AllSettings db)(key \<mapsto> pv))) k = Get (load_values (AllSettings db)) k"
    "key = keyLayoutMode \<longrightarrow> pv \<noteq> []" "key = keyPaneRatio \<longrightarrow> \<not> isl (ParsePaneRatio pv)"
    using change_bool[of key b, unfolded change_ok_def shown_def sval.case, THEN spec, THEN spec, THEN spec, THEN mp, OF _ refl, of db now]
      Cons.prems(2) by (simp only: list.set insert_subset) blast
  have "key \<in> set AllKeys" using Cons.prems(2) by (auto simp: AllKeys_def AllSpecs_def bool_keys_def)
  then have "settled (SetSetting key pv now db)" using Cons.prems(1) pv(4,5) by (simp add: settled_upd)
  from Cons.IH[OF this] Cons.prems(2) obtain db' where
    db': "set_each ks (VBool b) now (load_values ((AllSettings db)(key \<mapsto> pv)), SetSetting key pv now db) = Inr (load_values (AllSettings db'), db')"
      "settled db'"
    and get: "\<forall>k. Get (load_values (AllSettings db')) k =
      (if k \<in> set ks then Some (VBool b) else Get (load_values ((AllSettings db)(key \<mapsto> pv))) k)"
    unfolding AllSettings_SetSetting list.set insert_subset by blast
  have "set_each (key # ks) (VBool b) now (load_values (AllSettings db), db) = Inr (load_values (AllSettings db'), db')"
    by (simp only: set_each.simps pv(1) sum.case db'(1))
  moreover have "Get (load_values (AllSettings db')) k =
      (if k \<in> set (key # ks) then Some (VBool b) else Get (load_values (AllSettings db)) k)" for k
    using get pv(2,3) by (cases "k = key") simp_all
  ultimately show ?case using db'(2) by blast
qed auto

lemma cfg_pane_ratio_load: "cfg_pane_ratio (load_values all) = field all keyPaneRatio pane_value ''36:36:28''"
  by (simp add: load_values_eq Defaults_def)

section \<open>Properties\<close>

text \<open>C13. Changing a setting from the settings page survives a restart.\<close>

lemma settings_roundtrip:
  assumes "Load now db = Some (s, db)" "storable key v"
  shows "\<exists>s' db'. Set s key v now' db = Inr (s', db') \<and> Load now'' db' = Some (s', db') \<and>
    Get s' key = Some (shown key v) \<and>
    (\<forall>k. k \<noteq> key \<longrightarrow> Get s' k = Get s k \<and> GetSetting k db' = GetSetting k db)"
proof -
  have db: "settled db" "s = load_values (AllSettings db)" using Load_settled[OF assms(1)] by simp_all
  obtain pv where pv: "Set s key v now' db = Inr (load_values ((AllSettings db)(key \<mapsto> pv)), SetSetting key pv now' db)"
    "Get (load_values ((AllSettings db)(key \<mapsto> pv))) key = Some (shown key v)"
    "\<forall>k. k \<noteq> key \<longrightarrow> Get (load_values ((AllSettings db)(key \<mapsto> pv))) k = Get s k"
    "key = keyLayoutMode \<longrightarrow> pv \<noteq> []" "key = keyPaneRatio \<longrightarrow> \<not> isl (ParsePaneRatio pv)"
    using storable_change[OF assms(2)] unfolding change_ok_def db(2) by metis
  have "settled (SetSetting key pv now' db)"
    using db(1) storable_key[OF assms(2)] pv(4,5) by (simp add: settled_upd)
  from settled_Load[OF this, of now''] have "Load now'' (SetSetting key pv now' db) =
      Some (load_values ((AllSettings db)(key \<mapsto> pv)), SetSetting key pv now' db)"
    by (simp only: AllSettings_SetSetting)
  with pv show ?thesis by (simp add: GetSetting_SetSetting)
qed

lemma AllSettings_empty: "AllSettings empty_ccdb = Map.empty"
  by (rule ext) (simp add: AllSettings_def empty_ccdb_def)

definition sample_settings_db :: ccdb where
  "sample_settings_db = SetSetting keyTailBudgetKB ''512'' sample_now empty_ccdb"

lemma sample_settled: "Load sample_now sample_settings_db = Some (load_values (AllSettings sample_settings_db), sample_settings_db)"
proof (rule settled_Load)
  have all: "AllSettings sample_settings_db = [''tail_budget_kb'' \<mapsto> ''512'']"
    by (simp add: sample_settings_db_def AllSettings_SetSetting AllSettings_empty keyTailBudgetKB_def)
  then have "stored_value (AllSettings sample_settings_db) keyPaneRatio = []"
    "stored_value (AllSettings sample_settings_db) keyLayoutMode = []"
    by (simp_all add: stored_value_def key_defs)
  moreover have "legacyPaneRatio (AllSettings sample_settings_db) = None" "legacy_layout sample_settings_db = None"
    unfolding legacyPaneRatio_def legacy_layout_def GetSetting_eq all
    by (simp_all add: stored_value_def)
  ultimately show "settled sample_settings_db"
    by (simp add: settled_def load_panics_def parse_empty_ratio)
qed

lemma settings_roundtrip_witness:
  "\<exists>s' db'. Set (load_values (AllSettings sample_settings_db)) keyLanguage (VStr ''en'') sample_now sample_settings_db = Inr (s', db') \<and>
    Load sample_now db' = Some (s', db') \<and> Get s' keyLanguage = Some (shown keyLanguage (VStr ''en'')) \<and>
    (\<forall>k. k \<noteq> keyLanguage \<longrightarrow> Get s' k = Get (load_values (AllSettings sample_settings_db)) k \<and>
      GetSetting k db' = GetSetting k sample_settings_db)"
  by (rule settings_roundtrip[OF sample_settled])
     (simp add: storable_def AllSpecs_def key_defs)

text \<open>Every key the settings page offers, the actions apart, has a default that Get reads and a place in the load
  table, and no key is listed twice.
\<close>

lemma every_setting_is_loaded:
  "distinct AllKeys \<and> distinct (map fst loadPairs) \<and> set AllKeys = set (map fst loadPairs) \<and>
    (\<forall>s. {k. Get s k \<noteq> None} = set AllKeys)"
proof (intro conjI allI)
  show "distinct AllKeys" by (simp add: AllKeys_def AllSpecs_def key_defs)
  show "distinct (map fst loadPairs)" by (simp add: loadPairs_def key_defs)
  show "set AllKeys = set (map fst loadPairs)"
    by (intro equalityI; simp add: AllKeys_def AllSpecs_def loadPairs_def)
  show "{k. Get s k \<noteq> None} = set AllKeys" for s
    unfolding Get_def map_of_eq_None_iff
    by (rule set_eqI) (simp add: AllKeys_def AllSpecs_def, blast)
qed

text \<open>A pane ratio typed with at most sixteen bytes a number never divides by zero, and what it parses to is a normal
  form: the shares add up to 100 with none under the minimum, its text parses back to it, and moving the divider, by any
  amount, keeps it one and leaves the tasks column alone.
\<close>

lemma pane_ratio_normal_form:
  assumes "short_fields v"
  shows "ParsePaneRatio v \<noteq> Inl DivideByZero \<and>
    (\<forall>r. ParsePaneRatio v = Inr r \<longrightarrow>
      wf_ratio r \<and> ParsePaneRatio (ratio_string r) = Inr r \<and>
      (\<forall>step. wf_ratio (MoveList r step) \<and> pr_tasks (MoveList r step) = pr_tasks r))"
proof -
  have "wf_ratio (MoveList r step)" if "wf_ratio r" for r step
    using that by (auto simp: wf_ratio_def MoveList_def MinPaneShare_def Let_def min_def max_def)
  moreover have "pr_tasks (MoveList r step) = pr_tasks r" for r step
    by (simp add: MoveList_def Let_def)
  ultimately show ?thesis
    using ParsePaneRatio_wf[OF assms] Parse_ratio_string by blast
qed

lemma pane_ratio_normal_form_witness: "ParsePaneRatio ''1/2/1'' \<noteq> Inl DivideByZero"
  using pane_ratio_normal_form[of "''1/2/1''"]
  by (simp add: short_fields_def ratio_fields_def)

text \<open>A stored ratio whose three numbers add up to 2 ^ 64 makes every later start panic with a division by zero.
\<close>

lemma overflowing_ratio_panics:
  "Load now (SetSetting keyPaneRatio ''9223372036854775807:9223372036854775807:2'' now' db) = None"
proof -
  have "ParsePaneRatio ''9223372036854775807:9223372036854775807:2'' = Inl DivideByZero"
  proof -
    have itoa: "itoa 9223372036854775807 = ''9223372036854775807''" "itoa 2 = ''2''"
      by (simp_all add: itoa_def nat_digits.simps digit_def char_of_def bit_0)
    have "ratio_fields ''9223372036854775807:9223372036854775807:2'' = [itoa 9223372036854775807, itoa 9223372036854775807, itoa 2]"
      using fields_ratio[of 9223372036854775807 9223372036854775807 2] by (simp add: itoa)
    moreover have "balance 9223372036854775807 9223372036854775807 2 = Inl DivideByZero"
      by (simp add: balance_def wrap64_def)
    ultimately show ?thesis
      by (simp add: ParsePaneRatio_def positive_number_itoa)
  qed
  then have "load_panics (AllSettings (SetSetting keyPaneRatio ''9223372036854775807:9223372036854775807:2'' now' db))"
    by (simp only: load_panics_def AllSettings_SetSetting stored_value_upd simp_thms if_True)
  then show ?thesis by (simp only: Load_def Let_def if_True)
qed

text \<open>The one-time migration of the old pane widths, with the list at its widest and the tasks column too, writes a ratio
  that the next start no longer reads: the widths a person had are shown once and then replaced by the default.
\<close>

lemma migrated_ratio_is_lost:
  assumes "AllSettings db = [''pane_list_pct'' \<mapsto> ''90'', ''pane_tasks_pct'' \<mapsto> ''60'']"
  shows "\<exists>s db' s'. Load now db = Some (s, db') \<and> cfg_pane_ratio s = ''36:4:60'' \<and>
    Load now' db' = Some (s', db') \<and> cfg_pane_ratio s' = ''36:36:28''"
proof -
  have eval: "ParsePaneRatio ''36:4:60'' = Inl NoRoomForWork" "parseInt ''90'' (- 1) = 90" "parseInt ''60'' (- 1) = 60"
    "ratio_string \<lparr>pr_list = 36, pr_work = 4, pr_tasks = 60\<rparr> = ''36:4:60''" "go_div 3600 100 = 36"
    by code_simp+
  have stored: "stored_value (AllSettings db) keyPaneRatio = []" "stored_value (AllSettings db) keyLayoutMode = []"
    "stored_value (AllSettings db) ''pane_list_pct'' = ''90''" "stored_value (AllSettings db) ''pane_tasks_pct'' = ''60''"
    "stored_value (AllSettings db) ''layout_auto'' = []" "stored_value (AllSettings db) ''layout_vertical'' = []"
    by (simp_all add: assms stored_value_def key_defs)
  have layout: "legacy_layout db = None"
    by (simp add: legacy_layout_def GetSetting_eq stored)
  have panes: "legacyPaneRatio (AllSettings db) = Some \<lparr>pr_list = 36, pr_work = 4, pr_tasks = 60\<rparr>"
    by (simp add: legacyPaneRatio_def stored eval)
  define db' where "db' = SetSetting keyPaneRatio ''36:4:60'' now db"
  have first: "Load now db = Some ((load_values (AllSettings db))\<lparr>cfg_pane_ratio := ''36:4:60''\<rparr>, db')"
    by (simp add: Load_def load_panics_def migrate_layout_def migrate_panes_def stored layout panes parse_empty_ratio eval db'_def)
  have all': "AllSettings db' = (AllSettings db)(keyPaneRatio \<mapsto> ''36:4:60'')"
    by (simp add: db'_def AllSettings_SetSetting)
  have neq: "keyLayoutMode \<noteq> keyPaneRatio" "''layout_auto'' \<noteq> keyPaneRatio" "''layout_vertical'' \<noteq> keyPaneRatio"
    by (simp_all add: key_defs)
  have stored': "stored_value (AllSettings db') keyPaneRatio = ''36:4:60''"
    "stored_value (AllSettings db') ''layout_auto'' = []" "stored_value (AllSettings db') ''layout_vertical'' = []"
    using neq stored by (simp_all only: all' stored_value_upd simp_thms if_True if_False)
  then have "legacy_layout db' = None" by (simp add: legacy_layout_def GetSetting_eq)
  then have "settled db'"
    by (simp add: settled_def load_panics_def stored'(1) eval(1))
  then have "Load now' db' = Some (load_values (AllSettings db'), db')" by (rule settled_Load)
  moreover have "cfg_pane_ratio (load_values (AllSettings db')) = ''36:36:28''"
    by (simp add: cfg_pane_ratio_load all' field_def pane_value_def eval)
  ultimately show ?thesis using first by simp
qed

lemma migrated_ratio_is_lost_witness:
  "\<exists>s db' s'. Load sample_now (SetSetting ''pane_tasks_pct'' ''60'' sample_now (SetSetting ''pane_list_pct'' ''90'' sample_now empty_ccdb)) = Some (s, db') \<and>
    cfg_pane_ratio s = ''36:4:60'' \<and> Load sample_now db' = Some (s', db') \<and> cfg_pane_ratio s' = ''36:36:28''"
  by (rule migrated_ratio_is_lost) (simp add: AllSettings_SetSetting AllSettings_empty)

text \<open>The secure preset turns off what can act on the person's behalf, one setting at a time, and that is what the next
  start reads.
\<close>

lemma secure_preset_survives:
  assumes "Load now db = Some (s, db)"
  shows "\<exists>s' db'. applySecurePreset s now' db = Inr (s', db') \<and> Load now'' db' = Some (s', db') \<and>
    (\<forall>k. Get s' k = (if k \<in> {keyApproveEnabled, keySummaryEnabled, keyAttachEnabled, keyAutoInstallSync, keyHubEnabled}
                      then Some (VBool False) else Get s k))"
proof -
  have "settled db" "s = load_values (AllSettings db)" using Load_settled[OF assms] by simp_all
  moreover have "{keyApproveEnabled, keySummaryEnabled, keyAttachEnabled, keyAutoInstallSync, keyHubEnabled} \<subseteq> bool_keys"
    by (simp add: bool_keys_def)
  ultimately obtain db' where db': "applySecurePreset s now' db = Inr (load_values (AllSettings db'), db')" "settled db'"
    "\<forall>k. Get (load_values (AllSettings db')) k =
      (if k \<in> {keyApproveEnabled, keySummaryEnabled, keyAttachEnabled, keyAutoInstallSync, keyHubEnabled}
       then Some (VBool False) else Get s k)"
    using set_each_bools[of db "[keyApproveEnabled, keySummaryEnabled, keyAttachEnabled, keyAutoInstallSync, keyHubEnabled]" False now']
    unfolding applySecurePreset_def by auto
  then show ?thesis using settled_Load[OF db'(2)] by blast
qed

lemma secure_preset_survives_witness:
  "\<exists>s' db'. applySecurePreset (load_values (AllSettings sample_settings_db)) sample_now sample_settings_db = Inr (s', db') \<and>
    Load sample_now db' = Some (s', db') \<and> Get s' keyHubEnabled = Some (VBool False)"
  using secure_preset_survives[OF sample_settled, of sample_now sample_now] by auto

end
