(* ===== verification/Approval_Holds.thy ===== *)
theory Approval_Holds
  imports Hook_Laws Settings_Laws
begin

text \<open>
  The approvals a permission request waits for (server.go: handlePermissionRequest,
  handleApprovalDecide): the collector as a labelled step relation over the hooks, the decisions the
  operator's tools post, the ends of the waits and everything else that writes to the database, and
  what holds of the traces it can show.
\<close>

section \<open>Steps\<close>

datatype hold_event = Opened int | Accept int approvalDecision | Answered int hook_reply | Elapsed int | GivenUp int | Closed int

fun hold_opened :: "hook_reply \<Rightarrow> hold_event list" where
  "hold_opened (Holding i) = [Opened i]"
| "hold_opened _ = []"

inductive srv_step :: "outside \<Rightarrow> srv \<Rightarrow> hold_event list \<Rightarrow> srv \<Rightarrow> bool" for out :: outside where
  hook: "handle_hook out h hdr body now s = (s', reply) \<Longrightarrow> srv_step out s (hold_opened reply) s'"
| decision: "handleApprovalDecide meth path body s = (s', reply) \<Longrightarrow> reply \<noteq> Accepted \<Longrightarrow> srv_step out s [] s'"
| accepted: "handleApprovalDecide meth path body s = (s', Accepted) \<Longrightarrow> decide_body body = Some d \<Longrightarrow>
    parse_int64 (hd (split_byte (CHR ''/'') (trim_prefix path ''/approvals/''))) = Some i \<Longrightarrow> srv_step out s [Accept i d] s'"
| answer: "answer_hold out i now s = Some (s', reply) \<Longrightarrow> srv_step out s [Answered i reply] s'"
| elapse: "timeout_hold i now s = Some (s', reply) \<Longrightarrow> srv_step out s [Elapsed i] s'"
| abandon: "abandon_hold i s = Some s' \<Longrightarrow> srv_step out s [GivenUp i] s'"
| close: "close_hold i s = Some s' \<Longrightarrow> srv_step out s [Closed i] s'"
| database: "store_step (sv_db s) db \<Longrightarrow> srv_step out s [] (s\<lparr>sv_db := db\<rparr>)"

text \<open>A run from the start of the collector, when nothing is held, with its events in order.\<close>

inductive srv_run :: "outside \<Rightarrow> hold_event list \<Rightarrow> srv \<Rightarrow> bool" for out :: outside where
  start: "sv_holds s = [] \<Longrightarrow> srv_run out [] s"
| step: "srv_run out es s \<Longrightarrow> srv_step out s es' s' \<Longrightarrow> srv_run out (es @ es') s'"

section \<open>The events of one approval\<close>

definition times_opened :: "int \<Rightarrow> hold_event list \<Rightarrow> nat" where
  "times_opened i es = length (filter (\<lambda>e. e = Opened i) es)"

fun ends :: "int \<Rightarrow> hold_event \<Rightarrow> bool" where
  "ends i (Answered j r) \<longleftrightarrow> j = i"
| "ends i (Elapsed j) \<longleftrightarrow> j = i"
| "ends i (GivenUp j) \<longleftrightarrow> j = i"
| "ends i _ \<longleftrightarrow> False"

definition times_ended :: "int \<Rightarrow> hold_event list \<Rightarrow> nat" where
  "times_ended i es = length (filter (ends i) es)"

fun decision_for :: "int \<Rightarrow> hold_event \<Rightarrow> approvalDecision list" where
  "decision_for i (Accept j d) = (if j = i then [d] else [])"
| "decision_for i _ = []"

definition accepted_for :: "int \<Rightarrow> hold_event list \<Rightarrow> approvalDecision list" where
  "accepted_for i es = concat (map (decision_for i) es)"

lemma counts_append [simp]:
  "times_opened i (es @ es') = times_opened i es + times_opened i es'"
  "times_ended i (es @ es') = times_ended i es + times_ended i es'"
  "accepted_for i (es @ es') = accepted_for i es @ accepted_for i es'"
  by (simp_all add: times_opened_def times_ended_def accepted_for_def)

lemma counts_Nil [simp]: "times_opened i [] = 0" "times_ended i [] = 0" "accepted_for i [] = []"
  by (simp_all add: times_opened_def times_ended_def accepted_for_def)

lemma counts_single [simp]:
  "times_opened i [e] = (if e = Opened i then 1 else 0)" "times_ended i [e] = (if ends i e then 1 else 0)"
  "accepted_for i [e] = decision_for i e"
  by (simp_all add: times_opened_def times_ended_def accepted_for_def)

section \<open>How the state remembers the trace\<close>

definition answers_match :: "int \<Rightarrow> hold_event list \<Rightarrow> bool" where
  "answers_match i es \<longleftrightarrow>
     (\<forall>reply. Answered i reply \<in> set es \<longrightarrow>
        (\<exists>d ds k. accepted_for i es = d # ds \<and> reply = Decided (ad_behavior d) (ad_reason d) k))"

definition remembers :: "int \<Rightarrow> hold_event list \<Rightarrow> srv \<Rightarrow> bool" where
  "remembers i es s \<longleftrightarrow>
     answers_match i es
     \<and> (case find_hold i s of
          None \<Rightarrow> times_opened i es \<le> 1 \<and> times_ended i es = times_opened i es
            \<and> (cc_approval_seq (sv_db s) < i \<longrightarrow> times_opened i es = 0)
        | Some h \<Rightarrow> i \<le> cc_approval_seq (sv_db s) \<and> times_opened i es = 1
            \<and> times_ended i es = (if ho_over h then 1 else 0)
            \<and> (\<not> ho_over h \<longrightarrow> accepted_for i es = (case ho_chan h of None \<Rightarrow> [] | Some d \<Rightarrow> [d])))
     \<and> (times_opened i es = 0 \<longrightarrow> accepted_for i es = [])"

lemma find_on_hold:
  "(\<And>h. ho_id (f h) = ho_id h) \<Longrightarrow>
    find_hold i (on_hold j f s) = (if i = j then map_option f (find_hold i s) else find_hold i s)"
  using holds.lookup_put[of f i j s] by (simp add: find_hold_def lookup_row_def)

lemma find_on_db [simp]: "find_hold i (on_db f s) = find_hold i s" "find_hold i (s\<lparr>sv_db := db\<rparr>) = find_hold i s"
  by (simp_all add: find_hold_def)

text \<open>A step of other things: the holds stay and the sequence of approvals does not go back.\<close>

lemma remembers_same:
  "remembers i es s \<Longrightarrow> find_hold i s' = find_hold i s \<Longrightarrow> cc_approval_seq (sv_db s) \<le> cc_approval_seq (sv_db s') \<Longrightarrow> remembers i es s'"
  by (auto simp: remembers_def split: option.splits)

text \<open>An event of another approval changes nothing of this one.\<close>

fun about :: "hold_event \<Rightarrow> int" where
  "about (Opened j) = j" | "about (Accept j d) = j" | "about (Answered j r) = j" | "about (Elapsed j) = j"
| "about (GivenUp j) = j" | "about (Closed j) = j"

lemma remembers_other: "about e \<noteq> i \<Longrightarrow> remembers i (es @ [e]) s \<longleftrightarrow> remembers i es s"
  by (cases e) (auto simp: remembers_def answers_match_def split: option.splits)


section \<open>What a hook does to the holds\<close>

interpretation counted: hook_relation sid raw "\<lambda>db db'. cc_approval_seq db \<le> cc_approval_seq db'" for sid raw
proof unfold_locales
  show "cc_approval_seq db \<le> cc_approval_seq db''"
    if "cc_approval_seq db \<le> cc_approval_seq db'" "cc_approval_seq db' \<le> cc_approval_seq db''" for db db' db'' :: ccdb
    using that by (rule order_trans)
  show "cc_approval_seq db \<le> cc_approval_seq db'" if "Load now db = Some (cfg, db')" for now db cfg db'
    using that by (rule Load_same) simp
qed (simp_all add: upsertSession_def SetWait_def TurnWait_def SetAttention_def ClearAttention_def InsertApproval_def AppendEvent_def
    ResolvePendingByToolUseID_def ResolveOldestPendingForTool_def Let_def split: option.split)

definition holds_by :: "srv \<Rightarrow> srv \<times> hook_reply \<Rightarrow> bool" where
  "holds_by s r = (case r of (s', reply) \<Rightarrow>
     (case reply of
        Holding i \<Rightarrow> (\<exists>h. sv_holds s' = sv_holds s @ [h] \<and> ho_id h = i \<and> ho_chan h = None \<and> \<not> ho_over h)
          \<and> cc_approval_seq (sv_db s) < i \<and> i \<le> cc_approval_seq (sv_db s')
      | _ \<Rightarrow> sv_holds s' = sv_holds s))"

lemma holds_unless:
  assumes "\<And>s1. sv_holds s1 = sv_holds s \<Longrightarrow> cc_approval_seq (sv_db s) \<le> cc_approval_seq (sv_db s1) \<Longrightarrow> holds_by s (f s1)"
  shows "holds_by s (unless_panic (ensureSessionAt out hdr p st bump act now s) f)"
  using refl[of "ensureSessionAt out hdr p st bump act now s"]
proof (cases rule: ensure_cases)
  case nobody
  then show ?thesis using assms[of s] by (simp add: unless_panic_def)
next
  case (panic s1)
  then show ?thesis by (simp add: unless_panic_def holds_by_def)
next
  case (saved s1 db hide)
  have "cc_approval_seq (sv_db s) \<le> cc_approval_seq (sv_db s1)"
    using counted.ensure[of p "hp_session p", where out = out and hdr = hdr and status = st and bump = bump and activity = act and now = now and s = s] saved(2) by simp
  then show ?thesis using assms[of s1] saved(2,3) by (simp add: unless_panic_def)
qed

lemma add_event_simps [simp]:
  "sv_holds (add_event p type tool summary raw now s) = sv_holds s"
  "cc_approval_seq (sv_db (add_event p type tool summary raw now s)) = cc_approval_seq (sv_db s)"
  by (simp_all add: add_event_def AppendEvent_def Let_def)

lemma seq_Load: "Load now db = Some (cfg, db') \<Longrightarrow> cc_approval_seq db' = cc_approval_seq db"
  by (erule Load_same) simp

lemma hook_holds: "holds_by s (handle_hook out h hdr body now s)"
proof (cases "readPayload out body")
  case None
  then show ?thesis by (simp add: hook_unreadable holds_by_def)
next
  case (Some pr)
  then obtain p raw where read: "readPayload out body = Some (p, raw)" by (cases pr) auto
  note D = handleSessionStart_def handleSessionEnd_def handleUserPrompt_def handlePreTool_def handlePostTool_def
    handlePostToolFailure_def handleStop_def handleSubagentStop_def handleNotification_def handlePermissionRequest_def
    ensureSession_def with_payload_fst[OF read] handle_hook.simps Let_def
  show ?thesis
  proof (cases h)
    case PermissionRequest
    then show ?thesis
      by (simp only: D, intro holds_unless)
         (auto simp: holds_by_def InsertApproval_def Let_def dest!: seq_Load split: option.split prod.split)
  qed (simp only: D, (rule holds_unless)?, simp add: holds_by_def Let_def split: prod.split)+
qed

lemma hook_seq: "cc_approval_seq (sv_db s) \<le> cc_approval_seq (sv_db (fst (handle_hook out h hdr body now s)))"
proof (cases "readPayload out body")
  case None
  then show ?thesis by (simp add: hook_unreadable)
next
  case (Some pr)
  then obtain p raw where "readPayload out body = Some (p, raw)" by (cases pr) auto
  from counted.hook[OF this refl] show ?thesis .
qed

lemma seq_parts [simp]:
  "cc_approval_seq (on_tasks f db) = cc_approval_seq db"
  "cc_approval_seq (assign_colors pick used ids db) = cc_approval_seq db"
  "cc_approval_seq (foldl (\<lambda>db i. on_session i g db) db ids') = cc_approval_seq db"
  "cc_approval_seq (fst (SetProjectOrder names db)) = cc_approval_seq db"
proof -
  show "cc_approval_seq (assign_colors pick used ids db) = cc_approval_seq db"
    by (induction ids arbitrary: used db) (simp_all add: Let_def)
  show "cc_approval_seq (foldl (\<lambda>db i. on_session i g db) db ids') = cc_approval_seq db" for g
    by (induction ids' arbitrary: db) simp_all
  show "cc_approval_seq (on_tasks f db) = cc_approval_seq db" for f db by (simp add: on_tasks_def)
  then show "cc_approval_seq (fst (SetProjectOrder names db)) = cc_approval_seq db"
    by (simp add: SetProjectOrder_def Let_def split: sum.split)
qed

lemma store_step_seq: "store_step db db' \<Longrightarrow> cc_approval_seq db \<le> cc_approval_seq db'"
proof (induction rule: store_step.induct)
qed (simp_all add: upsertSession_def TouchSession_def AppendEvent_def InsertApproval_def Let_def UpdateApprovalStatus_def
  ResolvePendingByToolUseID_def ResolveOldestPendingForTool_def MarkStalePendingTimeout_def SetWait_def TurnWait_def
  SetAttention_def ClearAttention_def MarkSeen_def SetArchived_def SetColor_def SetFavorite_def SetLater_def SetGrid_def SetOrigin_def
  SetCustomTitle_def SetUserGroup_def SetTitleStatus_def SetGenTitle_def SweepRunningTitles_def AutoArchive_def SetSetting_def
  SetProject_def MoveProject_def RenameProject_def SetProjectColor_def AssignRunningColors_def
  split: option.split prod.split sum.split)

section \<open>Every step remembers\<close>

text \<open>A wait that ends: answered with what was accepted, or ended without an answer.\<close>

lemma remembers_ended:
  assumes "remembers i es s" "find_hold i s = Some h" "\<not> ho_over h" "find_hold i s' = Some h'" "ho_over h'"
    "cc_approval_seq (sv_db s) \<le> cc_approval_seq (sv_db s')"
    "e = Elapsed i \<or> e = GivenUp i \<or> (\<exists>d k. ho_chan h = Some d \<and> e = Answered i (Decided (ad_behavior d) (ad_reason d) k))"
  shows "remembers i (es @ [e]) s'"
  using assms by (auto simp: remembers_def answers_match_def)

lemma remembers_closed:
  assumes "remembers i es s" "find_hold i s = Some h" "ho_over h" "find_hold i s' = None" "sv_db s' = sv_db s"
  shows "remembers i (es @ [Closed i]) s'"
  using assms by (auto simp: remembers_def answers_match_def)

lemma remembers_accepted:
  assumes "remembers i es s" "find_hold i s = Some h" "ho_chan h = None"
    "find_hold i s' = Some (h\<lparr>ho_chan := Some d\<rparr>)" "sv_db s' = sv_db s"
  shows "remembers i (es @ [Accept i d]) s'"
  using assms by (auto simp: remembers_def answers_match_def)

lemma remembers_opened:
  assumes "remembers i es s" "find_hold i s = None" "find_hold i s' = Some h" "ho_chan h = None" "\<not> ho_over h"
    "cc_approval_seq (sv_db s) < i" "i \<le> cc_approval_seq (sv_db s')"
  shows "remembers i (es @ [Opened i]) s'"
  using assms by (auto simp: remembers_def answers_match_def)

lemma find_hold_app: "sv_holds s' = sv_holds s @ [h] \<Longrightarrow> find_hold i s' =
    (case find_hold i s of None \<Rightarrow> if ho_id h = i then Some h else None | Some h' \<Rightarrow> Some h')"
proof -
  have "find P (xs @ [h]) = (case find P xs of None \<Rightarrow> if P h then Some h else None | Some h' \<Rightarrow> Some h')" for P and xs :: "hold list"
    by (induction xs) auto
  then show "sv_holds s' = sv_holds s @ [h] \<Longrightarrow> ?thesis" by (simp add: find_hold_def)
qed

lemma find_hold_filter:
  "find_hold i (s\<lparr>sv_holds := filter (\<lambda>h. ho_id h \<noteq> j) (sv_holds s)\<rparr>) = (if i = j then None else find_hold i s)"
proof -
  have "find (\<lambda>h. ho_id h = i) (filter (\<lambda>h. ho_id h \<noteq> j) hs) = (if i = j then None else find (\<lambda>h. ho_id h = i) hs)" for hs :: "hold list"
    by (induction hs) auto
  then show ?thesis by (simp add: find_hold_def)
qed

lemma decide_refused: "handleApprovalDecide meth path body s = (s', reply) \<Longrightarrow> reply \<noteq> Accepted \<Longrightarrow> s' = s"
  by (auto simp: handleApprovalDecide_def decide_def split: list.splits option.splits if_splits)

lemma decide_accepted:
  "handleApprovalDecide meth path body s = (s', Accepted) \<Longrightarrow> decide_body body = Some d \<Longrightarrow>
    parse_int64 (hd (split_byte (CHR ''/'') (trim_prefix path ''/approvals/''))) = Some i \<Longrightarrow>
    \<exists>h. find_hold i s = Some h \<and> ho_chan h = None \<and> s' = on_hold i (\<lambda>h. h\<lparr>ho_chan := Some d\<rparr>) s"
  by (auto simp: handleApprovalDecide_def decide_def split: list.splits option.splits if_splits)

lemma remembers_wait_ended:
  assumes "\<forall>i. remembers i es s" "find_hold j s = Some h" "\<not> ho_over h"
    "\<And>i. find_hold i s' = (if i = j then Some (h\<lparr>ho_chan := c, ho_over := True\<rparr>) else find_hold i s)"
    "cc_approval_seq (sv_db s') = cc_approval_seq (sv_db s)"
    "e = Elapsed j \<or> e = GivenUp j \<or> (\<exists>d k. ho_chan h = Some d \<and> e = Answered j (Decided (ad_behavior d) (ad_reason d) k))"
  shows "remembers i (es @ [e]) s'"
proof (cases "i = j")
  case True
  have here: "find_hold j s' = Some (h\<lparr>ho_chan := c, ho_over := True\<rparr>)" using assms(4)[of j] by simp
  show ?thesis unfolding True
    by (rule remembers_ended[OF assms(1)[rule_format, of j] assms(2,3) here _ _ assms(6)]) (simp_all add: assms(5))
next
  case False
  moreover have "about e = j" using assms(6) by auto
  ultimately show ?thesis
    using remembers_same[OF assms(1)[rule_format, of i], of s'] remembers_other[of e i es s'] assms(4)[of i] assms(5) by simp
qed

lemma seq_UpdateApprovalStatus [simp]: "cc_approval_seq (UpdateApprovalStatus i st r now db) = cc_approval_seq db"
  by (simp add: UpdateApprovalStatus_def)

lemma step_remembers:
  assumes "srv_step out s es' s'" "\<forall>i. remembers i es s"
  shows "remembers i (es @ es') s'"
  using assms(1)
proof (cases rule: srv_step.cases)
  case (hook h hdr body now reply)
  have holds: "holds_by s (s', reply)" using hook_holds[of s out h hdr body now] hook(2) by simp
  have seq: "cc_approval_seq (sv_db s) \<le> cc_approval_seq (sv_db s')" using hook_seq[of s out h hdr body now] hook(2) by simp
  show ?thesis
  proof (cases "\<exists>j. reply = Holding j")
    case True
    then obtain j h where j: "reply = Holding j" "sv_holds s' = sv_holds s @ [h]" "ho_id h = j" "ho_chan h = None" "\<not> ho_over h"
      "cc_approval_seq (sv_db s) < j" "j \<le> cc_approval_seq (sv_db s')"
      using holds by (auto simp: holds_by_def)
    have none: "find_hold j s = None"
      using assms(2)[rule_format, of j] j(6) by (auto simp: remembers_def split: option.splits)
    show ?thesis
    proof (cases "i = j")
      case True
      then show ?thesis
        using remembers_opened[OF assms(2)[rule_format, of j] none _ j(4-7)] find_hold_app[OF j(2)] none j(1,3) hook(1) by simp
    next
      case False
      then have "find_hold i s' = find_hold i s" using find_hold_app[OF j(2)] j(3) by (simp split: option.split)
      then show ?thesis
        using remembers_same[OF assms(2)[rule_format, of i] _ seq] remembers_other[of "Opened j" i es s'] False j(1) hook(1) by simp
    qed
  next
    case False
    then have "sv_holds s' = sv_holds s" "es' = []" using holds hook(1) by (cases reply; simp add: holds_by_def)+
    then show ?thesis using remembers_same[OF assms(2)[rule_format, of i] _ seq] by (simp add: find_hold_def)
  qed
next
  case (decision meth path body reply)
  then show ?thesis using decide_refused assms(2) by fastforce
next
  case (accepted meth path body d j)
  obtain h where h: "find_hold j s = Some h" "ho_chan h = None" "s' = on_hold j (\<lambda>h. h\<lparr>ho_chan := Some d\<rparr>) s"
    using decide_accepted[OF accepted(2-4)] by blast
  show ?thesis
  proof (cases "i = j")
    case True
    then show ?thesis
      using remembers_accepted[OF assms(2)[rule_format, of j] h(1,2)] h accepted(1) by (simp add: find_on_hold)
  next
    case False
    then show ?thesis
      using remembers_same[OF assms(2)[rule_format, of i], of s'] remembers_other[of "Accept j d" i es s'] h(3) accepted(1)
      by (simp add: find_on_hold)
  qed
next
  case (answer j now reply)
  obtain h d k where h: "find_hold j s = Some h" "\<not> ho_over h" "ho_chan h = Some d" "reply = Decided (ad_behavior d) (ad_reason d) k"
    "s' = on_db (UpdateApprovalStatus j (if ad_behavior d = ''deny'' then ApprovalDenied else ApprovalApproved) (ad_reason d) now)
       (on_hold j (\<lambda>h. h\<lparr>ho_chan := None, ho_over := True\<rparr>) s)"
    using answer(2) by (auto simp: answer_hold_def Let_def split: option.splits if_splits)
  show ?thesis unfolding answer(1)
    by (rule remembers_wait_ended[OF assms(2) h(1,2), where c = None]) (auto simp: h find_on_hold)
next
  case (elapse j now reply)
  obtain h where h: "find_hold j s = Some h" "\<not> ho_over h"
    "s' = on_db (UpdateApprovalStatus j ApprovalTimeout ''ccdash: no decision within 25s'' now)
       (on_hold j (\<lambda>h. h\<lparr>ho_over := True\<rparr>) s)"
    using elapse(2) by (auto simp: timeout_hold_def split: option.splits if_splits)
  show ?thesis unfolding elapse(1)
    by (rule remembers_wait_ended[OF assms(2) h(1,2), where c = "ho_chan h"]) (auto simp: h find_on_hold)
next
  case (abandon j)
  obtain h where h: "find_hold j s = Some h" "\<not> ho_over h" "s' = on_hold j (\<lambda>h. h\<lparr>ho_over := True\<rparr>) s"
    using abandon(2) by (auto simp: abandon_hold_def split: option.splits if_splits)
  show ?thesis unfolding abandon(1)
    by (rule remembers_wait_ended[OF assms(2) h(1,2), where c = "ho_chan h"]) (auto simp: h find_on_hold)
next
  case (close j)
  obtain h where h: "find_hold j s = Some h" "ho_over h" "s' = s\<lparr>sv_holds := filter (\<lambda>h. ho_id h \<noteq> j) (sv_holds s)\<rparr>"
    using close(2) by (auto simp: close_hold_def split: option.splits if_splits)
  have gone: "find_hold i s' = (if i = j then None else find_hold i s)" for i by (simp add: h(3) find_hold_filter)
  have db: "sv_db s' = sv_db s" by (simp add: h(3))
  show ?thesis
  proof (cases "i = j")
    case True
    then show ?thesis using remembers_closed[OF assms(2)[rule_format, of j] h(1,2) _ db] gone[of j] close(1) by simp
  next
    case False
    then show ?thesis
      using remembers_same[OF assms(2)[rule_format, of i], of s'] remembers_other[of "Closed j" i es s'] gone[of i] db close(1) by simp
  qed
next
  case (database db)
  then show ?thesis using remembers_same[OF assms(2)[rule_format, of i]] store_step_seq by simp
qed

lemma run_remembers: "srv_run out es s \<Longrightarrow> remembers i es s"
proof (induction arbitrary: i rule: srv_run.induct)
  case (start s)
  then show ?case by (simp add: remembers_def answers_match_def find_hold_def)
next
  case (step es s es' s')
  then show ?case using step_remembers by blast
qed

section \<open>A collector that holds a request\<close>

lemma AllSettings_none: "cc_settings db = [] \<Longrightarrow> AllSettings db = Map.empty"
  by (rule ext) (simp add: AllSettings_def)

lemma Load_none:
  assumes "cc_settings db = []"
  shows "Load now db = Some (load_values Map.empty, db)"
proof -
  have "settled db"
    using AllSettings_none[OF assms]
    by (simp add: settled_def load_panics_def parse_empty_ratio legacyPaneRatio_def legacy_layout_def GetSetting_eq stored_value_def)
  from settled_Load[OF this] show ?thesis by (simp add: AllSettings_none assms)
qed

lemma approve_by_default: "cfg_approve_enabled (load_values Map.empty)"
  by (simp add: load_values_def loadPairs_def load_pair_def stored_value_def Defaults_def)

text \<open>The collector after the sample call asked for permission, and its trace.\<close>

definition asking_srv :: srv where
  "asking_srv = fst (handle_hook bash_out PermissionRequest (\<lambda>_. []) ''x'' sample_now sample_srv)"

lemma sample_srv_tables: "cc_settings (sv_db sample_srv) = []" "cc_approval_seq (sv_db sample_srv) = 0" "sv_holds sample_srv = []"
  by (simp_all add: sample_srv_def upsertSession_def empty_ccdb_def zero_session_def Let_def)

lemma asking:
  "handle_hook bash_out PermissionRequest (\<lambda>_. []) ''x'' sample_now sample_srv = (asking_srv, Holding 1)"
  "\<exists>h. find_hold 1 asking_srv = Some h \<and> ho_since h = unix_milli sample_now \<and> ho_chan h = None \<and> \<not> ho_over h"
proof -
  let ?r = "handle_hook bash_out PermissionRequest (\<lambda>_. []) ''x'' sample_now sample_srv"
  have "snd ?r = Holding 1 \<and> (\<exists>tool input. sv_holds (fst ?r) =
      [\<lparr>ho_id = 1, ho_tool = tool, ho_input = input, ho_since = unix_milli sample_now, ho_chan = None, ho_over = False\<rparr>])"
    by (simp add: handlePermissionRequest_def with_payload_fst[OF read_bash] ensureSession_def ensureSessionAt_def unless_panic_def
        headerVal_def Headless_def UpsertSessionKeepLastSeen_def dialogTools_def InsertApproval_def Load_none approve_by_default
        sample_srv_tables upsertSession_def add_event_def AppendEvent_def Let_def)
  then show "?r = (asking_srv, Holding 1)"
    "\<exists>h. find_hold 1 asking_srv = Some h \<and> ho_since h = unix_milli sample_now \<and> ho_chan h = None \<and> \<not> ho_over h"
    by (auto simp: asking_srv_def prod_eq_iff find_hold_def)
qed

lemma asking_run: "srv_run bash_out [Opened 1] asking_srv"
  using srv_run.step[OF srv_run.start[OF sample_srv_tables(3)] srv_step.hook[OF asking(1)]] by simp

section \<open>What the traces show\<close>

text \<open>C18. A permission request gets one end. In every run of the collector (hooks, decisions, answers, time-outs,
  abandoned requests and any other change of the database, in any order) an approval is held at most once and ends at most once, and when it is
  answered, the answer is the first decision that was accepted for it.
\<close>

theorem approvals_end_once:
  assumes "srv_run out es s"
  shows "times_opened i es \<le> 1 \<and> times_ended i es \<le> times_opened i es \<and> answers_match i es"
  using run_remembers[OF assms, of i] by (auto simp: remembers_def split: option.splits if_splits)

theorem approvals_end_once_witness:
  "times_opened 1 [Opened 1] \<le> 1 \<and> times_ended 1 [Opened 1] \<le> times_opened 1 [Opened 1] \<and> answers_match 1 [Opened 1]"
  using approvals_end_once[OF asking_run, of 1] by blast

lemma timeout_enabled:
  assumes "find_hold i s = Some h" "\<not> ho_over h"
  shows "timeout_hold i now s \<noteq> None \<longleftrightarrow> ho_since h + decideWindow \<le> unix_milli now"
  using assms by (simp add: timeout_hold_def)

lemma close_over:
  assumes "find_hold i s = Some h" "ho_over h"
  obtains s' where "close_hold i s = Some s'" "find_hold i s' = None"
  using assms by (simp add: close_hold_def find_hold_filter)

lemma end_wait:
  assumes "srv_run out es s" "find_hold i s = Some h" "ho_since h + decideWindow \<le> unix_milli now"
  obtains es' s' where "srv_run out (es @ es') s'" "es' = (if ho_over h then [Closed i] else [Elapsed i, Closed i])" "find_hold i s' = None"
proof (cases "ho_over h")
  case True
  then obtain s' where s': "close_hold i s = Some s'" "find_hold i s' = None" by (rule close_over[OF assms(2)])
  show ?thesis using that[OF srv_run.step[OF assms(1) srv_step.close[OF s'(1)]] _ s'(2)] True by simp
next
  case False
  then obtain s1 where s1: "timeout_hold i now s = Some (s1, NoOutput)" "find_hold i s1 = Some (h\<lparr>ho_over := True\<rparr>)"
    using assms(2,3) by (auto simp: timeout_hold_def find_on_hold)
  obtain s' where s': "close_hold i s1 = Some s'" "find_hold i s' = None" by (rule close_over[OF s1(2)]) simp
  show ?thesis
    using that[OF srv_run.step[OF srv_run.step[OF assms(1) srv_step.elapse[OF s1(1)]] srv_step.close[OF s'(1)],
          unfolded append_assoc] _ s'(2)] False by simp
qed



section \<open>A decision that is accepted and lost\<close>

text \<open>A decision posted after the window is over, or one that meets the end of the window, is accepted and never given.\<close>

lemma accepted_decision_lost:
  assumes "find_hold i s = Some h" "ho_chan h = None" "\<not> ho_over h" "ho_since h + decideWindow \<le> unix_milli now"
  shows "\<exists>s1 s2. decide i d s = (s1, Accepted) \<and> timeout_hold i now s1 = Some (s2, NoOutput)
    \<and> (\<forall>now. answer_hold out i now s2 = None) \<and> decide i d' s2 = (s2, AlreadyAccepted)"
  using assms by (auto simp: decide_def timeout_hold_def answer_hold_def find_on_hold split: option.split)

text \<open>One made while an answered request is being removed is accepted too, and dropped.\<close>

lemma second_decision_accepted:
  assumes "find_hold i s = Some h" "ho_chan h = Some d" "\<not> ho_over h"
  shows "\<exists>s1 reply s2. answer_hold out i now s = Some (s1, reply) \<and> decide i d' s1 = (s2, Accepted)
    \<and> (\<forall>now. answer_hold out i now s2 = None \<and> timeout_hold i now s2 = None)"
  using assms by (auto simp: decide_def timeout_hold_def answer_hold_def find_on_hold Let_def split: option.split)

end
