(* ===== verification/Screen_Frames.thy ===== *)
theory Screen_Frames
  imports Go_Prelude
begin

text \<open>
  How the screen of a claude in a terminal reaches the people who look at it (internal/server: strfilter.go,
  screen.go; internal/screen; internal/tui: live.go): the bytes are filtered on their way into the emulator, each
  viewer is sent the rows that changed, and puts them together again. The emulator and the widths of text are
  libraries: what is read of them is an argument.
\<close>

section \<open>The filter before the emulator\<close>

datatype strFilterState = SfGround | SfEsc | SfStr | SfStrEsc

definition bEsc :: char where [simp]: "bEsc = CHR 0x1B"
definition bBel :: char where [simp]: "bBel = CHR 0x07"
definition bCan :: char where [simp]: "bCan = CHR 0x18"
definition bSub :: char where [simp]: "bSub = CHR 0x1A"

definition escNext :: "char \<Rightarrow> strFilterState" where
  "escNext b =
     (if b \<in> {CHR 0x5D, CHR ''P'', CHR ''_'', CHR 0x5E, CHR ''X''} then SfStr
      else if b = bEsc then SfEsc else SfGround)"

fun filter_next :: "strFilterState \<Rightarrow> char \<Rightarrow> strFilterState" where
  "filter_next SfGround b = (if b = bEsc then SfEsc else SfGround)"
| "filter_next SfEsc b = escNext b"
| "filter_next SfStr b = (if b = bEsc then SfStrEsc else if b = bBel \<or> b = bCan \<or> b = bSub then SfGround else SfStr)"
| "filter_next SfStrEsc b = (if b = CHR 0x5C then SfGround else escNext b)"

definition filter_drops :: "strFilterState \<Rightarrow> char \<Rightarrow> bool" where
  "filter_drops st b \<longleftrightarrow> st = SfStr \<and> byte_in 0x80 0xFF b"

text \<open>The bytes of one write, and the state kept for the next.\<close>

fun filter_bytes :: "strFilterState \<Rightarrow> string \<Rightarrow> strFilterState \<times> string" where
  "filter_bytes st [] = (st, [])"
| "filter_bytes st (b # p) =
     (case filter_bytes (filter_next st b) p of (st', out) \<Rightarrow> (st', if filter_drops st b then out else b # out))"

section \<open>A picture of the screen\<close>

record ansi_lib =
  StringWidth :: "string \<Rightarrow> int"
  Truncate :: "string \<Rightarrow> int \<Rightarrow> string"
  ResetStyle :: string

text \<open>What is read of the emulator and of the entry at one moment; the lines of the scrollback are rendered.\<close>

record term_view =
  tv_render :: string
  tv_x :: int
  tv_y :: int
  tv_width :: int
  tv_height :: int
  tv_alt :: bool
  tv_back :: "string list"
  tv_hidden :: bool
  tv_style :: int
  tv_blink :: bool
  tv_mouse :: bool
  tv_exited :: bool
  tv_err :: "string option"

record cursor =
  cu_x :: int
  cu_y :: int
  cu_visible :: bool
  cu_shape :: int
  cu_blink :: bool

record screenViewer =
  sv_last :: "string list"
  sv_lastW :: int
  sv_lastH :: int
  sv_full :: bool
  sv_scroll :: int
  sv_lastSB :: int

definition fit_row :: "ansi_lib \<Rightarrow> int \<Rightarrow> string \<Rightarrow> string" where
  "fit_row lib w r =
     (let pad = w - StringWidth lib r
      in (if 0 < pad then r @ replicate (nat pad) (CHR '' '') else if pad < 0 then Truncate lib r w else r) @ ResetStyle lib)"

definition padRows :: "ansi_lib \<Rightarrow> string \<Rightarrow> int \<Rightarrow> int \<Rightarrow> string list" where
  "padRows lib raw w h =
     (let rows = split_byte (CHR 0x0A) raw
      in map (fit_row lib w) (take (nat h) (rows @ replicate (nat h - length rows) [])))"

text \<open>How far the viewer is scrolled back now, the lines that fall into view, and the viewer.\<close>

definition scrolled :: "term_view \<Rightarrow> screenViewer \<Rightarrow> string list \<times> screenViewer" where
  "scrolled e v =
     (if \<not> 0 < sv_scroll v then ([], v)
      else if tv_alt e then ([], v\<lparr>sv_scroll := 0\<rparr>)
      else
        let n = int (length (tv_back e));
            s = min (sv_scroll v + max (n - sv_lastSB v) 0) n
        in (take (nat (tv_height e)) (drop (nat (n - s)) (tv_back e)), v\<lparr>sv_scroll := s, sv_lastSB := n\<rparr>))"

type_synonym snapshot = "string list \<times> int \<times> int \<times> int \<times> cursor"

definition snapshotFor :: "ansi_lib \<Rightarrow> term_view \<Rightarrow> screenViewer \<Rightarrow> snapshot \<times> screenViewer" where
  "snapshotFor lib e v =
     (let w = tv_width e;
          h = tv_height e;
          cur = \<lparr>cu_x = tv_x e, cu_y = tv_y e, cu_visible = \<not> tv_hidden e, cu_shape = tv_style e, cu_blink = tv_blink e\<rparr>;
          (lines, v) = scrolled e v;
          rows = padRows lib (tv_render e) w h
      in if 0 < sv_scroll v
         then ((padRows lib (join_with [CHR 0x0A] (take (nat h) (lines @ rows))) w h, w, h, sv_scroll v, cur\<lparr>cu_visible := False\<rparr>), v)
         else ((rows, w, h, sv_scroll v, cur), v))"

section \<open>Frames\<close>

record line =
  ln_y :: int
  ln_s :: string

datatype frame_type = FrameTypeFrame | FrameTypeExit | FrameTypeClosed

record frame =
  fr_type :: frame_type
  fr_w :: int
  fr_h :: int
  fr_full :: bool
  fr_lines :: "line list"
  fr_cursor :: cursor
  fr_scroll :: int
  fr_err :: string

definition diffRows :: "string list \<Rightarrow> string list \<Rightarrow> bool \<Rightarrow> line list" where
  "diffRows prev cur full =
     map (\<lambda>i. \<lparr>ln_y = int i, ln_s = cur ! i\<rparr>)
       (filter (\<lambda>i. full \<or> length prev \<noteq> length cur \<or> cur ! i \<noteq> prev ! i) [0 ..< length cur])"

definition buildFrame :: "ansi_lib \<Rightarrow> term_view \<Rightarrow> screenViewer \<Rightarrow> frame \<times> screenViewer" where
  "buildFrame lib e v =
     (case snapshotFor lib e v of
        ((rows, w, h, scroll, cur), v) \<Rightarrow>
          let full = (sv_full v \<or> sv_lastW v \<noteq> w \<or> sv_lastH v \<noteq> h)
          in (\<lparr>fr_type = (if tv_exited e then FrameTypeExit else FrameTypeFrame), fr_w = w, fr_h = h, fr_full = full,
               fr_lines = diffRows (sv_last v) rows full, fr_cursor = cur, fr_scroll = scroll,
               fr_err = (case (tv_exited e, tv_err e) of (True, Some p) \<Rightarrow> p | _ \<Rightarrow> [])\<rparr>,
              v\<lparr>sv_full := False, sv_last := rows, sv_lastW := w, sv_lastH := h\<rparr>))"

section \<open>What moves a viewer\<close>

datatype wheel_button = MouseWheelUp | MouseWheelDown | OtherButton

definition wheelScrollStep :: int where "wheelScrollStep = 3"

definition wheel :: "term_view \<Rightarrow> wheel_button \<Rightarrow> screenViewer \<Rightarrow> screenViewer" where
  "wheel e b v =
     (if tv_exited e \<or> tv_mouse e \<or> tv_alt e then v
      else
        let n = int (length (tv_back e))
        in case b of
             MouseWheelUp \<Rightarrow> v\<lparr>sv_scroll := min (sv_scroll v + wheelScrollStep) n, sv_lastSB := n\<rparr>
           | MouseWheelDown \<Rightarrow> v\<lparr>sv_scroll := max (sv_scroll v - wheelScrollStep) 0, sv_lastSB := n\<rparr>
           | OtherButton \<Rightarrow> v)"

definition viewer_typed :: "screenViewer \<Rightarrow> screenViewer" where
  "viewer_typed v = v\<lparr>sv_scroll := 0\<rparr>"

definition viewer_resized :: "int \<Rightarrow> int \<Rightarrow> screenViewer \<Rightarrow> screenViewer" where
  "viewer_resized cols rows v = (if cols \<le> 0 \<or> rows \<le> 0 then v else v\<lparr>sv_full := True\<rparr>)"

text \<open>A frame is due, or something else happens to the viewer; after the exit nothing more is sent.\<close>

datatype view_event = Due term_view | Wheel term_view wheel_button | Typed | Resized int int

fun serve :: "ansi_lib \<Rightarrow> view_event list \<Rightarrow> screenViewer \<Rightarrow> frame list" where
  "serve lib [] v = []"
| "serve lib (Due e # es) v =
     (case buildFrame lib e v of (f, v) \<Rightarrow> if fr_type f = FrameTypeExit then [f] else f # serve lib es v)"
| "serve lib (Wheel e b # es) v = serve lib es (wheel e b v)"
| "serve lib (Typed # es) v = serve lib es (viewer_typed v)"
| "serve lib (Resized c r # es) v = serve lib es (viewer_resized c r v)"

definition new_viewer :: screenViewer where
  "new_viewer = \<lparr>sv_last = [], sv_lastW = 0, sv_lastH = 0, sv_full = True, sv_scroll = 0, sv_lastSB = 0\<rparr>"

section \<open>The dashboard\<close>

record liveScreen =
  li_rows :: "string list"
  li_w :: int
  li_h :: int
  li_cur :: cursor
  li_scroll :: int
  li_exited :: bool
  li_err :: string

definition put_line :: "line \<Rightarrow> string list \<Rightarrow> string list" where
  "put_line ln rows = (if 0 \<le> ln_y ln \<and> ln_y ln < int (length rows) then rows[nat (ln_y ln) := ln_s ln] else rows)"

definition applyFrame :: "frame \<Rightarrow> liveScreen \<Rightarrow> liveScreen" where
  "applyFrame f l =
     (if fr_w f \<le> 0 \<or> fr_h f \<le> 0 then l
      else
        let l = (if fr_full f \<or> fr_w f \<noteq> li_w l \<or> fr_h f \<noteq> li_h l \<or> int (length (li_rows l)) \<noteq> fr_h f
                 then l\<lparr>li_w := fr_w f, li_h := fr_h f, li_rows := replicate (nat (fr_h f)) (replicate (nat (fr_w f)) (CHR '' ''))\<rparr>
                 else l)
        in l\<lparr>li_rows := fold put_line (fr_lines f) (li_rows l), li_cur := fr_cursor f, li_scroll := fr_scroll f\<rparr>)"

text \<open>None: the stream is closed and the screen is given up.\<close>

definition live_frame :: "frame \<Rightarrow> liveScreen \<Rightarrow> liveScreen option" where
  "live_frame f l =
     (case fr_type f of
        FrameTypeClosed \<Rightarrow> None
      | FrameTypeExit \<Rightarrow> Some (applyFrame f (l\<lparr>li_exited := True, li_err := fr_err f\<rparr>))
      | FrameTypeFrame \<Rightarrow> Some (applyFrame f l))"

fun handleLiveFrames :: "frame list \<Rightarrow> liveScreen \<Rightarrow> liveScreen option" where
  "handleLiveFrames [] l = Some l"
| "handleLiveFrames (f # fs) l = (case live_frame f l of None \<Rightarrow> None | Some l \<Rightarrow> handleLiveFrames fs l)"

end
