(* ===== verification/Screen_Facts.thy ===== *)
theory Screen_Facts
  imports Screen_Frames
begin

text \<open>
  That the filter does the same however the bytes arrive and lets nothing but text through inside a control string,
  and that what a viewer puts together from the frames is the screen they were made from.
\<close>

section \<open>The filter\<close>

lemma filter_append:
  "filter_bytes st (p @ q) = (case filter_bytes st p of (st', out) \<Rightarrow> case filter_bytes st' q of (st'', out') \<Rightarrow> (st'', out @ out'))"
  by (induction p arbitrary: st) (simp_all split: prod.split)

lemma dropped_keeps: "filter_drops st b \<Longrightarrow> filter_next st b = st"
  by (auto simp: filter_drops_def byte_in_def)

lemma filter_again: "filter_bytes st p = (st', out) \<Longrightarrow> filter_bytes st out = (st', out)"
proof (induction p arbitrary: st st' out)
  case (Cons b p)
  obtain s o1 where f: "filter_bytes (filter_next st b) p = (s, o1)" by fastforce
  then have again: "filter_bytes (filter_next st b) o1 = (s, o1)" by (rule Cons.IH)
  show ?case using Cons.prems f again dropped_keeps[of st b] by (cases "filter_drops st b") auto
qed simp

lemma filter_keeps_ascii:
  assumes "filter_bytes st p = (st', out)"
  shows "filter (\<lambda>b. \<not> byte_in 0x80 0xFF b) out = filter (\<lambda>b. \<not> byte_in 0x80 0xFF b) p"
  using assms
proof (induction p arbitrary: st st' out)
  case (Cons b p)
  obtain s o1 where f: "filter_bytes (filter_next st b) p = (s, o1)" by fastforce
  show ?case using Cons.prems f Cons.IH[OF f] by (auto simp: filter_drops_def split: if_splits)
qed simp

lemma filter_text: "CHR 0x1B \<notin> set p \<Longrightarrow> filter_bytes SfGround p = (SfGround, p)"
  by (induction p) (auto simp: filter_drops_def)

lemma filter_string:
  "list_all (\<lambda>b. b \<notin> {bEsc, bBel, bCan, bSub}) p \<Longrightarrow> filter_bytes SfStr p = (SfStr, filter (\<lambda>b. \<not> byte_in 0x80 0xFF b) p)"
  by (induction p) (simp_all add: filter_drops_def)

text \<open>The filter does the same however its input is cut into writes, changes nothing the second time and nothing
  outside control strings, never drops ASCII, and lets only the ASCII of a window title through.
\<close>

theorem filter_is_sound:
  assumes "list_all (\<lambda>b. b \<notin> {bEsc, bBel, bCan, bSub}) title" "bEsc \<notin> set t"
  shows "filter_bytes st (p @ q) =
      (fst (filter_bytes (fst (filter_bytes st p)) q), snd (filter_bytes st p) @ snd (filter_bytes (fst (filter_bytes st p)) q))
    \<and> filter_bytes st (snd (filter_bytes st p)) = filter_bytes st p
    \<and> filter (\<lambda>b. \<not> byte_in 0x80 0xFF b) (snd (filter_bytes st p)) = filter (\<lambda>b. \<not> byte_in 0x80 0xFF b) p
    \<and> filter_bytes SfGround (t @ bEsc # CHR 0x5D # title @ bBel # t) =
        (SfGround, t @ bEsc # CHR 0x5D # filter (\<lambda>b. \<not> byte_in 0x80 0xFF b) title @ bBel # t)"
proof (intro conjI)
  show "filter_bytes st (p @ q) =
      (fst (filter_bytes (fst (filter_bytes st p)) q), snd (filter_bytes st p) @ snd (filter_bytes (fst (filter_bytes st p)) q))"
    by (simp add: filter_append split: prod.split)
  show "filter_bytes st (snd (filter_bytes st p)) = filter_bytes st p"
    using filter_again[of st p] by (cases "filter_bytes st p") simp
  show "filter (\<lambda>b. \<not> byte_in 0x80 0xFF b) (snd (filter_bytes st p)) = filter (\<lambda>b. \<not> byte_in 0x80 0xFF b) p"
    using filter_keeps_ascii[of st p] by (cases "filter_bytes st p") simp
  have t: "filter_bytes SfGround t = (SfGround, t)" using assms(2) by (simp add: filter_text)
  show "filter_bytes SfGround (t @ bEsc # CHR 0x5D # title @ bBel # t) =
        (SfGround, t @ bEsc # CHR 0x5D # filter (\<lambda>b. \<not> byte_in 0x80 0xFF b) title @ bBel # t)"
    using filter_string[OF assms(1)] t by (simp add: filter_append escNext_def filter_drops_def byte_in_def)
qed

theorem filter_is_sound_witness:
  "filter_bytes SfGround (''ok'' @ bEsc # CHR 0x5D # [CHR 0xE2, CHR 0x9C, CHR 0xB3, CHR ''x''] @ bBel # ''ok'')
    = (SfGround, ''ok'' @ bEsc # CHR 0x5D # ''x'' @ bBel # ''ok'')"
  using filter_is_sound[of "[CHR 0xE2, CHR 0x9C, CHR 0xB3, CHR ''x'']" "''ok''"] by (simp add: byte_in_def)

section \<open>Frames put together again\<close>

lemma padRows_length [simp]: "length (padRows lib raw w h) = nat h"
  by (simp add: padRows_def Let_def)

lemma snapshot_sizes:
  assumes "snapshotFor lib e v = ((rows, w, h, scroll, cur), v')"
  shows "length rows = nat (tv_height e)" "w = tv_width e" "h = tv_height e" "scroll = sv_scroll v'"
    "sv_full v' = sv_full v" "sv_last v' = sv_last v" "sv_lastW v' = sv_lastW v" "sv_lastH v' = sv_lastH v"
proof -
  obtain ls v1 where sc: "scrolled e v = (ls, v1)" by fastforce
  have r: "v1 = v' \<and> length rows = nat (tv_height e) \<and> w = tv_width e \<and> h = tv_height e \<and> scroll = sv_scroll v1"
  proof (cases "0 < sv_scroll v1")
    case True
    then show ?thesis using assms unfolding snapshotFor_def Let_def sc by (simp only: prod.case if_True Pair_inject) auto
  next
    case False
    then show ?thesis using assms unfolding snapshotFor_def Let_def sc by (simp only: prod.case if_False Pair_inject) auto
  qed
  then have v': "scrolled e v = (ls, v')" using sc by simp
  have k: "sv_full v' = sv_full v" "sv_last v' = sv_last v" "sv_lastW v' = sv_lastW v" "sv_lastH v' = sv_lastH v"
    using v' by (cases "\<not> 0 < sv_scroll v"; cases "tv_alt e"; auto simp: scrolled_def Let_def)+
  show "length rows = nat (tv_height e)" "w = tv_width e" "h = tv_height e" "scroll = sv_scroll v'"
    "sv_full v' = sv_full v" "sv_last v' = sv_last v" "sv_lastW v' = sv_lastW v" "sv_lastH v' = sv_lastH v" using r k by simp_all
qed

text \<open>Putting the lines of a difference into the rows it was taken from gives the new rows.\<close>

lemma put_lines:
  assumes "length rows = length cur" "sorted_wrt (<) is" "\<forall>i \<in> set is. i < length cur"
  shows "fold put_line (map (\<lambda>i. \<lparr>ln_y = int i, ln_s = cur ! i\<rparr>) is) rows = map (\<lambda>i. if i \<in> set is then cur ! i else rows ! i) [0 ..< length cur]"
  using assms
proof (induction "is" arbitrary: rows)
  case Nil
  then show ?case by simp (metis map_nth)
next
  case (Cons i "is")
  have "put_line \<lparr>ln_y = int i, ln_s = cur ! i\<rparr> rows = rows[i := cur ! i]" using Cons.prems by (simp add: put_line_def)
  then show ?case using Cons by (auto simp: nth_list_update)
qed

lemma diff_applied:
  assumes "length rows = length cur" "full \<or> length prev \<noteq> length cur \<or> rows = prev"
  shows "fold put_line (diffRows prev cur full) rows = cur"
  unfolding diffRows_def
proof (subst put_lines)
  let ?is = "filter (\<lambda>i. full \<or> length prev \<noteq> length cur \<or> cur ! i \<noteq> prev ! i) [0 ..< length cur]"
  show "sorted_wrt (<) ?is" by (simp add: sorted_wrt_filter)
  show "map (\<lambda>i. if i \<in> set ?is then cur ! i else rows ! i) [0 ..< length cur] = cur"
    using assms by (intro nth_equalityI) auto
qed (use assms in auto)

text \<open>A viewer and a screen that agree on the frame sent last.\<close>

definition same_picture :: "screenViewer \<Rightarrow> liveScreen \<Rightarrow> bool" where
  "same_picture v l \<longleftrightarrow> li_rows l = sv_last v \<and> li_w l = sv_lastW v \<and> li_h l = sv_lastH v"

lemma frame_shown:
  assumes "buildFrame lib e v = (f, v')" "sv_full v \<or> same_picture v l" "0 < tv_width e" "0 < tv_height e"
  shows "\<exists>l'. live_frame f l = Some l' \<and> same_picture v' l' \<and> fst (snapshotFor lib e v) = (li_rows l', li_w l', li_h l', li_scroll l', li_cur l')"
proof -
  obtain rows w h scroll cur v1 where s: "snapshotFor lib e v = ((rows, w, h, scroll, cur), v1)" by (metis prod_cases5 surj_pair)
  note n = snapshot_sizes[OF s]
  define full where "full = (sv_full v1 \<or> sv_lastW v1 \<noteq> w \<or> sv_lastH v1 \<noteq> h)"
  have f: "fr_w f = w" "fr_h f = h" "fr_full f = full" "fr_lines f = diffRows (sv_last v1) rows full" "fr_cursor f = cur" "fr_scroll f = scroll"
    "fr_type f \<noteq> FrameTypeClosed" and v': "sv_last v' = rows" "sv_lastW v' = w" "sv_lastH v' = h"
    using assms(1) by (auto simp: buildFrame_def s full_def Let_def split: if_splits)
  have h: "int (length rows) = h" "0 < w" "0 < h" using n(1-3) assms(3,4) by simp_all
  have applied: "li_rows (applyFrame f l0) = rows \<and> li_w (applyFrame f l0) = w \<and> li_h (applyFrame f l0) = h
      \<and> li_scroll (applyFrame f l0) = scroll \<and> li_cur (applyFrame f l0) = cur"
    if "li_rows l0 = li_rows l" "li_w l0 = li_w l" "li_h l0 = li_h l" for l0
  proof (cases "full \<or> w \<noteq> li_w l0 \<or> h \<noteq> li_h l0 \<or> int (length (li_rows l0)) \<noteq> h")
    case True
    have "full \<or> length (sv_last v1) \<noteq> length rows" using True that assms(2) n h by (auto simp: full_def same_picture_def)
    then have "fold put_line (diffRows (sv_last v1) rows full) (replicate (nat h) b) = rows" for b
      using h by (intro diff_applied) auto
    then show ?thesis using True h by (simp add: applyFrame_def f)
  next
    case False
    then have "\<not> sv_full v" using n by (auto simp: full_def)
    then have "li_rows l0 = sv_last v1" using assms(2) that n by (simp add: same_picture_def)
    then have "fold put_line (diffRows (sv_last v1) rows full) (li_rows l0) = rows" using False h by (intro diff_applied) auto
    then show ?thesis using False h by (simp add: applyFrame_def f)
  qed
  obtain l0 where l0: "live_frame f l = Some (applyFrame f l0)" "li_rows l0 = li_rows l" "li_w l0 = li_w l" "li_h l0 = li_h l"
    using f(7) by (cases "fr_type f") (auto simp: live_frame_def)
  then show ?thesis using applied[OF l0(2-4)] by (auto simp: same_picture_def v' s)
qed

text \<open>The pictures the frames of a viewer are made from.\<close>

fun pictures :: "ansi_lib \<Rightarrow> view_event list \<Rightarrow> screenViewer \<Rightarrow> snapshot list" where
  "pictures lib [] v = []"
| "pictures lib (Due e # es) v =
     fst (snapshotFor lib e v) # (if tv_exited e then [] else pictures lib es (snd (buildFrame lib e v)))"
| "pictures lib (Wheel e b # es) v = pictures lib es (wheel e b v)"
| "pictures lib (Typed # es) v = pictures lib es (viewer_typed v)"
| "pictures lib (Resized c r # es) v = pictures lib es (viewer_resized c r v)"

definition sized :: "view_event \<Rightarrow> bool" where
  "sized ev = (case ev of Due e \<Rightarrow> 0 < tv_width e \<and> 0 < tv_height e | _ \<Rightarrow> True)"

definition picture :: "liveScreen \<Rightarrow> snapshot" where
  "picture l = (li_rows l, li_w l, li_h l, li_scroll l, li_cur l)"

lemma kept_picture:
  "same_picture (wheel e b v) l \<longleftrightarrow> same_picture v l" "same_picture (viewer_typed v) l \<longleftrightarrow> same_picture v l"
  "same_picture (viewer_resized c r v) l \<longleftrightarrow> same_picture v l"
  "sv_full v \<Longrightarrow> sv_full (wheel e b v)" "sv_full v \<Longrightarrow> sv_full (viewer_typed v)" "sv_full v \<Longrightarrow> sv_full (viewer_resized c r v)"
  by (auto simp: same_picture_def wheel_def viewer_typed_def viewer_resized_def Let_def split: wheel_button.split)

lemma frame_type: "buildFrame lib e v = (f, v') \<Longrightarrow> (fr_type f = FrameTypeExit) = tv_exited e"
  by (cases "tv_exited e"; cases "snapshotFor lib e v") (auto simp: buildFrame_def Let_def split: prod.splits)

lemma frames_shown:
  assumes "list_all sized es" "sv_full v \<or> same_picture v l"
  shows "length (pictures lib es v) = length (serve lib es v)
    \<and> (\<forall>k < length (serve lib es v). \<exists>l'. handleLiveFrames (take (Suc k) (serve lib es v)) l = Some l' \<and> picture l' = pictures lib es v ! k)"
  using assms
proof (induction lib es v arbitrary: l rule: serve.induct)
  case (2 lib e es v)
  obtain f v' where b: "buildFrame lib e v = (f, v')" by fastforce
  have size: "0 < tv_width e" "0 < tv_height e" using 2(2) by (simp_all add: sized_def)
  obtain l' where l': "live_frame f l = Some l'" "same_picture v' l'" "picture l' = fst (snapshotFor lib e v)"
    using frame_shown[OF b 2(3) size] by (auto simp: picture_def)
  have t: "(fr_type f = FrameTypeExit) = tv_exited e" using b by (rule frame_type)
  show ?case
  proof (cases "tv_exited e")
    case True
    then show ?thesis using t b l' by simp
  next
    case False
    have rest: "length (pictures lib es v') = length (serve lib es v')
      \<and> (\<forall>k < length (serve lib es v'). \<exists>l''. handleLiveFrames (take (Suc k) (serve lib es v')) l' = Some l'' \<and> picture l'' = pictures lib es v' ! k)"
      using 2(1)[OF b[symmetric] _ _ disjI2[OF l'(2)]] False t 2(2) by simp
    have "\<exists>l''. handleLiveFrames (take (Suc k) (f # serve lib es v')) l = Some l''
        \<and> picture l'' = (fst (snapshotFor lib e v) # pictures lib es v') ! k" if "k < Suc (length (serve lib es v'))" for k
      using that rest l' by (cases k) (simp_all add: less_Suc_eq_0_disj)
    then show ?thesis using False t b rest by simp
  qed
qed (auto simp: kept_picture)

text \<open>C25. What a viewer shows after each frame is exactly the picture that frame was made from: its rows, size, cursor and
  place in the scrollback, whatever it showed before and however the screen, its size and the viewer's place
  changed in between.
\<close>

theorem viewer_shows_the_screen:
  assumes "list_all sized es"
  shows "length (serve lib es new_viewer) = length (pictures lib es new_viewer)
    \<and> (\<forall>k < length (serve lib es new_viewer). \<exists>l'.
        handleLiveFrames (take (Suc k) (serve lib es new_viewer)) l = Some l' \<and> picture l' = pictures lib es new_viewer ! k)"
  using frames_shown[OF assms, of new_viewer l lib] by (simp add: new_viewer_def)

definition blank_view :: "string \<Rightarrow> term_view" where
  "blank_view s = \<lparr>tv_render = s, tv_x = 0, tv_y = 0, tv_width = 2, tv_height = 2, tv_alt = False, tv_back = [''aa''], tv_hidden = False, tv_style = 0,
     tv_blink = True, tv_mouse = False, tv_exited = False, tv_err = None\<rparr>"

definition plain_lib :: ansi_lib where
  "plain_lib = \<lparr>StringWidth = \<lambda>s. int (length s), Truncate = \<lambda>s w. take (nat w) s, ResetStyle = [bEsc, CHR 0x5B, CHR ''m'']\<rparr>"

definition blank_live :: liveScreen where
  "blank_live = \<lparr>li_rows = [''old''], li_w = 3, li_h = 1, li_cur = \<lparr>cu_x = 0, cu_y = 0, cu_visible = True, cu_shape = 0, cu_blink = False\<rparr>, li_scroll = 0,
     li_exited = False, li_err = []\<rparr>"

theorem viewer_shows_the_screen_witness:
  "\<exists>l'. handleLiveFrames (take 2 (serve plain_lib [Due (blank_view ''b''), Wheel (blank_view ''b'') MouseWheelUp, Due (blank_view ''c'')] new_viewer)) blank_live = Some l'
     \<and> picture l' = pictures plain_lib [Due (blank_view ''b''), Wheel (blank_view ''b'') MouseWheelUp, Due (blank_view ''c'')] new_viewer ! 1"
proof -
  let ?es = "[Due (blank_view ''b''), Wheel (blank_view ''b'') MouseWheelUp, Due (blank_view ''c'')]"
  have sized: "list_all sized ?es" by (simp add: sized_def blank_view_def)
  have two: "length (pictures plain_lib ?es new_viewer) = 2" by (simp add: blank_view_def)
  then show ?thesis
    using viewer_shows_the_screen[OF sized, of plain_lib blank_live] by (metis One_nat_def Suc_1 lessI)
qed

end
