(* ===== verification/Terminals.thy ===== *)
theory Terminals
  imports Session_Hooks "HOL-Library.AList"
begin

text \<open>
  The claudes the collector runs in terminals of its own (internal/server: pty.go, restart.go, attention.go;
  internal/attach: cmd.go). An entry is an address into the list of everything that was ever started, so that two
  keys of the map can stand for the same entry; the order of the map stands for the order in which a loop over it
  happens to go. Reading and writing the terminals themselves is outside; what a screen asks is an argument.
\<close>

section \<open>The command line\<close>

definition shellQuote :: "string \<Rightarrow> string" where
  "shellQuote s = CHR 0x27 # concat (map (\<lambda>c. if c = CHR 0x27 then [CHR 0x27, CHR 0x5C, CHR 0x27, CHR 0x27] else [c]) s) @ [CHR 0x27]"

text \<open>The program and its arguments: the shell of the environment, if it has one, with one line.\<close>

definition ViaShell :: "string \<Rightarrow> string list \<Rightarrow> string \<times> string list" where
  "ViaShell shell args =
     (if shell = [] then (''claude'', args) else (shell, [''-i'', ''-c'', join_with '' '' (''claude'' # map shellQuote args)]))"

definition stripPfx :: "string list" where
  "stripPfx = [''WARP_'', ''GHOSTTY_'', ''ITERM_'', ''KITTY_'', ''TABBY_'', ''CLAUDE_CODE_'', ''VSCODE_'']"

definition stripKey :: "string list" where
  "stripKey = [''TERM_PROGRAM'', ''TERM_PROGRAM_VERSION'', ''CLAUDECODE'', ''CLAUDE_PID'', ''CLAUDE_EFFORT'', ''CLAUDE_PROJECT_DIR'']"

definition env_key :: "string \<Rightarrow> string" where
  "env_key kv = (case cut_byte (CHR ''='') kv of None \<Rightarrow> kv | Some (k, v) \<Rightarrow> k)"

definition SafeEnv :: "string list \<Rightarrow> string list" where
  "SafeEnv env =
     map (\<lambda>kv. if env_key kv = ''TERM'' then ''TERM=xterm-256color'' else kv)
       (filter (\<lambda>kv. env_key kv \<notin> set stripKey \<and> \<not> list_ex (\<lambda>p. prefix p (env_key kv)) stripPfx) env)"

section \<open>The entries and their keys\<close>

record ptyEntry =
  pe_pid :: int
  pe_key :: string
  pe_tag :: int
  pe_project :: string
  pe_origin :: string
  pe_done :: bool
  pe_cwd :: string
  pe_prompt :: string
  pe_cols :: int
  pe_rows :: int
  pe_alive :: bool
  pe_exited :: bool

record terminals =
  tm_entries :: "ptyEntry list"
  tm_map :: "(string \<times> nat) list"
  tm_seq :: int

definition no_terminals :: terminals where
  "no_terminals = \<lparr>tm_entries = [], tm_map = [], tm_seq = 0\<rparr>"

definition put_key :: "string \<Rightarrow> nat \<Rightarrow> terminals \<Rightarrow> terminals" where
  "put_key k i tm = tm\<lparr>tm_map := AList.update k i (tm_map tm)\<rparr>"

definition drop_entry :: "nat \<Rightarrow> terminals \<Rightarrow> terminals" where
  "drop_entry i tm = tm\<lparr>tm_map := filter (\<lambda>(k, j). j \<noteq> i) (tm_map tm)\<rparr>"

definition on_entry :: "nat \<Rightarrow> (ptyEntry \<Rightarrow> ptyEntry) \<Rightarrow> terminals \<Rightarrow> terminals" where
  "on_entry i f tm = tm\<lparr>tm_entries := (tm_entries tm)[i := f (tm_entries tm ! i)]\<rparr>"

definition lookupPTY :: "string \<Rightarrow> terminals \<Rightarrow> nat option" where
  "lookupPTY k tm = map_of (tm_map tm) k"

definition is_pid_key :: "string \<Rightarrow> bool" where
  "is_pid_key k \<longleftrightarrow> prefix ''pid-'' k"

definition pid_key :: "int \<Rightarrow> string" where
  "pid_key pid = ''pid-'' @ itoa pid"

section \<open>Starting one\<close>

record ptyStartReq =
  pq_session :: string
  pq_resume :: string
  pq_cwd :: string
  pq_prompt :: string
  pq_cols :: int
  pq_rows :: int
  pq_mode :: string
  pq_project :: string
  pq_origin :: string

definition validOrigin :: "string \<Rightarrow> bool" where
  "validOrigin s \<longleftrightarrow>
     length s \<le> 32 \<and> list_all (\<lambda>c. byte_in 97 122 c \<or> byte_in 48 57 c \<or> c = CHR ''-'') s"

definition permissionModes :: "string list" where
  "permissionModes = [[], ''manual'', ''acceptEdits'', ''auto'', ''plan'']"

definition claude_args :: "ptyStartReq \<Rightarrow> string list" where
  "claude_args q =
     (if pq_resume q = [] then [] else [''--resume'', pq_resume q])
     @ (if pq_mode q = [] then [] else [''--permission-mode'', pq_mode q])
     @ (if pq_prompt q = [] then [] else [pq_prompt q])"

datatype start_reply = Rejected nat | Existing string | Started string int

text \<open>What a start is told before anything runs, or that it may go on.\<close>

definition start_check :: "ptyStartReq \<Rightarrow> terminals \<Rightarrow> start_reply option" where
  "start_check q tm =
     (if pq_mode q \<notin> set permissionModes then Some (Rejected 400)
      else if \<not> validOrigin (pq_origin q) then Some (Rejected 400)
      else
        case (if pq_session q = [] then None else lookupPTY (pq_session q) tm) of
          Some i \<Rightarrow>
            if pe_alive (tm_entries tm ! i) then Some (Existing (pe_key (tm_entries tm ! i)))
            else if prefix ''-'' (pq_prompt q) then Some (Rejected 400) else None
        | None \<Rightarrow> if prefix ''-'' (pq_prompt q) then Some (Rejected 400) else None)"

definition take_tag :: "terminals \<Rightarrow> int \<times> terminals" where
  "take_tag tm = (ptyTagBase + tm_seq tm + 1, tm\<lparr>tm_seq := tm_seq tm + 1\<rparr>)"

definition newPTYEntry :: "ptyStartReq \<Rightarrow> int \<Rightarrow> int \<Rightarrow> ptyEntry" where
  "newPTYEntry q tag pid =
     \<lparr>pe_pid = pid, pe_key = (if pq_session q = [] then pid_key pid else pq_session q), pe_tag = tag,
      pe_project = trim_space (pq_project q), pe_origin = pq_origin q, pe_done = False, pe_cwd = pq_cwd q, pe_prompt = [],
      pe_cols = (if pq_cols q \<le> 0 then 80 else pq_cols q), pe_rows = (if pq_rows q \<le> 0 then 24 else pq_rows q),
      pe_alive = True, pe_exited = False\<rparr>"

definition add_pty :: "ptyStartReq \<Rightarrow> int \<Rightarrow> int \<Rightarrow> terminals \<Rightarrow> terminals" where
  "add_pty q tag pid tm =
     (let e = newPTYEntry q tag pid in put_key (pe_key e) (length (tm_entries tm)) (tm\<lparr>tm_entries := tm_entries tm @ [e]\<rparr>))"

text \<open>The process is given by its id; None is a start that fails.\<close>

definition spawnPTY :: "ptyStartReq \<Rightarrow> int option \<Rightarrow> terminals \<Rightarrow> start_reply \<times> terminals" where
  "spawnPTY q pid tm =
     (case start_check q tm of
        Some r \<Rightarrow> (r, tm)
      | None \<Rightarrow>
          let (tag, tm) = take_tag tm
          in case pid of
               None \<Rightarrow> (Rejected 500, tm)
             | Some p \<Rightarrow> (Started (if pq_session q = [] then pid_key p else pq_session q) tag, add_pty q tag p tm))"

text \<open>The child of an entry ends; a little later its keys go.\<close>

definition child_exits :: "nat \<Rightarrow> terminals \<Rightarrow> terminals" where
  "child_exits i = on_entry i (\<lambda>e. e\<lparr>pe_alive := False, pe_exited := True\<rparr>)"

section \<open>Further keys\<close>

text \<open>The status of the reply.\<close>

definition handlePTYRegister :: "string \<Rightarrow> string \<Rightarrow> terminals \<Rightarrow> nat \<times> terminals" where
  "handlePTYRegister k sid tm =
     (if sid = [] then (400, tm)
      else case lookupPTY k tm of None \<Rightarrow> (404, tm) | Some i \<Rightarrow> (204, put_key sid i tm))"

definition alias_by_tag :: "int \<Rightarrow> string \<Rightarrow> terminals \<Rightarrow> terminals" where
  "alias_by_tag tag sid tm =
     (if sid = [] \<or> lookupPTY sid tm \<noteq> None then tm
      else case find (\<lambda>(k, i). pe_tag (tm_entries tm ! i) = tag) (tm_map tm) of
             None \<Rightarrow> tm
           | Some (k, i) \<Rightarrow> put_key sid i tm)"

text \<open>The shells that no session is known of yet, by their process.\<close>

definition pending_ptys :: "terminals \<Rightarrow> int \<rightharpoonup> nat" where
  "pending_ptys tm =
     fold (\<lambda>(k, i) m. if is_pid_key k then m else m(pe_pid (tm_entries tm ! i) := None)) (tm_map tm)
       (fold (\<lambda>(k, i) m. if is_pid_key k \<and> \<not> pe_exited (tm_entries tm ! i) then m(pe_pid (tm_entries tm ! i) \<mapsto> i) else m)
         (tm_map tm) Map.empty)"

text \<open>The sessions of the running claudes with their processes, and the parent of each process, 0 for none.\<close>

definition alias_by_parent :: "(int \<rightharpoonup> nat) \<Rightarrow> (int \<Rightarrow> int) \<Rightarrow> string \<times> int \<Rightarrow> terminals \<Rightarrow> terminals" where
  "alias_by_parent pending parents proc tm =
     (if fst proc = [] \<or> lookupPTY (fst proc) tm \<noteq> None then tm
      else case pending (snd proc) of
             Some i \<Rightarrow> put_key (fst proc) i tm
           | None \<Rightarrow> (case pending (parents (snd proc)) of Some i \<Rightarrow> put_key (fst proc) i tm | None \<Rightarrow> tm))"

definition aliasPTYsByParent :: "(string \<times> int) list \<Rightarrow> (int \<Rightarrow> int) \<Rightarrow> terminals \<Rightarrow> terminals" where
  "aliasPTYsByParent procs parents tm = fold (alias_by_parent (pending_ptys tm) parents) procs tm"

definition project_jobs :: "terminals \<Rightarrow> (string \<times> nat) list" where
  "project_jobs tm =
     filter (\<lambda>(k, i). let e = tm_entries tm ! i in (pe_project e \<noteq> [] \<or> pe_origin e \<noteq> []) \<and> \<not> pe_done e \<and> \<not> is_pid_key k) (tm_map tm)"

definition apply_pty_project :: "pick_color \<Rightarrow> gotime \<Rightarrow> string \<times> nat \<Rightarrow> terminals \<times> ccdb \<Rightarrow> terminals \<times> ccdb" where
  "apply_pty_project pick now job s =
     (case (job, s) of
        ((sid, i), (tm, db)) \<Rightarrow>
          case GetSession sid db of
            None \<Rightarrow> (tm, db)
          | Some x \<Rightarrow>
              let e = tm_entries tm ! i;
                  db = (if pe_origin e \<noteq> [] then SetOrigin sid (pe_origin e) db else db);
                  db = (if pe_project e \<noteq> [] \<and> se_project x = [] then SetProject pick sid (pe_project e) now db else db)
              in (on_entry i (\<lambda>e. e\<lparr>pe_done := True\<rparr>) tm, db))"

definition applyPTYProjects :: "pick_color \<Rightarrow> gotime \<Rightarrow> terminals \<times> ccdb \<Rightarrow> terminals \<times> ccdb" where
  "applyPTYProjects pick now s = fold (apply_pty_project pick now) (project_jobs (fst s)) s"

section \<open>Ending and restarting\<close>

definition close_entry :: "nat \<Rightarrow> terminals \<Rightarrow> terminals" where
  "close_entry i = on_entry i (\<lambda>e. e\<lparr>pe_alive := False\<rparr>)"

definition handlePTYClose :: "string \<Rightarrow> terminals \<Rightarrow> nat \<times> terminals" where
  "handlePTYClose k tm =
     (case lookupPTY k tm of None \<Rightarrow> (404, tm) | Some i \<Rightarrow> (204, close_entry i (drop_entry i tm)))"

definition sessionKeyOf :: "string \<Rightarrow> terminals \<Rightarrow> string \<times> nat option" where
  "sessionKeyOf k tm =
     (case lookupPTY k tm of
        None \<Rightarrow> ([], None)
      | Some i \<Rightarrow>
          if \<not> is_pid_key k then (k, Some i)
          else case find (\<lambda>(k', j). j = i \<and> \<not> is_pid_key k') (tm_map tm) of
                 Some (k', j) \<Rightarrow> (k', Some i)
               | None \<Rightarrow> ([], Some i))"

record resumeEntry =
  re_session :: string
  re_cwd :: string
  re_cols :: int
  re_rows :: int

definition hosted_keys :: "terminals \<Rightarrow> (string \<times> nat) list" where
  "hosted_keys tm = filter (\<lambda>(k, i). \<not> is_pid_key k \<and> pe_alive (tm_entries tm ! i)) (tm_map tm)"

definition resume_entry :: "ccdb \<Rightarrow> terminals \<Rightarrow> string \<times> nat \<Rightarrow> resumeEntry option" where
  "resume_entry db tm h =
     (case GetSession (fst h) db of
        None \<Rightarrow> None
      | Some x \<Rightarrow>
          if se_cwd x = [] then None
          else Some \<lparr>re_session = fst h, re_cwd = se_cwd x, re_cols = pe_cols (tm_entries tm ! snd h), re_rows = pe_rows (tm_entries tm ! snd h)\<rparr>)"

definition hostedSessions :: "ccdb \<Rightarrow> terminals \<Rightarrow> resumeEntry list" where
  "hostedSessions db tm = List.map_filter (resume_entry db tm) (hosted_keys tm)"

definition closeAllPTYs :: "terminals \<Rightarrow> terminals" where
  "closeAllPTYs tm =
     fold (\<lambda>(k, i). close_entry i) (tm_map tm) tm\<lparr>tm_map := []\<rparr>"

definition resume_request :: "resumeEntry \<Rightarrow> ptyStartReq" where
  "resume_request e =
     \<lparr>pq_session = re_session e, pq_resume = re_session e, pq_cwd = re_cwd e, pq_prompt = [], pq_cols = re_cols e, pq_rows = re_rows e,
      pq_mode = [], pq_project = [], pq_origin = []\<rparr>"

definition resumeMaxAge :: int where
  "resumeMaxAge = 600 * 10 ^ 9"

text \<open>The saved list with its age in nanoseconds, and the process of each start.\<close>

definition resumeSaved :: "int \<Rightarrow> resumeEntry list \<Rightarrow> int option list \<Rightarrow> terminals \<Rightarrow> terminals" where
  "resumeSaved age saved pids tm =
     (if resumeMaxAge < age then tm
      else fold (\<lambda>(e, pid) t. snd (spawnPTY (resume_request e) pid t)) (zip saved pids) tm)"

definition handlePTYRestart :: "ccdb \<Rightarrow> string \<Rightarrow> int option \<Rightarrow> terminals \<Rightarrow> (nat + string) \<times> terminals" where
  "handlePTYRestart db k pid tm =
     (case sessionKeyOf k tm of
        (sid, None) \<Rightarrow> (Inl 404, tm)
      | (sid, Some i) \<Rightarrow>
          if sid = [] then (Inl 409, tm)
          else
            case resume_entry db tm (sid, i) of
              None \<Rightarrow> (Inl 409, tm)
            | Some e \<Rightarrow>
                case spawnPTY (resume_request e) pid (close_entry i (drop_entry i tm)) of
                  (Rejected code, t) \<Rightarrow> (Inl code, t)
                | (Existing key, t) \<Rightarrow> (Inr key, t)
                | (Started key tag, t) \<Rightarrow> (Inr key, t))"

section \<open>What the screens ask\<close>

text \<open>One look: the reasons set from the screens so far, the database and the entries.\<close>

definition look_session :: "(nat \<Rightarrow> string) \<Rightarrow> gotime \<Rightarrow> string \<times> nat \<Rightarrow> (string \<rightharpoonup> string) \<times> ccdb \<Rightarrow> (string \<rightharpoonup> string) \<times> ccdb" where
  "look_session screen now h s =
     (case (h, s) of
        ((sid, i), (shown, db)) \<Rightarrow>
          let reason = screen i
          in if reason \<noteq> [] then
               (if shown sid = Some reason then (shown, db)
                else (shown(sid \<mapsto> reason), SetAttention sid AttentionNeedsYou reason now db))
             else if shown sid \<noteq> None then (shown(sid := None), ClearAttention sid AttentionNeedsYou db)
             else (shown, db))"

definition attention_look ::
  "(nat \<Rightarrow> string) \<Rightarrow> gotime \<Rightarrow> terminals \<Rightarrow> (string \<rightharpoonup> string) \<Rightarrow> ccdb \<Rightarrow> terminals \<times> (string \<rightharpoonup> string) \<times> ccdb" where
  "attention_look screen now tm shown db =
     (let entries = filter (\<lambda>(k, i). \<not> is_pid_key k \<and> \<not> pe_exited (tm_entries tm ! i)) (tm_map tm);
          named = snd ` set entries;
          prompts = (\<lambda>(k, i) t.
            if is_pid_key k \<and> i \<notin> named \<and> \<not> pe_exited (tm_entries tm ! i) then on_entry i (\<lambda>e. e\<lparr>pe_prompt := screen i\<rparr>) t
            else if i \<in> named then on_entry i (\<lambda>e. e\<lparr>pe_prompt := []\<rparr>) t else t);
          (shown, db) = fold (look_session screen now) entries (shown, db)
      in (fold prompts (tm_map tm) tm, shown |` (fst ` set entries), db))"

section \<open>The list and the routes\<close>

record ptyInfo =
  pi_key :: string
  pi_alive :: bool
  pi_pid :: int
  pi_cols :: int
  pi_rows :: int
  pi_cwd :: string
  pi_prompt :: string

definition handlePTYList :: "terminals \<Rightarrow> ptyInfo list" where
  "handlePTYList tm =
     map (\<lambda>(k, i). let e = tm_entries tm ! i
        in \<lparr>pi_key = k, pi_alive = pe_alive e, pi_pid = pe_pid e, pi_cols = pe_cols e, pi_rows = pe_rows e, pi_cwd = pe_cwd e,
            pi_prompt = pe_prompt e\<rparr>)
       (tm_map tm)"

datatype pty_route =
  PtyList | PtyStart | PtyStream string | PtyScreen string | PtyResize string | PtyRegister string | PtyInput string | PtyText string
| PtyRestart string | PtyClose string | PtyError nat

definition handlePTY :: "string \<Rightarrow> string \<Rightarrow> pty_route" where
  "handlePTY verb url =
     (let path = trim_suffix (trim_prefix url ''/pty/'') ''/''
      in if path = [] \<and> verb = ''GET'' then PtyList
         else if path = ''start'' \<and> verb = ''POST'' then PtyStart
         else
           let (i, action) = (case cut_byte (CHR ''/'') path of None \<Rightarrow> (path, []) | Some (i, a) \<Rightarrow> (i, a))
           in if i = [] then PtyError 400
              else if action = ''stream'' \<and> verb = ''GET'' then PtyStream i
              else if action = ''screen'' \<and> verb = ''GET'' then PtyScreen i
              else if action = ''resize'' \<and> verb = ''POST'' then PtyResize i
              else if action = ''register'' \<and> verb = ''POST'' then PtyRegister i
              else if action = ''input'' \<and> verb = ''POST'' then PtyInput i
              else if action = ''text'' \<and> verb = ''GET'' then PtyText i
              else if action = ''restart'' \<and> verb = ''POST'' then PtyRestart i
              else if action = [] \<and> verb = ''DELETE'' then PtyClose i
              else PtyError 404)"

text \<open>What is typed into a terminal: the keys, the text, pasted as one if it has lines, and Enter.\<close>

fun replace_crlf :: "string \<Rightarrow> string" where
  "replace_crlf (a # b # s) =
     (if a = CHR 0x0D \<and> b = CHR 0x0A then CHR 0x0A # replace_crlf s else a # replace_crlf (b # s))"
| "replace_crlf s = s"

definition pty_input :: "string \<Rightarrow> string \<Rightarrow> bool \<Rightarrow> bool \<Rightarrow> string" where
  "pty_input keys txt paste submit =
     keys
     @ (if txt = [] then []
        else let t = replace_crlf txt
             in if paste \<or> CHR 0x0A \<in> set t then CHR 0x1B # ''[200~'' @ t @ CHR 0x1B # ''[201~'' else t)
     @ (if submit then [CHR 0x0D] else [])"

end
