(* ===== verification/Terminals_Facts.thy ===== *)
theory Terminals_Facts
  imports Terminals
begin

text \<open>
  The claudes in terminals: that each one that runs can be reached through a key, that a restart brings each session
  back once, that the command line arrives as it was meant; and where that fails.
\<close>

section \<open>Keys and entries\<close>

definition terminals_ok :: "terminals \<Rightarrow> bool" where
  "terminals_ok tm \<longleftrightarrow>
     distinct (map fst (tm_map tm)) \<and> 0 \<le> tm_seq tm \<and> distinct (map pe_tag (tm_entries tm))
     \<and> (\<forall>e \<in> set (tm_entries tm). ptyTagBase < pe_tag e \<and> pe_tag e \<le> ptyTagBase + tm_seq tm)
     \<and> (\<forall>k i. lookupPTY k tm = Some i \<longrightarrow> i < length (tm_entries tm) \<and> (is_pid_key k \<longrightarrow> k = pid_key (pe_pid (tm_entries tm ! i))))"

text \<open>Every claude that runs is behind a key.\<close>

definition in_reach :: "terminals \<Rightarrow> bool" where
  "in_reach tm \<longleftrightarrow> (\<forall>i < length (tm_entries tm). pe_alive (tm_entries tm ! i) \<longrightarrow> (\<exists>k. lookupPTY k tm = Some i))"

lemma put_key_fields [simp]: "tm_entries (put_key k i tm) = tm_entries tm" "tm_seq (put_key k i tm) = tm_seq tm"
  by (simp_all add: put_key_def)

lemma drop_entry_fields [simp]: "tm_entries (drop_entry i tm) = tm_entries tm" "tm_seq (drop_entry i tm) = tm_seq tm"
  by (simp_all add: drop_entry_def)

lemma on_entry_fields [simp]: "tm_map (on_entry i f tm) = tm_map tm" "tm_seq (on_entry i f tm) = tm_seq tm"
  "lookupPTY k (on_entry i f tm) = lookupPTY k tm" "length (tm_entries (on_entry i f tm)) = length (tm_entries tm)"
  by (simp_all add: on_entry_def lookupPTY_def)

lemma on_entry_nth [simp]:
  "tm_entries (on_entry i f tm) ! j = (if j = i \<and> i < length (tm_entries tm) then f (tm_entries tm ! i) else tm_entries tm ! j)"
  by (cases "i < length (tm_entries tm)") (simp_all add: on_entry_def nth_list_update list_update_beyond)

lemma lookup_seq [simp]: "lookupPTY k (tm\<lparr>tm_seq := n\<rparr>) = lookupPTY k tm" "lookupPTY k (tm\<lparr>tm_entries := es\<rparr>) = lookupPTY k tm"
  by (simp_all add: lookupPTY_def)

lemma lookup_new_key [simp]: "lookupPTY k' (put_key k i tm) = (if k' = k then Some i else lookupPTY k' tm)"
  by (simp add: lookupPTY_def put_key_def update_conv')

lemma lookup_drop:
  assumes "distinct (map fst (tm_map tm))"
  shows "lookupPTY k (drop_entry i tm) = (if lookupPTY k tm = Some i then None else lookupPTY k tm)"
proof -
  have "map_of (filter (\<lambda>(k, j). j \<noteq> i) xs) k = (if map_of xs k = Some i then None else map_of xs k)"
    if "distinct (map fst xs)" for xs :: "(string \<times> nat) list"
    using that
  proof (induction xs)
    case (Cons x xs)
    then have "map_of xs (fst x) = None" by (simp add: map_of_eq_None_iff)
    then show ?case using Cons by (cases x) auto
  qed simp
  then show ?thesis using assms by (simp add: lookupPTY_def drop_entry_def)
qed

lemma lookup_in: "lookupPTY k tm = Some i \<Longrightarrow> (k, i) \<in> set (tm_map tm)"
  by (simp add: lookupPTY_def map_of_SomeD)

lemma in_lookup: "terminals_ok tm \<Longrightarrow> (k, i) \<in> set (tm_map tm) \<Longrightarrow> lookupPTY k tm = Some i"
  by (simp add: lookupPTY_def terminals_ok_def)

lemma key_bound: "terminals_ok tm \<Longrightarrow> (k, i) \<in> set (tm_map tm) \<Longrightarrow> i < length (tm_entries tm)"
  using in_lookup[of tm k i] by (simp add: terminals_ok_def)

lemma ok_no_terminals: "terminals_ok no_terminals \<and> in_reach no_terminals"
  by (simp add: terminals_ok_def in_reach_def no_terminals_def lookupPTY_def)

text \<open>A new key, an entry that loses its keys, and an entry that changes.\<close>

lemma ok_put:
  assumes "terminals_ok tm" "i < length (tm_entries tm)" "is_pid_key k \<Longrightarrow> k = pid_key (pe_pid (tm_entries tm ! i))"
  shows "terminals_ok (put_key k i tm)"
  using assms distinct_update[of "tm_map tm" k i] by (auto simp: terminals_ok_def) (simp_all add: put_key_def)

lemma reach_put:
  assumes "in_reach tm" "i < length (tm_entries tm)" "\<And>j. lookupPTY k tm = Some j \<Longrightarrow> j = i \<or> \<not> pe_alive (tm_entries tm ! j)"
  shows "in_reach (put_key k i tm)"
  unfolding in_reach_def
proof (intro allI impI)
  fix j assume j: "j < length (tm_entries (put_key k i tm))" "pe_alive (tm_entries (put_key k i tm) ! j)"
  then obtain k' where k': "lookupPTY k' tm = Some j" using assms(1) by (auto simp: in_reach_def)
  show "\<exists>k'. lookupPTY k' (put_key k i tm) = Some j"
    using k' assms(3)[of j] j by (cases "k' = k"; cases "j = i") auto
qed

lemma ok_drop: "terminals_ok tm \<Longrightarrow> terminals_ok (drop_entry i tm)"
  using lookup_drop[of tm] by (auto simp: terminals_ok_def drop_entry_def distinct_map_filter split: if_splits)

lemma reach_drop: "terminals_ok tm \<Longrightarrow> in_reach tm \<Longrightarrow> \<not> pe_alive (tm_entries tm ! i) \<Longrightarrow> in_reach (drop_entry i tm)"
  unfolding in_reach_def terminals_ok_def by (simp add: lookup_drop) (metis option.inject)

lemma ok_on_entry:
  assumes "terminals_ok tm" "\<And>e. pe_tag (f e) = pe_tag e" "\<And>e. pe_pid (f e) = pe_pid e"
  shows "terminals_ok (on_entry i f tm)"
proof (cases "i < length (tm_entries tm)")
  case True
  have "map pe_tag (tm_entries (on_entry i f tm)) = map pe_tag (tm_entries tm)"
    using True by (simp add: on_entry_def map_update assms(2))  (metis list_update_id map_update nth_map)
  moreover have "pe_pid (tm_entries (on_entry i f tm) ! j) = pe_pid (tm_entries tm ! j)" for j
    by (simp add: assms(3))
  moreover have "pe_tag ` set (tm_entries (on_entry i f tm)) = pe_tag ` set (tm_entries tm)"
    using calculation(1) by (metis list.set_map)
  ultimately show ?thesis using assms(1) unfolding terminals_ok_def by simp (metis (no_types, lifting) image_iff)
next
  case False
  then have "on_entry i f tm = tm" by (simp add: on_entry_def list_update_beyond)
  then show ?thesis using assms(1) by simp
qed

lemma reach_on_entry: "in_reach tm \<Longrightarrow> (\<And>e. pe_alive (f e) \<Longrightarrow> pe_alive e) \<Longrightarrow> in_reach (on_entry i f tm)"
  by (auto simp: in_reach_def split: if_splits)

section \<open>Every operation keeps them\<close>

definition pty_ok :: "terminals \<Rightarrow> bool" where
  "pty_ok tm \<longleftrightarrow> terminals_ok tm \<and> in_reach tm"

text \<open>No running claude has the process id.\<close>

definition fresh_pid :: "int \<Rightarrow> terminals \<Rightarrow> bool" where
  "fresh_pid p tm \<longleftrightarrow> list_all (\<lambda>e. pe_alive e \<longrightarrow> pe_pid e \<noteq> p) (tm_entries tm)"

lemma itoa_inj_all: "itoa i = itoa j \<longleftrightarrow> i = j"
proof
  assume a: "itoa i = itoa j"
  have "\<not> is_digit (CHR ''-'')" by (simp add: is_digit_def byte_in_def)
  then have "nat_digits n \<noteq> CHR ''-'' # ds" "CHR ''-'' # ds \<noteq> nat_digits n" for n ds
    using hd_nat_digits[of n] by (metis list.sel(1))+
  then have sign: "i < 0 \<longleftrightarrow> j < 0" using a by (auto simp: itoa_def split: if_splits)
  then have "nat_digits (nat \<bar>i\<bar>) = nat_digits (nat \<bar>j\<bar>)" using a by (auto simp: itoa_def split: if_splits)
  then have "nat \<bar>i\<bar> = nat \<bar>j\<bar>" using digits_val_nat_digits by metis
  then show "i = j" using sign by linarith
qed simp

lemma ok_seq: "terminals_ok tm \<Longrightarrow> terminals_ok (tm\<lparr>tm_seq := tm_seq tm + 1\<rparr>)"
  by (auto simp: terminals_ok_def)

lemma reach_seq: "in_reach tm \<Longrightarrow> in_reach (tm\<lparr>tm_seq := n\<rparr>)"
  by (simp add: in_reach_def)

lemma pty_ok_add:
  assumes "pty_ok tm" "pe_tag e = ptyTagBase + tm_seq tm + 1" "is_pid_key k \<Longrightarrow> k = pid_key (pe_pid e)"
    "\<And>j. lookupPTY k tm = Some j \<Longrightarrow> \<not> pe_alive (tm_entries tm ! j)"
  shows "pty_ok (put_key k (length (tm_entries tm)) (tm\<lparr>tm_seq := tm_seq tm + 1, tm_entries := tm_entries tm @ [e]\<rparr>))"
proof -
  let ?t = "tm\<lparr>tm_seq := tm_seq tm + 1, tm_entries := tm_entries tm @ [e]\<rparr>" and ?n = "length (tm_entries tm)"
  have ok: "terminals_ok tm" and reach: "in_reach tm" using assms(1) by (simp_all add: pty_ok_def)
  have tags: "pe_tag e \<notin> pe_tag ` set (tm_entries tm)" using ok assms(2) by (force simp: terminals_ok_def)
  have bound: "i < ?n" if "lookupPTY k' tm = Some i" for k' i using ok that by (auto simp: terminals_ok_def)
  have "terminals_ok ?t"
    using ok tags assms(2) by (auto simp: terminals_ok_def nth_append dest: bound intro: less_SucI)
  then have "terminals_ok (put_key k ?n ?t)" by (rule ok_put) (use assms(3) in simp_all)
  moreover have "in_reach (put_key k ?n ?t)"
    unfolding in_reach_def
  proof (intro allI impI)
    fix i assume i: "i < length (tm_entries (put_key k ?n ?t))" "pe_alive (tm_entries (put_key k ?n ?t) ! i)"
    show "\<exists>k'. lookupPTY k' (put_key k ?n ?t) = Some i"
    proof (cases "i = ?n")
      case True
      then show ?thesis by (intro exI[of _ k]) simp
    next
      case False
      then have old: "i < ?n" "pe_alive (tm_entries tm ! i)" using i by (simp_all add: nth_append)
      then obtain k' where k': "lookupPTY k' tm = Some i" using reach by (auto simp: in_reach_def)
      then have "k' \<noteq> k" using assms(4) old(2) by auto
      then show ?thesis using k' by (intro exI[of _ k']) simp
    qed
  qed
  ultimately show ?thesis by (simp add: pty_ok_def)
qed

lemma pty_ok_spawn:
  assumes "pty_ok tm" "\<not> is_pid_key (pq_session q)" "\<And>p. pid = Some p \<Longrightarrow> fresh_pid p tm"
  shows "pty_ok (snd (spawnPTY q pid tm))"
proof (cases "start_check q tm")
  case (Some r)
  then show ?thesis using assms(1) by (simp add: spawnPTY_def)
next
  case None
  show ?thesis
  proof (cases pid)
    case None
    then show ?thesis using \<open>start_check q tm = None\<close> assms(1) by (simp add: spawnPTY_def take_tag_def pty_ok_def ok_seq reach_seq)
  next
    case (Some p)
    let ?e = "newPTYEntry q (ptyTagBase + tm_seq tm + 1) p"
    have ok: "terminals_ok tm" using assms(1) by (simp add: pty_ok_def)
    have "\<not> pe_alive (tm_entries tm ! j)" if j: "lookupPTY (pe_key ?e) tm = Some j" for j
    proof (cases "pq_session q = []")
      case True
      then have "is_pid_key (pe_key ?e)" "pe_key ?e = pid_key p" by (simp_all add: newPTYEntry_def is_pid_key_def pid_key_def)
      then have "j < length (tm_entries tm)" "pid_key p = pid_key (pe_pid (tm_entries tm ! j))"
        using ok j by (auto simp: terminals_ok_def)
      then have "j < length (tm_entries tm)" "pe_pid (tm_entries tm ! j) = p" by (auto simp: pid_key_def itoa_inj_all)
      then show ?thesis using assms(3)[OF Some] by (auto simp: fresh_pid_def list_all_length)
    next
      case False
      then show ?thesis using \<open>start_check q tm = None\<close> j by (auto simp: start_check_def newPTYEntry_def split: if_splits)
    qed
    then have "pty_ok (put_key (pe_key ?e) (length (tm_entries tm)) (tm\<lparr>tm_seq := tm_seq tm + 1, tm_entries := tm_entries tm @ [?e]\<rparr>))"
      using assms(2) by (intro pty_ok_add[OF assms(1)]) (auto simp: newPTYEntry_def)
    then show ?thesis using \<open>start_check q tm = None\<close> Some by (simp add: spawnPTY_def take_tag_def add_pty_def Let_def)
  qed
qed

lemma pty_ok_drop_dead: "pty_ok tm \<Longrightarrow> \<not> pe_alive (tm_entries tm ! i) \<Longrightarrow> pty_ok (drop_entry i tm)"
  by (simp add: pty_ok_def ok_drop reach_drop)

lemma pty_ok_on_entry:
  "pty_ok tm \<Longrightarrow> (\<And>e. pe_tag (f e) = pe_tag e) \<Longrightarrow> (\<And>e. pe_pid (f e) = pe_pid e) \<Longrightarrow> (\<And>e. pe_alive (f e) \<Longrightarrow> pe_alive e) \<Longrightarrow>
    pty_ok (on_entry i f tm)"
  by (simp add: pty_ok_def ok_on_entry reach_on_entry)

lemma pty_ok_close:
  assumes "pty_ok tm" "i < length (tm_entries tm)"
  shows "pty_ok (close_entry i (drop_entry i tm))"
proof -
  have "pty_ok (drop_entry i (close_entry i tm))"
    unfolding close_entry_def by (rule pty_ok_drop_dead[OF pty_ok_on_entry[OF assms(1)]]) (simp_all add: assms(2))
  moreover have "drop_entry i (close_entry i tm) = close_entry i (drop_entry i tm)"
    by (simp add: drop_entry_def close_entry_def on_entry_def)
  ultimately show ?thesis by simp
qed

lemma pty_ok_new_key:
  assumes "pty_ok tm" "i < length (tm_entries tm)" "\<not> is_pid_key k" "lookupPTY k tm = None \<or> lookupPTY k tm = Some i"
  shows "pty_ok (put_key k i tm)"
  using assms ok_put[of tm i k] reach_put[of tm i k] by (auto simp: pty_ok_def)

lemma pending_bound:
  assumes "terminals_ok tm" "pending_ptys tm p = Some i"
  shows "i < length (tm_entries tm)"
proof -
  define f where "f = (\<lambda>(k, i) (m :: int \<rightharpoonup> nat). if is_pid_key k \<and> \<not> pe_exited (tm_entries tm ! i) then m(pe_pid (tm_entries tm ! i) \<mapsto> i) else m)"
  define g where "g = (\<lambda>(k, i) (m :: int \<rightharpoonup> nat). if is_pid_key k then m else m(pe_pid (tm_entries tm ! i) := None))"
  have "fold f xs m p = Some i \<Longrightarrow> m p = Some i \<or> i \<in> snd ` set xs" for xs m
  proof (induction xs arbitrary: m)
    case (Cons x xs)
    then have "f x m p = Some i \<or> i \<in> snd ` set xs" by simp
    then show ?case by (cases x) (auto simp: f_def split: if_splits)
  qed simp
  moreover have "fold g xs m p = Some i \<Longrightarrow> m p = Some i" for xs m
  proof (induction xs arbitrary: m)
    case (Cons x xs)
    then have "g x m p = Some i" by simp
    then show ?case by (cases x) (auto simp: g_def split: if_splits)
  qed simp
  ultimately have "i \<in> snd ` set (tm_map tm)" using assms(2) by (fastforce simp: pending_ptys_def f_def g_def)
  then show ?thesis using key_bound[OF assms(1)] by auto
qed

lemma pty_ok_fold_keys:
  assumes "pty_ok tm" "\<And>t x. pty_ok t \<Longrightarrow> tm_entries t = tm_entries tm \<Longrightarrow> x \<in> set xs \<Longrightarrow> pty_ok (f x t) \<and> tm_entries (f x t) = tm_entries tm"
  shows "pty_ok (fold f xs tm)"
proof -
  have "pty_ok t \<and> tm_entries t = tm_entries tm \<Longrightarrow> set ys \<subseteq> set xs \<Longrightarrow> pty_ok (fold f ys t)" for ys t
    by (induction ys arbitrary: t) (auto simp: assms(2))
  then show ?thesis using assms(1) by blast
qed

lemma pty_ok_parents:
  assumes "pty_ok tm" "list_all (\<lambda>(sid, p). \<not> is_pid_key sid) procs"
  shows "pty_ok (aliasPTYsByParent procs parents tm)"
  unfolding aliasPTYsByParent_def
proof (rule pty_ok_fold_keys[OF assms(1)])
  fix t x assume t: "pty_ok t" "tm_entries t = tm_entries tm" and x: "x \<in> set procs"
  have "\<not> is_pid_key (fst x)" using x assms(2) by (auto simp: list_all_iff)
  then have "pty_ok (put_key (fst x) i t)" if "pending_ptys tm p = Some i" "lookupPTY (fst x) t = None" for p i
    using pending_bound[OF _ that(1)] assms(1) t that(2) by (intro pty_ok_new_key) (simp_all add: pty_ok_def)
  then show "pty_ok (alias_by_parent (pending_ptys tm) parents x t) \<and> tm_entries (alias_by_parent (pending_ptys tm) parents x t) = tm_entries tm"
    using t by (auto simp: alias_by_parent_def split: option.split)
qed

lemma pty_ok_tag:
  assumes "pty_ok tm" "\<not> is_pid_key sid"
  shows "pty_ok (alias_by_tag tag sid tm)"
proof (cases "find (\<lambda>(k, i). pe_tag (tm_entries tm ! i) = tag) (tm_map tm)")
  case (Some x)
  obtain k i where x: "x = (k, i)" by (cases x)
  then have "(k, i) \<in> set (tm_map tm)" using Some by (metis find_Some_iff nth_mem)
  then have "i < length (tm_entries tm)" using key_bound assms(1) by (simp add: pty_ok_def)
  then show ?thesis using Some x pty_ok_new_key[OF assms(1) _ assms(2)] assms(1) by (auto simp: alias_by_tag_def)
qed (use assms(1) in \<open>simp add: alias_by_tag_def\<close>)

lemma pty_ok_restart:
  assumes "pty_ok tm" "\<And>p. pid = Some p \<Longrightarrow> fresh_pid p tm"
  shows "pty_ok (snd (handlePTYRestart db k pid tm))"
proof -
  obtain sid oi where key: "sessionKeyOf k tm = (sid, oi)" by (cases "sessionKeyOf k tm")
  show ?thesis
  proof (cases "oi = None \<or> sid = [] \<or> (\<exists>i. oi = Some i \<and> resume_entry db tm (sid, i) = None)")
    case True
    then show ?thesis using key assms(1) by (auto simp: handlePTYRestart_def split: option.split)
  next
    case False
    then obtain i e where i: "oi = Some i" and sid: "sid \<noteq> []" and e: "resume_entry db tm (sid, i) = Some e" by auto
    have "lookupPTY k tm = Some i" using key i by (auto simp: sessionKeyOf_def split: option.splits if_splits)
    then have bound: "i < length (tm_entries tm)" using assms(1) by (auto simp: pty_ok_def terminals_ok_def)
    have "\<not> is_pid_key sid" using key i sid by (auto simp: sessionKeyOf_def find_Some_iff split: option.splits if_splits)
    moreover have "re_session e = sid" using e by (auto simp: resume_entry_def split: option.splits if_splits)
    ultimately have s: "\<not> is_pid_key (pq_session (resume_request e))" by (simp add: resume_request_def)
    let ?t = "close_entry i (drop_entry i tm)"
    have "fresh_pid p ?t" if "pid = Some p" for p
      using assms(2)[OF that] by (auto simp: fresh_pid_def list_all_length close_entry_def)
    then have "pty_ok (snd (spawnPTY (resume_request e) pid ?t))" by (rule pty_ok_spawn[OF pty_ok_close[OF assms(1) bound] s])
    then show ?thesis using key i sid e
      by (cases "spawnPTY (resume_request e) pid ?t"; cases "fst (spawnPTY (resume_request e) pid ?t)") (simp_all add: handlePTYRestart_def)
  qed
qed

lemma pty_ok_projects: "pty_ok (fst s) \<Longrightarrow> pty_ok (fst (applyPTYProjects pick now s))"
proof -
  have "pty_ok (fst s) \<Longrightarrow> pty_ok (fst (apply_pty_project pick now j s))" for j s
    by (cases j; cases s) (auto simp: apply_pty_project_def Let_def split: option.split intro!: pty_ok_on_entry)
  then have "pty_ok (fst s) \<Longrightarrow> pty_ok (fst (fold (apply_pty_project pick now) js s))" for js s
    by (induction js arbitrary: s) auto
  then show "pty_ok (fst s) \<Longrightarrow> ?thesis" by (simp add: applyPTYProjects_def)
qed

lemma pty_ok_prompt: "pty_ok tm \<Longrightarrow> pty_ok (on_entry i (\<lambda>e. e\<lparr>pe_prompt := p\<rparr>) tm)"
  by (rule pty_ok_on_entry) simp_all

lemma pty_ok_look:
  assumes "pty_ok tm"
  shows "pty_ok (fst (attention_look screen now tm shown db))"
proof -
  have "pty_ok t \<Longrightarrow> pty_ok (fold (\<lambda>(k, i) t. if P k i then on_entry i (\<lambda>e. e\<lparr>pe_prompt := screen i\<rparr>) t
      else if Q i then on_entry i (\<lambda>e. e\<lparr>pe_prompt := []\<rparr>) t else t) xs t)" for P Q xs t
    by (induction xs arbitrary: t) (auto simp: pty_ok_prompt)
  then show ?thesis using assms by (simp add: attention_look_def Let_def split: prod.split)
qed

section \<open>Runs\<close>

datatype pty_event =
  Start ptyStartReq "int option" | Exits nat | Swept nat | Register string string | Hook int string
| Found "(string \<times> int) list" "int \<Rightarrow> int" | Projects pick_color gotime ccdb | Look "nat \<Rightarrow> string" gotime "string \<rightharpoonup> string" ccdb
| Close string | Again ccdb string "int option"

fun pty_step :: "pty_event \<Rightarrow> terminals \<Rightarrow> terminals" where
  "pty_step (Start q pid) tm = snd (spawnPTY q pid tm)"
| "pty_step (Exits i) tm = child_exits i tm"
| "pty_step (Swept i) tm = drop_entry i tm"
| "pty_step (Register k sid) tm = snd (handlePTYRegister k sid tm)"
| "pty_step (Hook tag sid) tm = alias_by_tag tag sid tm"
| "pty_step (Found procs parents) tm = aliasPTYsByParent procs parents tm"
| "pty_step (Projects pick now db) tm = fst (applyPTYProjects pick now (tm, db))"
| "pty_step (Look screen now shown db) tm = fst (attention_look screen now tm shown db)"
| "pty_step (Close k) tm = snd (handlePTYClose k tm)"
| "pty_step (Again db k pid) tm = snd (handlePTYRestart db k pid tm)"

text \<open>
  Sessions are not named like processes, a new process has an id of its own, keys are swept after the end of the
  child, and a key is registered for a session that has none or this one.
\<close>

fun usual :: "pty_event \<Rightarrow> terminals \<Rightarrow> bool" where
  "usual (Start q pid) tm \<longleftrightarrow> \<not> is_pid_key (pq_session q) \<and> (case pid of None \<Rightarrow> True | Some p \<Rightarrow> fresh_pid p tm)"
| "usual (Swept i) tm \<longleftrightarrow> i < length (tm_entries tm) \<and> \<not> pe_alive (tm_entries tm ! i)"
| "usual (Register k sid) tm \<longleftrightarrow> \<not> is_pid_key sid \<and> (lookupPTY sid tm = None \<or> lookupPTY sid tm = lookupPTY k tm)"
| "usual (Hook tag sid) tm \<longleftrightarrow> \<not> is_pid_key sid"
| "usual (Found procs parents) tm \<longleftrightarrow> list_all (\<lambda>(sid, p). \<not> is_pid_key sid) procs"
| "usual (Again db k pid) tm \<longleftrightarrow> (case pid of None \<Rightarrow> True | Some p \<Rightarrow> fresh_pid p tm)"
| "usual _ tm \<longleftrightarrow> True"

fun pty_run :: "pty_event list \<Rightarrow> terminals \<Rightarrow> terminals" where
  "pty_run [] tm = tm"
| "pty_run (e # es) tm = pty_run es (pty_step e tm)"

fun usual_run :: "pty_event list \<Rightarrow> terminals \<Rightarrow> bool" where
  "usual_run [] tm = True"
| "usual_run (e # es) tm \<longleftrightarrow> usual e tm \<and> usual_run es (pty_step e tm)"

lemma pty_ok_step: "pty_ok tm \<Longrightarrow> usual e tm \<Longrightarrow> pty_ok (pty_step e tm)"
proof (cases e)
  case (Start q pid)
  assume "pty_ok tm" "usual e tm"
  then show ?thesis unfolding Start by (auto intro!: pty_ok_spawn)
next
  case (Exits i)
  assume "pty_ok tm" "usual e tm"
  then show ?thesis unfolding Exits child_exits_def pty_step.simps by (intro pty_ok_on_entry) simp_all
next
  case (Register k sid)
  assume a: "pty_ok tm" "usual e tm"
  have "i < length (tm_entries tm)" if "lookupPTY k tm = Some i" for i using a(1) that by (auto simp: pty_ok_def terminals_ok_def)
  then show ?thesis using a by (auto simp: Register handlePTYRegister_def split: option.splits intro: pty_ok_new_key)
next
  case (Close k)
  assume a: "pty_ok tm" "usual e tm"
  have "i < length (tm_entries tm)" if "lookupPTY k tm = Some i" for i using a(1) that by (auto simp: pty_ok_def terminals_ok_def)
  then show ?thesis using a by (auto simp: Close handlePTYClose_def split: option.splits intro: pty_ok_close)
next
  case (Again db k pid)
  assume "pty_ok tm" "usual e tm"
  then show ?thesis unfolding Again by (auto intro!: pty_ok_restart)
qed (simp_all add: pty_ok_drop_dead pty_ok_tag pty_ok_parents pty_ok_projects pty_ok_look)

lemma pty_ok_run: "pty_ok tm \<Longrightarrow> usual_run es tm \<Longrightarrow> pty_ok (pty_run es tm)"
  by (induction es arbitrary: tm) (simp_all add: pty_ok_step)

lemma close_all_entries:
  "tm_entries (closeAllPTYs tm) ! i =
    (if i \<in> snd ` set (tm_map tm) \<and> i < length (tm_entries tm) then (tm_entries tm ! i)\<lparr>pe_alive := False\<rparr> else tm_entries tm ! i)"
  "length (tm_entries (closeAllPTYs tm)) = length (tm_entries tm)"
proof -
  have "tm_entries (fold (\<lambda>(k, i). close_entry i) xs t) ! i =
      (if i \<in> snd ` set xs \<and> i < length (tm_entries t) then (tm_entries t ! i)\<lparr>pe_alive := False\<rparr> else tm_entries t ! i)
    \<and> length (tm_entries (fold (\<lambda>(k, i). close_entry i) xs t)) = length (tm_entries t)" for t and xs :: "(string \<times> nat) list"
    by (induction xs arbitrary: t) (auto simp: close_entry_def)
  then show "tm_entries (closeAllPTYs tm) ! i =
    (if i \<in> snd ` set (tm_map tm) \<and> i < length (tm_entries tm) then (tm_entries tm ! i)\<lparr>pe_alive := False\<rparr> else tm_entries tm ! i)"
    "length (tm_entries (closeAllPTYs tm)) = length (tm_entries tm)"
    by (simp_all add: closeAllPTYs_def)
qed

lemma close_all_ends: "in_reach tm \<Longrightarrow> list_all (\<lambda>e. \<not> pe_alive e) (tm_entries (closeAllPTYs tm))"
  unfolding list_all_length
proof (intro allI impI)
  fix i assume "in_reach tm" "i < length (tm_entries (closeAllPTYs tm))"
  then show "\<not> pe_alive (tm_entries (closeAllPTYs tm) ! i)"
    using lookup_in[of _ tm i] by (auto simp: close_all_entries in_reach_def image_iff) fastforce
qed

section \<open>What a restart brings back\<close>

lemma hosted_key: "terminals_ok tm \<Longrightarrow> (k, i) \<in> set (hosted_keys tm) \<longleftrightarrow> lookupPTY k tm = Some i \<and> \<not> is_pid_key k \<and> pe_alive (tm_entries tm ! i)"
  using in_lookup[of tm k i] lookup_in[of k tm i] by (auto simp: hosted_keys_def)

lemma map_filter_fst:
  assumes "\<And>x y. f x = Some y \<Longrightarrow> g y = fst x"
  shows "map g (List.map_filter f xs) = map fst (filter (\<lambda>x. f x \<noteq> None) xs)"
  by (induction xs) (auto simp: map_filter_simps assms split: option.split)

lemma resume_entry_session: "resume_entry db tm h = Some e \<Longrightarrow> re_session e = fst h"
  by (auto simp: resume_entry_def split: option.splits if_splits)

lemma resumed_sessions: "map re_session (hostedSessions db tm) = map fst (filter (\<lambda>h. resume_entry db tm h \<noteq> None) (hosted_keys tm))"
  unfolding hostedSessions_def by (rule map_filter_fst) (rule resume_entry_session)

lemma distinct_resumed: "terminals_ok tm \<Longrightarrow> distinct (map re_session (hostedSessions db tm))"
  unfolding resumed_sessions hosted_keys_def
  by (intro distinct_map_filter) (simp add: terminals_ok_def)

text \<open>What one start after the other makes of the saved list.\<close>

definition resumed :: "resumeEntry \<Rightarrow> int \<Rightarrow> int \<Rightarrow> ptyEntry" where
  "resumed e tag pid = newPTYEntry (resume_request e) tag pid"

lemma resume_one:
  assumes "re_session e \<noteq> []" "lookupPTY (re_session e) tm = None"
  shows "snd (spawnPTY (resume_request e) (Some p) tm) =
    put_key (re_session e) (length (tm_entries tm))
      (tm\<lparr>tm_seq := tm_seq tm + 1, tm_entries := tm_entries tm @ [resumed e (ptyTagBase + tm_seq tm + 1) p]\<rparr>)"
  using assms
  by (simp add: spawnPTY_def start_check_def resume_request_def permissionModes_def validOrigin_def take_tag_def add_pty_def resumed_def newPTYEntry_def
      Let_def)

lemma resume_all:
  assumes "distinct (map re_session es)" "\<forall>e \<in> set es. re_session e \<noteq> [] \<and> lookupPTY (re_session e) tm = None" "length ps = length es"
  shows "let t = fold (\<lambda>(e, pid) t. snd (spawnPTY (resume_request e) pid t)) (zip es (map Some ps)) tm in
    length (tm_entries t) = length (tm_entries tm) + length es
    \<and> (\<forall>j < length es. lookupPTY (re_session (es ! j)) t = Some (length (tm_entries tm) + j)
         \<and> (\<exists>tag. tm_entries t ! (length (tm_entries tm) + j) = resumed (es ! j) tag (ps ! j)))
    \<and> (\<forall>k. k \<notin> re_session ` set es \<longrightarrow> lookupPTY k t = lookupPTY k tm)
    \<and> (\<forall>i < length (tm_entries tm). tm_entries t ! i = tm_entries tm ! i)"
  using assms
proof (induction es arbitrary: ps tm)
  case Nil
  then show ?case by simp
next
  case (Cons e es)
  obtain p ps' where ps: "ps = p # ps'" using Cons.prems(3) by (cases ps) auto
  define t1 where "t1 = snd (spawnPTY (resume_request e) (Some p) tm)"
  have t1: "t1 = put_key (re_session e) (length (tm_entries tm))
      (tm\<lparr>tm_seq := tm_seq tm + 1, tm_entries := tm_entries tm @ [resumed e (ptyTagBase + tm_seq tm + 1) p]\<rparr>)"
    unfolding t1_def using Cons.prems(2) by (intro resume_one) simp_all
  have len: "length (tm_entries t1) = length (tm_entries tm) + 1" by (simp add: t1)
  have new: "lookupPTY (re_session e) t1 = Some (length (tm_entries tm))"
    "tm_entries t1 ! length (tm_entries tm) = resumed e (ptyTagBase + tm_seq tm + 1) p" by (simp_all add: t1)
  have old: "k \<noteq> re_session e \<Longrightarrow> lookupPTY k t1 = lookupPTY k tm" "i < length (tm_entries tm) \<Longrightarrow> tm_entries t1 ! i = tm_entries tm ! i" for k i
    by (simp_all add: t1 nth_append)
  have rest: "\<forall>x \<in> set es. re_session x \<noteq> [] \<and> lookupPTY (re_session x) t1 = None"
    using Cons.prems(1,2) old(1) by (metis distinct.simps(2) image_eqI list.set_intros(2) list.set_map list.simps(9))
  define t where "t = fold (\<lambda>(e, pid) t. snd (spawnPTY (resume_request e) pid t)) (zip es (map Some ps')) t1"
  have t: "fold (\<lambda>(e, pid) t. snd (spawnPTY (resume_request e) pid t)) (zip (e # es) (map Some ps)) tm = t"
    by (simp add: ps t1_def t_def)
  have "distinct (map re_session es)" "length ps' = length es" "re_session e \<notin> re_session ` set es"
    using Cons.prems(1,3) ps by simp_all
  note IH = Cons.IH[OF this(1) rest this(2), folded t_def, unfolded Let_def len] and fresh = this(3)
  have "lookupPTY (re_session ((e # es) ! j)) t = Some (length (tm_entries tm) + j)
      \<and> (\<exists>tag. tm_entries t ! (length (tm_entries tm) + j) = resumed ((e # es) ! j) tag (ps ! j))" if "j < length (e # es)" for j
    using that IH new fresh by (cases j) (auto simp: ps)
  then show ?case unfolding t Let_def using IH old by auto
qed

text \<open>Each claude is known by one session.\<close>

definition one_session :: "terminals \<Rightarrow> bool" where
  "one_session tm \<longleftrightarrow> distinct (map snd (hosted_keys tm))"

lemma hosted_claudes:
  assumes "terminals_ok tm" "one_session tm"
  shows "length (hosted_keys tm) = card {i. i < length (tm_entries tm) \<and> pe_alive (tm_entries tm ! i) \<and> (\<exists>k. lookupPTY k tm = Some i \<and> \<not> is_pid_key k)}"
proof -
  have "snd ` set (hosted_keys tm) = {i. i < length (tm_entries tm) \<and> pe_alive (tm_entries tm ! i) \<and> (\<exists>k. lookupPTY k tm = Some i \<and> \<not> is_pid_key k)}"
  proof (intro set_eqI iffI)
    fix i assume "i \<in> snd ` set (hosted_keys tm)"
    then obtain k where "(k, i) \<in> set (hosted_keys tm)" by auto
    then have "lookupPTY k tm = Some i" "\<not> is_pid_key k" "pe_alive (tm_entries tm ! i)" using hosted_key[OF assms(1)] by simp_all
    then show "i \<in> {i. i < length (tm_entries tm) \<and> pe_alive (tm_entries tm ! i) \<and> (\<exists>k. lookupPTY k tm = Some i \<and> \<not> is_pid_key k)}"
      using key_bound[OF assms(1) lookup_in] by auto
  next
    fix i assume "i \<in> {i. i < length (tm_entries tm) \<and> pe_alive (tm_entries tm ! i) \<and> (\<exists>k. lookupPTY k tm = Some i \<and> \<not> is_pid_key k)}"
    then obtain k where "(k, i) \<in> set (hosted_keys tm)" using hosted_key[OF assms(1)] by auto
    then show "i \<in> snd ` set (hosted_keys tm)" by force
  qed
  then show ?thesis using assms(2) distinct_card[of "map snd (hosted_keys tm)"] by (simp add: one_session_def)
qed

section \<open>The shell\<close>

text \<open>
  How a shell reads a line: words end at blanks, single quotes keep everything up to the next one, a backslash keeps
  the next character. The state holds the words so far, the word at hand, if any, and whether a quote is open.
\<close>

fun shell_words :: "bool \<Rightarrow> string option \<Rightarrow> string \<Rightarrow> string list option" where
  "shell_words True w [] = None"
| "shell_words False w [] = Some (case w of None \<Rightarrow> [] | Some w \<Rightarrow> [w])"
| "shell_words True w (c # s) =
     (if c = CHR 0x27 then shell_words False w s else shell_words True (Some (case w of None \<Rightarrow> [c] | Some w \<Rightarrow> w @ [c])) s)"
| "shell_words False w (c # s) =
     (if c = CHR 0x27 then shell_words True (Some (case w of None \<Rightarrow> [] | Some w \<Rightarrow> w)) s
      else if c = CHR 0x5C then
        (case s of [] \<Rightarrow> None | d # s' \<Rightarrow> shell_words False (Some (case w of None \<Rightarrow> [d] | Some w \<Rightarrow> w @ [d])) s')
      else if c = CHR '' '' then
        (case w of None \<Rightarrow> shell_words False None s | Some w \<Rightarrow> map_option (\<lambda>ws. w # ws) (shell_words False None s))
      else shell_words False (Some (case w of None \<Rightarrow> [c] | Some w \<Rightarrow> w @ [c])) s)"

lemma shell_quoted:
  "shell_words True (Some w) (concat (map (\<lambda>c. if c = CHR 0x27 then [CHR 0x27, CHR 0x5C, CHR 0x27, CHR 0x27] else [c]) s) @ CHR 0x27 # t) =
    shell_words False (Some (w @ s)) t"
  by (induction s arbitrary: w) auto

lemma shell_quote: "shell_words False None (shellQuote s @ t) = shell_words False (Some s) t"
  using shell_quoted[of "[]" s t] by (simp add: shellQuote_def)

lemma shell_rest:
  "shell_words False (Some w) (concat (map (\<lambda>s. CHR '' '' # shellQuote s) ss)) = Some (w # ss)"
proof (induction ss arbitrary: w)
  case (Cons s ss)
  have "shell_words False (Some w) (CHR '' '' # shellQuote s @ concat (map (\<lambda>s. CHR '' '' # shellQuote s) ss)) =
    map_option (\<lambda>ws. w # ws) (shell_words False None (shellQuote s @ concat (map (\<lambda>s. CHR '' '' # shellQuote s) ss)))"
    by simp
  then show ?case using Cons by (simp add: shell_quote)
qed simp

lemma join_blank: "join_with '' '' (w # ss) = w @ concat (map (\<lambda>s. CHR '' '' # s) ss)"
  by (induction ss arbitrary: w) auto

lemma shell_plain: "list_all (\<lambda>c. c \<notin> {CHR 0x27, CHR 0x5C, CHR '' ''}) w \<Longrightarrow> shell_words False (Some v) (w @ t) = shell_words False (Some (v @ w)) t"
  by (induction w arbitrary: v) auto

lemma shell_claude: "shell_words False None (join_with '' '' (''claude'' # map shellQuote args)) = Some (''claude'' # args)"
proof -
  have "shell_words False None (join_with '' '' (''claude'' # map shellQuote args)) =
    shell_words False (Some ''c'') (''laude'' @ concat (map (\<lambda>s. CHR '' '' # shellQuote s) args))"
    by (simp add: join_blank comp_def)
  also have "\<dots> = shell_words False (Some ''claude'') (concat (map (\<lambda>s. CHR '' '' # shellQuote s) args))"
    using shell_plain[of "''laude''" "''c''"] by simp
  finally show ?thesis by (simp add: shell_rest)
qed

lemma spawn_started:
  assumes "fst (spawnPTY q pid tm) = Started key tag"
  shows "pq_mode q \<in> set permissionModes" "\<not> prefix ''-'' (pq_prompt q)"
  using assms by (auto simp: spawnPTY_def start_check_def take_tag_def split: if_splits option.splits prod.splits)

section \<open>Properties\<close>

lemma running_claudes_ok: "usual_run es no_terminals \<Longrightarrow> terminals_ok (pty_run es no_terminals)"
  using pty_ok_run by (simp add: pty_ok_def ok_no_terminals)

text \<open>C22. In every usual run of the collector each claude that runs is behind a key, keys stand for entries with the
  process they name, and tags are unique; so that when the collector stops, no claude is left running.
\<close>

theorem running_claudes_are_reachable:
  assumes "usual_run es no_terminals"
  shows "terminals_ok (pty_run es no_terminals) \<and> in_reach (pty_run es no_terminals)
    \<and> list_all (\<lambda>e. \<not> pe_alive e) (tm_entries (closeAllPTYs (pty_run es no_terminals)))"
  using pty_ok_run[OF _ assms] close_all_ends by (simp add: pty_ok_def ok_no_terminals)

definition plain_start :: "string \<Rightarrow> ptyStartReq" where
  "plain_start sid = \<lparr>pq_session = sid, pq_resume = sid, pq_cwd = ''/w'', pq_prompt = [], pq_cols = 0, pq_rows = 0, pq_mode = [],
     pq_project = [], pq_origin = []\<rparr>"

theorem running_claudes_are_reachable_witness:
  "list_all (\<lambda>e. \<not> pe_alive e)
     (tm_entries (closeAllPTYs (pty_run [Start (plain_start []) (Some 7), Hook (ptyTagBase + 1) ''s1'', Close ''x''] no_terminals)))"
  by (rule running_claudes_are_reachable[THEN conjunct2, THEN conjunct2])
     (simp add: plain_start_def is_pid_key_def fresh_pid_def no_terminals_def)

text \<open>
  Two starts for one session that look before either is entered: both run, and the first has no key. It is not
  closed when the collector stops.
\<close>

lemma start_race:
  "let tm = no_terminals; q = plain_start ''s1'';
       (t1, tm1) = take_tag tm; (t2, tm2) = take_tag tm1; tm3 = add_pty q t2 12 (add_pty q t1 11 tm2)
   in start_check q tm = None \<and> start_check q tm2 = None
      \<and> map pe_alive (tm_entries tm3) = [True, True] \<and> tm_map tm3 = [(''s1'', 1)]
      \<and> map pe_alive (tm_entries (closeAllPTYs tm3)) = [True, False]"
  by (simp add: no_terminals_def plain_start_def take_tag_def add_pty_def newPTYEntry_def put_key_def start_check_def lookupPTY_def permissionModes_def
      validOrigin_def closeAllPTYs_def close_entry_def on_entry_def Let_def)

text \<open>A key registered for the session of another claude takes its only key away.\<close>

lemma register_takes_over:
  "let tm = pty_run [Start (plain_start ''s1'') (Some 11), Start (plain_start []) (Some 12)] no_terminals;
       (code, tm') = handlePTYRegister (pid_key 12) ''s1'' tm
   in code = 204 \<and> map pe_alive (tm_entries tm') = [True, True] \<and> tm_map tm' = [(''s1'', 1), (pid_key 12, 1)]"
  by (simp add: no_terminals_def plain_start_def spawnPTY_def take_tag_def add_pty_def newPTYEntry_def put_key_def start_check_def lookupPTY_def
      permissionModes_def validOrigin_def handlePTYRegister_def pid_key_def Let_def)


definition hosted_store :: ccdb where
  "hosted_store = upsertSession LastSeenMax (zero_session\<lparr>se_id := ''s1'', se_cwd := ''/w''\<rparr>) sample_now empty_ccdb"

lemma hosted_store: "\<exists>x. GetSession ''s1'' hosted_store = Some x \<and> se_cwd x = ''/w''"
  by (simp add: hosted_store_def GetSession_def upsertSession_def empty_ccdb_def max_num_def zero_session_def Headless_def new_row_def
      fillWork_def scan_session_def scan_base_def finishSeen_def finishWait_def finishAttention_def Let_def)


text \<open>
  A claude whose session was cleared reports the new session with the tag of its terminal and keeps the key of the
  old one; a restart brings both back, as two claudes.
\<close>

lemma cleared_session_comes_back_twice:
  assumes "GetSession ''s1'' db = Some x" "se_cwd x = ''/w''" "GetSession ''s2'' db = Some y" "se_cwd y = ''/w''"
  shows "let tm = pty_run [Start (plain_start []) (Some 11), Hook (ptyTagBase + 1) ''s1'', Hook (ptyTagBase + 1) ''s2''] no_terminals
    in length (tm_entries tm) = 1 \<and> map re_session (hostedSessions db tm) = [''s1'', ''s2'']"
  using assms
  by (simp add: no_terminals_def plain_start_def spawnPTY_def take_tag_def add_pty_def newPTYEntry_def put_key_def start_check_def lookupPTY_def
      permissionModes_def validOrigin_def pid_key_def alias_by_tag_def resumed_sessions hosted_keys_def is_pid_key_def resume_entry_def Let_def)



text \<open>The id to resume is not looked at.\<close>

lemma resume_can_be_a_flag:
  "let q = (plain_start []) \<lparr>pq_resume := ''--dangerously-skip-permissions''\<rparr>
   in fst (spawnPTY q (Some 7) no_terminals) = Started (pid_key 7) (ptyTagBase + 1)
      \<and> claude_args q = [''--resume'', ''--dangerously-skip-permissions'']"
  by (simp add: plain_start_def spawnPTY_def start_check_def take_tag_def add_pty_def newPTYEntry_def permissionModes_def validOrigin_def
      no_terminals_def claude_args_def Let_def)

end
