(* ===== verification/Restart_Schedule.thy ===== *)
theory Restart_Schedule
  imports Terminals
begin

text \<open>
  A restart of the collector that waits until the claudes it hosts are idle (internal/server: restartwait.go and the
  requests of restart.go). The loop that waits is a machine of its own beside the requests: a schedule and the loops
  started for schedules, each at its place. Times are nanoseconds of the monotonic clock.
\<close>

section \<open>What a restart would cut off\<close>

definition working_label :: string where
  "working_label = [CHR 0xE4, CHR 0xBD, CHR 0x9C, CHR 0xE6, CHR 0xA5, CHR 0xAD, CHR 0xE4, CHR 0xB8, CHR 0xAD]"

definition approval_label :: string where
  "approval_label = [CHR 0xE6, CHR 0x89, CHR 0xBF, CHR 0xE8, CHR 0xAA, CHR 0x8D, CHR 0xE5, CHR 0xBE, CHR 0x85, CHR 0xE3, CHR 0x81, CHR 0xA1]"

text \<open>The entries with a session, each with the key the loop over the map met last.\<close>

definition named_entries :: "terminals \<Rightarrow> (nat \<times> string) list" where
  "named_entries tm = fold (\<lambda>(k, i). AList.update i k) (hosted_keys tm) []"

definition unregistered :: "terminals \<Rightarrow> nat" where
  "unregistered tm =
     length (filter (\<lambda>(k, i). is_pid_key k \<and> pe_alive (tm_entries tm ! i) \<and> map_of (named_entries tm) i \<in> {None, Some []}) (tm_map tm))"

definition blocker_why :: "string \<Rightarrow> session \<Rightarrow> string" where
  "blocker_why screen x =
     (if se_status x = StatusActive then working_label
      else if 0 < se_pending_count x then approval_label
      else if se_wait x = WaitBackground then WaitLabel (se_wait x) @ (if se_wait_note x = [] then [] else '': '' @ se_wait_note x)
      else screen)"

text \<open>The sessions are read with the context of the caller: when it is cancelled, none is found.\<close>

definition blocker_of :: "(string \<Rightarrow> session option) \<Rightarrow> (nat \<Rightarrow> string) \<Rightarrow> nat \<times> string \<Rightarrow> restart_blocker option" where
  "blocker_of read screen h =
     (case h of
        (i, sid) \<Rightarrow>
          case read sid of
            None \<Rightarrow> None
          | Some x \<Rightarrow>
              let why = blocker_why (screen i) x
              in if why = [] then None
                 else Some \<lparr>rb_session_id = sid, rb_num = se_num x, rb_title = DisplayTitle x, rb_why = why\<rparr>)"

definition restartBlockers :: "(string \<Rightarrow> session option) \<Rightarrow> (nat \<Rightarrow> string) \<Rightarrow> terminals \<Rightarrow> restart_blocker list \<times> nat \<times> nat" where
  "restartBlockers read screen tm =
     (List.map_filter (blocker_of read screen) (named_entries tm), length (named_entries tm), unregistered tm)"

section \<open>The schedule\<close>

definition restartQuiet :: int where "restartQuiet = 4 * 10 ^ 9"
definition restartDefaultTimeout :: int where "restartDefaultTimeout = 2 * 3600 * 10 ^ 9"
definition restartMaxTimeout :: int where "restartMaxTimeout = 24 * 3600 * 10 ^ 9"
definition restartLastKeep :: int where "restartLastKeep = 1800 * 10 ^ 9"

record restartReq =
  rq_when :: string
  rq_timeout_min :: int
  rq_by :: string

text \<open>A schedule has an identity: the address of the struct, and the context of the loop started for it.\<close>

record restartSchedule =
  sc_id :: nat
  sc_since :: int
  sc_deadline :: int
  sc_by :: string

text \<open>A loop: its context, whether that is cancelled, since when it saw nothing busy, and, within a look, what it read.\<close>

record wait_loop =
  wl_ctx :: nat
  wl_cancelled :: bool
  wl_clear :: "int option"
  wl_look :: "nat option"
  wl_over :: bool

record restarts =
  rt_sched :: "restartSchedule option"
  rt_last :: string
  rt_lastAt :: int
  rt_next :: nat
  rt_loops :: "wait_loop list"

definition no_restarts :: restarts where
  "no_restarts = \<lparr>rt_sched = None, rt_last = [], rt_lastAt = 0, rt_next = 0, rt_loops = []\<rparr>"

definition restart_timeout :: "int \<Rightarrow> int" where
  "restart_timeout m =
     (let t = wrap64 (m * (60 * 10 ^ 9)) in min (if t \<le> 0 then restartDefaultTimeout else t) restartMaxTimeout)"

definition scheduleRestart :: "restartReq \<Rightarrow> int \<Rightarrow> restarts \<Rightarrow> restarts" where
  "scheduleRestart q now s =
     (let timeout = restart_timeout (rq_timeout_min q);
          by_whom = trim_space (rq_by q);
          by_whom = (if 32 < length by_whom then take 32 by_whom else by_whom)
      in case rt_sched s of
           Some p \<Rightarrow> s\<lparr>rt_sched := Some (if sc_deadline p < now + timeout then p\<lparr>sc_deadline := now + timeout\<rparr> else p)\<rparr>
         | None \<Rightarrow>
             s\<lparr>rt_sched := Some \<lparr>sc_id = rt_next s, sc_since = now, sc_deadline = now + timeout, sc_by = by_whom\<rparr>,
               rt_last := [], rt_lastAt := 0, rt_next := rt_next s + 1,
               rt_loops := rt_loops s @ [\<lparr>wl_ctx = rt_next s, wl_cancelled = False, wl_clear = None, wl_look = None, wl_over = False\<rparr>]\<rparr>)"

definition cancelScheduledRestart :: "string \<Rightarrow> int \<Rightarrow> restarts \<Rightarrow> bool \<times> restarts" where
  "cancelScheduledRestart why now s =
     (case rt_sched s of
        None \<Rightarrow> (False, s)
      | Some p \<Rightarrow>
          let s = s\<lparr>rt_sched := None, rt_loops := map (\<lambda>l. if wl_ctx l = sc_id p then l\<lparr>wl_cancelled := True\<rparr> else l) (rt_loops s)\<rparr>
          in (True, if why = [] then s else s\<lparr>rt_last := why, rt_lastAt := now\<rparr>))"

section \<open>The loop\<close>

definition on_loop :: "nat \<Rightarrow> (wait_loop \<Rightarrow> wait_loop) \<Rightarrow> restarts \<Rightarrow> restarts" where
  "on_loop i f s = s\<lparr>rt_loops := (rt_loops s)[i := f (rt_loops s ! i)]\<rparr>"

definition loop_ends :: "nat \<Rightarrow> restarts \<Rightarrow> restarts" where
  "loop_ends i = on_loop i (\<lambda>l. l\<lparr>wl_look := None, wl_over := True\<rparr>)"

text \<open>A tick: what is pending is read, with its deadline; a look begins, or the loop ends.\<close>

definition loop_tick :: "nat \<Rightarrow> int \<Rightarrow> restarts \<Rightarrow> restarts" where
  "loop_tick i now s =
     (case rt_sched s of
        None \<Rightarrow> loop_ends i s
      | Some p \<Rightarrow>
          if sc_deadline p < now then loop_ends i (snd (cancelScheduledRestart ''expired'' now s))
          else on_loop i (\<lambda>l. l\<lparr>wl_look := Some (sc_id p)\<rparr>) s)"

text \<open>What the look has found decides; True: the collector restarts.\<close>

definition loop_decides :: "nat \<Rightarrow> int \<Rightarrow> restart_blocker list \<Rightarrow> restarts \<Rightarrow> bool \<times> restarts" where
  "loop_decides i now busy s =
     (let l = rt_loops s ! i
      in if busy \<noteq> [] then (False, on_loop i (\<lambda>l. l\<lparr>wl_clear := None, wl_look := None\<rparr>) s)
         else
           let since = (case wl_clear l of None \<Rightarrow> now | Some t \<Rightarrow> t)
           in if now - since < restartQuiet then (False, on_loop i (\<lambda>l. l\<lparr>wl_clear := Some since, wl_look := None\<rparr>) s)
              else if map_option sc_id (rt_sched s) \<noteq> wl_look l then (False, loop_ends i s)
              else (True, loop_ends i (s\<lparr>rt_sched := None\<rparr>)))"

text \<open>The list of sessions to bring back could not be saved.\<close>

definition restart_failed :: "int \<Rightarrow> restarts \<Rightarrow> restarts" where
  "restart_failed now s = s\<lparr>rt_last := ''failed'', rt_lastAt := now\<rparr>"

section \<open>The requests\<close>

datatype restart_reply = RestartError nat | RestartScheduled | Resuming

text \<open>The body is None when it is no JSON; an empty one stands for a request without any. True: the collector restarts.\<close>

definition handleRestart :: "bool \<Rightarrow> restartReq option \<Rightarrow> int \<Rightarrow> restarts \<Rightarrow> restart_reply \<times> restarts" where
  "handleRestart can body now s =
     (if \<not> can then (RestartError 501, s)
      else case body of
        None \<Rightarrow> (RestartError 400, s)
      | Some q \<Rightarrow>
          if rq_when q = [] \<or> rq_when q = RestartNow then (Resuming, snd (cancelScheduledRestart [] now s))
          else if rq_when q = RestartWhenIdle then (RestartScheduled, scheduleRestart q now s)
          else (RestartError 400, s))"

definition handleRestartCancel :: "int \<Rightarrow> restarts \<Rightarrow> restarts" where
  "handleRestartCancel now s = snd (cancelScheduledRestart ''cancelled'' now s)"

text \<open>What the people who wait are told; the wall clock gives a time its date.\<close>

definition restartState ::
  "(int \<Rightarrow> gotime) \<Rightarrow> bool \<Rightarrow> int \<Rightarrow> restart_blocker list \<times> nat \<times> nat \<Rightarrow> restarts \<Rightarrow> restart_state" where
  "restartState wall can now found s =
     (case found of
        (busy, hosted, unreg) \<Rightarrow>
          let pending = rt_sched s; told = rt_last s \<noteq> [] \<and> now - rt_lastAt s < restartLastKeep
          in \<lparr>rs_pending = (pending \<noteq> None), rs_since = map_option (\<lambda>p. wall (sc_since p)) pending,
              rs_deadline = map_option (\<lambda>p. wall (sc_deadline p)) pending, rs_by = (case pending of None \<Rightarrow> [] | Some p \<Rightarrow> sc_by p),
              rs_waiting = (if pending \<noteq> None then busy else []), rs_hosted = hosted, rs_unregistered = unreg,
              rs_last = (if told then rt_last s else []), rs_last_at = (if told then Some (wall (rt_lastAt s)) else None),
              rs_can_restart = can\<rparr>)"

end
