(* ===== verification/Restart_Facts.thy ===== *)
theory Restart_Facts
  imports Terminals_Facts Restart_Schedule
begin

text \<open>
  That a scheduled restart waits for quiet, is called off by a cancel, gives up at its deadline and comes when it is
  quiet; and where it does not wait.
\<close>

section \<open>Who is busy\<close>

text \<open>No claude that has a session works, waits for an approval, runs something in the background or asks something.\<close>

definition nobody_busy :: "(string \<Rightarrow> session option) \<Rightarrow> (nat \<Rightarrow> string) \<Rightarrow> terminals \<Rightarrow> bool" where
  "nobody_busy read screen tm \<longleftrightarrow>
     list_all (\<lambda>(k, i). case read k of None \<Rightarrow> True | Some x \<Rightarrow>
       se_status x \<noteq> StatusActive \<and> se_pending_count x \<le> 0 \<and> se_wait x \<noteq> WaitBackground \<and> screen i = []) (hosted_keys tm)"

lemma fold_update_in:
  fixes xs :: "(string \<times> nat) list"
  shows "(i, k) \<in> set (fold (\<lambda>(k, i). AList.update i k) xs ys) \<Longrightarrow> (i, k) \<in> set ys \<or> (k, i) \<in> set xs"
proof (induction xs arbitrary: ys)
  case (Cons x xs)
  obtain k' i' where x: "x = (k', i')" by fastforce
  have up: "(i, k) \<in> set (AList.update i' k' zs) \<Longrightarrow> (i, k) \<in> set zs \<or> (i = i' \<and> k = k')" for zs
    by (induction zs) (auto split: if_splits)
  show ?case using Cons.IH[of "AList.update i' k' ys"] Cons.prems up[of ys] by (auto simp: x)
qed simp

lemma fold_update_dom:
  fixes xs :: "(string \<times> nat) list"
  shows "fst ` set (fold (\<lambda>(k, i). AList.update i k) xs ys) = fst ` set ys \<union> snd ` set xs"
proof (induction xs arbitrary: ys)
  case (Cons x xs)
  then show ?case by (cases x) (simp add: dom_update)
qed simp

lemma named_entries:
  assumes "one_session tm"
  shows "(i, k) \<in> set (named_entries tm) \<longleftrightarrow> (k, i) \<in> set (hosted_keys tm)"
proof
  assume h: "(k, i) \<in> set (hosted_keys tm)"
  then have "i \<in> fst ` set (named_entries tm)" by (force simp: named_entries_def fold_update_dom)
  then obtain k' where k': "(i, k') \<in> set (named_entries tm)" by force
  then have "(k', i) \<in> set (hosted_keys tm)" using fold_update_in[of i k' "hosted_keys tm" "[]"] by (simp add: named_entries_def)
  then show "(i, k) \<in> set (named_entries tm)" using k' h assms unfolding one_session_def distinct_map by (metis inj_onD prod.inject snd_conv)
qed (use fold_update_in[of i k "hosted_keys tm" "[]"] in \<open>simp add: named_entries_def\<close>)

lemma no_blockers:
  assumes "one_session tm"
  shows "fst (restartBlockers read screen tm) = [] \<longleftrightarrow> nobody_busy read screen tm"
proof -
  have "List.map_filter f xs = [] \<longleftrightarrow> (\<forall>x \<in> set xs. f x = None)" for f :: "nat \<times> string \<Rightarrow> restart_blocker option" and xs
    by (induction xs) (auto simp: List.map_filter_simps split: option.splits)
  moreover have "blocker_of read screen (i, k) = None \<longleftrightarrow> (case read k of None \<Rightarrow> True | Some x \<Rightarrow>
       se_status x \<noteq> StatusActive \<and> se_pending_count x \<le> 0 \<and> se_wait x \<noteq> WaitBackground \<and> screen i = [])" for i k
    by (auto simp: blocker_of_def blocker_why_def working_label_def approval_label_def WaitLabel_def Let_def split: option.splits)
  ultimately show ?thesis using named_entries[OF assms] by (fastforce simp: restartBlockers_def nobody_busy_def list_all_iff)
qed

section \<open>Runs\<close>

text \<open>
  A request; a cancel; a tick of a loop; what its look finds (the database, the screens and the claudes at that time);
  a cancelled loop noticing it; a restart that could not save its list.
\<close>

datatype rs_event =
  Ask bool "restartReq option" int | Cancel int | Tick nat int | Decide nat int ccdb "nat \<Rightarrow> string" terminals | Done nat | Fail int

definition found :: "wait_loop \<Rightarrow> ccdb \<Rightarrow> (nat \<Rightarrow> string) \<Rightarrow> terminals \<Rightarrow> restart_blocker list" where
  "found l db screen tm = fst (restartBlockers (if wl_cancelled l then \<lambda>_. None else (\<lambda>sid. GetSession sid db)) screen tm)"

fun rs_step :: "rs_event \<Rightarrow> restarts \<Rightarrow> bool \<times> restarts" where
  "rs_step (Ask can body now) s = (False, snd (handleRestart can body now s))"
| "rs_step (Cancel now) s = (False, handleRestartCancel now s)"
| "rs_step (Tick i now) s = (False, loop_tick i now s)"
| "rs_step (Decide i now db screen tm) s = loop_decides i now (found (rt_loops s ! i) db screen tm) s"
| "rs_step (Done i) s = (False, loop_ends i s)"
| "rs_step (Fail now) s = (False, restart_failed now s)"

text \<open>What can happen; a cancelled loop may still take a tick, as the choice between the two is free.\<close>

fun possible :: "rs_event \<Rightarrow> restarts \<Rightarrow> bool" where
  "possible (Tick i now) s \<longleftrightarrow> i < length (rt_loops s) \<and> \<not> wl_over (rt_loops s ! i) \<and> wl_look (rt_loops s ! i) = None"
| "possible (Decide i now db screen tm) s \<longleftrightarrow>
     i < length (rt_loops s) \<and> \<not> wl_over (rt_loops s ! i) \<and> wl_look (rt_loops s ! i) \<noteq> None \<and> one_session tm"
| "possible (Done i) s \<longleftrightarrow> i < length (rt_loops s) \<and> \<not> wl_over (rt_loops s ! i) \<and> wl_look (rt_loops s ! i) = None \<and> wl_cancelled (rt_loops s ! i)"
| "possible e s \<longleftrightarrow> True"

text \<open>It does not.\<close>

definition regular :: "rs_event \<Rightarrow> restarts \<Rightarrow> bool" where
  "regular e s \<longleftrightarrow> possible e s \<and> (case e of Tick i now \<Rightarrow> \<not> wl_cancelled (rt_loops s ! i) | _ \<Rightarrow> True)"

fun rs_run :: "rs_event list \<Rightarrow> restarts \<Rightarrow> restarts" where
  "rs_run [] s = s"
| "rs_run (e # es) s = rs_run es (snd (rs_step e s))"

fun regular_run :: "rs_event list \<Rightarrow> restarts \<Rightarrow> bool" where
  "regular_run [] s \<longleftrightarrow> True"
| "regular_run (e # es) s \<longleftrightarrow> regular e s \<and> regular_run es (snd (rs_step e s))"

lemma run_append [simp]: "rs_run (es @ fs) s = rs_run fs (rs_run es s)"
  by (induction es arbitrary: s) simp_all

lemma regular_append [simp]: "regular_run (es @ fs) s \<longleftrightarrow> regular_run es s \<and> regular_run fs (rs_run es s)"
  by (induction es arbitrary: s) simp_all

section \<open>A pending restart has one loop that waits for it\<close>

definition waits :: "wait_loop \<Rightarrow> bool" where
  "waits l \<longleftrightarrow> \<not> wl_over l \<and> \<not> wl_cancelled l"

definition rs_ok :: "restarts \<Rightarrow> bool" where
  "rs_ok s \<longleftrightarrow> length (rt_loops s) = rt_next s
     \<and> (\<forall>i < rt_next s. wl_ctx (rt_loops s ! i) = i \<and> wl_look (rt_loops s ! i) \<in> {None, Some i}
         \<and> (waits (rt_loops s ! i) \<longleftrightarrow> map_option sc_id (rt_sched s) = Some i))
     \<and> (\<forall>p. rt_sched s = Some p \<longrightarrow> sc_id p < rt_next s)"

lemma on_loop_fields [simp]:
  "rt_sched (on_loop i f s) = rt_sched s" "rt_next (on_loop i f s) = rt_next s" "rt_last (on_loop i f s) = rt_last s"
  "length (rt_loops (on_loop i f s)) = length (rt_loops s)"
  "rt_loops (on_loop i f s) ! j = (if j = i \<and> i < length (rt_loops s) then f (rt_loops s ! i) else rt_loops s ! j)"
  by (cases "i < length (rt_loops s)"; simp add: on_loop_def nth_list_update list_update_beyond)+

lemma loop_ends_fields [simp]:
  "rt_sched (loop_ends i s) = rt_sched s" "rt_next (loop_ends i s) = rt_next s" "rt_last (loop_ends i s) = rt_last s"
  by (simp_all add: loop_ends_def)

lemma ok_ask: "rs_ok s \<Longrightarrow> rs_ok (scheduleRestart q now s)"
  by (auto simp: rs_ok_def scheduleRestart_def waits_def nth_append less_Suc_eq Let_def split: option.splits)

lemma ok_cancel: "rs_ok s \<Longrightarrow> rs_ok (snd (cancelScheduledRestart why now s))"
  by (auto simp: rs_ok_def cancelScheduledRestart_def waits_def Let_def split: option.splits)

lemma ok_look:
  assumes "rs_ok s" "i < rt_next s" "\<And>l. wl_ctx (f l) = wl_ctx l" "\<And>l. wl_over (f l) = wl_over l" "\<And>l. wl_cancelled (f l) = wl_cancelled l"
    "\<And>l. wl_look (f l) \<in> {None, Some i}"
  shows "rs_ok (on_loop i f s)"
  using assms by (auto simp: rs_ok_def waits_def)

lemma ok_end:
  assumes "rs_ok s" "i < rt_next s" "map_option sc_id (rt_sched s) \<noteq> Some i"
  shows "rs_ok (loop_ends i s)"
  using assms by (auto simp: rs_ok_def waits_def loop_ends_def)

lemma ok_fire:
  assumes "rs_ok s" "i < rt_next s" "map_option sc_id (rt_sched s) = Some i"
  shows "rs_ok (loop_ends i (s\<lparr>rt_sched := None\<rparr>))"
  using assms by (auto simp: rs_ok_def waits_def loop_ends_def)

lemma ok_step:
  assumes "rs_ok s" "regular e s"
  shows "rs_ok (snd (rs_step e s))"
proof (cases e)
  case (Ask can body now)
  then show ?thesis using assms(1) by (auto simp: handleRestart_def ok_ask ok_cancel split: option.split)
next
  case (Cancel now)
  then show ?thesis using assms(1) by (simp add: handleRestartCancel_def ok_cancel)
next
  case (Tick i now)
  have i: "i < rt_next s" and w: "waits (rt_loops s ! i)" using assms Tick by (auto simp: regular_def rs_ok_def waits_def)
  then obtain p where p: "rt_sched s = Some p" "sc_id p = i" using assms(1) by (auto simp: rs_ok_def)
  have "rs_ok (loop_ends i (snd (cancelScheduledRestart w now s)))" for w
    using ok_cancel[OF assms(1)] i p by (intro ok_end) (auto simp: cancelScheduledRestart_def Let_def)
  moreover have "rs_ok (on_loop i (\<lambda>l. l\<lparr>wl_look := Some i\<rparr>) s)" using assms(1) i by (rule ok_look) simp_all
  ultimately show ?thesis using Tick p by (simp add: loop_tick_def)
next
  case (Decide i now db screen tm)
  let ?busy = "found (rt_loops s ! i) db screen tm"
  have i: "i < rt_next s" and l: "wl_look (rt_loops s ! i) = Some i" using assms Decide by (auto simp: regular_def rs_ok_def)
  have look: "rs_ok (on_loop i (\<lambda>l. l\<lparr>wl_clear := c, wl_look := None\<rparr>) s)" for c using assms(1) i by (rule ok_look) simp_all
  have ends: "map_option sc_id (rt_sched s) \<noteq> Some i \<Longrightarrow> rs_ok (loop_ends i s)" using assms(1) i by (rule ok_end)
  have fires: "map_option sc_id (rt_sched s) = Some i \<Longrightarrow> rs_ok (loop_ends i (s\<lparr>rt_sched := None\<rparr>))" using assms(1) i by (rule ok_fire)
  show ?thesis using look ends fires l by (simp add: Decide loop_decides_def Let_def)
next
  case (Done i)
  have i: "i < rt_next s" "\<not> waits (rt_loops s ! i)" using assms Done by (auto simp: regular_def rs_ok_def waits_def)
  then have "map_option sc_id (rt_sched s) \<noteq> Some i" using assms(1) unfolding rs_ok_def by blast
  then show ?thesis using Done i ok_end[OF assms(1)] by simp
next
  case (Fail now)
  then show ?thesis using assms(1) by (simp add: restart_failed_def rs_ok_def)
qed

lemma ok_no_restarts: "rs_ok no_restarts"
  by (simp add: rs_ok_def no_restarts_def)

lemma ok_run: "rs_ok s \<Longrightarrow> regular_run es s \<Longrightarrow> rs_ok (rs_run es s)"
  by (induction es arbitrary: s) (simp_all add: ok_step)

section \<open>Since when it has been quiet\<close>

fun quiet_look :: "nat \<Rightarrow> rs_event \<Rightarrow> bool" where
  "quiet_look i (Decide j now db screen tm) \<longleftrightarrow> (j = i \<longrightarrow> nobody_busy (\<lambda>sid. GetSession sid db) screen tm)"
| "quiet_look i e \<longleftrightarrow> True"

lemma found_quiet:
  "one_session tm \<Longrightarrow> \<not> wl_cancelled l \<Longrightarrow> found l db screen tm = [] \<longleftrightarrow> nobody_busy (\<lambda>sid. GetSession sid db) screen tm"
  by (simp add: found_def no_blockers)

lemma schedule_clear:
  assumes "i < length (rt_loops (scheduleRestart q now s))"
  shows "wl_clear (rt_loops (scheduleRestart q now s) ! i) = None \<or> (i < length (rt_loops s) \<and> rt_loops (scheduleRestart q now s) ! i = rt_loops s ! i)"
  using assms by (auto simp: scheduleRestart_def nth_append less_Suc_eq Let_def split: option.splits)

lemma cancel_clear:
  assumes "i < length (rt_loops (snd (cancelScheduledRestart why now s)))" "\<not> wl_cancelled (rt_loops (snd (cancelScheduledRestart why now s)) ! i)"
  shows "i < length (rt_loops s) \<and> rt_loops (snd (cancelScheduledRestart why now s)) ! i = rt_loops s ! i"
  using assms by (auto simp: cancelScheduledRestart_def Let_def split: option.splits if_splits)

lemma ask_does:
  "snd (handleRestart can body now s) \<in> {s, snd (cancelScheduledRestart [] now s)} \<union> range (\<lambda>q. scheduleRestart q now s)"
  by (cases can; cases body) (simp_all add: handleRestart_def)

lemma clear_step:
  assumes "regular e s" "i < length (rt_loops (snd (rs_step e s)))" "\<not> wl_cancelled (rt_loops (snd (rs_step e s)) ! i)"
  shows "wl_clear (rt_loops (snd (rs_step e s)) ! i) = None
    \<or> (quiet_look i e \<and> i < length (rt_loops s) \<and> \<not> wl_cancelled (rt_loops s ! i)
        \<and> wl_clear (rt_loops (snd (rs_step e s)) ! i) = wl_clear (rt_loops s ! i))
    \<or> (\<exists>now db screen tm. e = Decide i now db screen tm \<and> quiet_look i e \<and> wl_clear (rt_loops (snd (rs_step e s)) ! i) = Some now)"
proof (cases e)
  case (Ask can body now)
  consider (same) "snd (rs_step e s) = s" | (scheduled) q where "snd (rs_step e s) = scheduleRestart q now s"
    | (cancelled) "snd (rs_step e s) = snd (cancelScheduledRestart [] now s)"
    using ask_does[of can body now s] Ask by auto
  then show ?thesis
  proof cases
    case same
    then show ?thesis using Ask assms(2,3) by simp
  next
    case scheduled
    then show ?thesis using Ask assms(2,3) schedule_clear[of i _ now s] by (metis quiet_look.simps(2))
  next
    case cancelled
    then show ?thesis using Ask assms(2,3) cancel_clear[of i _ now s] by (metis quiet_look.simps(2))
  qed
next
  case (Cancel now)
  then show ?thesis using assms(2,3) cancel_clear[of i _ now s] by (auto simp: handleRestartCancel_def)
next
  case (Tick j now)
  then show ?thesis using assms(2,3)
    by (auto simp: loop_tick_def loop_ends_def cancelScheduledRestart_def Let_def split: option.splits if_splits)
next
  case (Decide j now db screen tm)
  show ?thesis
  proof (cases "j = i")
    case True
    have i: "i < length (rt_loops s)" and one: "one_session tm" using assms(1) Decide True by (simp_all add: regular_def)
    have c: "\<not> wl_cancelled (rt_loops s ! i)"
      using assms(3) i True by (auto simp: Decide loop_decides_def loop_ends_def Let_def split: if_splits)
    show ?thesis using found_quiet[OF one c] i c True
      by (cases "wl_clear (rt_loops s ! i)") (auto simp: Decide loop_decides_def loop_ends_def restartQuiet_def Let_def)
  next
    case False
    then show ?thesis using assms(2,3) by (auto simp: Decide loop_decides_def loop_ends_def Let_def split: if_splits)
  qed
next
  case (Done j)
  then show ?thesis using assms(2,3) by (auto simp: loop_ends_def split: if_splits)
next
  case (Fail now)
  then show ?thesis using assms(2,3) by (simp add: restart_failed_def)
qed

lemma clear_since:
  assumes "regular_run es no_restarts" "i < length (rt_loops (rs_run es no_restarts))" "\<not> wl_cancelled (rt_loops (rs_run es no_restarts) ! i)"
    "wl_clear (rt_loops (rs_run es no_restarts) ! i) = Some t"
  shows "\<exists>pre db screen tm post. es = pre @ Decide i t db screen tm # post \<and> list_all (quiet_look i) (Decide i t db screen tm # post)"
  using assms
proof (induction es rule: rev_induct)
  case Nil
  then show ?case by (simp add: no_restarts_def)
next
  case (snoc e es)
  have reg: "regular_run es no_restarts" "regular e (rs_run es no_restarts)" using snoc.prems(1) by simp_all
  from clear_step[OF reg(2), of i] snoc.prems(2,3,4)
  consider (kept) "quiet_look i e" "i < length (rt_loops (rs_run es no_restarts))" "\<not> wl_cancelled (rt_loops (rs_run es no_restarts) ! i)"
      "wl_clear (rt_loops (rs_run es no_restarts) ! i) = Some t"
    | (new) db screen tm where "e = Decide i t db screen tm" "quiet_look i e"
    by fastforce
  then show ?case
  proof cases
    case kept
    then obtain pre db screen tm post where "es = pre @ Decide i t db screen tm # post" "list_all (quiet_look i) (Decide i t db screen tm # post)"
      using snoc.IH[OF reg(1)] by blast
    then show ?thesis using kept(1)
      by (intro exI[of _ pre] exI[of _ db] exI[of _ screen] exI[of _ tm] exI[of _ "post @ [e]"]) simp
  next
    case new
    then show ?thesis by (intro exI[of _ es] exI[of _ db] exI[of _ screen] exI[of _ tm] exI[of _ "[]"]) simp
  qed
qed

text \<open>Nothing but a request makes a restart pending.\<close>

definition asks :: "rs_event \<Rightarrow> bool" where
  "asks e \<longleftrightarrow> (case e of Ask can body now \<Rightarrow> can \<and> (\<exists>q. body = Some q \<and> rq_when q = RestartWhenIdle) | _ \<Rightarrow> False)"

lemma not_pending: "rt_sched s = None \<Longrightarrow> \<not> asks e \<Longrightarrow> rt_sched (snd (rs_step e s)) = None"
  by (cases e) (auto simp: asks_def handleRestart_def handleRestartCancel_def cancelScheduledRestart_def loop_tick_def loop_decides_def restart_failed_def
      Let_def split: option.splits)

lemma never_pending: "rt_sched s = None \<Longrightarrow> \<not> list_ex asks es \<Longrightarrow> rt_sched (rs_run es s) = None"
  by (induction es arbitrary: s) (simp_all add: not_pending)

lemma fires:
  assumes "fst (rs_step e s)"
  shows "\<exists>i now db screen tm since. e = Decide i now db screen tm \<and> found (rt_loops s ! i) db screen tm = []
    \<and> wl_clear (rt_loops s ! i) = Some since \<and> restartQuiet \<le> now - since \<and> map_option sc_id (rt_sched s) = wl_look (rt_loops s ! i)"
proof (cases e)
  case (Decide i now db screen tm)
  then show ?thesis using assms
    by (cases "wl_clear (rt_loops s ! i)") (auto simp: loop_decides_def restartQuiet_def Let_def split: if_splits)
qed (use assms in simp_all)

lemma cancel_calls_off: "rt_sched (snd (rs_step (Cancel now) s)) = None"
  by (simp add: handleRestartCancel_def cancelScheduledRestart_def Let_def split: option.splits)


definition empty_look :: "nat \<Rightarrow> int \<Rightarrow> rs_event" where
  "empty_look i t = Decide i t empty_ccdb (\<lambda>_. []) no_terminals"

definition quiet_run :: "rs_event list" where
  "quiet_run = [Ask True (Some \<lparr>rq_when = RestartWhenIdle, rq_timeout_min = 0, rq_by = ''portal''\<rparr>) 0, Tick 0 2000000000, empty_look 0 2000000000,
     Tick 0 6000000000]"


section \<open>It ends\<close>

fun ever_fires :: "rs_event list \<Rightarrow> restarts \<Rightarrow> bool" where
  "ever_fires [] s \<longleftrightarrow> False"
| "ever_fires (e # es) s \<longleftrightarrow> fst (rs_step e s) \<or> ever_fires es (snd (rs_step e s))"

lemma timeout_bounds: "0 < restart_timeout m \<and> restart_timeout m \<le> restartMaxTimeout"
  by (simp add: restart_timeout_def restartDefaultTimeout_def restartMaxTimeout_def Let_def)

text \<open>The deadline is at most a day after some request.\<close>

definition deadline_ok :: "rs_event list \<Rightarrow> restarts \<Rightarrow> bool" where
  "deadline_ok es s \<longleftrightarrow> (\<forall>p. rt_sched s = Some p \<longrightarrow>
     (\<exists>q now. Ask True (Some q) now \<in> set es \<and> now < sc_deadline p \<and> sc_deadline p \<le> now + restartMaxTimeout))"

lemma schedule_deadline:
  assumes "rt_sched (scheduleRestart q now s) = Some p"
  shows "rt_sched s = Some p \<or> sc_deadline p = now + restart_timeout (rq_timeout_min q)"
  using assms by (auto simp: scheduleRestart_def Let_def split: option.splits if_splits)

lemma step_deadline:
  assumes "rt_sched (snd (rs_step e s)) = Some p"
  shows "rt_sched s = Some p \<or> (\<exists>q now. e = Ask True (Some q) now \<and> sc_deadline p = now + restart_timeout (rq_timeout_min q))"
proof (cases e)
  case (Ask can body now)
  then show ?thesis using assms schedule_deadline[of _ now s p]
    by (cases can; cases body) (auto simp: handleRestart_def cancelScheduledRestart_def Let_def split: if_splits option.splits)
qed (use assms in \<open>auto simp: handleRestartCancel_def cancelScheduledRestart_def loop_tick_def loop_decides_def restart_failed_def Let_def
       split: option.splits if_splits\<close>)

lemma deadline_run: "deadline_ok es (rs_run es no_restarts)"
proof (induction es rule: rev_induct)
  case Nil
  then show ?case by (simp add: deadline_ok_def no_restarts_def)
next
  case (snoc e es)
  have "\<exists>q now. Ask True (Some q) now \<in> set (es @ [e]) \<and> now < sc_deadline p \<and> sc_deadline p \<le> now + restartMaxTimeout"
    if p: "rt_sched (snd (rs_step e (rs_run es no_restarts))) = Some p" for p
    using step_deadline[OF p]
  proof
    assume "rt_sched (rs_run es no_restarts) = Some p"
    then show ?thesis using snoc.IH by (auto simp: deadline_ok_def)
  next
    assume "\<exists>q now. e = Ask True (Some q) now \<and> sc_deadline p = now + restart_timeout (rq_timeout_min q)"
    then obtain q now where "e = Ask True (Some q) now" "sc_deadline p = now + restart_timeout (rq_timeout_min q)" by blast
    then show ?thesis using timeout_bounds[of "rq_timeout_min q"] by force
  qed
  then show ?case by (simp add: deadline_ok_def)
qed

lemma tick_goes_on:
  "rt_sched s = Some p \<Longrightarrow> now \<le> sc_deadline p \<Longrightarrow> rs_step (Tick i now) s = (False, on_loop i (\<lambda>l. l\<lparr>wl_look := Some (sc_id p)\<rparr>) s)"
  by (simp add: loop_tick_def)

lemma quiet_look_fires:
  assumes "rt_sched s = Some p" "i < length (rt_loops s)" "wl_look (rt_loops s ! i) = Some (sc_id p)" "found (rt_loops s ! i) db screen tm = []"
  shows "case wl_clear (rt_loops s ! i) of
      Some t0 \<Rightarrow> if restartQuiet \<le> now - t0 then fst (rs_step (Decide i now db screen tm) s)
        else rs_step (Decide i now db screen tm) s = (False, on_loop i (\<lambda>l. l\<lparr>wl_clear := Some t0, wl_look := None\<rparr>) s)
    | None \<Rightarrow> rs_step (Decide i now db screen tm) s = (False, on_loop i (\<lambda>l. l\<lparr>wl_clear := Some now, wl_look := None\<rparr>) s)"
  using assms by (simp add: loop_decides_def restartQuiet_def Let_def split: option.split)


lemmas schedule_defs = handleRestart_def handleRestartCancel_def scheduleRestart_def cancelScheduledRestart_def loop_tick_def loop_decides_def loop_ends_def
  found_def restartBlockers_def named_entries_def hosted_keys_def no_restarts_def restart_timeout_def restartDefaultTimeout_def restartMaxTimeout_def
  restartQuiet_def wrap64_def on_loop_def List.map_filter_simps Let_def


section \<open>Where it does not wait\<close>

text \<open>
  A loop whose context is cancelled may still take ticks, finds no session with that context, and takes the next
  schedule for its own: the collector restarts while a claude works.
\<close>

definition working_at :: "ccdb \<Rightarrow> terminals \<Rightarrow> bool" where
  "working_at db tm \<longleftrightarrow> (\<exists>k i x. (k, i) \<in> set (hosted_keys tm) \<and> GetSession k db = Some x \<and> se_status x = StatusActive)"

lemma found_cancelled: "wl_cancelled l \<Longrightarrow> found l db screen tm = []"
proof -
  have "List.map_filter (blocker_of (\<lambda>_. None) screen) xs = []" for xs
    by (induction xs) (auto simp: List.map_filter_simps blocker_of_def)
  then show "wl_cancelled l \<Longrightarrow> found l db screen tm = []" by (simp add: found_def restartBlockers_def)
qed

lemma cancelled_loop_restarts:
  assumes "working_at db tm" "one_session tm"
  shows "let q = \<lparr>rq_when = RestartWhenIdle, rq_timeout_min = 0, rq_by = []\<rparr>;
      es = [Ask True (Some q) 0, Cancel 1, Ask True (Some q) 2, Tick 0 2000000000, Decide 0 2000000000 db screen tm, Tick 0 6000000000];
      e = Decide 0 6000000000 db screen tm
    in fst (rs_step e (rs_run es no_restarts)) \<and> possible e (rs_run es no_restarts)"
proof -
  let ?q = "\<lparr>rq_when = RestartWhenIdle, rq_timeout_min = 0, rq_by = []\<rparr>"
  define l where "l = (\<lambda>c k. \<lparr>wl_ctx = 0, wl_cancelled = True, wl_clear = c, wl_look = k, wl_over = False\<rparr>)"
  define s where "s = (\<lambda>c k. \<lparr>rt_sched = Some \<lparr>sc_id = 1, sc_since = 2, sc_deadline = 7200000000002, sc_by = []\<rparr>, rt_last = [], rt_lastAt = 0, rt_next = 2,
      rt_loops = [l c k, \<lparr>wl_ctx = 1, wl_cancelled = False, wl_clear = None, wl_look = None, wl_over = False\<rparr>]\<rparr>)"
  have t: "restart_timeout 0 = 7200000000000" by (simp add: restart_timeout_def restartDefaultTimeout_def restartMaxTimeout_def wrap64_def)
  have trim: "trim_space [] = []" by code_simp
  have start: "rs_run [Ask True (Some ?q) 0, Cancel 1, Ask True (Some ?q) 2] no_restarts = s None None"
    by (simp add: handleRestart_def handleRestartCancel_def scheduleRestart_def cancelScheduledRestart_def no_restarts_def t trim s_def l_def Let_def)
  have tick: "rs_step (Tick 0 now) (s c None) = (False, s c (Some 1))" if "now \<le> 7200000000002" for c now
    using that by (simp add: loop_tick_def on_loop_def s_def l_def)
  have f: "found (l c k) db screen tm = []" for c k by (rule found_cancelled) (simp add: l_def)
  have first: "rs_step (Decide 0 2000000000 db screen tm) (s None (Some 1)) = (False, s (Some 2000000000) None)"
    using f by (simp add: loop_decides_def on_loop_def restartQuiet_def s_def l_def Let_def)
  have last: "fst (rs_step (Decide 0 6000000000 db screen tm) (s (Some 2000000000) (Some 1)))"
    using f by (simp add: loop_decides_def restartQuiet_def s_def l_def Let_def)
  have "possible (Decide 0 6000000000 db screen tm) (s (Some 2000000000) (Some 1))" using assms(2) by (simp add: s_def l_def)
  then show ?thesis
    using run_append[of "[Ask True (Some ?q) 0, Cancel 1, Ask True (Some ?q) 2]" "[Tick 0 2000000000, Decide 0 2000000000 db screen tm, Tick 0 6000000000]" no_restarts]
      start tick first last by (simp add: Let_def del: rs_step.simps run_append)
qed

text \<open>
  A claude whose conversation was cleared has two keys; the look goes by the one the loop over the map meets last, so
  the old session, ended long ago, can hide that the claude works.
\<close>

lemma cleared_session_hides_work:
  assumes "GetSession ''s1'' db = Some x" "se_status x = StatusStopped" "se_pending_count x = 0" "se_wait x = []"
    "GetSession ''s2'' db = Some y" "se_status y = StatusActive" "pe_alive e"
  shows "let tm = \<lparr>tm_entries = [e], tm_map = [(''s2'', 0), (''s1'', 0)], tm_seq = 1\<rparr>
    in fst (restartBlockers (\<lambda>sid. GetSession sid db) (\<lambda>_. []) tm) = [] \<and> working_at db tm"
proof -
  let ?tm = "\<lparr>tm_entries = [e], tm_map = [(''s2'', 0), (''s1'', 0)], tm_seq = 1\<rparr>"
  have hosted: "hosted_keys ?tm = [(''s2'', 0), (''s1'', 0)]" using assms(7) by (simp add: hosted_keys_def is_pid_key_def)
  have "working_at db ?tm" unfolding working_at_def hosted using assms(5,6) by (intro exI[of _ "''s2''"] exI[of _ 0] exI[of _ y]) simp
  moreover have "fst (restartBlockers (\<lambda>sid. GetSession sid db) (\<lambda>_. []) ?tm) = []"
    using assms(1-4) by (simp add: restartBlockers_def named_entries_def hosted blocker_of_def blocker_why_def List.map_filter_simps)
  ultimately show ?thesis by (simp add: Let_def)
qed

end
