(* ===== verification/Hub_State.thy ===== *)
theory Hub_State
  imports Civil_Date Stable_Sort
begin

text \<open>
  The state of the hub that survives a restart (internal/hub/state.go) and its two backends: the tables of
  hub.sqlite (store.go, and the rows of local.go and notify.go) and one document that replicas share
  through a Kubernetes Secret (k8sstore.go). Both keep the same data, so one record stands for the
  tables and for the document: the devices in the order of their rows, the kv rows, the push
  subscriptions and the last number given to one. Times are nanoseconds since 1970 UTC. The random ids and
  tokens, the clock and the hash of tokens (SHA-256) are arguments; failures of the database itself are
  outside.
\<close>

section \<open>Data\<close>

record device =
  de_id :: string
  de_name :: string
  de_created_at :: int
  de_last_seen :: "int option"
  de_hostname :: string
  de_version :: string
  de_peer_access :: string
  de_letter :: string
  de_token_hash :: string

record push_sub =
  ps_id :: int
  ps_email :: string
  ps_endpoint :: string
  ps_p256dh :: string
  ps_auth :: string
  ps_created_at :: int

record stateDoc =
  sd_devices :: "device list"
  sd_kv :: "string \<rightharpoonup> string"
  sd_subs :: "push_sub list"
  sd_next_sub_id :: int

definition empty_doc :: stateDoc where
  "empty_doc = \<lparr>sd_devices = [], sd_kv = Map.empty, sd_subs = [], sd_next_sub_id = 0\<rparr>"

datatype hub_error = ErrNoRows | ErrDuplicateName | ErrDuplicateLetter | ErrConstraint | ErrConflict | ErrStore

datatype answer = Done | Value string | Registered device string | Rotated string | Local device

definition LocalDeviceID :: string where
  "LocalDeviceID = ''local''"

definition validName :: "string \<Rightarrow> bool" where
  "validName name \<longleftrightarrow> name \<noteq> [] \<and> length name \<le> 64 \<and> set name \<inter> {CHR 0x00, CHR 0x0D, CHR 0x0A} = {}"

text \<open>A device of the tables or the document, and a row of its columns.\<close>

definition new_device :: "string \<Rightarrow> string \<Rightarrow> string \<Rightarrow> int \<Rightarrow> string \<Rightarrow> device" where
  "new_device i name hash now letter =
     \<lparr>de_id = i, de_name = name, de_created_at = now, de_last_seen = None, de_hostname = [], de_version = [],
      de_peer_access = [], de_letter = letter, de_token_hash = hash\<rparr>"

definition on_device :: "string \<Rightarrow> (device \<Rightarrow> device) \<Rightarrow> stateDoc \<Rightarrow> stateDoc" where
  "on_device i f d = d\<lparr>sd_devices := update_where (\<lambda>x. de_id x = i) f (sd_devices d)\<rparr>"

text \<open>The first device with an id, as a loop over the document finds it.\<close>

fun update_first :: "('a \<Rightarrow> bool) \<Rightarrow> ('a \<Rightarrow> 'a) \<Rightarrow> 'a list \<Rightarrow> 'a list" where
  "update_first p f [] = []"
| "update_first p f (x # xs) = (if p x then f x # xs else x # update_first p f xs)"

definition with_device :: "string \<Rightarrow> (device \<Rightarrow> device) \<Rightarrow> stateDoc \<Rightarrow> stateDoc" where
  "with_device i f d = d\<lparr>sd_devices := update_first (\<lambda>x. de_id x = i) f (sd_devices d)\<rparr>"

definition the_device :: "string \<Rightarrow> stateDoc \<Rightarrow> device option" where
  "the_device i d = find (\<lambda>x. de_id x = i) (sd_devices d)"

definition nameTaken :: "string \<Rightarrow> string \<Rightarrow> stateDoc \<Rightarrow> bool" where
  "nameTaken name except d \<longleftrightarrow> list_ex (\<lambda>x. de_name x = name \<and> de_id x \<noteq> except) (sd_devices d)"

section \<open>Letters\<close>

definition capitals :: string where
  "capitals = map char_of [65..<91::nat]"

definition validLetter :: "string \<Rightarrow> bool" where
  "validLetter l \<longleftrightarrow> 1 \<le> length l \<and> length l \<le> 2 \<and> list_all (byte_in 65 90) l"

definition nextLetter :: "string set \<Rightarrow> string" where
  "nextLetter used =
     (case find (\<lambda>l. l \<notin> used) (map (\<lambda>a. [a]) capitals) of
        Some l \<Rightarrow> l
      | None \<Rightarrow>
          (case find (\<lambda>l. l \<notin> used) (concat (map (\<lambda>a. map (\<lambda>b. [a, b]) capitals) capitals)) of
             Some l \<Rightarrow> l | None \<Rightarrow> []))"

definition usedLetters :: "stateDoc \<Rightarrow> string set" where
  "usedLetters d = set (filter (\<lambda>l. l \<noteq> []) (map de_letter (sd_devices d)))"

definition give_letter :: "nat \<Rightarrow> stateDoc \<times> string set \<Rightarrow> stateDoc \<times> string set" where
  "give_letter k = (\<lambda>(d, used).
     let l = nextLetter used
     in (d\<lparr>sd_devices := (sd_devices d)[k := (sd_devices d ! k)\<lparr>de_letter := l\<rparr>]\<rparr>, insert l used))"

definition sql_give_letter :: "string \<Rightarrow> stateDoc \<times> string set \<Rightarrow> stateDoc \<times> string set" where
  "sql_give_letter i = (\<lambda>(d, used).
     let l = nextLetter used in (on_device i (\<lambda>x. x\<lparr>de_letter := l\<rparr>) d, insert l used))"

definition without_letter :: "device \<Rightarrow> bool" where
  "without_letter x \<longleftrightarrow> de_letter x = [] \<and> de_id x \<noteq> LocalDeviceID"

text \<open>The document orders the devices by time, the tables by the text of the created_at column.\<close>

definition trim_zeros :: "string \<Rightarrow> string" where
  "trim_zeros s = rev (dropWhile (\<lambda>c. c = CHR ''0'') (rev s))"

definition pad_nanos :: "nat \<Rightarrow> string" where
  "pad_nanos n = map (\<lambda>k. digit (n div 10 ^ k mod 10)) (rev [0..<9])"

definition rfc3339_nano :: "int \<Rightarrow> string" where
  "rfc3339_nano t =
     (let n = nat (t mod 10 ^ 9); s = t div 10 ^ 9
      in date_string (s div 86400 + 719162) @ ''T'' @
         clock_string \<lparr>gt_day = 0, gt_sec = nat (s mod 86400), gt_ms = 0, gt_off = 0\<rparr> @
         (if n = 0 then [] else ''.'' @ trim_zeros (pad_nanos n)) @ ''Z'')"

definition older :: "device \<Rightarrow> device \<Rightarrow> bool" where
  "older x y \<longleftrightarrow> (if de_created_at x \<noteq> de_created_at y then de_created_at x < de_created_at y else de_id x < de_id y)"

definition older_text :: "device \<Rightarrow> device \<Rightarrow> bool" where
  "older_text x y \<longleftrightarrow>
     (let a = rfc3339_nano (de_created_at x); b = rfc3339_nano (de_created_at y) in if a \<noteq> b then a < b else de_id x < de_id y)"

definition doc_backfillLetters :: "stateDoc \<Rightarrow> stateDoc \<times> bool" where
  "doc_backfillLetters d =
     (let idx = filter (\<lambda>k. without_letter (sd_devices d ! k)) [0..<length (sd_devices d)]
      in if idx = [] then (d, False)
         else (fst (foldl (\<lambda>s k. give_letter k s) (d, usedLetters d)
                (stable_sort (\<lambda>j k. older (sd_devices d ! j) (sd_devices d ! k)) idx)), True))"

definition sql_backfillLetters :: "stateDoc \<Rightarrow> stateDoc" where
  "sql_backfillLetters d =
     fst (foldl (\<lambda>s i. sql_give_letter i s) (d, usedLetters d)
       (map de_id (stable_sort older_text (filter without_letter (sd_devices d)))))"

section \<open>The document\<close>

text \<open>
  What a change of the document does to one copy of it: refuse, leave it as it is, or replace it. The answer is
  what the caller returns when that is what counts.
\<close>

datatype outcome = Refuse hub_error | NoChange answer | Change stateDoc answer

definition doc_secret :: "string \<Rightarrow> string \<Rightarrow> stateDoc \<Rightarrow> outcome" where
  "doc_secret k v d =
     (case sd_kv d k of Some cur \<Rightarrow> NoChange (Value cur) | None \<Rightarrow> Change (d\<lparr>sd_kv := (sd_kv d)(k \<mapsto> v)\<rparr>) (Value v))"

definition doc_putKV :: "string \<Rightarrow> string \<Rightarrow> stateDoc \<Rightarrow> outcome" where
  "doc_putKV k v d =
     (if sd_kv d k = Some v then NoChange Done else Change (d\<lparr>sd_kv := (sd_kv d)(k \<mapsto> v)\<rparr>) Done)"

definition doc_createDevice :: "(string \<Rightarrow> string) \<Rightarrow> string \<Rightarrow> string \<Rightarrow> int \<Rightarrow> string \<Rightarrow> stateDoc \<Rightarrow> outcome" where
  "doc_createDevice hash i tok now name d =
     (if nameTaken name [] d then Refuse ErrDuplicateName
      else
        let nd = new_device i name (hash tok) now (nextLetter (usedLetters d))
        in Change (d\<lparr>sd_devices := sd_devices d @ [nd]\<rparr>) (Registered nd tok))"

definition doc_rotateToken :: "(string \<Rightarrow> string) \<Rightarrow> string \<Rightarrow> string \<Rightarrow> stateDoc \<Rightarrow> outcome" where
  "doc_rotateToken hash i tok d =
     (if the_device i d = None then Refuse ErrNoRows
      else Change (with_device i (\<lambda>x. x\<lparr>de_token_hash := hash tok\<rparr>) d) (Rotated tok))"

definition doc_deleteDevice :: "string \<Rightarrow> stateDoc \<Rightarrow> outcome" where
  "doc_deleteDevice i d =
     (if the_device i d = None then Refuse ErrNoRows
      else
        let k = length (takeWhile (\<lambda>x. de_id x \<noteq> i) (sd_devices d))
        in Change (d\<lparr>sd_devices := take k (sd_devices d) @ drop (Suc k) (sd_devices d)\<rparr>) Done)"

definition doc_renameDevice :: "string \<Rightarrow> string \<Rightarrow> stateDoc \<Rightarrow> outcome" where
  "doc_renameDevice i name d =
     (if the_device i d = None then Refuse ErrNoRows
      else if nameTaken name i d then Refuse ErrDuplicateName
      else Change (with_device i (\<lambda>x. x\<lparr>de_name := name\<rparr>) d) Done)"

definition touchEvery :: int where
  "touchEvery = 5 * 60 * 10 ^ 9"

definition doc_touchDevice :: "string \<Rightarrow> string \<Rightarrow> string \<Rightarrow> int \<Rightarrow> stateDoc \<Rightarrow> outcome" where
  "doc_touchDevice i hostname version now d =
     (case the_device i d of
        None \<Rightarrow> NoChange Done
      | Some x \<Rightarrow>
          if de_hostname x = hostname \<and> de_version x = version
             \<and> (case de_last_seen x of None \<Rightarrow> False | Some t \<Rightarrow> now - t < touchEvery)
          then NoChange Done
          else Change (with_device i (\<lambda>x. x\<lparr>de_last_seen := Some now, de_hostname := hostname, de_version := version\<rparr>) d) Done)"

definition doc_setPeerAccess :: "string \<Rightarrow> string \<Rightarrow> stateDoc \<Rightarrow> outcome" where
  "doc_setPeerAccess i access d =
     (if the_device i d = None then Refuse ErrNoRows
      else Change (with_device i (\<lambda>x. x\<lparr>de_peer_access := access\<rparr>) d) Done)"

definition letterTaken :: "string \<Rightarrow> string \<Rightarrow> stateDoc \<Rightarrow> bool" where
  "letterTaken letter except d \<longleftrightarrow> list_ex (\<lambda>x. de_id x \<noteq> except \<and> de_letter x = letter) (sd_devices d)"

definition doc_setLetter :: "string \<Rightarrow> string \<Rightarrow> stateDoc \<Rightarrow> outcome" where
  "doc_setLetter i letter d =
     (if the_device i d = None then Refuse ErrNoRows
      else if letterTaken letter i d then Refuse ErrDuplicateLetter
      else Change (with_device i (\<lambda>x. x\<lparr>de_letter := letter\<rparr>) d) Done)"

definition local_name :: "string \<Rightarrow> string" where
  "local_name name = (if validName name then name else ''this machine'')"

definition doc_ensureLocalDevice :: "(string \<Rightarrow> string) \<Rightarrow> string \<Rightarrow> int \<Rightarrow> string \<Rightarrow> stateDoc \<Rightarrow> outcome" where
  "doc_ensureLocalDevice hash tok now name d =
     (let name = local_name name
      in case the_device LocalDeviceID d of
           Some x \<Rightarrow> Change (with_device LocalDeviceID (\<lambda>x. x\<lparr>de_name := name\<rparr>) d) (Local (x\<lparr>de_name := name\<rparr>))
         | None \<Rightarrow>
             let nd = new_device LocalDeviceID name (hash tok) now []
             in Change (d\<lparr>sd_devices := sd_devices d @ [nd]\<rparr>) (Local nd))"

definition with_sub :: "string \<Rightarrow> (push_sub \<Rightarrow> push_sub) \<Rightarrow> stateDoc \<Rightarrow> stateDoc" where
  "with_sub endpoint f d = d\<lparr>sd_subs := update_first (\<lambda>x. ps_endpoint x = endpoint) f (sd_subs d)\<rparr>"

definition the_sub :: "string \<Rightarrow> stateDoc \<Rightarrow> push_sub option" where
  "the_sub endpoint d = find (\<lambda>x. ps_endpoint x = endpoint) (sd_subs d)"

definition new_sub :: "int \<Rightarrow> string \<Rightarrow> push_sub \<Rightarrow> int \<Rightarrow> push_sub" where
  "new_sub i email s now = s\<lparr>ps_id := i, ps_email := email, ps_created_at := now\<rparr>"

definition doc_addSub :: "string \<Rightarrow> push_sub \<Rightarrow> int \<Rightarrow> stateDoc \<Rightarrow> outcome" where
  "doc_addSub email s now d =
     (if the_sub (ps_endpoint s) d \<noteq> None
      then Change (with_sub (ps_endpoint s) (\<lambda>x. x\<lparr>ps_email := email, ps_p256dh := ps_p256dh s, ps_auth := ps_auth s\<rparr>) d) Done
      else
        let i = sd_next_sub_id d + 1
        in Change (d\<lparr>sd_next_sub_id := i, sd_subs := sd_subs d @ [new_sub i email s now]\<rparr>) Done)"

definition doc_removeSub :: "string \<Rightarrow> stateDoc \<Rightarrow> outcome" where
  "doc_removeSub endpoint d =
     (if the_sub endpoint d = None then NoChange Done
      else
        let k = length (takeWhile (\<lambda>x. ps_endpoint x \<noteq> endpoint) (sd_subs d))
        in Change (d\<lparr>sd_subs := take k (sd_subs d) @ drop (Suc k) (sd_subs d)\<rparr>) Done)"

text \<open>What opening the store does first: take over an existing hub.sqlite, give letters to devices without one.\<close>

definition doc_import :: "stateDoc \<Rightarrow> stateDoc \<Rightarrow> outcome" where
  "doc_import new d = (if sd_devices d \<noteq> [] \<or> sd_kv d \<noteq> Map.empty then NoChange Done else Change new Done)"

definition doc_letters :: "stateDoc \<Rightarrow> outcome" where
  "doc_letters d = (case doc_backfillLetters d of (d', changed) \<Rightarrow> if changed then Change d' Done else NoChange Done)"

section \<open>The tables\<close>

text \<open>The constraints of the devices table: id, name and token_hash each name one row.\<close>

definition sql_secret_select :: "string \<Rightarrow> stateDoc \<Rightarrow> string option" where
  "sql_secret_select k d = sd_kv d k"

definition sql_secret_insert :: "string \<Rightarrow> string \<Rightarrow> stateDoc \<Rightarrow> stateDoc \<times> (hub_error + answer)" where
  "sql_secret_insert k v d =
     (if sd_kv d k \<noteq> None then (d, Inl ErrConstraint) else (d\<lparr>sd_kv := (sd_kv d)(k \<mapsto> v)\<rparr>, Inr (Value v)))"

definition sql_secret :: "string \<Rightarrow> string \<Rightarrow> stateDoc \<Rightarrow> stateDoc \<times> (hub_error + answer)" where
  "sql_secret k v d =
     (case sql_secret_select k d of Some cur \<Rightarrow> (d, Inr (Value cur)) | None \<Rightarrow> sql_secret_insert k v d)"

definition sql_putKV :: "string \<Rightarrow> string \<Rightarrow> stateDoc \<Rightarrow> stateDoc \<times> (hub_error + answer)" where
  "sql_putKV k v d = (d\<lparr>sd_kv := (sd_kv d)(k \<mapsto> v)\<rparr>, Inr Done)"

definition hashTaken :: "string \<Rightarrow> string \<Rightarrow> stateDoc \<Rightarrow> bool" where
  "hashTaken h except d \<longleftrightarrow> list_ex (\<lambda>x. de_token_hash x = h \<and> de_id x \<noteq> except) (sd_devices d)"

definition sql_createDevice ::
  "(string \<Rightarrow> string) \<Rightarrow> string \<Rightarrow> string \<Rightarrow> int \<Rightarrow> string \<Rightarrow> stateDoc \<Rightarrow> stateDoc \<times> (hub_error + answer)"
where
  "sql_createDevice hash i tok now name d =
     (let nd = new_device i name (hash tok) now (nextLetter (usedLetters d))
      in if list_ex (\<lambda>x. de_name x = name) (sd_devices d) then (d, Inl ErrDuplicateName)
         else if list_ex (\<lambda>x. de_id x = i \<or> de_token_hash x = hash tok) (sd_devices d) then (d, Inl ErrConstraint)
         else (d\<lparr>sd_devices := sd_devices d @ [nd]\<rparr>, Inr (Registered nd tok)))"

text \<open>An UPDATE of the row of an id that must find one.\<close>

definition sql_update :: "string \<Rightarrow> (device \<Rightarrow> device) \<Rightarrow> answer \<Rightarrow> stateDoc \<Rightarrow> stateDoc \<times> (hub_error + answer)" where
  "sql_update i f a d = (if the_device i d = None then (d, Inl ErrNoRows) else (on_device i f d, Inr a))"

definition sql_rotateToken :: "(string \<Rightarrow> string) \<Rightarrow> string \<Rightarrow> string \<Rightarrow> stateDoc \<Rightarrow> stateDoc \<times> (hub_error + answer)" where
  "sql_rotateToken hash i tok d =
     (if the_device i d \<noteq> None \<and> hashTaken (hash tok) i d then (d, Inl ErrConstraint)
      else sql_update i (\<lambda>x. x\<lparr>de_token_hash := hash tok\<rparr>) (Rotated tok) d)"

definition sql_deleteDevice :: "string \<Rightarrow> stateDoc \<Rightarrow> stateDoc \<times> (hub_error + answer)" where
  "sql_deleteDevice i d =
     (if the_device i d = None then (d, Inl ErrNoRows)
      else (d\<lparr>sd_devices := filter (\<lambda>x. de_id x \<noteq> i) (sd_devices d)\<rparr>, Inr Done))"

definition sql_renameDevice :: "string \<Rightarrow> string \<Rightarrow> stateDoc \<Rightarrow> stateDoc \<times> (hub_error + answer)" where
  "sql_renameDevice i name d =
     (if the_device i d \<noteq> None \<and> nameTaken name i d then (d, Inl ErrDuplicateName)
      else sql_update i (\<lambda>x. x\<lparr>de_name := name\<rparr>) Done d)"

definition sql_touchDevice :: "string \<Rightarrow> string \<Rightarrow> string \<Rightarrow> int \<Rightarrow> stateDoc \<Rightarrow> stateDoc \<times> (hub_error + answer)" where
  "sql_touchDevice i hostname version now d =
     (on_device i (\<lambda>x. x\<lparr>de_last_seen := Some now, de_hostname := hostname, de_version := version\<rparr>) d, Inr Done)"

definition sql_setPeerAccess :: "string \<Rightarrow> string \<Rightarrow> stateDoc \<Rightarrow> stateDoc \<times> (hub_error + answer)" where
  "sql_setPeerAccess i access = sql_update i (\<lambda>x. x\<lparr>de_peer_access := access\<rparr>) Done"

definition sql_setLetter :: "string \<Rightarrow> string \<Rightarrow> stateDoc \<Rightarrow> stateDoc \<times> (hub_error + answer)" where
  "sql_setLetter i letter d =
     (if letterTaken letter i d then (d, Inl ErrDuplicateLetter)
      else sql_update i (\<lambda>x. x\<lparr>de_letter := letter\<rparr>) Done d)"

text \<open>An INSERT that updates the row of the local device when there is one; another row may hold the name or the hash.\<close>

definition sql_ensureLocalDevice ::
  "(string \<Rightarrow> string) \<Rightarrow> string \<Rightarrow> int \<Rightarrow> string \<Rightarrow> stateDoc \<Rightarrow> stateDoc \<times> (hub_error + answer)"
where
  "sql_ensureLocalDevice hash tok now name d =
     (let name = local_name name
      in if nameTaken name LocalDeviceID d then (d, Inl ErrConstraint)
         else
           case the_device LocalDeviceID d of
             Some x \<Rightarrow> (on_device LocalDeviceID (\<lambda>x. x\<lparr>de_name := name\<rparr>) d, Inr (Local (x\<lparr>de_name := name\<rparr>)))
           | None \<Rightarrow>
               let nd = new_device LocalDeviceID name (hash tok) now []
               in if hashTaken (hash tok) LocalDeviceID d then (d, Inl ErrConstraint)
                  else (d\<lparr>sd_devices := sd_devices d @ [nd]\<rparr>, Inr (Local nd)))"

definition on_sub :: "string \<Rightarrow> (push_sub \<Rightarrow> push_sub) \<Rightarrow> stateDoc \<Rightarrow> stateDoc" where
  "on_sub endpoint f d = d\<lparr>sd_subs := update_where (\<lambda>x. ps_endpoint x = endpoint) f (sd_subs d)\<rparr>"

text \<open>The number of a new row is the next one; that an update of a row may use up a number too is left out.\<close>

definition sql_addSub :: "string \<Rightarrow> push_sub \<Rightarrow> int \<Rightarrow> stateDoc \<Rightarrow> stateDoc \<times> (hub_error + answer)" where
  "sql_addSub email s now d =
     (if the_sub (ps_endpoint s) d \<noteq> None
      then (on_sub (ps_endpoint s) (\<lambda>x. x\<lparr>ps_email := email, ps_p256dh := ps_p256dh s, ps_auth := ps_auth s\<rparr>) d, Inr Done)
      else
        let i = sd_next_sub_id d + 1
        in (d\<lparr>sd_next_sub_id := i, sd_subs := sd_subs d @ [new_sub i email s now]\<rparr>, Inr Done))"

definition sql_removeSub :: "string \<Rightarrow> stateDoc \<Rightarrow> stateDoc \<times> (hub_error + answer)" where
  "sql_removeSub endpoint d = (d\<lparr>sd_subs := filter (\<lambda>x. ps_endpoint x \<noteq> endpoint) (sd_subs d)\<rparr>, Inr Done)"

section \<open>Reading\<close>

definition listDevices :: "stateDoc \<Rightarrow> device list" where
  "listDevices d = stable_sort (\<lambda>x y. de_name x < de_name y) (sd_devices d)"

definition deviceByHash :: "string \<Rightarrow> stateDoc \<Rightarrow> device option" where
  "deviceByHash h d = find (\<lambda>x. de_token_hash x = h) (sd_devices d)"

definition sql_deviceByToken :: "(string \<Rightarrow> string) \<Rightarrow> string \<Rightarrow> stateDoc \<Rightarrow> device option" where
  "sql_deviceByToken hash tok = deviceByHash (hash tok)"

definition subByEndpoint :: "string \<Rightarrow> stateDoc \<Rightarrow> push_sub option" where
  "subByEndpoint = the_sub"

definition listSubs :: "stateDoc \<Rightarrow> push_sub list" where
  "listSubs = sd_subs"

text \<open>The document made of an existing hub.sqlite.\<close>

definition readSQLiteState :: "int \<Rightarrow> stateDoc \<Rightarrow> stateDoc" where
  "readSQLiteState now t =
     \<lparr>sd_devices = listDevices t, sd_kv = sd_kv t, sd_subs = map (\<lambda>s. s\<lparr>ps_created_at := now\<rparr>) (listSubs t),
      sd_next_sub_id = foldl max 0 (map ps_id (listSubs t))\<rparr>"

section \<open>Operations\<close>

datatype hub_op =
  Secret string string | PutKV string string | CreateDevice string string int string | RotateToken string string
| DeleteDevice string | RenameDevice string string | TouchDevice string string string int | SetPeerAccess string string
| SetLetter string string | EnsureLocal string int string | AddSub string push_sub int | RemoveSub string

fun doc_op :: "(string \<Rightarrow> string) \<Rightarrow> hub_op \<Rightarrow> stateDoc \<Rightarrow> outcome" where
  "doc_op hash (Secret k v) = doc_secret k v"
| "doc_op hash (PutKV k v) = doc_putKV k v"
| "doc_op hash (CreateDevice i tok now name) = doc_createDevice hash i tok now name"
| "doc_op hash (RotateToken i tok) = doc_rotateToken hash i tok"
| "doc_op hash (DeleteDevice i) = doc_deleteDevice i"
| "doc_op hash (RenameDevice i name) = doc_renameDevice i name"
| "doc_op hash (TouchDevice i hostname version now) = doc_touchDevice i hostname version now"
| "doc_op hash (SetPeerAccess i access) = doc_setPeerAccess i access"
| "doc_op hash (SetLetter i letter) = doc_setLetter i letter"
| "doc_op hash (EnsureLocal tok now name) = doc_ensureLocalDevice hash tok now name"
| "doc_op hash (AddSub email s now) = doc_addSub email s now"
| "doc_op hash (RemoveSub endpoint) = doc_removeSub endpoint"

fun sql_op :: "(string \<Rightarrow> string) \<Rightarrow> hub_op \<Rightarrow> stateDoc \<Rightarrow> stateDoc \<times> (hub_error + answer)" where
  "sql_op hash (Secret k v) = sql_secret k v"
| "sql_op hash (PutKV k v) = sql_putKV k v"
| "sql_op hash (CreateDevice i tok now name) = sql_createDevice hash i tok now name"
| "sql_op hash (RotateToken i tok) = sql_rotateToken hash i tok"
| "sql_op hash (DeleteDevice i) = sql_deleteDevice i"
| "sql_op hash (RenameDevice i name) = sql_renameDevice i name"
| "sql_op hash (TouchDevice i hostname version now) = sql_touchDevice i hostname version now"
| "sql_op hash (SetPeerAccess i access) = sql_setPeerAccess i access"
| "sql_op hash (SetLetter i letter) = sql_setLetter i letter"
| "sql_op hash (EnsureLocal tok now name) = sql_ensureLocalDevice hash tok now name"
| "sql_op hash (AddSub email s now) = sql_addSub email s now"
| "sql_op hash (RemoveSub endpoint) = sql_removeSub endpoint"

text \<open>The document changed where it stands, with nobody else writing.\<close>

definition apply_outcome :: "stateDoc \<Rightarrow> outcome \<Rightarrow> stateDoc \<times> (hub_error + answer)" where
  "apply_outcome d r = (case r of Refuse e \<Rightarrow> (d, Inl e) | NoChange a \<Rightarrow> (d, Inr a) | Change d' a \<Rightarrow> (d', Inr a))"

end
