(* ===== verification/Hub_Watch.thy ===== *)
theory Hub_Watch
  imports Restart_Schedule Hub_State
begin

text \<open>
  The hub looks at every connected device and tells the browsers that subscribed when a session needs the operator
  or has finished (internal/hub/notify.go), and shows the sessions of all devices on one board. Reading from the
  device is outside: what it answers is an argument, None for no answer. The English of a label is looked up in the
  table of internal/i18n/en.go, which is an argument. A look reads the clock once, in nanoseconds.
\<close>

section \<open>Texts\<close>

definition needs_label :: string where
  "needs_label =
     [CHR 0xE8, CHR 0xA6, CHR 0x81, CHR 0xE5, CHR 0xAF, CHR 0xBE, CHR 0xE5, CHR 0xBF, CHR 0x9C]"

definition finished_label :: string where
  "finished_label =
     [CHR 0xE5, CHR 0xAE, CHR 0x8C, CHR 0xE4, CHR 0xBA, CHR 0x86]"

definition new_session_label :: string where
  "new_session_label =
     [CHR 0xE6, CHR 0x96, CHR 0xB0, CHR 0xE3, CHR 0x81, CHR 0x97, CHR 0xE3, CHR 0x81, CHR 0x84, CHR 0xE3, CHR 0x82, CHR 0xBB, CHR 0xE3,
     CHR 0x83, CHR 0x83, CHR 0xE3, CHR 0x82, CHR 0xB7, CHR 0xE3, CHR 0x83, CHR 0xA7, CHR 0xE3, CHR 0x83, CHR 0xB3]"

definition wide_open :: string where
  "wide_open =
     [CHR 0xEF, CHR 0xBC, CHR 0x88]"

definition wide_close :: string where
  "wide_close =
     [CHR 0xEF, CHR 0xBC, CHR 0x89]"


definition dot :: string where
  "dot =
     [CHR 0x20, CHR 0xC2, CHR 0xB7, CHR 0x20]"

definition restart_title :: string where
  "restart_title =
     [CHR 0xE5, CHR 0x86, CHR 0x8D, CHR 0xE8, CHR 0xB5, CHR 0xB7, CHR 0xE5, CHR 0x8B, CHR 0x95, CHR 0xE3, CHR 0x82, CHR 0x92, CHR 0xE4,
     CHR 0xBA, CHR 0x88, CHR 0xE7, CHR 0xB4, CHR 0x84]"

definition restart_body1 :: string where
  "restart_body1 =
     [CHR 0xE4, CHR 0xBD, CHR 0x9C, CHR 0xE6, CHR 0xA5, CHR 0xAD, CHR 0xE4, CHR 0xB8, CHR 0xAD, CHR 0xE3, CHR 0x81, CHR 0xAE, CHR 0xE3,
     CHR 0x82, CHR 0xBB, CHR 0xE3, CHR 0x83, CHR 0x83, CHR 0xE3, CHR 0x82, CHR 0xB7, CHR 0xE3, CHR 0x83, CHR 0xA7, CHR 0xE3, CHR 0x83,
     CHR 0xB3, CHR 0xE3, CHR 0x81, CHR 0x8C, CHR 0xE7, CHR 0xB5, CHR 0x82, CHR 0xE3, CHR 0x82, CHR 0x8F, CHR 0xE3, CHR 0x82, CHR 0x8A,
     CHR 0xE6, CHR 0xAC, CHR 0xA1, CHR 0xE7, CHR 0xAC, CHR 0xAC, CHR 0x20, CHR 0x63, CHR 0x63, CHR 0x64, CHR 0x61, CHR 0x73, CHR 0x68,
     CHR 0x20, CHR 0xE3, CHR 0x82, CHR 0x92, CHR 0xE5, CHR 0x86, CHR 0x8D, CHR 0xE8, CHR 0xB5, CHR 0xB7, CHR 0xE5, CHR 0x8B, CHR 0x95,
     CHR 0xE3, CHR 0x81, CHR 0x97, CHR 0xE3, CHR 0x81, CHR 0xBE, CHR 0xE3, CHR 0x81, CHR 0x99, CHR 0xEF, CHR 0xBC, CHR 0x88]"

definition restart_body2 :: string where
  "restart_body2 =
     [CHR 0x20, CHR 0xE4, CHR 0xBB, CHR 0xB6, CHR 0xE5, CHR 0xBE, CHR 0x85, CHR 0xE3, CHR 0x81, CHR 0xA1, CHR 0xEF, CHR 0xBC, CHR 0x89,
     CHR 0xE3, CHR 0x80, CHR 0x82, CHR 0xE3, CHR 0x83, CHR 0x9B, CHR 0xE3, CHR 0x82, CHR 0xB9, CHR 0xE3, CHR 0x83, CHR 0x88, CHR 0xE4,
     CHR 0xB8, CHR 0xAD, CHR 0xE3, CHR 0x81, CHR 0xAE, CHR 0x20]"

definition restart_body3 :: string where
  "restart_body3 =
     [CHR 0x20, CHR 0xE4, CHR 0xBB, CHR 0xB6, CHR 0xE3, CHR 0x81, CHR 0xAF, CHR 0xE3, CHR 0x81, CHR 0x84, CHR 0xE3, CHR 0x81, CHR 0xA3,
     CHR 0xE3, CHR 0x81, CHR 0x9F, CHR 0xE3, CHR 0x82, CHR 0x93, CHR 0xE6, CHR 0xAD, CHR 0xA2, CHR 0xE3, CHR 0x81, CHR 0xBE, CHR 0xE3,
     CHR 0x82, CHR 0x8A, CHR 0xE3, CHR 0x80, CHR 0x81, CHR 0xE8, CHR 0x87, CHR 0xAA, CHR 0xE5, CHR 0x8B, CHR 0x95, CHR 0xE3, CHR 0x81,
     CHR 0xA7, CHR 0xE5, CHR 0x86, CHR 0x8D, CHR 0xE9, CHR 0x96, CHR 0x8B, CHR 0xE3, CHR 0x81, CHR 0x95, CHR 0xE3, CHR 0x82, CHR 0x8C,
     CHR 0xE3, CHR 0x81, CHR 0xBE, CHR 0xE3, CHR 0x81, CHR 0x99, CHR 0xE3, CHR 0x80, CHR 0x82]"

definition expired_title :: string where
  "expired_title =
     [CHR 0xE5, CHR 0x86, CHR 0x8D, CHR 0xE8, CHR 0xB5, CHR 0xB7, CHR 0xE5, CHR 0x8B, CHR 0x95, CHR 0xE3, CHR 0x81, CHR 0xAE, CHR 0xE4,
     CHR 0xBA, CHR 0x88, CHR 0xE7, CHR 0xB4, CHR 0x84, CHR 0xE3, CHR 0x81, CHR 0xAF, CHR 0xE6, CHR 0x99, CHR 0x82, CHR 0xE9, CHR 0x96,
     CHR 0x93, CHR 0xE5, CHR 0x88, CHR 0x87, CHR 0xE3, CHR 0x82, CHR 0x8C]"

definition expired_body :: string where
  "expired_body =
     [CHR 0xE4, CHR 0xBD, CHR 0x9C, CHR 0xE6, CHR 0xA5, CHR 0xAD, CHR 0xE4, CHR 0xB8, CHR 0xAD, CHR 0xE3, CHR 0x81, CHR 0xAE, CHR 0xE3,
     CHR 0x82, CHR 0xBB, CHR 0xE3, CHR 0x83, CHR 0x83, CHR 0xE3, CHR 0x82, CHR 0xB7, CHR 0xE3, CHR 0x83, CHR 0xA7, CHR 0xE3, CHR 0x83,
     CHR 0xB3, CHR 0xE3, CHR 0x81, CHR 0x8C, CHR 0xE7, CHR 0xB5, CHR 0x82, CHR 0xE3, CHR 0x82, CHR 0x8F, CHR 0xE3, CHR 0x82, CHR 0x89,
     CHR 0xE3, CHR 0x81, CHR 0xAA, CHR 0xE3, CHR 0x81, CHR 0x8B, CHR 0xE3, CHR 0x81, CHR 0xA3, CHR 0xE3, CHR 0x81, CHR 0x9F, CHR 0xE3,
     CHR 0x81, CHR 0x9F, CHR 0xE3, CHR 0x82, CHR 0x81, CHR 0xE3, CHR 0x80, CHR 0x81, CHR 0x63, CHR 0x63, CHR 0x64, CHR 0x61, CHR 0x73,
     CHR 0x68, CHR 0x20, CHR 0xE3, CHR 0x81, CHR 0xAE, CHR 0xE5, CHR 0x86, CHR 0x8D, CHR 0xE8, CHR 0xB5, CHR 0xB7, CHR 0xE5, CHR 0x8B,
     CHR 0x95, CHR 0xE3, CHR 0x82, CHR 0x92, CHR 0xE5, CHR 0x8F, CHR 0x96, CHR 0xE3, CHR 0x82, CHR 0x8A, CHR 0xE3, CHR 0x82, CHR 0x84,
     CHR 0xE3, CHR 0x82, CHR 0x81, CHR 0xE3, CHR 0x81, CHR 0xBE, CHR 0xE3, CHR 0x81, CHR 0x97, CHR 0xE3, CHR 0x81, CHR 0x9F, CHR 0xE3,
     CHR 0x80, CHR 0x82]"

definition En :: "(string \<rightharpoonup> string) \<Rightarrow> string \<Rightarrow> string" where
  "En en ja = (case en ja of Some s \<Rightarrow> s | None \<Rightarrow> ja)"

text \<open>The text before the first colon with a blank after it.\<close>

fun before_colon :: "string \<Rightarrow> string option" where
  "before_colon (a # b # s) = (if a = CHR '':'' \<and> b = CHR '' '' then Some [] else map_option ((#) a) (before_colon (b # s)))"
| "before_colon s = None"

definition EnReason :: "(string \<rightharpoonup> string) \<Rightarrow> string \<Rightarrow> string" where
  "EnReason en s =
     (case en s of
        Some v \<Rightarrow> v
      | None \<Rightarrow>
          case before_colon s of
            None \<Rightarrow> s
          | Some p \<Rightarrow> if p = [] then s else (case en p of Some v \<Rightarrow> v @ drop (length p) s | None \<Rightarrow> s))"

text \<open>url.PathEscape.\<close>

definition hex_upper :: "nat \<Rightarrow> char" where
  "hex_upper n = (if n < 10 then char_of (48 + n) else char_of (55 + n))"

definition path_escape :: "string \<Rightarrow> string" where
  "path_escape s =
     concat (map (\<lambda>c. if byte_in 97 122 c \<or> byte_in 65 90 c \<or> byte_in 48 57 c \<or> c \<in> set ''-_.~$&+:=@'' then [c]
        else [CHR 0x25, hex_upper (of_char c div 16), hex_upper (of_char c mod 16)]) s)"

definition sessionLabel :: "session \<Rightarrow> string" where
  "sessionLabel s =
     (let t = DisplayTitle s;
          t = (if 60 < length (runes t) then clip t 60 @ ellipsis else t)
      in if Ref s = [] then t else Ref s @ '' '' @ t)"

section \<open>One look at a device\<close>

definition sessionCooldown :: int where "sessionCooldown = 15 * 10 ^ 9"

record notification =
  nt_title :: string
  nt_title_en :: string
  nt_body :: string
  nt_body_en :: string
  nt_url :: string
  nt_tag :: string

record watchState =
  ws_first :: bool
  ws_restart :: string
  ws_restart_seen :: bool
  ws_attention :: "string \<rightharpoonup> string"
  ws_last_sent :: "string \<rightharpoonup> int"

definition newWatchState :: watchState where
  "newWatchState = \<lparr>ws_first = True, ws_restart = [], ws_restart_seen = False, ws_attention = Map.empty, ws_last_sent = Map.empty\<rparr>"

definition cooling :: "string \<Rightarrow> int \<Rightarrow> (string \<rightharpoonup> int) \<Rightarrow> bool" where
  "cooling k now sent = (case sent k of None \<Rightarrow> False | Some t \<Rightarrow> now - t < sessionCooldown)"

definition with_letter :: "device \<Rightarrow> session \<Rightarrow> session" where
  "with_letter d s = (if se_host_letter s = [] then s\<lparr>se_host_letter := de_letter d\<rparr> else s)"

definition tool_of :: "approval list \<Rightarrow> string \<Rightarrow> string" where
  "tool_of aps sid =
     fold (\<lambda>a t. if ap_status a = ApprovalPending \<and> ap_session_id a = sid then ap_tool a else t) aps []"

definition watch_reason :: "approval list \<Rightarrow> session \<Rightarrow> string" where
  "watch_reason aps s =
     (let tool = tool_of aps (se_id s)
      in if tool \<noteq> [] \<and> se_attention_reason s = approval_label then approval_label @ '': '' @ tool else se_attention_reason s)"

definition signature :: "approval list \<Rightarrow> session \<Rightarrow> string" where
  "signature aps s = se_attention s @ ''|'' @ watch_reason aps s"

text \<open>What is told about a session, if anything.\<close>

definition notice :: "(string \<rightharpoonup> string) \<Rightarrow> device \<Rightarrow> session \<Rightarrow> string \<Rightarrow> notification option" where
  "notice en d s reason =
     (let url = ''/#/d/'' @ de_id d @ ''/s/'' @ path_escape (se_id s);
          tag = de_id d @ '':'' @ se_id s;
          body = sessionLabel s
      in if se_attention s = AttentionNeedsYou then
           let l = WaitLabel (se_wait s);
               declared = WaitNeedsYou (se_wait s) \<and> prefix l reason;
               label = (if declared then l else needs_label);
               rest = (if declared then trim_prefix (trim_prefix reason l) '': '' else reason);
               en_rest = (if declared then rest else EnReason en reason)
           in Some \<lparr>nt_title = de_name d @ dot @ label, nt_title_en = de_name d @ dot @ En en label,
                nt_body = (if rest = [] then body else body @ CHR 0x0A # rest), nt_body_en = (if rest = [] then body else body @ CHR 0x0A # en_rest),
                nt_url = url, nt_tag = tag\<rparr>
         else if se_attention s = AttentionDone then
           let l = WaitLabel (se_wait s);
               label = (if l = [] then finished_label else l);
               body = (if se_wait s \<noteq> [] \<and> se_wait_note s \<noteq> [] then body @ CHR 0x0A # se_wait_note s else body)
           in Some \<lparr>nt_title = de_name d @ dot @ label, nt_title_en = de_name d @ dot @ En en label, nt_body = body, nt_body_en = body,
                nt_url = url, nt_tag = tag\<rparr>
         else None)"

text \<open>A session in turn: what is told so far, what is seen now, and when it was told.\<close>

definition watch_session ::
  "(string \<rightharpoonup> string) \<Rightarrow> device \<Rightarrow> int \<Rightarrow> watchState \<Rightarrow> approval list \<Rightarrow> session
    \<Rightarrow> notification list \<times> (string \<rightharpoonup> string) \<times> (string \<rightharpoonup> int) \<Rightarrow> notification list \<times> (string \<rightharpoonup> string) \<times> (string \<rightharpoonup> int)" where
  "watch_session en d now st aps s acc =
     (case acc of
        (out, seen, sent) \<Rightarrow>
          if se_attention s = [] then (out, seen, sent)
          else
            let reason = watch_reason aps s;
                seen = seen(se_id s \<mapsto> signature aps s);
                key = se_id s @ '':'' @ se_attention s
            in if ws_first st \<or> ws_attention st (se_id s) = Some (signature aps s) then (out, seen, sent)
               else if cooling key now sent then (out, seen, sent)
               else (out @ (case notice en d s reason of None \<Rightarrow> [] | Some n \<Rightarrow> [n]), seen, sent(key \<mapsto> now)))"

definition spawn_notice :: "device \<Rightarrow> ptyInfo \<Rightarrow> notification" where
  "spawn_notice d p =
     (let label = new_session_label @ (if pi_cwd p = [] then [] else wide_open @ base_name (pi_cwd p) @ wide_close);
          label_en = ''New session'' @ (if pi_cwd p = [] then [] else '' ('' @ base_name (pi_cwd p) @ '')'')
      in \<lparr>nt_title = de_name d @ dot @ needs_label, nt_title_en = de_name d @ dot @ ''Needs you'', nt_body = label @ CHR 0x0A # pi_prompt p,
          nt_body_en = label_en @ CHR 0x0A # pi_prompt p, nt_url = ''/#/d/'' @ de_id d @ ''/p/'' @ path_escape (pi_key p),
          nt_tag = de_id d @ '':'' @ pi_key p\<rparr>)"

definition watch_spawn ::
  "device \<Rightarrow> int \<Rightarrow> watchState \<Rightarrow> int set \<Rightarrow> ptyInfo
    \<Rightarrow> notification list \<times> (string \<rightharpoonup> string) \<times> (string \<rightharpoonup> int) \<Rightarrow> notification list \<times> (string \<rightharpoonup> string) \<times> (string \<rightharpoonup> int)" where
  "watch_spawn d now st named p acc =
     (case acc of
        (out, seen, sent) \<Rightarrow>
          if \<not> pi_alive p \<or> pi_prompt p = [] \<or> pi_pid p \<in> named \<or> \<not> is_pid_key (pi_key p) then (out, seen, sent)
          else
            let sk = ''pty:'' @ pi_key p;
                seen = seen(sk \<mapsto> pi_prompt p)
            in if ws_first st \<or> ws_attention st sk = Some (pi_prompt p) \<or> cooling sk now sent then (out, seen, sent)
               else (out @ [spawn_notice d p], seen, sent(sk \<mapsto> now)))"

definition spawnPrompts ::
  "device \<Rightarrow> int \<Rightarrow> watchState \<Rightarrow> ptyInfo list option
    \<Rightarrow> notification list \<times> (string \<rightharpoonup> string) \<times> (string \<rightharpoonup> int) \<Rightarrow> notification list \<times> (string \<rightharpoonup> string) \<times> (string \<rightharpoonup> int)" where
  "spawnPrompts d now st ptys acc =
     (case ptys of
        None \<Rightarrow> acc
      | Some ps \<Rightarrow> fold (watch_spawn d now st (pi_pid ` set (filter (\<lambda>p. \<not> is_pid_key (pi_key p)) ps))) ps acc)"

text \<open>What a device answers: its sessions, approvals and terminals.\<close>

record look =
  lk_sessions :: "session list option"
  lk_approvals :: "approval list option"
  lk_ptys :: "ptyInfo list option"

definition watchOnce ::
  "(string \<rightharpoonup> string) \<Rightarrow> device \<Rightarrow> int \<Rightarrow> look \<Rightarrow> watchState \<Rightarrow> (notification list \<times> session list) option \<times> watchState" where
  "watchOnce en d now lk st =
     (case lk_sessions lk of
        None \<Rightarrow> (None, st)
      | Some ss \<Rightarrow>
          let ss = map (with_letter d) ss;
              aps = (case lk_approvals lk of None \<Rightarrow> [] | Some aps \<Rightarrow> aps);
              (out, seen, sent) = spawnPrompts d now st (lk_ptys lk) (fold (watch_session en d now st aps) ss ([], Map.empty, ws_last_sent st))
          in (Some (out, ss), st\<lparr>ws_attention := seen, ws_last_sent := sent, ws_first := False\<rparr>))"

text \<open>The schedule of a restart; the text of a time is an argument.\<close>

definition restart_signature :: "(gotime option \<Rightarrow> string) \<Rightarrow> restart_state option \<Rightarrow> string" where
  "restart_signature show_time rs =
     (case rs of
        None \<Rightarrow> []
      | Some r \<Rightarrow> if rs_pending r then ''pending'' else if rs_last r \<noteq> [] then rs_last r @ ''@'' @ show_time (rs_last_at r) else [])"

definition restartNotice ::
  "(gotime option \<Rightarrow> string) \<Rightarrow> device \<Rightarrow> restart_state option \<Rightarrow> watchState \<Rightarrow> notification option \<times> watchState" where
  "restartNotice show_time d rs st =
     (let sig = restart_signature show_time rs;
          st' = st\<lparr>ws_restart := sig, ws_restart_seen := True\<rparr>;
          url = ''/#/d/'' @ de_id d;
          tag = de_id d @ '':restart''
      in if \<not> ws_restart_seen st \<or> sig = ws_restart st \<or> sig = [] then (None, st')
         else case rs of
           None \<Rightarrow> (None, st')
         | Some r \<Rightarrow>
             if rs_pending r then
               (Some \<lparr>nt_title = de_name d @ dot @ restart_title, nt_title_en = de_name d @ dot @ ''Restart scheduled'',
                  nt_body = restart_body1 @ itoa (int (length (rs_waiting r))) @ restart_body2 @ itoa (int (rs_hosted r)) @ restart_body3,
                  nt_body_en = ''ccdash restarts as soon as the working sessions finish ('' @ itoa (int (length (rs_waiting r)))
                    @ '' to wait for). The '' @ itoa (int (rs_hosted r)) @ '' hosted sessions stop for a moment and resume by themselves.'',
                  nt_url = url, nt_tag = tag\<rparr>, st')
             else if rs_last r = ''expired'' then
               (Some \<lparr>nt_title = de_name d @ dot @ expired_title, nt_title_en = de_name d @ dot @ ''Scheduled restart expired'', nt_body = expired_body,
                  nt_body_en = CHR ''T'' # ''he working sessions didn'' @ CHR 0x27 # ''t finish, so ccdash didn'' @ CHR 0x27 # ''t restart.'',
                  nt_url = url, nt_tag = tag\<rparr>, st')
             else (None, st'))"

section \<open>The board\<close>

record deviceSnapshot =
  sn_device :: device
  sn_sessions :: "session list"
  sn_restart :: "restart_state option"
  sn_at :: int

definition storeSnapshot :: "device \<Rightarrow> session list \<Rightarrow> restart_state option \<Rightarrow> int \<Rightarrow> (string \<times> deviceSnapshot) list \<Rightarrow> (string \<times> deviceSnapshot) list" where
  "storeSnapshot d ss rs now snaps =
     AList.update (de_id d) \<lparr>sn_device = d, sn_sessions = map (with_letter d) ss, sn_restart = rs, sn_at = now\<rparr> snaps"

definition dropSnapshot :: "string \<Rightarrow> (string \<times> deviceSnapshot) list \<Rightarrow> (string \<times> deviceSnapshot) list" where
  "dropSnapshot i snaps = AList.delete i snaps"

text \<open>The own ones and those of the other replicas, the newest of each device.\<close>

definition allSnapshots :: "(string \<times> deviceSnapshot) list \<Rightarrow> deviceSnapshot list \<Rightarrow> (string \<times> deviceSnapshot) list" where
  "allSnapshots own others =
     fold (\<lambda>sn out. case map_of out (de_id (sn_device sn)) of
         None \<Rightarrow> AList.update (de_id (sn_device sn)) sn out
       | Some c \<Rightarrow> if sn_at c < sn_at sn then AList.update (de_id (sn_device sn)) sn out else out) others own"

text \<open>Empty for none.\<close>

definition locateSession :: "string \<Rightarrow> (string \<times> deviceSnapshot) list \<Rightarrow> string list \<Rightarrow> string" where
  "locateSession sid snaps online =
     (case find (\<lambda>(i, sn). list_ex (\<lambda>s. se_id s = sid) (sn_sessions sn)) snaps of
        Some (i, sn) \<Rightarrow> i
      | None \<Rightarrow> (case online of [i] \<Rightarrow> i | _ \<Rightarrow> []))"

record boardCard =
  bc_device :: string
  bc_name :: string
  bc_session :: session

definition boardColumn :: "session \<Rightarrow> string" where
  "boardColumn s =
     (if se_attention s = AttentionNeedsYou then ''needs_you''
      else if se_status s = StatusActive then ''working''
      else if se_attention s = AttentionDone \<or> se_unseen s then ''done''
      else [])"

definition badgeCount :: "(string \<times> deviceSnapshot) list \<Rightarrow> nat" where
  "badgeCount snaps =
     sum_list (map (\<lambda>(i, sn). length (filter (\<lambda>s. boardColumn s = ''needs_you'' \<or> boardColumn s = ''done'') (sn_sessions sn))) snaps)"

definition cards :: "(string \<times> deviceSnapshot) list \<Rightarrow> boardCard list" where
  "cards snaps =
     concat (map (\<lambda>(i, sn). map (\<lambda>s. \<lparr>bc_device = de_id (sn_device sn), bc_name = de_name (sn_device sn), bc_session = s\<rparr>) (sn_sessions sn)) snaps)"

definition seen_later :: "boardCard \<Rightarrow> boardCard \<Rightarrow> bool" where
  "seen_later a b \<longleftrightarrow> moment (se_last_seen (bc_session b)) < moment (se_last_seen (bc_session a))"

text \<open>sort.Slice, which may leave equal cards in any order, is an argument.\<close>

definition handleBoard ::
  "((boardCard \<Rightarrow> boardCard \<Rightarrow> bool) \<Rightarrow> boardCard list \<Rightarrow> boardCard list) \<Rightarrow> (string \<times> deviceSnapshot) list \<Rightarrow> string \<Rightarrow> boardCard list" where
  "handleBoard sort_slice snaps col = sort_slice seen_later (filter (\<lambda>c. boardColumn (bc_session c) = col) (cards snaps))"

definition active_rank :: "session \<Rightarrow> nat" where
  "active_rank s = (if se_attention s = AttentionNeedsYou then 0 else if se_status s = StatusActive then 1 else 2)"

definition active_before :: "boardCard \<Rightarrow> boardCard \<Rightarrow> bool" where
  "active_before a b =
     (let ra = active_rank (bc_session a); rb = active_rank (bc_session b) in if ra \<noteq> rb then ra < rb else seen_later a b)"

definition handleActive :: "bool \<Rightarrow> (string \<times> deviceSnapshot) list \<Rightarrow> boardCard list" where
  "handleActive every snaps =
     stable_sort active_before
       (filter (\<lambda>c. let s = bc_session c in every \<or> se_status s = StatusActive \<or> se_status s = StatusIdle \<or> se_attention s = AttentionNeedsYou) (cards snaps))"

text \<open>A tick of the watcher of a device: the look, the schedule, and the snapshot for the board.\<close>

definition watch_tick ::
  "(string \<rightharpoonup> string) \<Rightarrow> (gotime option \<Rightarrow> string) \<Rightarrow> device \<Rightarrow> int \<Rightarrow> look \<Rightarrow> restart_state option
    \<Rightarrow> watchState \<times> (string \<times> deviceSnapshot) list \<Rightarrow> notification list \<times> watchState \<times> (string \<times> deviceSnapshot) list" where
  "watch_tick en show_time d now lk rs s =
     (case s of
        (st, snaps) \<Rightarrow>
          case watchOnce en d now lk st of
            (None, st) \<Rightarrow> ([], st, snaps)
          | (Some (ns, ss), st) \<Rightarrow>
              let (n, st) = restartNotice show_time d rs st
              in (ns @ (case n of None \<Rightarrow> [] | Some n \<Rightarrow> [n]), st, storeSnapshot d ss rs now snaps))"

end
