(* ===== verification/Watch_Laws.thy ===== *)
theory Watch_Laws
  imports Hub_Watch
begin

text \<open>
  That what is told about a session follows from its own attention alone, and not too often; what is lost; and that the
  board, the badge and the list of what runs agree with the sessions.
\<close>

section \<open>The machine a session follows\<close>

text \<open>Whether nothing was looked at yet, what was shown last, and when each kind of attention was told last.\<close>

record told =
  td_first :: bool
  td_shown :: "string option"
  td_sent :: "string \<rightharpoonup> int"

definition nothing_told :: told where
  "nothing_told = \<lparr>td_first = True, td_shown = None, td_sent = Map.empty\<rparr>"

definition tell_session ::
  "(string \<rightharpoonup> string) \<Rightarrow> device \<Rightarrow> approval list \<Rightarrow> int \<Rightarrow> session option \<Rightarrow> told \<Rightarrow> (int \<times> string \<times> notification) list \<times> told" where
  "tell_session en d aps now so t =
     (case so of
        None \<Rightarrow> ([], t\<lparr>td_first := False, td_shown := None\<rparr>)
      | Some s \<Rightarrow>
          let t' = t\<lparr>td_first := False, td_shown := Some (signature aps s)\<rparr>
          in if td_first t \<or> td_shown t = Some (signature aps s) \<or> cooling (se_attention s) now (td_sent t) then ([], t')
             else ((case notice en d s (watch_reason aps s) of None \<Rightarrow> [] | Some n \<Rightarrow> [(now, se_attention s, n)]),
               t'\<lparr>td_sent := (td_sent t)(se_attention s \<mapsto> now)\<rparr>))"

text \<open>The session with its letter, if it is there and wants something.\<close>

definition wanting :: "device \<Rightarrow> string \<Rightarrow> session list \<Rightarrow> session option" where
  "wanting d sid ss = (case find (\<lambda>s. se_id s = sid) (map (with_letter d) ss) of None \<Rightarrow> None | Some s \<Rightarrow> if se_attention s = [] then None else Some s)"

definition approvals_of :: "look \<Rightarrow> approval list" where
  "approvals_of lk = (case lk_approvals lk of None \<Rightarrow> [] | Some aps \<Rightarrow> aps)"

fun tell_run :: "(string \<rightharpoonup> string) \<Rightarrow> device \<Rightarrow> string \<Rightarrow> (int \<times> look) list \<Rightarrow> told \<Rightarrow> (int \<times> string \<times> notification) list" where
  "tell_run en d sid [] t = []"
| "tell_run en d sid ((now, lk) # ls) t =
     (case lk_sessions lk of
        None \<Rightarrow> tell_run en d sid ls t
      | Some ss \<Rightarrow> (case tell_session en d (approvals_of lk) now (wanting d sid ss) t of (out, t') \<Rightarrow> out @ tell_run en d sid ls t'))"

text \<open>The watcher of a device.\<close>

fun watch_run :: "(string \<rightharpoonup> string) \<Rightarrow> device \<Rightarrow> (int \<times> look) list \<Rightarrow> watchState \<Rightarrow> (int \<times> notification) list" where
  "watch_run en d [] st = []"
| "watch_run en d ((now, lk) # ls) st =
     (case watchOnce en d now lk st of
        (None, st') \<Rightarrow> watch_run en d ls st'
      | (Some (out, ss), st') \<Rightarrow> map (Pair now) out @ watch_run en d ls st')"

section \<open>Sessions do not disturb each other\<close>

text \<open>Ids of sessions have no colon and are not like the keys of terminals.\<close>

definition plain_id :: "string \<Rightarrow> bool" where
  "plain_id sid \<longleftrightarrow> CHR '':'' \<notin> set sid \<and> \<not> is_pid_key sid \<and> sid \<noteq> ''pty''"

definition plain_look :: "look \<Rightarrow> bool" where
  "plain_look lk \<longleftrightarrow> (case lk_sessions lk of None \<Rightarrow> True | Some ss \<Rightarrow> distinct (map se_id ss) \<and> list_all (\<lambda>s. plain_id (se_id s)) ss)"

definition tag_of :: "device \<Rightarrow> string \<Rightarrow> string" where
  "tag_of d k = de_id d @ '':'' @ k"

lemma tag_inj [simp]: "tag_of d a = tag_of d b \<longleftrightarrow> a = b"
  by (simp add: tag_of_def)

lemma key_inj:
  assumes "CHR '':'' \<notin> set a" "CHR '':'' \<notin> set b"
  shows "a @ '':'' @ x = b @ '':'' @ y \<longleftrightarrow> a = b \<and> x = y"
proof
  assume "a @ '':'' @ x = b @ '':'' @ y"
  then have "cut_byte (CHR '':'') (a @ CHR '':'' # x) = cut_byte (CHR '':'') (b @ CHR '':'' # y)" by simp
  then show "a = b \<and> x = y" using assms by (simp add: cut_byte_append)
qed simp

lemma notice_tag: "notice en d s r = Some n \<Longrightarrow> nt_tag n = tag_of d (se_id s)"
  by (auto simp: notice_def tag_of_def Let_def split: if_splits)

lemma spawn_tag: "nt_tag (spawn_notice d p) = tag_of d (pi_key p)"
  by (simp add: spawn_notice_def tag_of_def Let_def)

lemma letter_fields [simp]: "se_id (with_letter d s) = se_id s"
  by (simp add: with_letter_def)

definition about :: "device \<Rightarrow> string \<Rightarrow> notification list \<Rightarrow> notification list" where
  "about d sid ns = filter (\<lambda>n. nt_tag n = tag_of d sid) ns"

lemma about_append [simp]: "about d sid (xs @ ys) = about d sid xs @ about d sid ys"
  by (simp add: about_def)

text \<open>What of the state of a look belongs to a session.\<close>

definition own_part :: "device \<Rightarrow> string \<Rightarrow> notification list \<times> (string \<rightharpoonup> string) \<times> (string \<rightharpoonup> int) \<Rightarrow> notification list \<times> string option \<times> (string \<rightharpoonup> int)" where
  "own_part d sid acc = (case acc of (out, seen, sent) \<Rightarrow> (about d sid out, seen sid, \<lambda>a. sent (sid @ '':'' @ a)))"

lemma other_session:
  assumes "se_id s \<noteq> sid" "plain_id (se_id s)" "plain_id sid"
  shows "own_part d sid (watch_session en d now st aps s acc) = own_part d sid acc"
proof -
  have "about d sid (case notice en d s r of None \<Rightarrow> [] | Some n \<Rightarrow> [n]) = []" for r
    using notice_tag[of en d s r] assms(1) by (cases "notice en d s r") (auto simp: about_def)
  moreover have "sid @ '':'' @ a \<noteq> se_id s @ '':'' @ b" for a b
    using assms key_inj[of sid "se_id s"] unfolding plain_id_def by blast
  ultimately show ?thesis using assms(1) by (cases acc) (simp add: watch_session_def own_part_def fun_upd_def Let_def)
qed

lemma other_sessions:
  assumes "\<forall>s \<in> set ss. se_id s \<noteq> sid \<and> plain_id (se_id s)" "plain_id sid"
  shows "own_part d sid (fold (watch_session en d now st aps) ss acc) = own_part d sid acc"
  using assms(1) by (induction ss arbitrary: acc) (simp_all add: other_session assms(2))

lemma spawns_apart:
  assumes "plain_id sid"
  shows "own_part d sid (spawnPrompts d now st ptys acc) = own_part d sid acc"
proof -
  have one: "own_part d sid (watch_spawn d now st named p acc) = own_part d sid acc" for named p acc
  proof (cases "is_pid_key (pi_key p)")
    case True
    then have "pi_key p \<noteq> sid" "sid \<noteq> ''pty:'' @ pi_key p" "sid @ '':'' @ a \<noteq> ''pty:'' @ pi_key p" for a
      using assms key_inj[of sid "''pty''" a "pi_key p"] by (auto simp: plain_id_def)
    then show ?thesis by (cases acc) (simp add: watch_spawn_def own_part_def about_def spawn_tag fun_upd_def Let_def)
  next
    case False
    then show ?thesis by (cases acc) (simp add: watch_spawn_def)
  qed
  have "own_part d sid (fold (watch_spawn d now st named) ps acc) = own_part d sid acc" for named ps
    by (induction ps arbitrary: acc) (simp_all add: one)
  then show ?thesis by (simp add: spawnPrompts_def split: option.split)
qed

lemma own_session:
  assumes "se_id s = sid" "se_attention s \<noteq> []" "own_part d sid acc = (o1, x, sent)"
  shows "own_part d sid (watch_session en d now st aps s acc) =
    (if ws_first st \<or> ws_attention st sid = Some (signature aps s) \<or> cooling (se_attention s) now sent then (o1, Some (signature aps s), sent)
     else (o1 @ (case notice en d s (watch_reason aps s) of None \<Rightarrow> [] | Some n \<Rightarrow> [n]), Some (signature aps s), sent(se_attention s \<mapsto> now)))"
proof -
  obtain out seen se where acc: "acc = (out, seen, se)" by (cases acc)
  have sent: "sent = (\<lambda>a. se (sid @ '':'' @ a))" "o1 = about d sid out" using assms(3) by (auto simp: acc own_part_def)
  have tagged: "about d sid (case notice en d s r of None \<Rightarrow> [] | Some n \<Rightarrow> [n]) = (case notice en d s r of None \<Rightarrow> [] | Some n \<Rightarrow> [n])" for r
    using notice_tag[of en d s r] assms(1) by (cases "notice en d s r") (auto simp: about_def)
  have upd: "(\<lambda>a. (se(sid @ '':'' @ k \<mapsto> now)) (sid @ '':'' @ a)) = (\<lambda>a. se (sid @ '':'' @ a))(k \<mapsto> now)" for k
    by (rule ext) simp
  have cool: "cooling (sid @ '':'' @ se_attention s) now se = cooling (se_attention s) now sent" by (simp add: cooling_def sent)
  show ?thesis using assms(1,2) upd tagged cool sent(2)
    by (simp add: watch_session_def own_part_def acc sent(1)[symmetric] Let_def del: fun_upd_apply) (simp add: sent)
qed

definition agrees :: "string \<Rightarrow> watchState \<Rightarrow> told \<Rightarrow> bool" where
  "agrees sid st t \<longleftrightarrow> td_first t = ws_first st \<and> td_shown t = ws_attention st sid \<and> td_sent t = (\<lambda>a. ws_last_sent st (sid @ '':'' @ a))"

lemma fold_own:
  assumes "distinct (map se_id ss)" "list_all (\<lambda>s. plain_id (se_id s)) ss" "plain_id sid" "own_part d sid acc = (o1, None, sent)"
  shows "own_part d sid (fold (watch_session en d now st aps) (map (with_letter d) ss) acc) =
    (case wanting d sid ss of
       None \<Rightarrow> (o1, None, sent)
     | Some s \<Rightarrow>
         if ws_first st \<or> ws_attention st sid = Some (signature aps s) \<or> cooling (se_attention s) now sent then (o1, Some (signature aps s), sent)
         else (o1 @ (case notice en d s (watch_reason aps s) of None \<Rightarrow> [] | Some n \<Rightarrow> [n]), Some (signature aps s), sent(se_attention s \<mapsto> now)))"
proof (cases "find (\<lambda>s. se_id s = sid) ss")
  case None
  then have "\<forall>s \<in> set (map (with_letter d) ss). se_id s \<noteq> sid \<and> plain_id (se_id s)" using assms(2) by (auto simp: find_None_iff list_all_iff)
  then have "own_part d sid (fold (watch_session en d now st aps) (map (with_letter d) ss) acc) = (o1, None, sent)"
    using other_sessions[OF _ assms(3)] assms(4) by simp
  moreover have "find (\<lambda>s. se_id s = sid) (map (with_letter d) ss) = None" using None by (auto simp: find_None_iff)
  then have "wanting d sid ss = None" by (simp add: wanting_def)
  ultimately show ?thesis by simp
next
  case (Some s)
  then have s: "se_id s = sid" "s \<in> set ss" by (auto simp: find_Some_iff)
  obtain pre post where ss: "ss = pre @ s # post" using split_list[OF s(2)] by blast
  have others: "\<forall>x \<in> set (map (with_letter d) pre). se_id x \<noteq> sid \<and> plain_id (se_id x)"
    "\<forall>x \<in> set (map (with_letter d) post). se_id x \<noteq> sid \<and> plain_id (se_id x)"
    using assms(1,2) s(1) by (auto simp: ss list_all_iff image_iff)
  define s' where "s' = with_letter d s"
  have "find (\<lambda>s. se_id s = sid) (map (with_letter d) ss) = Some s'"
  proof -
    have "find (\<lambda>s. se_id s = sid) (map (with_letter d) pre) = None" using others(1) by (auto simp: find_None_iff)
    then show ?thesis using s(1) by (simp add: ss s'_def find_append)
  qed
  then have want: "wanting d sid ss = (if se_attention s' = [] then None else Some s')" by (simp add: wanting_def)
  have before: "own_part d sid (fold (watch_session en d now st aps) (map (with_letter d) pre) acc) = (o1, None, sent)"
    using other_sessions[OF others(1) assms(3)] assms(4) by simp
  have id: "se_id s' = sid" using s(1) by (simp add: s'_def)
  show ?thesis
  proof (cases "se_attention s' = []")
    case True
    have "watch_session en d now st aps s' a = a" for a using True by (cases a) (simp add: watch_session_def)
    then show ?thesis using other_sessions[OF others(2) assms(3)] before want True by (simp add: ss s'_def)
  next
    case False
    show ?thesis
      using other_sessions[OF others(2) assms(3)] own_session[OF id False before] want False by (simp add: ss s'_def)
  qed
qed

lemma look_step:
  assumes "plain_look lk" "plain_id sid" "agrees sid st t" "lk_sessions lk = Some ss" "watchOnce en d now lk st = (Some (out, ss'), st')"
  shows "agrees sid st' (snd (tell_session en d (approvals_of lk) now (wanting d sid ss) t))
    \<and> about d sid out = map (snd \<circ> snd) (fst (tell_session en d (approvals_of lk) now (wanting d sid ss) t))"
proof -
  let ?aps = "approvals_of lk"
  let ?acc = "fold (watch_session en d now st ?aps) (map (with_letter d) ss) ([], Map.empty, ws_last_sent st)"
  obtain out1 seen sent where acc: "spawnPrompts d now st (lk_ptys lk) ?acc = (out1, seen, sent)" by (metis prod_cases3)
  have st': "out = out1" "st' = st\<lparr>ws_attention := seen, ws_last_sent := sent, ws_first := False\<rparr>"
    using assms(5) acc by (auto simp: watchOnce_def assms(4) approvals_of_def Let_def)
  have plain: "distinct (map se_id ss)" "list_all (\<lambda>s. plain_id (se_id s)) ss" using assms(1,4) by (simp_all add: plain_look_def)
  have start: "own_part d sid ([], Map.empty, ws_last_sent st) = ([], None, td_sent t)" using assms(3) by (simp add: own_part_def about_def agrees_def)
  have own: "(about d sid out1, seen sid, \<lambda>a. sent (sid @ '':'' @ a)) = own_part d sid ?acc"
    using spawns_apart[OF assms(2), of d now st "lk_ptys lk" ?acc] acc by (simp add: own_part_def)
  note own[unfolded fold_own[OF plain assms(2) start]]
  then show ?thesis using assms(3)
    by (cases "wanting d sid ss") (auto simp: st' agrees_def tell_session_def Let_def split: if_splits option.splits)
qed

lemma run_step:
  assumes "list_all (\<lambda>(now, lk). plain_look lk) ls" "plain_id sid" "agrees sid st t"
  shows "filter (\<lambda>(now, n). nt_tag n = tag_of d sid) (watch_run en d ls st) = map (\<lambda>(now, a, n). (now, n)) (tell_run en d sid ls t)"
  using assms(1,3)
proof (induction ls arbitrary: st t)
  case (Cons l ls)
  obtain now lk where l: "l = (now, lk)" by fastforce
  show ?case
  proof (cases "lk_sessions lk")
    case None
    then show ?thesis using Cons by (simp add: l watchOnce_def)
  next
    case (Some ss)
    obtain out ss' st' where w: "watchOnce en d now lk st = (Some (out, ss'), st')"
      by (cases "watchOnce en d now lk st") (auto simp: watchOnce_def Some Let_def split: prod.splits)
    obtain o1 t' where t: "tell_session en d (approvals_of lk) now (wanting d sid ss) t = (o1, t')" by fastforce
    have plain: "plain_look lk" using Cons.prems(1) by (simp add: l)
    have st: "agrees sid st' t'" "about d sid out = map (snd \<circ> snd) o1"
      using look_step[OF plain assms(2) Cons.prems(2) Some w] t by simp_all
    have times: "map (\<lambda>(now, a, n). (now, n)) o1 = map (Pair now) (map (snd \<circ> snd) o1)"
      using t by (auto simp: tell_session_def Let_def split: option.splits if_splits)
    have "filter (\<lambda>(now, n). nt_tag n = tag_of d sid) (map (Pair now) out) = map (Pair now) (about d sid out)"
      by (simp add: about_def filter_map comp_def)
    then show ?thesis using Cons.IH[OF _ st(1)] Cons.prems(1) t w st(2) times Some by (simp add: l)
  qed
qed simp

section \<open>Not too often\<close>

lemma tell_one:
  assumes "tell_session en d aps now so t = (out, t')"
  shows "(out = [] \<and> (td_sent t' = td_sent t \<or> (\<exists>a. td_sent t' = (td_sent t)(a \<mapsto> now) \<and> \<not> cooling a now (td_sent t))))
    \<or> (\<exists>a n. out = [(now, a, n)] \<and> (a = AttentionNeedsYou \<or> a = AttentionDone) \<and> \<not> cooling a now (td_sent t) \<and> td_sent t' = (td_sent t)(a \<mapsto> now))"
proof (cases so)
  case (Some s)
  have kinds: "notice en d s r = Some n \<Longrightarrow> se_attention s = AttentionNeedsYou \<or> se_attention s = AttentionDone" for r n
    unfolding notice_def Let_def by (simp split: if_splits)
  show ?thesis
  proof (cases "td_first t \<or> td_shown t = Some (signature aps s) \<or> cooling (se_attention s) now (td_sent t)")
    case True
    then show ?thesis using assms Some by (auto simp: tell_session_def Let_def)
  next
    case False
    then show ?thesis using assms Some kinds by (cases "notice en d s (watch_reason aps s)") (auto simp: tell_session_def Let_def)
  qed
qed (use assms in \<open>auto simp: tell_session_def\<close>)

definition spaced :: "int \<times> string \<times> notification \<Rightarrow> int \<times> string \<times> notification \<Rightarrow> bool" where
  "spaced x y \<longleftrightarrow> fst x \<le> fst y \<and> (fst (snd x) = fst (snd y) \<longrightarrow> sessionCooldown \<le> fst y - fst x)"

lemma tell_spaced:
  assumes "sorted (map fst ls)"
  shows "sorted_wrt spaced (tell_run en d sid ls t)
    \<and> (\<forall>(now, a, n) \<in> set (tell_run en d sid ls t). (a = AttentionNeedsYou \<or> a = AttentionDone) \<and> \<not> cooling a now (td_sent t) \<and> (\<forall>t0 \<in> set (map fst (take 1 ls)). t0 \<le> now))"
  using assms
proof (induction ls arbitrary: t)
  case (Cons l ls)
  obtain now lk where l: "l = (now, lk)" by fastforce
  have later: "\<forall>t0 \<in> set (map fst (take 1 ls)). now \<le> t0" using Cons.prems by (cases ls) (auto simp: l)
  have up: "now \<le> later_at" if "(later_at, a, n) \<in> set (tell_run en d sid ls t')" for later_at a n t'
  proof (cases ls)
    case (Cons x xs)
    then have "fst x \<le> later_at" using that Cons.IH[of t'] Cons.prems by (auto simp: l)
    then show ?thesis using later Cons by simp
  qed (use that in simp)
  have IH: "sorted_wrt spaced (tell_run en d sid ls t')"
    "\<And>later_at a n. (later_at, a, n) \<in> set (tell_run en d sid ls t') \<Longrightarrow> (a = AttentionNeedsYou \<or> a = AttentionDone) \<and> \<not> cooling a later_at (td_sent t')" for t'
    using Cons.IH[of t'] Cons.prems by (auto simp: l)
  show ?case
  proof (cases "lk_sessions lk")
    case None
    then show ?thesis using IH(1)[of t] IH(2)[of _ _ _ t] up[of _ _ _ t] by (auto simp: l)
  next
    case (Some ss)
    obtain out t' where t: "tell_session en d (approvals_of lk) now (wanting d sid ss) t = (out, t')" by fastforce
    have keep: "\<not> cooling a later_at (td_sent t)" if "\<not> cooling a later_at (td_sent t')" "now \<le> later_at" for a later_at
      using tell_one[OF t] that by (auto simp: cooling_def sessionCooldown_def split: option.splits if_splits)
    have new: "spaced (now, a, n) (later_at, b, m)" if "out = [(now, a, n)]" "(later_at, b, m) \<in> set (tell_run en d sid ls t')" for a n later_at b m
      using tell_one[OF t] that IH(2)[OF that(2)] up[OF that(2)] by (auto simp: spaced_def cooling_def)
    have run: "tell_run en d sid (l # ls) t = out @ tell_run en d sid ls t'" by (simp add: l Some t)
    have all: "(a = AttentionNeedsYou \<or> a = AttentionDone) \<and> \<not> cooling a later_at (td_sent t) \<and> now \<le> later_at"
      if "(later_at, a, n) \<in> set (out @ tell_run en d sid ls t')" for later_at a n
      using that tell_one[OF t] IH(2)[of later_at a n t'] up[of later_at a n t'] keep[of a later_at] by auto
    have "sorted_wrt spaced (out @ tell_run en d sid ls t')"
      using tell_one[OF t] IH(1)[of t'] new by (auto simp: sorted_wrt_append)
    then show ?thesis using all unfolding run by (auto simp: l)
  qed
qed simp

lemma pigeon: "(a :: string) \<in> {x, y} \<Longrightarrow> b \<in> {x, y} \<Longrightarrow> c \<in> {x, y} \<Longrightarrow> a = b \<or> a = c \<or> b = c"
  by auto

text \<open>C28. What the hub tells about a session is what the machine of that session tells, whatever other sessions and terminals
  of the device do: nothing at the first look, then each change of what it wants, unless that kind of
  attention was told within the last fifteen seconds; so never more than two notifications within fifteen seconds.
\<close>

theorem watch_tells_each_session:
  assumes "list_all (\<lambda>(now, lk). plain_look lk) looks" "plain_id sid" "sorted (map fst looks)"
  shows "let ns = filter (\<lambda>(now, n). nt_tag n = tag_of d sid) (watch_run en d looks newWatchState)
    in ns = map (\<lambda>(now, a, n). (now, n)) (tell_run en d sid looks nothing_told)
      \<and> (\<forall>i. i + 2 < length ns \<longrightarrow> sessionCooldown \<le> fst (ns ! (i + 2)) - fst (ns ! i))"
proof -
  let ?ts = "tell_run en d sid looks nothing_told"
  have start: "agrees sid newWatchState nothing_told" by (simp add: agrees_def newWatchState_def nothing_told_def)
  have eq: "filter (\<lambda>(now, n). nt_tag n = tag_of d sid) (watch_run en d looks newWatchState) = map (\<lambda>(now, a, n). (now, n)) ?ts"
    by (rule run_step[OF assms(1,2) start])
  have sp: "sorted_wrt spaced ?ts" and kinds: "\<And>x. x \<in> set ?ts \<Longrightarrow> fst (snd x) \<in> {AttentionNeedsYou, AttentionDone}"
    using tell_spaced[OF assms(3), of en d sid nothing_told] by auto
  have "sessionCooldown \<le> fst (?ts ! (i + 2)) - fst (?ts ! i)" if i: "i + 2 < length ?ts" for i
  proof -
    have "spaced (?ts ! i) (?ts ! (i + 1))" "spaced (?ts ! (i + 1)) (?ts ! (i + 2))" "spaced (?ts ! i) (?ts ! (i + 2))"
      using sp i by (simp_all add: sorted_wrt_iff_nth_less)
    moreover have "fst (snd (?ts ! i)) = fst (snd (?ts ! (i + 1))) \<or> fst (snd (?ts ! i)) = fst (snd (?ts ! (i + 2)))
        \<or> fst (snd (?ts ! (i + 1))) = fst (snd (?ts ! (i + 2)))"
      using i by (intro pigeon[of _ AttentionNeedsYou AttentionDone] kinds nth_mem) simp_all
    ultimately show ?thesis by (auto simp: spaced_def)
  qed
  then show ?thesis unfolding Let_def eq by (auto simp: case_prod_unfold)
qed

definition wanting_look :: "string \<Rightarrow> look" where
  "wanting_look reason =
     \<lparr>lk_sessions = Some [zero_session\<lparr>se_id := ''s1'', se_attention := AttentionNeedsYou, se_attention_reason := reason\<rparr>],
      lk_approvals = None, lk_ptys = None\<rparr>"

definition sample_device :: device where
  "sample_device = \<lparr>de_id = ''d1'', de_name = ''desk'', de_created_at = 0, de_last_seen = None, de_hostname = [], de_version = [], de_peer_access = [],
     de_letter = ''A'', de_token_hash = []\<rparr>"

theorem watch_tells_each_session_witness:
  "filter (\<lambda>(now, n). nt_tag n = tag_of sample_device ''s1'')
     (watch_run Map.empty sample_device [(0, wanting_look ''a''), (4000000000, wanting_look ''b''), (8000000000, wanting_look ''c'')] newWatchState)
   = map (\<lambda>(now, a, n). (now, n))
     (tell_run Map.empty sample_device ''s1'' [(0, wanting_look ''a''), (4000000000, wanting_look ''b''), (8000000000, wanting_look ''c'')] nothing_told)"
  using watch_tells_each_session[of "[(0, wanting_look ''a''), (4000000000, wanting_look ''b''), (8000000000, wanting_look ''c'')]" "''s1''"
      sample_device Map.empty]
  by (simp add: plain_look_def wanting_look_def plain_id_def is_pid_key_def Let_def)

section \<open>A question that comes too soon\<close>

text \<open>
  A second question within fifteen seconds of the first is taken note of without being told, and as long as it stays the
  same it is never told, however long it waits.
\<close>

lemma same_question_silent:
  assumes "td_shown t = Some sig"
    "\<forall>(now, lk) \<in> set ls. \<exists>ss s. lk_sessions lk = Some ss \<and> wanting d sid ss = Some s \<and> signature (approvals_of lk) s = sig"
  shows "tell_run en d sid ls t = []"
  using assms
proof (induction ls arbitrary: t)
  case (Cons l ls)
  obtain now lk where l: "l = (now, lk)" by fastforce
  obtain ss s where s: "lk_sessions lk = Some ss" "wanting d sid ss = Some s" "signature (approvals_of lk) s = sig" using Cons.prems(2) by (auto simp: l)
  have "tell_session en d (approvals_of lk) now (Some s) t = ([], t\<lparr>td_first := False, td_shown := Some sig\<rparr>)"
    using s(3) Cons.prems(1) by (simp add: tell_session_def Let_def)
  then show ?case using s Cons.IH[of "t\<lparr>td_first := False, td_shown := Some sig\<rparr>"] Cons.prems(2) by (simp add: l)
qed simp

lemma second_question_lost:
  assumes "lk_sessions lk = Some ss" "wanting d sid ss = Some s" "cooling (se_attention s) now (td_sent t)"
    "\<forall>(now, lk') \<in> set ls. \<exists>ss' s'. lk_sessions lk' = Some ss' \<and> wanting d sid ss' = Some s' \<and> signature (approvals_of lk') s' = signature (approvals_of lk) s"
  shows "tell_run en d sid ((now, lk) # ls) t = []"
proof -
  have "tell_session en d (approvals_of lk) now (Some s) t = ([], t\<lparr>td_first := False, td_shown := Some (signature (approvals_of lk) s)\<rparr>)"
    using assms(3) by (simp add: tell_session_def Let_def)
  then show ?thesis using assms(1,2) same_question_silent[OF _ assms(4)] by simp
qed

section \<open>The board\<close>

lemma seen_later_weak: "strict_weak UNIV seen_later"
  unfolding seen_later_def by unfold_locales auto

lemma active_before_weak: "strict_weak UNIV active_before"
  unfolding active_before_def seen_later_def Let_def by unfold_locales (auto split: if_splits)

interpretation active: strict_weak UNIV active_before by (rule active_before_weak)

lemma badge_cards: "badgeCount snaps = length (filter (\<lambda>c. boardColumn (bc_session c) \<in> {''needs_you'', ''done''}) (cards snaps))"
  by (induction snaps) (auto simp: badgeCount_def cards_def filter_map comp_def)

definition slice_sorts :: "((boardCard \<Rightarrow> boardCard \<Rightarrow> bool) \<Rightarrow> boardCard list \<Rightarrow> boardCard list) \<Rightarrow> bool" where
  "slice_sorts sort_slice \<longleftrightarrow> (\<forall>xs. mset (sort_slice seen_later xs) = mset xs \<and> in_order seen_later (sort_slice seen_later xs))"

text \<open>The board, the badge and the list of what runs show the same sessions: the badge counts the cards of two columns of the
  board, every session that wants something, works or finished unread is on the board in exactly one column,
  the last seen first, and the list has those that want something before those that work before the others.
\<close>

lemma board_and_badge_agree:
  assumes "slice_sorts sort_slice"
  shows "badgeCount snaps = length (handleBoard sort_slice snaps ''needs_you'') + length (handleBoard sort_slice snaps ''done'')
    \<and> mset (handleBoard sort_slice snaps ''needs_you'') + mset (handleBoard sort_slice snaps ''working'') + mset (handleBoard sort_slice snaps ''done'')
        = mset (filter (\<lambda>c. boardColumn (bc_session c) \<noteq> []) (cards snaps))
    \<and> in_order seen_later (handleBoard sort_slice snaps col)
    \<and> mset (handleActive True snaps) = mset (cards snaps) \<and> in_order active_before (handleActive every snaps)"
proof -
  have m: "mset (handleBoard sort_slice snaps c) = mset (filter (\<lambda>x. boardColumn (bc_session x) = c) (cards snaps))" for c
    using assms by (simp add: handleBoard_def slice_sorts_def)
  then have l: "length (handleBoard sort_slice snaps c) = length (filter (\<lambda>x. boardColumn (bc_session x) = c) (cards snaps))" for c
    by (metis size_mset)
  have two: "length (filter (\<lambda>x. f x \<in> {''needs_you'', ''done''}) xs) = length (filter (\<lambda>x. f x = ''needs_you'') xs) + length (filter (\<lambda>x. f x = ''done'') xs)"
    for f :: "boardCard \<Rightarrow> string" and xs
    by (induction xs) auto
  have cols: "boardColumn s = [] \<or> boardColumn s = ''needs_you'' \<or> boardColumn s = ''working'' \<or> boardColumn s = ''done''" for s
    by (simp add: boardColumn_def)
  have three: "mset (filter (\<lambda>x. boardColumn (bc_session x) = ''needs_you'') xs) + mset (filter (\<lambda>x. boardColumn (bc_session x) = ''working'') xs)
      + mset (filter (\<lambda>x. boardColumn (bc_session x) = ''done'') xs) = mset (filter (\<lambda>c. boardColumn (bc_session c) \<noteq> []) xs)" for xs
  proof (induction xs)
    case (Cons x xs)
    then show ?case using cols[of "bc_session x"] by auto
  qed simp
  have o: "in_order seen_later (handleBoard sort_slice snaps col)" using assms by (simp add: handleBoard_def slice_sorts_def)
  have a: "mset (handleActive True snaps) = mset (cards snaps)" "in_order active_before (handleActive every snaps)"
    using active.sorted_stable_sort by (simp_all add: handleActive_def Let_def)
  show ?thesis using badge_cards[of snaps] l two[of "\<lambda>x. boardColumn (bc_session x)"] m three o a by simp
qed

end
