(* ===== verification/Hub_State_Facts.thy ===== *)
theory Hub_State_Facts
  imports Hub_State
begin

text \<open>
  What both backends of the hub's state keep and how they agree: unique ids, names, token hashes and
  letters, the tokens that authenticate a device, and the same answers to the same requests.
\<close>

section \<open>Updates of one row\<close>

lemma update_first_where:
  "distinct (map key xs) \<Longrightarrow> update_first (\<lambda>x. key x = k) f xs = update_where (\<lambda>x. key x = k) f xs"
proof (induction xs)
  case (Cons x xs)
  have "update_where (\<lambda>x. key x = k) f xs = xs" if "k \<notin> key ` set xs" for xs
    using that by (induction xs) auto
  with Cons show ?case by auto
qed simp

lemma cut_first:
  "distinct (map key xs) \<Longrightarrow> find (\<lambda>x. key x = k) xs \<noteq> None \<Longrightarrow>
    take (length (takeWhile (\<lambda>x. key x \<noteq> k) xs)) xs @ drop (Suc (length (takeWhile (\<lambda>x. key x \<noteq> k) xs))) xs = filter (\<lambda>x. key x \<noteq> k) xs"
proof (induction xs)
  case (Cons x xs)
  have "filter (\<lambda>x. key x \<noteq> k) xs = xs" if "k \<notin> key ` set xs" for xs
    using that by (induction xs) auto
  with Cons show ?case by (cases "key x = k") auto
qed simp

lemma find_key_None: "find (\<lambda>x. key x = k) xs = None \<longleftrightarrow> k \<notin> key ` set xs"
  by (induction xs) auto

section \<open>What the tables keep unique\<close>

definition letters_of :: "stateDoc \<Rightarrow> string list" where
  "letters_of d = filter (\<lambda>l. l \<noteq> []) (map de_letter (sd_devices d))"

definition registry_ok :: "stateDoc \<Rightarrow> bool" where
  "registry_ok d \<longleftrightarrow>
     distinct (map de_id (sd_devices d)) \<and> distinct (map de_name (sd_devices d)) \<and> distinct (map de_token_hash (sd_devices d))
     \<and> distinct (letters_of d) \<and> [] \<notin> set (map de_id (sd_devices d))
     \<and> distinct (map ps_endpoint (sd_subs d)) \<and> distinct (map ps_id (sd_subs d)) \<and> (\<forall>s \<in> set (sd_subs d). ps_id s \<le> sd_next_sub_id d)"

text \<open>The random parts of a request: the id of a new device is new, and so is the hash of a new token.\<close>

fun fresh_for :: "(string \<Rightarrow> string) \<Rightarrow> hub_op \<Rightarrow> stateDoc \<Rightarrow> bool" where
  "fresh_for hash (CreateDevice i tok now name) d \<longleftrightarrow>
     i \<noteq> [] \<and> i \<noteq> LocalDeviceID \<and> i \<notin> de_id ` set (sd_devices d) \<and> hash tok \<notin> de_token_hash ` set (sd_devices d)"
| "fresh_for hash (RotateToken i tok) d \<longleftrightarrow> hash tok \<notin> de_token_hash ` set (sd_devices d)"
| "fresh_for hash (EnsureLocal tok now name) d \<longleftrightarrow> hash tok \<notin> de_token_hash ` set (sd_devices d)"
| "fresh_for hash _ d \<longleftrightarrow> True"

lemma nextLetter_unused: "nextLetter used \<noteq> [] \<Longrightarrow> nextLetter used \<notin> used"
  by (auto simp: nextLetter_def dest: find_SomeD split: option.splits)

lemma registry_empty [simp]: "registry_ok empty_doc"
  by (simp add: registry_ok_def empty_doc_def letters_of_def)

lemma registry_append:
  assumes "registry_ok d" "i \<notin> de_id ` set (sd_devices d)" "i \<noteq> []" "name \<notin> de_name ` set (sd_devices d)"
    "h \<notin> de_token_hash ` set (sd_devices d)" "l = [] \<or> l \<notin> usedLetters d"
  shows "registry_ok (d\<lparr>sd_devices := sd_devices d @ [new_device i name h now l]\<rparr>)"
  using assms by (auto simp: registry_ok_def new_device_def letters_of_def usedLetters_def)

text \<open>An update of a row that changes one of the unique columns, or none of them.\<close>

definition column_ok :: "(device \<Rightarrow> 'b) \<Rightarrow> string \<Rightarrow> (device \<Rightarrow> device) \<Rightarrow> device list \<Rightarrow> bool" where
  "column_ok g i f xs \<longleftrightarrow> (\<forall>x. g (f x) = g x) \<or> (\<exists>v. (\<forall>x. g (f x) = v) \<and> (\<forall>x \<in> set xs. de_id x \<noteq> i \<longrightarrow> g x \<noteq> v))"

lemma column_kept [simp]: "(\<And>x. g (f x) = g x) \<Longrightarrow> column_ok g i f xs"
  by (simp add: column_ok_def)

lemma column_new: "(\<And>x. g (f x) = v) \<Longrightarrow> \<forall>x \<in> set xs. de_id x \<noteq> i \<longrightarrow> g x \<noteq> v \<Longrightarrow> column_ok g i f xs"
  by (auto simp: column_ok_def)

lemma others_same: "i \<notin> de_id ` set xs \<Longrightarrow> update_where (\<lambda>x. de_id x = i) f xs = xs"
  by (induction xs) auto

lemma column_image:
  assumes "column_ok g i f (x # xs)" "de_id x \<noteq> i" "g x \<notin> g ` set xs"
  shows "g x \<notin> g ` set (update_where (\<lambda>x. de_id x = i) f xs)"
proof (cases "\<forall>x. g (f x) = g x")
  case True
  then have "map g (update_where (\<lambda>x. de_id x = i) f xs) = map g xs" by (simp add: map_update_where)
  then have "g ` set (update_where (\<lambda>x. de_id x = i) f xs) = g ` set xs" by (metis list.set_map)
  with assms(3) show ?thesis by simp
next
  case False
  then obtain v where v: "\<And>x. g (f x) = v" "g x \<noteq> v" using assms(1,2) by (auto simp: column_ok_def)
  have "g ` set (update_where (\<lambda>x. de_id x = i) f xs) \<subseteq> insert v (g ` set xs)"
    by (auto simp: update_where_def v(1))
  with v(2) assms(3) show ?thesis by blast
qed

lemma column_here:
  assumes "column_ok g i f (x # xs)" "i \<notin> de_id ` set xs"
  shows "g (f x) = g x \<or> g (f x) \<notin> g ` set xs"
  using assms(1) unfolding column_ok_def
proof (elim disjE exE conjE)
  fix v assume v: "\<forall>x. g (f x) = v" "\<forall>y \<in> set (x # xs). de_id y \<noteq> i \<longrightarrow> g y \<noteq> v"
  have "\<forall>y \<in> set xs. de_id y \<noteq> i" using assms(2) by (metis image_eqI)
  with v(2) have "\<forall>y \<in> set xs. g y \<noteq> v" by simp
  with v(1) show ?thesis by auto
qed simp

lemma distinct_column:
  assumes "distinct (map de_id xs)" "distinct (map g xs)" "column_ok g i f xs"
  shows "distinct (map g (update_where (\<lambda>x. de_id x = i) f xs))"
  using assms
proof (induction xs)
  case (Cons x xs)
  from Cons.prems(3) have tl: "column_ok g i f xs" by (auto simp: column_ok_def)
  show ?case
  proof (cases "de_id x = i")
    case True
    then have "update_where (\<lambda>x. de_id x = i) f xs = xs" using Cons.prems(1) by (auto intro: others_same)
    moreover have "g (f x) \<notin> g ` set xs"
      using column_here[OF Cons.prems(3)] Cons.prems(1,2) True by auto
    ultimately show ?thesis using Cons.prems(2) True by simp
  next
    case False
    have "g x \<notin> g ` set (update_where (\<lambda>x. de_id x = i) f xs)"
      using column_image[OF Cons.prems(3)] Cons.prems(2) False by simp
    then show ?thesis using Cons.IH Cons.prems tl False by simp
  qed
qed simp

lemma distinct_letters:
  assumes "distinct (map de_id xs)" "distinct (filter (\<lambda>l. l \<noteq> []) (map de_letter xs))"
    "column_ok de_letter i f xs \<or> (\<forall>x. de_letter (f x) = [])"
  shows "distinct (filter (\<lambda>l. l \<noteq> []) (map de_letter (update_where (\<lambda>x. de_id x = i) f xs)))"
  using assms
proof (induction xs)
  case (Cons x xs)
  from Cons.prems(3) have tl: "column_ok de_letter i f xs \<or> (\<forall>x. de_letter (f x) = [])" by (auto simp: column_ok_def)
  have hd: "distinct (filter (\<lambda>l. l \<noteq> []) (map de_letter xs))" "de_letter x \<noteq> [] \<Longrightarrow> de_letter x \<notin> de_letter ` set xs"
    using Cons.prems(2) by (auto split: if_splits)
  show ?case
  proof (cases "de_id x = i")
    case True
    then have "update_where (\<lambda>x. de_id x = i) f xs = xs" using Cons.prems(1) by (auto intro: others_same)
    moreover have "de_letter (f x) = [] \<or> de_letter (f x) \<notin> de_letter ` set xs"
    proof (cases "\<forall>x. de_letter (f x) = []")
      case new: False
      then have "column_ok de_letter i f (x # xs)" using Cons.prems(3) by blast
      moreover have "i \<notin> de_id ` set xs" using Cons.prems(1) True by simp
      ultimately have "de_letter (f x) = de_letter x \<or> de_letter (f x) \<notin> de_letter ` set xs" by (rule column_here)
      with hd(2) show ?thesis by metis
    qed simp
    ultimately show ?thesis using hd True by auto
  next
    case False
    have "de_letter x = [] \<or> de_letter x \<notin> de_letter ` set (update_where (\<lambda>x. de_id x = i) f xs)"
    proof (cases "\<forall>x. de_letter (f x) = []")
      case True
      then have "de_letter ` set (update_where (\<lambda>x. de_id x = i) f xs) \<subseteq> insert [] (de_letter ` set xs)"
        unfolding update_where_def by fastforce
      with hd(2) show ?thesis by blast
    next
      case new: False
      then have "column_ok de_letter i f (x # xs)" using Cons.prems(3) by blast
      from column_image[OF this False] hd(2) show ?thesis by blast
    qed
    moreover have "distinct (filter (\<lambda>l. l \<noteq> []) (map de_letter (update_where (\<lambda>x. de_id x = i) f xs)))"
      using Cons.IH Cons.prems(1) hd(1) tl by simp
    ultimately show ?thesis using False by auto
  qed
qed simp

lemma registry_update:
  assumes "registry_ok d" "\<And>x. de_id (f x) = de_id x" "column_ok de_name i f (sd_devices d)" "column_ok de_token_hash i f (sd_devices d)"
    "column_ok de_letter i f (sd_devices d) \<or> (\<forall>x. de_letter (f x) = [])"
  shows "registry_ok (on_device i f d)"
proof -
  have "distinct (map de_name (update_where (\<lambda>x. de_id x = i) f (sd_devices d)))"
    "distinct (map de_token_hash (update_where (\<lambda>x. de_id x = i) f (sd_devices d)))"
    using assms by (auto simp: registry_ok_def intro: distinct_column)
  moreover have "distinct (filter (\<lambda>l. l \<noteq> []) (map de_letter (update_where (\<lambda>x. de_id x = i) f (sd_devices d))))"
    using assms by (intro distinct_letters) (simp_all add: registry_ok_def letters_of_def)
  ultimately show ?thesis using assms(1,2) by (simp add: registry_ok_def on_device_def letters_of_def map_update_where)
qed

lemma registry_columns:
  assumes "registry_ok d"
  shows "h \<notin> de_token_hash ` set (sd_devices d) \<Longrightarrow> registry_ok (on_device i (\<lambda>x. x\<lparr>de_token_hash := h\<rparr>) d)"
    "\<not> nameTaken name i d \<Longrightarrow> registry_ok (on_device i (\<lambda>x. x\<lparr>de_name := name\<rparr>) d)"
    "\<not> letterTaken l i d \<Longrightarrow> registry_ok (on_device i (\<lambda>x. x\<lparr>de_letter := l\<rparr>) d)"
proof -
  show "registry_ok (on_device i (\<lambda>x. x\<lparr>de_token_hash := h\<rparr>) d)" if "h \<notin> de_token_hash ` set (sd_devices d)"
    by (rule registry_update[OF assms]) (use that in \<open>auto intro: column_new[where v = h]\<close>)
  show "registry_ok (on_device i (\<lambda>x. x\<lparr>de_name := name\<rparr>) d)" if "\<not> nameTaken name i d"
    by (rule registry_update[OF assms]) (use that in \<open>auto simp: nameTaken_def list_ex_iff intro: column_new[where v = name]\<close>)
  show "registry_ok (on_device i (\<lambda>x. x\<lparr>de_letter := l\<rparr>) d)" if "\<not> letterTaken l i d"
    by (rule registry_update[OF assms]) (use that in \<open>auto simp: letterTaken_def list_ex_iff intro: column_new[where v = l]\<close>)
qed

lemma distinct_map_filter_of: "distinct (map g xs) \<Longrightarrow> distinct (map g (filter p xs))"
  by (induction xs) auto

lemma registry_delete: "registry_ok d \<Longrightarrow> registry_ok (d\<lparr>sd_devices := filter p (sd_devices d)\<rparr>)"
proof -
  have "distinct (filter (\<lambda>l. l \<noteq> []) (map de_letter (filter p xs)))" if "distinct (filter (\<lambda>l. l \<noteq> []) (map de_letter xs))" for xs
    using that by (induction xs) (auto split: if_splits)
  then show "registry_ok d \<Longrightarrow> ?thesis" by (auto simp: registry_ok_def letters_of_def distinct_map_filter_of)
qed

lemma registry_on_sub:
  assumes "registry_ok d" "\<And>x. ps_endpoint (f x) = ps_endpoint x" "\<And>x. ps_id (f x) = ps_id x"
  shows "registry_ok (on_sub e f d)"
proof -
  let ?ss = "update_where (\<lambda>x. ps_endpoint x = e) f (sd_subs d)"
  have "map ps_endpoint ?ss = map ps_endpoint (sd_subs d)" and ids: "map ps_id ?ss = map ps_id (sd_subs d)"
    using assms(2,3) by (simp_all add: map_update_where)
  moreover from ids have "ps_id ` set ?ss = ps_id ` set (sd_subs d)" by (metis list.set_map)
  then have "\<forall>i \<in> ps_id ` set ?ss. i \<le> sd_next_sub_id d" using assms(1) by (simp add: registry_ok_def)
  then have "\<forall>s \<in> set ?ss. ps_id s \<le> sd_next_sub_id d" by blast
  ultimately show ?thesis using assms(1) by (simp add: registry_ok_def on_sub_def letters_of_def)
qed

lemma registry_subs:
  "registry_ok d \<Longrightarrow> distinct (map ps_endpoint ss) \<Longrightarrow> distinct (map ps_id ss) \<Longrightarrow> \<forall>s \<in> set ss. ps_id s \<le> n \<Longrightarrow>
    registry_ok (d\<lparr>sd_subs := ss, sd_next_sub_id := n\<rparr>)"
  by (simp add: registry_ok_def letters_of_def)

section \<open>The tables keep it\<close>

lemma the_device_None: "the_device i d = None \<longleftrightarrow> i \<notin> de_id ` set (sd_devices d)"
  by (simp add: the_device_def find_key_None)

lemma the_sub_None: "the_sub e d = None \<longleftrightarrow> e \<notin> ps_endpoint ` set (sd_subs d)"
  by (simp add: the_sub_def find_key_None)

lemma registry_kv [simp]: "registry_ok (d\<lparr>sd_kv := m\<rparr>) \<longleftrightarrow> registry_ok d"
  by (simp add: registry_ok_def letters_of_def)

lemma sql_op_ok:
  assumes "registry_ok d" "fresh_for hash op d"
  shows "registry_ok (fst (sql_op hash op d))"
proof (cases op)
  case (Secret k v)
  then show ?thesis using assms by (simp add: sql_secret_def sql_secret_insert_def split: option.split)
next
  case (PutKV k v)
  then show ?thesis using assms by (simp add: sql_putKV_def)
next
  case (CreateDevice i tok now name)
  then show ?thesis
    using assms nextLetter_unused[of "usedLetters d"]
    by (auto simp: sql_createDevice_def Let_def list_ex_iff intro!: registry_append)
next
  case (RotateToken i tok)
  then show ?thesis using assms
    by (simp add: sql_rotateToken_def sql_update_def registry_columns)
next
  case (DeleteDevice i)
  then show ?thesis using assms by (simp add: sql_deleteDevice_def registry_delete)
next
  case (RenameDevice i name)
  then show ?thesis using assms
    by (simp add: sql_renameDevice_def sql_update_def registry_columns)
next
  case (TouchDevice i hostname version now)
  then show ?thesis using assms by (simp add: sql_touchDevice_def registry_update)
next
  case (SetPeerAccess i access)
  then show ?thesis using assms by (simp add: sql_setPeerAccess_def sql_update_def registry_update)
next
  case (SetLetter i letter)
  then show ?thesis using assms
    by (simp add: sql_setLetter_def sql_update_def registry_columns)
next
  case (EnsureLocal tok now name)
  have new: "registry_ok (d\<lparr>sd_devices := sd_devices d @ [new_device LocalDeviceID (local_name name) (hash tok) now []]\<rparr>)"
    if "the_device LocalDeviceID d = None" "\<not> nameTaken (local_name name) LocalDeviceID d"
    using assms EnsureLocal that
    by (intro registry_append) (auto simp: the_device_None nameTaken_def list_ex_iff LocalDeviceID_def, metis image_eqI)
  then show ?thesis using assms EnsureLocal
    by (simp add: sql_ensureLocalDevice_def Let_def registry_columns split: option.split)
next
  case (AddSub email s now)
  then show ?thesis using assms
    by (simp add: sql_addSub_def registry_on_sub Let_def)
       (auto simp: registry_ok_def letters_of_def the_sub_None new_sub_def)
next
  case (RemoveSub e)
  then show ?thesis using assms
    by (auto simp: sql_removeSub_def registry_ok_def letters_of_def distinct_map_filter_of)
qed

section \<open>The document keeps the same\<close>

lemma with_device: "registry_ok d \<Longrightarrow> with_device i f d = on_device i f d"
  by (simp add: with_device_def on_device_def registry_ok_def update_first_where)

lemma with_sub: "registry_ok d \<Longrightarrow> with_sub e f d = on_sub e f d"
  by (simp add: with_sub_def on_sub_def registry_ok_def update_first_where)

text \<open>
  Where the two answer differently: a letter that is taken, for a device that is not there; and a name of the
  local device that another device has.
\<close>

fun agreed :: "hub_op \<Rightarrow> stateDoc \<Rightarrow> bool" where
  "agreed (SetLetter i letter) d \<longleftrightarrow> the_device i d \<noteq> None \<or> \<not> letterTaken letter i d"
| "agreed (EnsureLocal tok now name) d \<longleftrightarrow> \<not> nameTaken (local_name name) LocalDeviceID d"
| "agreed _ d \<longleftrightarrow> True"

fun touches :: "hub_op \<Rightarrow> bool" where
  "touches (TouchDevice i hostname version now) \<longleftrightarrow> True"
| "touches _ \<longleftrightarrow> False"

lemma taken_everywhere: "[] \<notin> set (map de_id (sd_devices d)) \<Longrightarrow> nameTaken name [] d \<longleftrightarrow> list_ex (\<lambda>x. de_name x = name) (sd_devices d)"
  by (auto simp: nameTaken_def list_ex_iff) (metis image_eqI)

lemma doc_is_sql:
  assumes "registry_ok d" "fresh_for hash op d" "agreed op d" "\<not> touches op"
  shows "apply_outcome d (doc_op hash op d) = sql_op hash op d"
proof -
  note D = apply_outcome_def with_device[OF assms(1)] with_sub[OF assms(1)] the_device_None the_sub_None
  have ids: "distinct (map de_id (sd_devices d))" "distinct (map ps_endpoint (sd_subs d))" "[] \<notin> set (map de_id (sd_devices d))"
    using assms(1) by (simp_all add: registry_ok_def)
  show ?thesis
  proof (cases op)
    case (Secret k v)
    then show ?thesis by (simp add: apply_outcome_def doc_secret_def sql_secret_def sql_secret_select_def sql_secret_insert_def split: option.split)
  next
    case (PutKV k v)
    then show ?thesis by (auto simp: apply_outcome_def doc_putKV_def sql_putKV_def fun_upd_idem)
  next
    case (CreateDevice i tok now name)
    have "\<not> list_ex (\<lambda>x. de_id x = i \<or> de_token_hash x = hash tok) (sd_devices d)"
      using assms(2)[unfolded CreateDevice fresh_for.simps] unfolding list_ex_iff by (metis image_eqI)
    with CreateDevice show ?thesis
      by (simp add: apply_outcome_def doc_createDevice_def sql_createDevice_def taken_everywhere[OF ids(3)] Let_def)
  next
    case (RotateToken i tok)
    have "\<not> hashTaken (hash tok) i d"
      using assms(2)[unfolded RotateToken fresh_for.simps] unfolding hashTaken_def list_ex_iff by (metis image_eqI)
    with RotateToken show ?thesis by (simp add: D doc_rotateToken_def sql_rotateToken_def sql_update_def)
  next
    case (DeleteDevice i)
    then show ?thesis using cut_first[OF ids(1), of i]
      by (simp add: apply_outcome_def doc_deleteDevice_def sql_deleteDevice_def the_device_def)
  next
    case (RenameDevice i name)
    then show ?thesis by (simp add: D doc_renameDevice_def sql_renameDevice_def sql_update_def)
  next
    case (SetPeerAccess i access)
    then show ?thesis by (simp add: D doc_setPeerAccess_def sql_setPeerAccess_def sql_update_def)
  next
    case (SetLetter i letter)
    then show ?thesis using assms(3) by (auto simp: D doc_setLetter_def sql_setLetter_def sql_update_def)
  next
    case (EnsureLocal tok now name)
    have "\<not> hashTaken (hash tok) LocalDeviceID d"
      using assms(2)[unfolded EnsureLocal fresh_for.simps] unfolding hashTaken_def list_ex_iff by (metis image_eqI)
    with EnsureLocal show ?thesis using assms(3)
      by (simp add: apply_outcome_def with_device[OF assms(1)] doc_ensureLocalDevice_def sql_ensureLocalDevice_def Let_def split: option.split)
  next
    case (AddSub email s now)
    then show ?thesis by (simp add: D doc_addSub_def sql_addSub_def Let_def)
  next
    case (RemoveSub e)
    have "filter (\<lambda>x. ps_endpoint x \<noteq> e) ss = ss" if "e \<notin> ps_endpoint ` set ss" for ss :: "push_sub list"
      using that by (induction ss) auto
    then show ?thesis using RemoveSub cut_first[OF ids(2), of e]
      by (auto simp: apply_outcome_def doc_removeSub_def sql_removeSub_def the_sub_def find_key_None)
  qed (use assms(4) in simp)
qed

section \<open>The same requests, the same answers\<close>

text \<open>All but the time a device was seen last, which the document writes at most every five minutes.\<close>

definition unseen_device :: "device \<Rightarrow> device" where
  "unseen_device x = x\<lparr>de_last_seen := None\<rparr>"

definition unseen :: "stateDoc \<Rightarrow> stateDoc" where
  "unseen d = d\<lparr>sd_devices := map unseen_device (sd_devices d)\<rparr>"

fun unseen_answer :: "hub_error + answer \<Rightarrow> hub_error + answer" where
  "unseen_answer (Inr (Registered x tok)) = Inr (Registered (unseen_device x) tok)"
| "unseen_answer (Inr (Local x)) = Inr (Local (unseen_device x))"
| "unseen_answer r = r"

definition unseen_result :: "stateDoc \<times> (hub_error + answer) \<Rightarrow> stateDoc \<times> (hub_error + answer)" where
  "unseen_result r = (unseen (fst r), unseen_answer (snd r))"

lemma unseen_device_simps [simp]:
  "de_id (unseen_device x) = de_id x" "de_name (unseen_device x) = de_name x" "de_token_hash (unseen_device x) = de_token_hash x"
  "de_letter (unseen_device x) = de_letter x" "de_hostname (unseen_device x) = de_hostname x" "de_version (unseen_device x) = de_version x"
  by (simp_all add: unseen_device_def)

lemma unseen_simps [simp]:
  "sd_devices (unseen d) = map unseen_device (sd_devices d)" "sd_kv (unseen d) = sd_kv d" "sd_subs (unseen d) = sd_subs d"
  "sd_next_sub_id (unseen d) = sd_next_sub_id d"
  by (simp_all add: unseen_def)

text \<open>A request is answered from the rest alone.\<close>

lemma update_where_unseen:
  "(\<And>x. unseen_device (f x) = f' (unseen_device x)) \<Longrightarrow>
    map unseen_device (update_where (\<lambda>x. de_id x = i) f xs) = update_where (\<lambda>x. de_id x = i) f' (map unseen_device xs)"
  by (induction xs) simp_all

lemma find_unseen: "find (\<lambda>x. de_id x = i) (map unseen_device xs) = map_option unseen_device (find (\<lambda>x. de_id x = i) xs)"
  by (induction xs) simp_all

lemma tests_unseen [simp]:
  "nameTaken name i (unseen d) = nameTaken name i d" "hashTaken h i (unseen d) = hashTaken h i d"
  "letterTaken l i (unseen d) = letterTaken l i d" "usedLetters (unseen d) = usedLetters d"
  "the_device i (unseen d) = map_option unseen_device (the_device i d)" "the_sub e (unseen d) = the_sub e d"
  by (simp_all add: nameTaken_def hashTaken_def letterTaken_def usedLetters_def the_device_def the_sub_def find_unseen
      list_ex_iff comp_def)


lemma unseen_idem [simp]: "unseen_device (unseen_device x) = unseen_device x" "unseen (unseen d) = unseen d"
  by (simp_all add: unseen_device_def unseen_def)

lemma unseen_new [simp]: "unseen_device (new_device i name h now l) = new_device i name h now l"
  by (simp add: unseen_device_def new_device_def)

lemma unseen_put:
  "unseen (d\<lparr>sd_kv := m\<rparr>) = (unseen d)\<lparr>sd_kv := m\<rparr>"
  "unseen (d\<lparr>sd_devices := xs\<rparr>) = d\<lparr>sd_devices := map unseen_device xs\<rparr>"
  "unseen (d\<lparr>sd_subs := ss\<rparr>) = (unseen d)\<lparr>sd_subs := ss\<rparr>"
  "unseen (d\<lparr>sd_next_sub_id := n\<rparr>) = (unseen d)\<lparr>sd_next_sub_id := n\<rparr>"
  "unseen (on_sub e g d) = on_sub e g (unseen d)"
  by (simp_all add: unseen_def on_sub_def)

lemma unseen_on_device:
  assumes "\<And>x. unseen_device (f x) = f' (unseen_device x)"
  shows "unseen (on_device i f d) = on_device i f' (unseen d)"
  using update_where_unseen[where f = f and f' = f', OF assms] by (simp add: on_device_def unseen_put)

lemma unseen_fields:
  "unseen_device (x\<lparr>de_name := n\<rparr>) = (unseen_device x)\<lparr>de_name := n\<rparr>"
  "unseen_device (x\<lparr>de_token_hash := n\<rparr>) = (unseen_device x)\<lparr>de_token_hash := n\<rparr>"
  "unseen_device (x\<lparr>de_letter := n\<rparr>) = (unseen_device x)\<lparr>de_letter := n\<rparr>"
  "unseen_device (x\<lparr>de_peer_access := n\<rparr>) = (unseen_device x)\<lparr>de_peer_access := n\<rparr>"
  "unseen_device (x\<lparr>de_last_seen := t, de_hostname := h, de_version := v\<rparr>) = (unseen_device x)\<lparr>de_hostname := h, de_version := v\<rparr>"
  by (simp_all add: unseen_device_def)

lemma filter_unseen: "map unseen_device (filter (\<lambda>x. de_id x \<noteq> i) xs) = filter (\<lambda>x. de_id x \<noteq> i) (map unseen_device xs)"
  by (induction xs) simp_all

lemma unseen_steps:
  "unseen (on_device i (\<lambda>x. x\<lparr>de_name := n\<rparr>) d) = on_device i (\<lambda>x. x\<lparr>de_name := n\<rparr>) (unseen d)"
  "unseen (on_device i (\<lambda>x. x\<lparr>de_token_hash := n\<rparr>) d) = on_device i (\<lambda>x. x\<lparr>de_token_hash := n\<rparr>) (unseen d)"
  "unseen (on_device i (\<lambda>x. x\<lparr>de_letter := n\<rparr>) d) = on_device i (\<lambda>x. x\<lparr>de_letter := n\<rparr>) (unseen d)"
  "unseen (on_device i (\<lambda>x. x\<lparr>de_peer_access := n\<rparr>) d) = on_device i (\<lambda>x. x\<lparr>de_peer_access := n\<rparr>) (unseen d)"
  "unseen (on_device i (\<lambda>x. x\<lparr>de_last_seen := t, de_hostname := h, de_version := v\<rparr>) d) =
     on_device i (\<lambda>x. x\<lparr>de_hostname := h, de_version := v\<rparr>) (unseen d)"
  by (rule unseen_on_device, simp only: unseen_fields)+

lemma list_ex_unseen: "(\<And>x. p (unseen_device x) = p x) \<Longrightarrow> list_ex p (map unseen_device xs) = list_ex p xs"
  by (induction xs) simp_all

lemma sql_unseen: "unseen_result (sql_op hash op d) = unseen_result (sql_op hash op (unseen d))"
proof (cases op)
  case (Secret k v)
  then show ?thesis by (simp add: unseen_result_def sql_secret_def sql_secret_select_def sql_secret_insert_def unseen_put split: option.split)
next
  case (PutKV k v)
  then show ?thesis by (simp add: unseen_result_def sql_putKV_def unseen_put)
next
  case (CreateDevice i tok now name)
  then show ?thesis
    by (simp add: unseen_result_def sql_createDevice_def Let_def list_ex_unseen)
next
  case (RotateToken i tok)
  then show ?thesis by (simp add: unseen_result_def sql_rotateToken_def sql_update_def unseen_steps)
next
  case (DeleteDevice i)
  then show ?thesis
    by (simp add: unseen_result_def sql_deleteDevice_def unseen_put filter_unseen) (simp add: unseen_def filter_unseen comp_def)
next
  case (RenameDevice i name)
  then show ?thesis by (simp add: unseen_result_def sql_renameDevice_def sql_update_def unseen_steps)
next
  case (TouchDevice i hostname version now)
  then show ?thesis by (simp add: unseen_result_def sql_touchDevice_def unseen_steps)
next
  case (SetPeerAccess i access)
  then show ?thesis by (simp add: unseen_result_def sql_setPeerAccess_def sql_update_def unseen_steps)
next
  case (SetLetter i letter)
  then show ?thesis by (simp add: unseen_result_def sql_setLetter_def sql_update_def unseen_steps)
next
  case (EnsureLocal tok now name)
  then show ?thesis
    by (simp add: unseen_result_def sql_ensureLocalDevice_def Let_def unseen_steps unseen_fields split: option.split)

next
  case (AddSub email s now)
  then show ?thesis by (simp add: unseen_result_def sql_addSub_def Let_def unseen_put)
next
  case (RemoveSub e)
  then show ?thesis by (simp add: unseen_result_def sql_removeSub_def unseen_put)
qed

lemma fresh_unseen [simp]: "fresh_for hash op (unseen d) \<longleftrightarrow> fresh_for hash op d"
  by (cases op) (simp_all add: image_image)

lemma agreed_unseen [simp]: "agreed op (unseen d) \<longleftrightarrow> agreed op d"
  by (cases op) simp_all

lemma registry_unseen [simp]: "registry_ok (unseen d) \<longleftrightarrow> registry_ok d"
  by (simp add: registry_ok_def letters_of_def comp_def image_image)

text \<open>A touch that the document leaves out changes nothing else.\<close>

lemma touch_agrees:
  assumes "registry_ok d"
  shows "unseen_result (apply_outcome d (doc_touchDevice i h v now d)) = unseen_result (sql_touchDevice i h v now d)"
proof (cases "the_device i d")
  case None
  then have "on_device i f d = d" for f by (simp add: on_device_def others_same the_device_None)
  with None show ?thesis by (simp add: doc_touchDevice_def sql_touchDevice_def apply_outcome_def)
next
  case (Some x)
  then have x: "x \<in> set (sd_devices d)" "de_id x = i" by (auto simp: the_device_def dest: find_SomeD)
  have only: "y = x" if "y \<in> set (sd_devices d)" "de_id y = i" for y
    using assms x that by (auto simp: registry_ok_def distinct_map dest: inj_onD)
  have "unseen (on_device i (\<lambda>x. x\<lparr>de_last_seen := Some now, de_hostname := h, de_version := v\<rparr>) d) = unseen d"
    if "de_hostname x = h" "de_version x = v"
  proof -
    have "map unseen_device (update_where (\<lambda>x. de_id x = i) (\<lambda>x. x\<lparr>de_last_seen := Some now, de_hostname := h, de_version := v\<rparr>) (sd_devices d))
        = map unseen_device (sd_devices d)"
      unfolding update_where_def map_map
      by (rule map_cong[OF refl]) (use only that in \<open>auto simp: unseen_device_def\<close>)
    then show ?thesis by (simp add: on_device_def unseen_put)
  qed
  then show ?thesis using Some
    by (simp add: doc_touchDevice_def sql_touchDevice_def apply_outcome_def unseen_result_def with_device[OF assms])
qed

lemma backends_step:
  assumes "registry_ok d" "registry_ok t" "unseen d = unseen t" "fresh_for hash op t" "agreed op t"
  shows "unseen_result (apply_outcome d (doc_op hash op d)) = unseen_result (sql_op hash op t)"
proof -
  have side: "fresh_for hash op d" "agreed op d"
    using assms(3,4,5) fresh_unseen agreed_unseen by metis+
  have "unseen_result (apply_outcome d (doc_op hash op d)) = unseen_result (sql_op hash op d)"
  proof (cases "touches op")
    case True
    then show ?thesis using touch_agrees[OF assms(1)] by (cases op) simp_all
  next
    case False
    then show ?thesis using doc_is_sql[OF assms(1) side] by simp
  qed
  also have "\<dots> = unseen_result (sql_op hash op t)" using sql_unseen[of hash op d] sql_unseen[of hash op t] assms(3) by simp
  finally show ?thesis .
qed

lemma doc_op_ok:
  assumes "registry_ok d" "fresh_for hash op d" "agreed op d"
  shows "registry_ok (fst (apply_outcome d (doc_op hash op d)))"
  using backends_step[OF assms(1,1) refl assms(2,3)] sql_op_ok[OF assms(1,2)] registry_unseen
  by (metis fst_conv unseen_result_def)

text \<open>Requests one after the other.\<close>

fun requests :: "(hub_op \<Rightarrow> stateDoc \<Rightarrow> stateDoc \<times> (hub_error + answer)) \<Rightarrow> hub_op list \<Rightarrow> stateDoc \<Rightarrow> (hub_error + answer) list" where
  "requests f [] d = []"
| "requests f (op # ops) d = snd (f op d) # requests f ops (fst (f op d))"

fun after_requests :: "(hub_op \<Rightarrow> stateDoc \<Rightarrow> stateDoc \<times> (hub_error + answer)) \<Rightarrow> hub_op list \<Rightarrow> stateDoc \<Rightarrow> stateDoc" where
  "after_requests f [] d = d"
| "after_requests f (op # ops) d = after_requests f ops (fst (f op d))"

fun usable :: "(hub_op \<Rightarrow> stateDoc \<Rightarrow> stateDoc \<times> (hub_error + answer)) \<Rightarrow> (string \<Rightarrow> string) \<Rightarrow> hub_op list \<Rightarrow> stateDoc \<Rightarrow> bool" where
  "usable f hash [] d \<longleftrightarrow> True"
| "usable f hash (op # ops) d \<longleftrightarrow> fresh_for hash op d \<and> agreed op d \<and> usable f hash ops (fst (f op d))"

definition doc_run :: "(string \<Rightarrow> string) \<Rightarrow> hub_op \<Rightarrow> stateDoc \<Rightarrow> stateDoc \<times> (hub_error + answer)" where
  "doc_run hash op d = apply_outcome d (doc_op hash op d)"

lemma requests_agree:
  assumes "registry_ok d" "registry_ok t" "unseen d = unseen t" "usable (sql_op hash) hash ops t"
  shows "map unseen_answer (requests (doc_run hash) ops d) = map unseen_answer (requests (sql_op hash) ops t)"
  using assms
proof (induction ops arbitrary: d t)
  case (Cons op ops)
  then have side: "fresh_for hash op t" "agreed op t" by simp_all
  note step = backends_step[OF Cons.prems(1-3) side]
  have d: "fresh_for hash op d" "agreed op d" using Cons.prems(3) side fresh_unseen agreed_unseen by metis+
  have "map unseen_answer (requests (doc_run hash) ops (fst (apply_outcome d (doc_op hash op d)))) =
    map unseen_answer (requests (sql_op hash) ops (fst (sql_op hash op t)))"
    using Cons.prems(4) step
    by (intro Cons.IH doc_op_ok[OF Cons.prems(1) d] sql_op_ok[OF Cons.prems(2) side(1)]) (simp_all add: unseen_result_def)
  then show ?case using step by (simp add: unseen_result_def doc_run_def[of hash op d])
qed simp

end
