(* ===== verification/Hub_Replicas.thy ===== *)
theory Hub_Replicas
  imports Hub_State_Facts
begin

text \<open>
  Hub replicas that share the state document through one Secret (k8sstore.go): the copy each keeps, the
  read-modify-write of a change with its retries, the refreshes, and every interleaving of them. The
  Kubernetes API server is an argument: what it does to the Secret, and what its documentation promises
  of it, for a Secret that only the hub writes. The document is written as JSON and read back; that
  reading gives back what was written is taken of encoding/json.
\<close>

section \<open>The API server\<close>

datatype get_result = NotThere | Found stateDoc string | GetFailed

datatype put_result = Written string | Conflicted | PutFailed

text \<open>
  Reading, creating and updating the Secret. The versions are all there have been of the Secret, the newest last,
  each with its resourceVersion: only the promises below speak of them.
\<close>

record 's kube =
  kb_get :: "'s \<Rightarrow> 's \<times> get_result"
  kb_post :: "stateDoc \<Rightarrow> 's \<Rightarrow> 's \<times> put_result"
  kb_put :: "stateDoc \<Rightarrow> string \<Rightarrow> 's \<Rightarrow> 's \<times> put_result"
  kb_versions :: "'s \<Rightarrow> (string \<times> stateDoc) list"

text \<open>
  What is promised: a version has a name of its own, not the empty one; reading gives the newest version;
  creating takes that there is none, and updating that the version given is the newest, or there is a
  conflict and nothing changes. An update that changes nothing makes no version. After a failed request the
  change is made or it is not.
\<close>

definition get_ok :: "'s kube \<Rightarrow> bool" where
  "get_ok api \<longleftrightarrow>
     (\<forall>s. kb_versions api (fst (kb_get api s)) = kb_versions api s
        \<and> (case snd (kb_get api s) of
             NotThere \<Rightarrow> kb_versions api s = []
           | Found d rv \<Rightarrow> kb_versions api s \<noteq> [] \<and> last (kb_versions api s) = (rv, d)
           | GetFailed \<Rightarrow> True))"

definition written :: "(string \<times> stateDoc) list \<Rightarrow> string \<Rightarrow> stateDoc \<Rightarrow> string \<Rightarrow> (string \<times> stateDoc) list \<Rightarrow> bool" where
  "written vs rv d rv' vs' \<longleftrightarrow>
     (if rv = [] then vs = [] else vs \<noteq> [] \<and> fst (last vs) = rv)
     \<and> (vs' = vs @ [(rv', d)] \<or> rv \<noteq> [] \<and> vs' = vs \<and> last vs = (rv, d) \<and> rv' = rv)"

definition put_ok :: "'s kube \<Rightarrow> bool" where
  "put_ok api \<longleftrightarrow>
     (\<forall>d rv s. case (if rv = [] then kb_post api d s else kb_put api d rv s) of (s', r) \<Rightarrow>
        (case r of
           Written rv' \<Rightarrow> written (kb_versions api s) rv d rv' (kb_versions api s')
         | Conflicted \<Rightarrow> kb_versions api s' = kb_versions api s
         | PutFailed \<Rightarrow> kb_versions api s' = kb_versions api s \<or> (\<exists>rv'. written (kb_versions api s) rv d rv' (kb_versions api s'))))"

definition kube_ok :: "'s kube \<Rightarrow> bool" where
  "kube_ok api \<longleftrightarrow>
     get_ok api \<and> put_ok api \<and> (\<forall>s. distinct (map fst (kb_versions api s)) \<and> [] \<notin> fst ` set (kb_versions api s))"

definition getState :: "'s kube \<Rightarrow> 's \<Rightarrow> 's \<times> (hub_error + stateDoc \<times> string)" where
  "getState api s =
     (case kb_get api s of
        (s', NotThere) \<Rightarrow> (s', Inr (empty_doc, []))
      | (s', Found d rv) \<Rightarrow> (s', Inr (d, rv))
      | (s', GetFailed) \<Rightarrow> (s', Inl ErrStore))"

definition putState :: "'s kube \<Rightarrow> stateDoc \<Rightarrow> string \<Rightarrow> 's \<Rightarrow> 's \<times> (hub_error + string)" where
  "putState api d rv s =
     (case (if rv = [] then kb_post api d s else kb_put api d rv s) of
        (s', Written rv') \<Rightarrow> (s', Inr rv')
      | (s', Conflicted) \<Rightarrow> (s', Inl ErrConflict)
      | (s', PutFailed) \<Rightarrow> (s', Inl ErrStore))"

section \<open>A replica\<close>

record replica =
  rp_doc :: stateDoc
  rp_rv :: string
  rp_loaded_at :: int

definition new_replica :: replica where
  "new_replica = \<lparr>rp_doc = empty_doc, rp_rv = [], rp_loaded_at = 0\<rparr>"

text \<open>What a refresh does with the answer it got.\<close>

definition install :: "stateDoc \<Rightarrow> string \<Rightarrow> int \<Rightarrow> replica \<Rightarrow> replica" where
  "install d rv now rep = (if rv \<noteq> rp_rv rep then rep\<lparr>rp_doc := d, rp_rv := rv, rp_loaded_at := now\<rparr> else rep\<lparr>rp_loaded_at := now\<rparr>)"

definition refresh :: "'s kube \<Rightarrow> int \<Rightarrow> replica \<Rightarrow> 's \<Rightarrow> replica \<times> 's \<times> hub_error option" where
  "refresh api now rep s =
     (case getState api s of (s', Inl e) \<Rightarrow> (rep, s', Some e) | (s', Inr (d, rv)) \<Rightarrow> (install d rv now rep, s', None))"

text \<open>Where a change stands: about to be applied to the copy, written, or waiting to read the Secret again.\<close>

datatype phase =
  Attempt nat | Writing nat stateDoc answer string | Rereading nat | Installing nat stateDoc string | Returned "hub_error + answer"

definition mutate_next ::
  "'s kube \<Rightarrow> (stateDoc \<Rightarrow> outcome) \<Rightarrow> int \<Rightarrow> phase \<Rightarrow> replica \<times> 's \<Rightarrow> phase \<times> replica \<times> 's"
where
  "mutate_next api f now ph = (\<lambda>(rep, s).
     case ph of
       Attempt n \<Rightarrow>
         (case f (rp_doc rep) of
            Refuse e \<Rightarrow> (Returned (Inl e), rep, s)
          | NoChange a \<Rightarrow> (Returned (Inr a), rep, s)
          | Change d a \<Rightarrow> (Writing n d a (rp_rv rep), rep, s))
     | Writing n d a rv \<Rightarrow>
         (case putState api d rv s of
            (s', Inr rv') \<Rightarrow> (Returned (Inr a), rep\<lparr>rp_doc := d, rp_rv := rv', rp_loaded_at := now\<rparr>, s')
          | (s', Inl e) \<Rightarrow> (if e \<noteq> ErrConflict \<or> 8 \<le> n then Returned (Inl e) else Rereading n, rep, s'))
     | Rereading n \<Rightarrow>
         (case getState api s of
            (s', Inl e) \<Rightarrow> (Returned (Inl e), rep, s')
          | (s', Inr (d, rv)) \<Rightarrow> (Installing n d rv, rep, s'))
     | Installing n d rv \<Rightarrow> (Attempt (n + 1), install d rv now rep, s)
     | Returned r \<Rightarrow> (ph, rep, s))"

definition k8s_deviceByToken ::
  "'s kube \<Rightarrow> (string \<Rightarrow> string) \<Rightarrow> string \<Rightarrow> int \<Rightarrow> replica \<Rightarrow> 's \<Rightarrow> device option \<times> replica \<times> 's"
where
  "k8s_deviceByToken api hash tok now rep s =
     (case deviceByHash (hash tok) (rp_doc rep) of
        Some x \<Rightarrow> (Some x, rep, s)
      | None \<Rightarrow>
          if 500000000 < now - rp_loaded_at rep then
            (case refresh api now rep s of
               (rep', s', None) \<Rightarrow> (deviceByHash (hash tok) (rp_doc rep'), rep', s')
             | (rep', s', Some e) \<Rightarrow> (None, rep', s'))
          else (None, rep, s))"

section \<open>The replicas together\<close>

datatype change = Request hub_op | Import stateDoc | Letters

fun change_fn :: "(string \<Rightarrow> string) \<Rightarrow> change \<Rightarrow> stateDoc \<Rightarrow> outcome" where
  "change_fn hash (Request op) = doc_op hash op"
| "change_fn hash (Import new) = doc_import new"
| "change_fn hash Letters = doc_letters"

text \<open>What runs in a replica: a change, or a refresh of the loop that has its answer.\<close>

datatype job = Mutate change phase | Reload stateDoc string

record 's cluster =
  cl_server :: 's
  cl_replicas :: "replica list"
  cl_jobs :: "(nat \<times> job) list"

text \<open>
  What a change may meet: the random ids and tokens are new, an imported database is one the tables can hold, and no
  other device has the name of the local one.
\<close>

fun fits :: "(string \<Rightarrow> string) \<Rightarrow> change \<Rightarrow> stateDoc \<Rightarrow> bool" where
  "fits hash (Request op) d \<longleftrightarrow>
     fresh_for hash op d \<and> (case op of EnsureLocal tok now name \<Rightarrow> agreed op d | _ \<Rightarrow> True)"
| "fits hash (Import new) d \<longleftrightarrow> registry_ok new"
| "fits hash Letters d \<longleftrightarrow> True"

text \<open>The steps, of changes of a kind that may be named to speak of hubs that make no others.\<close>

inductive cl_step :: "'s kube \<Rightarrow> (string \<Rightarrow> string) \<Rightarrow> (change \<Rightarrow> bool) \<Rightarrow> 's cluster \<Rightarrow> 's cluster \<Rightarrow> bool" for api hash made where
  join: "cl_step api hash made c (c\<lparr>cl_replicas := cl_replicas c @ [new_replica]\<rparr>)"
| request: "r < length (cl_replicas c) \<Longrightarrow> made ch \<Longrightarrow>
    cl_step api hash made c (c\<lparr>cl_jobs := cl_jobs c @ [(r, Mutate ch (Attempt 0))]\<rparr>)"
| advance: "k < length (cl_jobs c) \<Longrightarrow> cl_jobs c ! k = (r, Mutate ch ph) \<Longrightarrow> r < length (cl_replicas c) \<Longrightarrow>
    (\<And>n. ph = Attempt n \<Longrightarrow> fits hash ch (rp_doc (cl_replicas c ! r))) \<Longrightarrow>
    mutate_next api (change_fn hash ch) now ph (cl_replicas c ! r, cl_server c) = (ph', rep, s) \<Longrightarrow>
    cl_step api hash made c
      (c\<lparr>cl_server := s, cl_replicas := (cl_replicas c)[r := rep], cl_jobs := (cl_jobs c)[k := (r, Mutate ch ph')]\<rparr>)"
| reload: "r < length (cl_replicas c) \<Longrightarrow> getState api (cl_server c) = (s, Inr (d, rv)) \<Longrightarrow>
    cl_step api hash made c (c\<lparr>cl_server := s, cl_jobs := cl_jobs c @ [(r, Reload d rv)]\<rparr>)"
| reload_failed: "getState api (cl_server c) = (s, Inl e) \<Longrightarrow> cl_step api hash made c (c\<lparr>cl_server := s\<rparr>)"
| reloaded: "k < length (cl_jobs c) \<Longrightarrow> cl_jobs c ! k = (r, Reload d rv) \<Longrightarrow> r < length (cl_replicas c) \<Longrightarrow>
    cl_step api hash made c (c\<lparr>cl_replicas := (cl_replicas c)[r := install d rv now (cl_replicas c ! r)],
      cl_jobs := take k (cl_jobs c) @ drop (Suc k) (cl_jobs c)\<rparr>)"

inductive cl_reach :: "'s kube \<Rightarrow> (string \<Rightarrow> string) \<Rightarrow> (change \<Rightarrow> bool) \<Rightarrow> 's cluster \<Rightarrow> bool" for api hash made where
  start: "kb_versions api s = [] \<Longrightarrow> cl_reach api hash made \<lparr>cl_server = s, cl_replicas = [], cl_jobs = []\<rparr>"
| step: "cl_reach api hash made c \<Longrightarrow> cl_step api hash made c c' \<Longrightarrow> cl_reach api hash made c'"

end
