(* ===== verification/Hub_Laws.thy ===== *)
theory Hub_Laws
  imports Hub_Replicas
begin

text \<open>
  What the hub's state promises: a change of the shared document is made whole and one after another, whichever
  replicas write it and however they meet; what the tables keep unique stays so; every change comes to an
  end; both backends give the same answers; and a token that was replaced or whose device is gone never
  lets anyone in again.
\<close>

section \<open>One change after another\<close>

definition allowed :: "(string \<Rightarrow> string) \<Rightarrow> (change \<Rightarrow> bool) \<Rightarrow> stateDoc \<Rightarrow> stateDoc \<Rightarrow> bool" where
  "allowed hash made d d' \<longleftrightarrow> (\<exists>ch a. made ch \<and> fits hash ch d \<and> change_fn hash ch d = Change d' a)"

fun in_turn :: "(stateDoc \<Rightarrow> stateDoc \<Rightarrow> bool) \<Rightarrow> stateDoc \<Rightarrow> stateDoc list \<Rightarrow> bool" where
  "in_turn R d [] \<longleftrightarrow> True"
| "in_turn R d (d' # ds) \<longleftrightarrow> R d d' \<and> in_turn R d' ds"

lemma in_turn_append: "in_turn R d (ds @ [d']) \<longleftrightarrow> in_turn R d ds \<and> R (last (d # ds)) d'"
  by (induction ds arbitrary: d) auto

lemma in_turn_invariant:
  "in_turn R d ds \<Longrightarrow> P d \<Longrightarrow> (\<And>d d'. P d \<Longrightarrow> R d d' \<Longrightarrow> P d') \<Longrightarrow> \<forall>d' \<in> set ds. P d'"
  by (induction ds arbitrary: d) auto

definition docs :: "(string \<times> stateDoc) list \<Rightarrow> stateDoc set" where
  "docs vs = insert empty_doc (snd ` set vs)"

text \<open>A copy with its resourceVersion is a version there has been, or what there was before the first.\<close>

definition known :: "(string \<times> stateDoc) list \<Rightarrow> stateDoc \<Rightarrow> string \<Rightarrow> bool" where
  "known vs d rv \<longleftrightarrow> rv = [] \<and> d = empty_doc \<or> (rv, d) \<in> set vs"

lemma known_docs: "known vs d rv \<Longrightarrow> d \<in> docs vs"
  by (force simp: known_def docs_def)

fun job_ok :: "(string \<Rightarrow> string) \<Rightarrow> (change \<Rightarrow> bool) \<Rightarrow> (string \<times> stateDoc) list \<Rightarrow> job \<Rightarrow> bool" where
  "job_ok hash made vs (Reload d rv) \<longleftrightarrow> known vs d rv"
| "job_ok hash made vs (Mutate ch ph) \<longleftrightarrow> made ch \<and>
     (case ph of
        Writing n d a rv \<Rightarrow> (\<exists>d0. known vs d0 rv \<and> fits hash ch d0 \<and> change_fn hash ch d0 = Change d a)
      | Installing n d rv \<Rightarrow> known vs d rv
      | Returned (Inr a) \<Rightarrow>
          (\<exists>d0 \<in> docs vs. change_fn hash ch d0 = NoChange a \<or> (\<exists>d \<in> docs vs. change_fn hash ch d0 = Change d a))
      | _ \<Rightarrow> True)"

definition cl_inv :: "'s kube \<Rightarrow> (string \<Rightarrow> string) \<Rightarrow> (change \<Rightarrow> bool) \<Rightarrow> 's cluster \<Rightarrow> bool" where
  "cl_inv api hash made c \<longleftrightarrow>
     (let vs = kb_versions api (cl_server c)
      in in_turn (allowed hash made) empty_doc (map snd vs)
         \<and> (\<forall>rep \<in> set (cl_replicas c). known vs (rp_doc rep) (rp_rv rep))
         \<and> (\<forall>j \<in> set (cl_jobs c). job_ok hash made vs (snd j)))"

lemma docs_mono: "set vs \<subseteq> set vs' \<Longrightarrow> docs vs \<subseteq> docs vs'"
  by (auto simp: docs_def)

lemma known_mono: "known vs d rv \<Longrightarrow> set vs \<subseteq> set vs' \<Longrightarrow> known vs' d rv"
  by (auto simp: known_def)

lemma job_ok_mono: "job_ok hash made vs j \<Longrightarrow> set vs \<subseteq> set vs' \<Longrightarrow> job_ok hash made vs' j"
proof (induction hash made vs j rule: job_ok.induct)
  case (2 hash made vs ch ph)
  then show ?case
    by (cases ph) (auto split: sum.splits dest: known_mono docs_mono)
qed (auto dest: known_mono)

section \<open>Writing\<close>

lemma getState_known:
  assumes "kube_ok api" "getState api s = (s', r)"
  shows "kb_versions api s' = kb_versions api s" "r = Inr (d, rv) \<Longrightarrow> known (kb_versions api s) d rv"
proof -
  have get: "get_ok api" using assms(1) by (simp add: kube_ok_def)
  obtain s1 q where q: "kb_get api s = (s1, q)" by (cases "kb_get api s")
  have vs: "kb_versions api s1 = kb_versions api s"
    "case q of NotThere \<Rightarrow> kb_versions api s = [] | Found d rv \<Rightarrow> kb_versions api s \<noteq> [] \<and> last (kb_versions api s) = (rv, d) | GetFailed \<Rightarrow> True"
    using get[unfolded get_ok_def, rule_format, of s] by (simp_all add: q)
  show "kb_versions api s' = kb_versions api s" using assms(2) vs(1) by (simp add: getState_def q split: get_result.splits)
  show "known (kb_versions api s) d rv" if "r = Inr (d, rv)"
  proof (cases q)
    case (Found d' rv')
    then have "d' = d" "rv' = rv" using assms(2) that by (simp_all add: getState_def q)
    with vs(2) Found have "kb_versions api s \<noteq> []" "last (kb_versions api s) = (rv, d)" by simp_all
    then show ?thesis unfolding known_def by (metis last_in_set)
  qed (use assms(2) that in \<open>auto simp: getState_def q known_def\<close>)
qed

text \<open>A version that was written follows the one it was made from.\<close>

lemma written_follows:
  assumes "written vs rv d rv' vs'" "known vs d0 rv" "distinct (map fst vs)" "[] \<notin> fst ` set vs" "in_turn R empty_doc (map snd vs)" "R d0 d"
  shows "in_turn R empty_doc (map snd vs') \<and> set vs \<subseteq> set vs' \<and> d \<in> docs vs' \<and> known vs' d rv'"
proof (cases "vs' = vs @ [(rv', d)]")
  case True
  have "d0 = last (empty_doc # map snd vs)"
  proof (cases "rv = []")
    case True
    then have "vs = []" using assms(1) by (simp add: written_def)
    with assms(2) show ?thesis by (simp add: known_def)
  next
    case False
    then have vs: "vs \<noteq> []" "fst (last vs) = rv" "(rv, d0) \<in> set vs" using assms(1,2) by (simp_all add: written_def known_def)
    then have "(rv, snd (last vs)) \<in> set vs" by (metis last_in_set prod.collapse)
    then have "d0 = snd (last vs)" using vs(3) assms(3) by (meson eq_key_imp_eq_value)
    then show ?thesis using vs(1) by (simp add: last_map)
  qed
  then show ?thesis using True assms(5,6) by (auto simp: in_turn_append docs_def known_def)
next
  case False
  then have same: "vs' = vs" "last vs = (rv, d)" "rv' = rv" "vs \<noteq> []"
    using assms(1) by (auto simp: written_def split: if_splits)
  then have "(rv, d) \<in> set vs" using last_in_set[of vs] by simp
  then show ?thesis using same assms(5) by (force simp: docs_def known_def)
qed

lemma putState_follows:
  assumes "kube_ok api" "putState api d rv s = (s', r)" "known (kb_versions api s) d0 rv"
    "in_turn R empty_doc (map snd (kb_versions api s))" "R d0 d"
  shows "in_turn R empty_doc (map snd (kb_versions api s'))" "set (kb_versions api s) \<subseteq> set (kb_versions api s')"
    "r = Inr rv' \<Longrightarrow> d \<in> docs (kb_versions api s') \<and> known (kb_versions api s') d rv'"
proof -
  obtain q where q: "(if rv = [] then kb_post api d s else kb_put api d rv s) = (s', q)"
    and r: "r = (case q of Written rv' \<Rightarrow> Inr rv' | Conflicted \<Rightarrow> Inl ErrConflict | PutFailed \<Rightarrow> Inl ErrStore)"
    using assms(2) by (cases "if rv = [] then kb_post api d s else kb_put api d rv s")
      (auto simp: putState_def split: put_result.splits)
  have ok: "distinct (map fst (kb_versions api s))" "[] \<notin> fst ` set (kb_versions api s)"
    "case q of Written rv' \<Rightarrow> written (kb_versions api s) rv d rv' (kb_versions api s')
       | Conflicted \<Rightarrow> kb_versions api s' = kb_versions api s
       | PutFailed \<Rightarrow> kb_versions api s' = kb_versions api s \<or> (\<exists>rv'. written (kb_versions api s) rv d rv' (kb_versions api s'))"
  proof -
    from assms(1) have "put_ok api" "\<forall>s. distinct (map fst (kb_versions api s)) \<and> [] \<notin> fst ` set (kb_versions api s)"
      by (simp_all add: kube_ok_def)
    note put = this(1)[unfolded put_ok_def, THEN spec, of d, THEN spec, of rv, THEN spec, of s, unfolded q prod.case]
    show "distinct (map fst (kb_versions api s))" "[] \<notin> fst ` set (kb_versions api s)"
      using \<open>\<forall>s. distinct (map fst (kb_versions api s)) \<and> [] \<notin> fst ` set (kb_versions api s)\<close> by blast+
    show "case q of Written rv' \<Rightarrow> written (kb_versions api s) rv d rv' (kb_versions api s')
       | Conflicted \<Rightarrow> kb_versions api s' = kb_versions api s
       | PutFailed \<Rightarrow> kb_versions api s' = kb_versions api s \<or> (\<exists>rv'. written (kb_versions api s) rv d rv' (kb_versions api s'))"
      by (rule put)
  qed
  note follows = written_follows[OF _ assms(3) ok(1,2) assms(4,5)]
  show "in_turn R empty_doc (map snd (kb_versions api s'))" "set (kb_versions api s) \<subseteq> set (kb_versions api s')"
    using ok(3) follows assms(4) by (cases q; auto)+
  show "d \<in> docs (kb_versions api s') \<and> known (kb_versions api s') d rv'" if "r = Inr rv'"
    using ok(3) follows r that by (cases q) auto
qed

section \<open>Every step keeps the versions in turn\<close>

lemma install_known: "known vs d rv \<Longrightarrow> known vs (rp_doc rep) (rp_rv rep) \<Longrightarrow> known vs (rp_doc (install d rv now rep)) (rp_rv (install d rv now rep))"
  by (simp add: install_def)

lemma mutate_next_keeps:
  assumes "kube_ok api" "made ch" "mutate_next api (change_fn hash ch) now ph (rep, s) = (ph', rep', s')"
    "in_turn (allowed hash made) empty_doc (map snd (kb_versions api s))"
    "known (kb_versions api s) (rp_doc rep) (rp_rv rep)" "job_ok hash made (kb_versions api s) (Mutate ch ph)"
    "\<And>n. ph = Attempt n \<Longrightarrow> fits hash ch (rp_doc rep)"
  shows "in_turn (allowed hash made) empty_doc (map snd (kb_versions api s'))"
    "set (kb_versions api s) \<subseteq> set (kb_versions api s')"
    "known (kb_versions api s') (rp_doc rep') (rp_rv rep')" "job_ok hash made (kb_versions api s') (Mutate ch ph')"
proof -
  let ?goal = "in_turn (allowed hash made) empty_doc (map snd (kb_versions api s')) \<and> set (kb_versions api s) \<subseteq> set (kb_versions api s')
    \<and> known (kb_versions api s') (rp_doc rep') (rp_rv rep') \<and> job_ok hash made (kb_versions api s') (Mutate ch ph')"
  have ?goal
  proof (cases ph)
    case (Attempt n)
    show ?thesis
    proof (cases "change_fn hash ch (rp_doc rep)")
      case (Change d a)
      then show ?thesis using assms Attempt by (auto simp: mutate_next_def)
    qed (use assms Attempt known_docs[OF assms(5)] in \<open>auto simp: mutate_next_def\<close>)
  next
    case (Writing n d a rv)
    then obtain d0 where d0: "known (kb_versions api s) d0 rv" "fits hash ch d0" "change_fn hash ch d0 = Change d a"
      using assms(6) by auto
    obtain s1 r where put: "putState api d rv s = (s1, r)" by (cases "putState api d rv s")
    have "allowed hash made d0 d" using d0 assms(2) by (auto simp: allowed_def)
    note follows = putState_follows[OF assms(1) put d0(1) assms(4) this]
    have s1: "s' = s1" using assms(3) Writing put by (auto simp: mutate_next_def split: sum.splits)
    show ?thesis
    proof (cases r)
      case (Inl e)
      then have "rep' = rep" "ph' = (if e \<noteq> ErrConflict \<or> 8 \<le> n then Returned (Inl e) else Rereading n)"
        using assms(3) Writing put by (auto simp: mutate_next_def)
      then show ?thesis using follows(1,2) s1 known_mono[OF assms(5) follows(2)] assms(2) by simp
    next
      case (Inr rv')
      then have "rep' = rep\<lparr>rp_doc := d, rp_rv := rv', rp_loaded_at := now\<rparr>" "ph' = Returned (Inr a)"
        using assms(3) Writing put by (auto simp: mutate_next_def)
      moreover have "d0 \<in> docs (kb_versions api s1)" using known_docs[OF d0(1)] docs_mono[OF follows(2)] by blast
      ultimately show ?thesis using follows(1,2) follows(3)[OF Inr] s1 assms(2) d0(3) by auto
    qed
  next
    case (Rereading n)
    obtain s1 r where get: "getState api s = (s1, r)" by (cases "getState api s")
    have vs: "kb_versions api s1 = kb_versions api s" by (rule getState_known(1)[OF assms(1) get])
    have s1: "s' = s1" "rep' = rep" using assms(3) Rereading get by (auto simp: mutate_next_def split: sum.splits)
    show ?thesis
    proof (cases r)
      case (Inr p)
      then obtain d rv where r: "r = Inr (d, rv)" by (cases p) auto
      then show ?thesis using assms(2,3,4,5) getState_known(2)[OF assms(1) get r] s1 Rereading get
        by (auto simp: mutate_next_def vs)
    qed (use assms(2,3,4,5) s1 Rereading get in \<open>auto simp: mutate_next_def vs\<close>)
  next
    case (Installing n d rv)
    then show ?thesis using assms install_known[of "kb_versions api s" d rv rep now] by (auto simp: mutate_next_def)
  next
    case (Returned r)
    then show ?thesis using assms by (auto simp: mutate_next_def)
  qed
  then show "in_turn (allowed hash made) empty_doc (map snd (kb_versions api s'))"
    "set (kb_versions api s) \<subseteq> set (kb_versions api s')"
    "known (kb_versions api s') (rp_doc rep') (rp_rv rep')" "job_ok hash made (kb_versions api s') (Mutate ch ph')"
    by blast+
qed

lemma update_in: "x \<in> set (xs[k := y]) \<Longrightarrow> x = y \<or> x \<in> set xs"
  using set_update_subset_insert[of xs k y] by blast

lemma cl_step_inv:
  assumes "cl_step api hash made c c'" "kube_ok api" "cl_inv api hash made c"
  shows "cl_inv api hash made c'"
  using assms(1)
proof (cases rule: cl_step.cases)
  case join
  then show ?thesis using assms(3) by (auto simp: cl_inv_def Let_def new_replica_def known_def)
next
  case (request r ch)
  then show ?thesis using assms(3) by (auto simp: cl_inv_def Let_def)
next
  case (advance k r ch ph now ph' rep s)
  have job: "job_ok hash made (kb_versions api (cl_server c)) (Mutate ch ph)"
    using assms(3) nth_mem[OF advance(2)] advance(3) by (force simp: cl_inv_def Let_def)
  then have made: "made ch" by simp
  have "in_turn (allowed hash made) empty_doc (map snd (kb_versions api (cl_server c)))"
    "known (kb_versions api (cl_server c)) (rp_doc (cl_replicas c ! r)) (rp_rv (cl_replicas c ! r))"
    using assms(3) nth_mem[OF advance(4)] by (auto simp: cl_inv_def Let_def)
  note keeps = mutate_next_keeps[OF assms(2) made advance(6) this job advance(5)]
  show ?thesis
    using assms(3) keeps known_mono[OF _ keeps(2)] job_ok_mono[OF _ keeps(2)]
    by (auto simp: cl_inv_def Let_def advance(1) dest!: update_in simp del: job_ok.simps)
next
  case (reload r s d rv)
  then show ?thesis using assms(3) getState_known[OF assms(2) reload(3)] by (auto simp: cl_inv_def Let_def)
next
  case (reload_failed s e)
  then show ?thesis using assms(3) getState_known(1)[OF assms(2) reload_failed(2)] by (auto simp: cl_inv_def Let_def)
next
  case (reloaded k r d rv now)
  have "known (kb_versions api (cl_server c)) d rv"
    using assms(3) nth_mem[OF reloaded(2)] reloaded(3) by (force simp: cl_inv_def Let_def)
  moreover have "known (kb_versions api (cl_server c)) (rp_doc (cl_replicas c ! r)) (rp_rv (cl_replicas c ! r))"
    using assms(3) nth_mem[OF reloaded(4)] by (auto simp: cl_inv_def Let_def)
  ultimately have "known (kb_versions api (cl_server c)) (rp_doc (install d rv now (cl_replicas c ! r))) (rp_rv (install d rv now (cl_replicas c ! r)))"
    by (rule install_known)
  then show ?thesis using assms(3)
    by (auto simp: cl_inv_def Let_def reloaded(1) dest!: update_in in_set_takeD in_set_dropD simp del: job_ok.simps)
qed

lemma cl_reach_inv: "cl_reach api hash made c \<Longrightarrow> kube_ok api \<Longrightarrow> cl_inv api hash made c"
proof (induction rule: cl_reach.induct)
  case (step c c')
  then show ?case using cl_step_inv by blast
qed (simp add: cl_inv_def)

section \<open>What the changes keep\<close>

lemma doc_op_keeps:
  assumes "registry_ok d" "fits hash (Request op) d"
  shows "registry_ok (fst (apply_outcome d (doc_op hash op d)))"
proof (cases "agreed op d")
  case True
  then show ?thesis using doc_op_ok assms by simp
next
  case False
  then show ?thesis using assms by (cases op) (auto simp: apply_outcome_def doc_setLetter_def)
qed

lemma filter_update_new:
  "distinct (filter P xs) \<Longrightarrow> \<not> P y \<or> y \<notin> set (filter P xs) \<Longrightarrow> distinct (filter P (xs[k := y]))"
proof (induction xs arbitrary: k)
  case (Cons x xs)
  have "set (filter P (xs[j := y])) \<subseteq> insert y (set (filter P xs))" for j
    using set_update_subset_insert[of xs j y] by auto
  with Cons show ?case by (cases k) (auto split: if_splits)
qed simp

lemma registry_letter:
  assumes "registry_ok d" "k < length (sd_devices d)" "l = [] \<or> l \<notin> usedLetters d"
  shows "registry_ok (d\<lparr>sd_devices := (sd_devices d)[k := (sd_devices d ! k)\<lparr>de_letter := l\<rparr>]\<rparr>)"
proof -
  have "map g ((sd_devices d)[k := (sd_devices d ! k)\<lparr>de_letter := l\<rparr>]) = map g (sd_devices d)"
    if "\<And>x. g (x\<lparr>de_letter := l\<rparr>) = g x" for g :: "device \<Rightarrow> string"
    using assms(2) by (simp add: map_update that list_update_same_conv)
  moreover have "distinct (filter (\<lambda>l. l \<noteq> []) ((map de_letter (sd_devices d))[k := l]))"
    using assms(1,3) by (intro filter_update_new) (auto simp: registry_ok_def letters_of_def usedLetters_def)
  ultimately show ?thesis using assms(1)
    by (simp add: registry_ok_def letters_of_def map_update)
qed

lemma give_letters_ok:
  assumes "registry_ok d" "usedLetters d \<subseteq> used" "set ks \<subseteq> {..<length (sd_devices d)}"
  shows "registry_ok (fst (foldl (\<lambda>s k. give_letter k s) (d, used) ks))"
  using assms
proof (induction ks arbitrary: d used)
  case (Cons k ks)
  let ?l = "nextLetter used"
  let ?d = "d\<lparr>sd_devices := (sd_devices d)[k := (sd_devices d ! k)\<lparr>de_letter := ?l\<rparr>]\<rparr>"
  have "registry_ok ?d"
    using Cons.prems nextLetter_unused[of used] by (intro registry_letter) auto
  moreover have "usedLetters ?d \<subseteq> insert ?l used"
  proof -
    have "de_letter ` set (sd_devices ?d) \<subseteq> insert ?l (de_letter ` set (sd_devices d))"
      using set_update_subset_insert[of "sd_devices d" k "(sd_devices d ! k)\<lparr>de_letter := ?l\<rparr>"] by auto
    then show ?thesis using Cons.prems(2) by (auto simp: usedLetters_def)
  qed
  ultimately show ?case using Cons.IH[of ?d "insert ?l used"] Cons.prems(3) by (simp add: give_letter_def Let_def)
qed simp

lemma doc_letters_ok: "registry_ok d \<Longrightarrow> registry_ok (fst (doc_backfillLetters d))"
  by (simp add: doc_backfillLetters_def Let_def) (intro impI give_letters_ok; auto)

lemma allowed_keeps:
  assumes "registry_ok d" "allowed hash made d d'"
  shows "registry_ok d'"
proof -
  from assms(2) obtain ch a where ch: "fits hash ch d" "change_fn hash ch d = Change d' a" by (auto simp: allowed_def)
  show ?thesis
  proof (cases ch)
    case (Request op)
    have "registry_ok (fst (apply_outcome d (doc_op hash op d)))"
      by (rule doc_op_keeps[OF assms(1)]) (use ch(1) Request in simp)
    then show ?thesis using ch(2) Request by (simp add: apply_outcome_def)
  next
    case (Import new)
    then show ?thesis using ch by (simp add: doc_import_def split: if_splits)
  next
    case Letters
    then show ?thesis using ch doc_letters_ok[OF assms(1)] by (auto simp: doc_letters_def split: prod.splits if_splits)
  qed
qed

section \<open>Secrets\<close>

lemma foldl_letters_kv: "sd_kv (fst (foldl (\<lambda>s k. give_letter k s) (d, used) ks)) = sd_kv d"
  by (induction ks arbitrary: d used) (simp_all add: give_letter_def Let_def)

lemma allowed_keeps_kv:
  assumes "allowed hash made d d'" "\<And>v. \<not> made (Request (PutKV k v))" "sd_kv d k = Some v"
  shows "sd_kv d' k = Some v"
proof -
  from assms(1) obtain ch a where ch: "made ch" "change_fn hash ch d = Change d' a" by (auto simp: allowed_def)
  show ?thesis
  proof (cases ch)
    case (Request op)
    with ch assms(2,3) show ?thesis
      by (cases op) (auto simp: doc_secret_def doc_putKV_def doc_createDevice_def doc_rotateToken_def doc_deleteDevice_def doc_renameDevice_def
          doc_touchDevice_def doc_setPeerAccess_def doc_setLetter_def doc_ensureLocalDevice_def doc_addSub_def doc_removeSub_def
          with_device_def with_sub_def Let_def split: option.splits if_splits)
  next
    case (Import new)
    then show ?thesis using ch assms(3) by (auto simp: doc_import_def split: if_splits)
  next
    case Letters
    then show ?thesis using ch assms(3)
      by (auto simp: doc_letters_def doc_backfillLetters_def Let_def foldl_letters_kv split: if_splits)
  qed
qed

lemma in_turn_keeps:
  assumes "in_turn R d ds" "\<And>d d'. R d d' \<Longrightarrow> f d = Some v \<Longrightarrow> f d' = Some v" "f d = Some v"
  shows "\<forall>d' \<in> set ds. f d' = Some v"
  using in_turn_invariant[OF assms(1), of "\<lambda>d. f d = Some v"] assms(2,3) by blast

lemma in_turn_agree:
  assumes "in_turn R d ds" "\<And>d d' v. R d d' \<Longrightarrow> f d = Some v \<Longrightarrow> f d' = Some v"
    "d1 \<in> set (d # ds)" "d2 \<in> set (d # ds)" "f d1 = Some v1" "f d2 = Some v2"
  shows "v1 = v2"
  using assms(1,3-6)
proof (induction ds arbitrary: d)
  case (Cons d' ds)
  have keep: "\<forall>d'' \<in> set (d' # ds). f d'' = Some v" if "f d = Some v" for v
    using in_turn_keeps[OF Cons.prems(1), of f v] assms(2) that by blast
  show ?case
  proof (cases "f d")
    case None
    then show ?thesis using Cons by auto
  next
    case (Some v)
    then show ?thesis using keep[OF Some] Cons.prems by auto
  qed
qed simp

section \<open>Every change comes to an end\<close>

fun steps_left :: "phase \<Rightarrow> nat" where
  "steps_left (Attempt n) = 4 * (9 - n) + 4"
| "steps_left (Writing n d a rv) = 4 * (9 - n) + 3"
| "steps_left (Rereading n) = 4 * (9 - n) + 2"
| "steps_left (Installing n d rv) = 4 * (9 - n) + 1"
| "steps_left (Returned r) = 0"

fun tries_ok :: "phase \<Rightarrow> bool" where
  "tries_ok (Attempt n) \<longleftrightarrow> n \<le> 8"
| "tries_ok (Writing n d a rv) \<longleftrightarrow> n \<le> 8"
| "tries_ok (Rereading n) \<longleftrightarrow> n < 8"
| "tries_ok (Installing n d rv) \<longleftrightarrow> n < 8"
| "tries_ok (Returned r) \<longleftrightarrow> True"

lemma mutate_next_decreases:
  assumes "tries_ok ph" "mutate_next api f now ph x = (ph', x')"
  shows "tries_ok ph' \<and> (steps_left ph' < steps_left ph \<or> (\<exists>r. ph = Returned r \<and> ph' = ph))"
  using assms
  by (cases ph) (auto simp: mutate_next_def split: prod.splits outcome.splits sum.splits if_splits)

text \<open>A change that is made while others do what they want to the Secret and to the copy before each of its steps.\<close>

fun mutate_among :: "'s kube \<Rightarrow> (stateDoc \<Rightarrow> outcome) \<Rightarrow> (nat \<Rightarrow> int) \<Rightarrow> (nat \<Rightarrow> replica \<times> 's \<Rightarrow> replica \<times> 's) \<Rightarrow>
  nat \<Rightarrow> phase \<times> replica \<times> 's \<Rightarrow> phase \<times> replica \<times> 's"
where
  "mutate_among api f clock others 0 st = st"
| "mutate_among api f clock others (Suc n) (ph, x) = mutate_among api f clock others n (mutate_next api f (clock n) ph (others n x))"

lemma mutate_among_ends:
  "tries_ok ph \<Longrightarrow> steps_left ph \<le> n \<Longrightarrow> \<exists>r. fst (mutate_among api f clock others n (ph, x)) = Returned r"
proof (induction n arbitrary: ph x)
  case 0
  then show ?case by (cases ph) simp_all
next
  case (Suc n)
  obtain ph' x' where s: "mutate_next api f (clock n) ph (others n x) = (ph', x')"
    by (cases "mutate_next api f (clock n) ph (others n x)")
  from mutate_next_decreases[OF Suc.prems(1) this]
  have "tries_ok ph'" "steps_left ph' \<le> n" using Suc.prems(2) by auto
  then show ?case using Suc.IH s by simp
qed

section \<open>A hub of one server\<close>

text \<open>A server that keeps the documents and numbers the versions, to show that the promises can be kept.\<close>

definition counting_versions :: "stateDoc list \<Rightarrow> (string \<times> stateDoc) list" where
  "counting_versions ds = zip (map nat_digits [1..<Suc (length ds)]) ds"

definition counting_kube :: "stateDoc list kube" where
  "counting_kube =
     \<lparr>kb_get = (\<lambda>ds. (ds, if ds = [] then NotThere else Found (last ds) (nat_digits (length ds)))),
      kb_post = (\<lambda>d ds. if ds = [] then ([d], Written (nat_digits 1)) else (ds, Conflicted)),
      kb_put = (\<lambda>d rv ds. if ds \<noteq> [] \<and> rv = nat_digits (length ds) then (ds @ [d], Written (nat_digits (Suc (length ds)))) else (ds, Conflicted)),
      kb_versions = counting_versions\<rparr>"

lemma counting_append: "counting_versions (ds @ [d]) = counting_versions ds @ [(nat_digits (Suc (length ds)), d)]"
  by (simp add: counting_versions_def upt_Suc_append[of "Suc 0" "Suc (length ds)"] del: upt_Suc)

lemma counting_empty: "counting_versions ds = [] \<longleftrightarrow> ds = []"
  by (cases ds rule: rev_cases) (simp_all add: counting_append, simp add: counting_versions_def)

lemma counting_last: "ds \<noteq> [] \<Longrightarrow> last (counting_versions ds) = (nat_digits (length ds), last ds)"
  by (cases ds rule: rev_cases) (simp_all add: counting_append)

lemma nat_digits_inj: "inj nat_digits"
  by (metis digits_val_nat_digits injI)

lemma counting_kube_ok: "kube_ok counting_kube"
proof -
  have "map fst (counting_versions ds) = map nat_digits [1..<Suc (length ds)]" for ds
    by (simp add: counting_versions_def)
  then have names: "distinct (map fst (counting_versions ds)) \<and> [] \<notin> set (map fst (counting_versions ds))" for ds
    by (auto simp: distinct_map inj_on_subset[OF nat_digits_inj] nat_digits_not_Nil[symmetric] simp del: upt_Suc)
  have "get_ok counting_kube" by (simp add: get_ok_def counting_kube_def counting_empty counting_last)
  moreover have "put_ok counting_kube"
    by (simp add: put_ok_def counting_kube_def written_def counting_empty counting_last counting_append)
       (simp add: counting_versions_def)
  ultimately show ?thesis using names by (simp add: kube_ok_def) (simp add: counting_kube_def)
qed

section \<open>The replicated hub\<close>

text \<open>C33. However many replicas change the state at once, and whatever is refreshed and retried when, the Secret is
  changed whole and one change after another: every version is one change applied to the version before
  it. So ids, names, token hashes and letters stay unique in every version and in the copy of every replica, and what a change
  answers is its answer for a version there has been.
\<close>

theorem hub_writes_in_turn:
  assumes "kube_ok api" "cl_reach api hash (\<lambda>_. True) c"
  shows "in_turn (allowed hash (\<lambda>_. True)) empty_doc (map snd (kb_versions api (cl_server c)))
    \<and> list_all registry_ok (map snd (kb_versions api (cl_server c)))
    \<and> list_all (\<lambda>rep. rp_doc rep \<in> docs (kb_versions api (cl_server c)) \<and> registry_ok (rp_doc rep)) (cl_replicas c)
    \<and> list_all (\<lambda>(r, j). job_ok hash (\<lambda>_. True) (kb_versions api (cl_server c)) j) (cl_jobs c)"
proof -
  let ?vs = "kb_versions api (cl_server c)"
  have inv: "in_turn (allowed hash (\<lambda>_. True)) empty_doc (map snd ?vs)"
    "\<forall>rep \<in> set (cl_replicas c). known ?vs (rp_doc rep) (rp_rv rep)" "\<forall>j \<in> set (cl_jobs c). job_ok hash (\<lambda>_. True) ?vs (snd j)"
    using cl_reach_inv[OF assms(2,1)] by (simp_all add: cl_inv_def Let_def)
  have ok: "\<forall>d \<in> set (map snd ?vs). registry_ok d"
    using in_turn_invariant[OF inv(1), where P = registry_ok] registry_empty allowed_keeps by blast
  then have "\<forall>d \<in> docs ?vs. registry_ok d" by (auto simp: docs_def)
  then have "\<forall>rep \<in> set (cl_replicas c). rp_doc rep \<in> docs ?vs \<and> registry_ok (rp_doc rep)"
    using inv(2) known_docs by blast
  with inv ok show ?thesis by (simp add: list_all_iff split_beta)
qed

text \<open>A hub of one replica that set a secret.\<close>

definition secret_doc :: stateDoc where
  "secret_doc = empty_doc\<lparr>sd_kv := [''cookie_key'' \<mapsto> ''k'']\<rparr>"

definition secret_hub :: "stateDoc list cluster" where
  "secret_hub = \<lparr>cl_server = [secret_doc], cl_replicas = [\<lparr>rp_doc = secret_doc, rp_rv = nat_digits 1, rp_loaded_at = 0\<rparr>],
     cl_jobs = [(0, Mutate (Request (Secret ''cookie_key'' ''k'')) (Returned (Inr (Value ''k''))))]\<rparr>"

lemma secret_hub_reach:
  assumes "made (Request (Secret ''cookie_key'' ''k''))"
  shows "cl_reach counting_kube id made secret_hub"
proof -
  let ?ch = "Request (Secret ''cookie_key'' ''k'')"
  let ?c0 = "\<lparr>cl_server = [], cl_replicas = [], cl_jobs = []\<rparr> :: stateDoc list cluster"
  let ?c1 = "?c0\<lparr>cl_replicas := [new_replica]\<rparr>"
  let ?c2 = "?c1\<lparr>cl_jobs := [(0, Mutate ?ch (Attempt 0))]\<rparr>"
  let ?c3 = "?c1\<lparr>cl_jobs := [(0, Mutate ?ch (Writing 0 secret_doc (Value ''k'') []))]\<rparr>"
  have c0: "cl_reach counting_kube id made ?c0"
    by (rule cl_reach.start) (simp add: counting_kube_def counting_versions_def)
  have c1: "cl_reach counting_kube id made ?c1"
    using cl_reach.step[OF c0 cl_step.join] by simp
  have c2: "cl_reach counting_kube id made ?c2"
    using cl_reach.step[OF c1 cl_step.request[where made = made and ch = ?ch and r = 0 and c = ?c1]] assms by simp
  have c3: "cl_reach counting_kube id made ?c3"
    using cl_reach.step[OF c2 cl_step.advance[where c = ?c2 and made = made and k = 0 and r = 0 and ch = ?ch and ph = "Attempt 0" and now = 0]]
    by (simp add: mutate_next_def new_replica_def doc_secret_def empty_doc_def secret_doc_def)
  show ?thesis
    using cl_reach.step[OF c3 cl_step.advance[where c = ?c3 and made = made and k = 0 and r = 0 and ch = ?ch
          and ph = "Writing 0 secret_doc (Value ''k'') []" and now = 0]]
    by (simp add: mutate_next_def new_replica_def putState_def counting_kube_def secret_hub_def)
qed

theorem hub_writes_in_turn_witness:
  "in_turn (allowed id (\<lambda>_. True)) empty_doc (map snd (kb_versions counting_kube (cl_server secret_hub)))
   \<and> list_all registry_ok (map snd (kb_versions counting_kube (cl_server secret_hub)))"
  using hub_writes_in_turn[OF counting_kube_ok secret_hub_reach[where made = "\<lambda>_. True", OF TrueI]] by blast

text \<open>Replicas that race for a secret agree: a key that is only ever made on first use has one value in every
  version, and whichever replica is asked for it, and when, answers with that one.
\<close>

theorem replicas_agree_on_secrets:
  assumes "kube_ok api" "cl_reach api hash made c" "\<And>v. \<not> made (Request (PutKV k v))"
    "(r1, Mutate (Request (Secret k g1)) (Returned (Inr (Value v1)))) \<in> set (cl_jobs c)"
    "(r2, Mutate (Request (Secret k g2)) (Returned (Inr (Value v2)))) \<in> set (cl_jobs c)"
  shows "v1 = v2"
proof -
  let ?vs = "kb_versions api (cl_server c)"
  have inv: "in_turn (allowed hash made) empty_doc (map snd ?vs)" "\<forall>j \<in> set (cl_jobs c). job_ok hash made ?vs (snd j)"
    using cl_reach_inv[OF assms(2,1)] by (simp_all add: cl_inv_def Let_def)
  have has: "\<exists>d \<in> set (empty_doc # map snd ?vs). sd_kv d k = Some v"
    if "(r, Mutate (Request (Secret k g)) (Returned (Inr (Value v)))) \<in> set (cl_jobs c)" for r g v
  proof -
    have "job_ok hash made ?vs (Mutate (Request (Secret k g)) (Returned (Inr (Value v))))" using inv(2) that by force
    then obtain d0 where d0: "d0 \<in> docs ?vs"
      "doc_secret k g d0 = NoChange (Value v) \<or> (\<exists>d \<in> docs ?vs. doc_secret k g d0 = Change d (Value v))" by auto
    then have "\<exists>d \<in> docs ?vs. sd_kv d k = Some v"
    proof (cases "sd_kv d0 k")
      case None
      then have "d0\<lparr>sd_kv := (sd_kv d0)(k \<mapsto> v)\<rparr> \<in> docs ?vs" using d0(2) by (auto simp: doc_secret_def)
      then show ?thesis by (rule rev_bexI) simp
    qed (auto simp: doc_secret_def)
    then show ?thesis by (simp add: docs_def)
  qed
  obtain d1 d2 where "d1 \<in> set (empty_doc # map snd ?vs)" "sd_kv d1 k = Some v1"
    "d2 \<in> set (empty_doc # map snd ?vs)" "sd_kv d2 k = Some v2"
    using has[OF assms(4)] has[OF assms(5)] by blast
  then show ?thesis
    using in_turn_agree[OF inv(1), of "\<lambda>d. sd_kv d k"] allowed_keeps_kv[where made = made and k = k, OF _ assms(3)] by blast
qed

theorem replicas_agree_on_secrets_witness: "''k'' = (''k'' :: string)"
  by (rule replicas_agree_on_secrets[OF counting_kube_ok secret_hub_reach[where made = "\<lambda>ch. ch = Request (Secret ''cookie_key'' ''k'')", OF refl],
        of "''cookie_key''" 0 "''k''" _ 0 "''k''"]) (simp_all add: secret_hub_def)


section \<open>A copy that is behind\<close>

text \<open>
  The first attempt uses the copy as it is, so a value that was changed through another replica and is put back is not
  written when the copy still has it.
\<close>

lemma put_skipped_on_old_copy:
  assumes "sd_kv (rp_doc rep) k = Some v"
  shows "mutate_next api (change_fn hash (Request (PutKV k v))) now (Attempt 0) (rep, s) = (Returned (Inr Done), rep, s)"
  using assms by (simp add: mutate_next_def doc_putKV_def)

text \<open>A device that another replica registered is found once the copy is half a second old.\<close>

lemma new_device_is_found:
  assumes "kube_ok api" "deviceByHash (hash tok) (snd (last (kb_versions api s))) = Some x" "kb_versions api s \<noteq> []"
    "500000000 < now - rp_loaded_at rep" "known (kb_versions api s) (rp_doc rep) (rp_rv rep)"
    "deviceByHash (hash tok) (rp_doc rep) = None" "snd (kb_get api s) \<noteq> GetFailed"
  shows "fst (k8s_deviceByToken api hash tok now rep s) = Some x"
proof -
  obtain s' q where q: "kb_get api s = (s', q)" by (cases "kb_get api s")
  have "get_ok api" using assms(1) by (simp add: kube_ok_def)
  from this[unfolded get_ok_def, THEN spec, of s] obtain d rv where d: "q = Found d rv" "last (kb_versions api s) = (rv, d)"
    using assms(3,7) by (cases q) (simp_all add: q)
  note get = q[unfolded d(1)] d(2)
  have "rv \<noteq> rp_rv rep"
  proof
    assume same: "rv = rp_rv rep"
    have last: "(rv, d) \<in> set (kb_versions api s)" using get(2) assms(3) by (metis last_in_set)
    have "distinct (map fst (kb_versions api s))" "[] \<notin> fst ` set (kb_versions api s)" using assms(1) by (auto simp: kube_ok_def)
    with last assms(5) same have "rp_doc rep = d" by (force simp: known_def dest: eq_key_imp_eq_value)
    with assms(2,6) get(2) show False by simp
  qed
  with get assms show ?thesis by (simp add: k8s_deviceByToken_def refresh_def getState_def install_def)
qed

end
