(* ===== verification/Hub_Backends.thy ===== *)
theory Hub_Backends
  imports Hub_State_Facts
begin

text \<open>
  The interface the hub has to its state (internal/hub/state.go), as a contract that both backends meet: what a
  refused request leaves, what stays unique, and which token lets which device in. What follows from the
  contract holds of both. Then that the two give the same answers, and where they do not.
\<close>

section \<open>Who a token lets in\<close>

text \<open>The hash of the token of each device.\<close>

definition tokens :: "stateDoc \<Rightarrow> string \<rightharpoonup> string" where
  "tokens d = map_of (map (\<lambda>x. (de_id x, de_token_hash x)) (sd_devices d))"

text \<open>What a request that is not refused does to them.\<close>

fun issue :: "(string \<Rightarrow> string) \<Rightarrow> hub_op \<Rightarrow> (string \<rightharpoonup> string) \<Rightarrow> string \<rightharpoonup> string" where
  "issue hash (CreateDevice i tok now name) t = t(i \<mapsto> hash tok)"
| "issue hash (RotateToken i tok) t = t(i \<mapsto> hash tok)"
| "issue hash (DeleteDevice i) t = t(i := None)"
| "issue hash (EnsureLocal tok now name) t = (if t LocalDeviceID = None then t(LocalDeviceID \<mapsto> hash tok) else t)"
| "issue hash _ t = t"

text \<open>The hash a request would give out.\<close>

fun gives :: "(string \<Rightarrow> string) \<Rightarrow> hub_op \<Rightarrow> string option" where
  "gives hash (CreateDevice i tok now name) = Some (hash tok)"
| "gives hash (RotateToken i tok) = Some (hash tok)"
| "gives hash (EnsureLocal tok now name) = Some (hash tok)"
| "gives hash _ = None"

lemma tokens_None: "tokens d i = None \<longleftrightarrow> i \<notin> de_id ` set (sd_devices d)"
  by (force simp: tokens_def map_of_eq_None_iff)

lemma tokens_Some:
  assumes "distinct (map de_id (sd_devices d))"
  shows "tokens d i = Some h \<longleftrightarrow> (\<exists>x \<in> set (sd_devices d). de_id x = i \<and> de_token_hash x = h)"
proof -
  have "distinct (map fst (map (\<lambda>x. (de_id x, de_token_hash x)) (sd_devices d)))" using assms by (simp add: comp_def)
  then have "tokens d i = Some h \<longleftrightarrow> (i, h) \<in> set (map (\<lambda>x. (de_id x, de_token_hash x)) (sd_devices d))"
    unfolding tokens_def by (rule map_of_eq_Some_iff)
  then show ?thesis by auto
qed

lemma ran_tokens: "distinct (map de_id (sd_devices d)) \<Longrightarrow> ran (tokens d) = de_token_hash ` set (sd_devices d)"
  by (auto simp: ran_def tokens_Some)

lemma deviceByHash_None: "deviceByHash h d = None \<longleftrightarrow> h \<notin> de_token_hash ` set (sd_devices d)"
  by (simp add: deviceByHash_def find_key_None)

lemma deviceByHash_Some:
  assumes "distinct (map de_token_hash (sd_devices d))"
  shows "deviceByHash h d = Some x \<longleftrightarrow> x \<in> set (sd_devices d) \<and> de_token_hash x = h"
proof -
  have "find (\<lambda>x. de_token_hash x = h) xs = Some x \<longleftrightarrow> x \<in> set xs \<and> de_token_hash x = h"
    if "distinct (map de_token_hash xs)" for xs
    using that by (induction xs) (auto simp: find_key_None)
  then show ?thesis using assms by (simp add: deviceByHash_def)
qed

section \<open>The contract\<close>

locale hub_backend =
  fixes run :: "hub_op \<Rightarrow> stateDoc \<Rightarrow> stateDoc \<times> (hub_error + answer)" and hash :: "string \<Rightarrow> string"
  assumes run_refused: "run op d = (d', Inl e) \<Longrightarrow> d' = d"
    and run_ok: "registry_ok d \<Longrightarrow> fresh_for hash op d \<Longrightarrow> agreed op d \<Longrightarrow> registry_ok (fst (run op d))"
    and run_tokens: "registry_ok d \<Longrightarrow> fresh_for hash op d \<Longrightarrow> agreed op d \<Longrightarrow> run op d = (d', Inr a) \<Longrightarrow>
      tokens d' = issue hash op (tokens d)"
begin

lemma step_tokens:
  assumes "registry_ok d" "fresh_for hash op d" "agreed op d"
  shows "tokens (fst (run op d)) = tokens d \<or> tokens (fst (run op d)) = issue hash op (tokens d)"
  using run_refused[of op d] run_tokens[OF assms] by (cases "run op d"; cases "snd (run op d)") auto

lemma not_given: "h \<notin> ran t \<Longrightarrow> gives hash op \<noteq> Some h \<Longrightarrow> h \<notin> ran (issue hash op t)"
  by (cases op) (auto simp: ran_def split: if_splits)

text \<open>A hash that no device has lets nobody in for as long as it is not given out.\<close>

lemma stays_out:
  assumes "registry_ok d" "h \<notin> ran (tokens d)" "usable run hash ops d" "list_all (\<lambda>op. gives hash op \<noteq> Some h) ops"
  shows "deviceByHash h (after_requests run ops d) = None"
  using assms
proof (induction ops arbitrary: d)
  case Nil
  then show ?case using ran_tokens[of d] by (simp add: registry_ok_def deviceByHash_None)
next
  case (Cons op ops)
  then have "registry_ok (fst (run op d))" "h \<notin> ran (tokens (fst (run op d)))"
    using run_ok step_tokens[of d op] not_given[of h "tokens d" op] by auto
  then show ?case using Cons by simp
qed

lemma in_then_out:
  assumes "registry_ok d" "deviceByHash h d = Some x" "fresh_for hash op d" "agreed op d"
    "op = RotateToken (de_id x) tok \<or> op = DeleteDevice (de_id x)" "run op d = (d', Inr a)"
  shows "h \<notin> ran (tokens d')"
proof -
  have d: "distinct (map de_id (sd_devices d))" "distinct (map de_token_hash (sd_devices d))"
    using assms(1) by (simp_all add: registry_ok_def)
  have x: "x \<in> set (sd_devices d)" "de_token_hash x = h" using assms(2) by (simp_all add: deviceByHash_Some[OF d(2)])
  have others: "tokens d i \<noteq> Some h" if "i \<noteq> de_id x" for i
    using d(2) x that by (auto simp: tokens_Some[OF d(1)] distinct_map dest: inj_onD)
  have tok: "hash tok \<noteq> h" if "op = RotateToken (de_id x) tok"
    using assms(3) that x by auto
  show ?thesis
    unfolding run_tokens[OF assms(1,3,4,6)] using assms(5) others tok by (auto simp: ran_def split: if_splits)
qed

text \<open>A token that was replaced, and that of a deleted device, let nobody in again.\<close>

lemma cut_off:
  assumes "registry_ok d" "deviceByHash h d = Some x" "usable run hash (op # ops) d" "list_all (\<lambda>op. gives hash op \<noteq> Some h) ops"
    "op = RotateToken (de_id x) tok \<or> op = DeleteDevice (de_id x)" "run op d = (d', Inr a)"
  shows "deviceByHash h (after_requests run (op # ops) d) = None"
proof -
  have side: "fresh_for hash op d" "agreed op d" "usable run hash ops d'" using assms(3,6) by simp_all
  have "registry_ok d'" using run_ok[OF assms(1) side(1,2)] assms(6) by simp
  from stays_out[OF this in_then_out[OF assms(1,2) side(1,2) assms(5,6)] side(3) assms(4)] show ?thesis
    by (simp add: assms(6))
qed

lemma new_token_lets_in:
  assumes "registry_ok d" "fresh_for hash op d" "agreed op d" "run op d = (d', Inr a)"
    "op = RotateToken i tok \<or> op = CreateDevice i tok now name"
  shows "\<exists>x. deviceByHash (hash tok) d' = Some x \<and> de_id x = i"
proof -
  have d': "registry_ok d'" using run_ok[OF assms(1-3)] assms(4) by simp
  then have dist: "distinct (map de_id (sd_devices d'))" "distinct (map de_token_hash (sd_devices d'))"
    by (simp_all add: registry_ok_def)
  have "tokens d' i = Some (hash tok)"
    unfolding run_tokens[OF assms(1-4)] using assms(5) by auto
  then show ?thesis by (auto simp: tokens_Some[OF dist(1)] deviceByHash_Some[OF dist(2)])
qed

end

section \<open>Both backends meet it\<close>

lemma tokens_put [simp]:
  "tokens (d\<lparr>sd_kv := m\<rparr>) = tokens d" "tokens (d\<lparr>sd_subs := ss\<rparr>) = tokens d" "tokens (d\<lparr>sd_next_sub_id := n\<rparr>) = tokens d"
  "tokens (on_sub e f d) = tokens d"
  by (simp_all add: tokens_def on_sub_def)

lemma tokens_kept:
  assumes "\<And>x. de_id (f x) = de_id x" "\<And>x. de_token_hash (f x) = de_token_hash x"
  shows "tokens (on_device i f d) = tokens d"
proof -
  have "map (\<lambda>x. (de_id x, de_token_hash x)) (update_where (\<lambda>x. de_id x = i) f xs) = map (\<lambda>x. (de_id x, de_token_hash x)) xs" for xs
    using assms by (induction xs) auto
  then show ?thesis by (simp add: tokens_def on_device_def)
qed

lemma tokens_token:
  "tokens (on_device i (\<lambda>x. x\<lparr>de_token_hash := h\<rparr>) d) = (if tokens d i = None then tokens d else (tokens d)(i \<mapsto> h))"
proof -
  have "map_of (map (\<lambda>x. (de_id x, de_token_hash x)) (update_where (\<lambda>x. de_id x = i) (\<lambda>x. x\<lparr>de_token_hash := h\<rparr>) xs)) =
    (let m = map_of (map (\<lambda>x. (de_id x, de_token_hash x)) xs) in if m i = None then m else m(i \<mapsto> h))" for xs :: "device list"
    by (induction xs) (auto simp: Let_def fun_eq_iff)
  then show ?thesis by (simp add: tokens_def on_device_def Let_def)
qed

lemma tokens_delete: "tokens (d\<lparr>sd_devices := filter (\<lambda>x. de_id x \<noteq> i) (sd_devices d)\<rparr>) = (tokens d)(i := None)"
proof -
  have "map_of (map (\<lambda>x. (de_id x, de_token_hash x)) (filter (\<lambda>x. de_id x \<noteq> i) xs)) =
    (map_of (map (\<lambda>x. (de_id x, de_token_hash x)) xs))(i := None)" for xs
    by (induction xs) (auto simp: fun_eq_iff)
  then show ?thesis by (simp add: tokens_def)
qed

lemma tokens_append:
  "i \<notin> de_id ` set (sd_devices d) \<Longrightarrow> tokens (d\<lparr>sd_devices := sd_devices d @ [new_device i name h now l]\<rparr>) = (tokens d)(i \<mapsto> h)"
  using tokens_None[of d i] by (auto simp: tokens_def new_device_def map_add_def fun_eq_iff split: option.split)

lemma the_device_tokens: "the_device i d = None \<longleftrightarrow> tokens d i = None"
  by (simp add: the_device_None tokens_None)

lemma sql_tokens:
  assumes "registry_ok d" "fresh_for hash op d" "sql_op hash op d = (d', Inr a)"
  shows "tokens d' = issue hash op (tokens d)"
proof (cases op)
  case (RotateToken i tok)
  then show ?thesis using assms(3)
    by (auto simp: sql_rotateToken_def sql_update_def tokens_token the_device_tokens split: if_splits)
next
  case (CreateDevice i tok now name)
  then show ?thesis using assms by (auto simp: sql_createDevice_def Let_def tokens_append split: if_splits)
next
  case (EnsureLocal tok now name)
  then show ?thesis using assms(3)
    by (auto simp: sql_ensureLocalDevice_def Let_def tokens_append tokens_kept the_device_None tokens_None split: if_splits option.splits
        dest: the_device_tokens[THEN iffD2] )
       (auto simp: the_device_None[symmetric] tokens_kept)
qed (use assms(3) in \<open>auto simp: sql_secret_def sql_secret_insert_def sql_putKV_def sql_deleteDevice_def sql_renameDevice_def sql_update_def
  sql_touchDevice_def sql_setPeerAccess_def sql_setLetter_def sql_addSub_def sql_removeSub_def Let_def tokens_kept tokens_delete
  split: if_splits option.splits\<close>)

lemma sql_refused: "sql_op hash op d = (d', Inl e) \<Longrightarrow> d' = d"
  by (cases op) (auto simp: sql_secret_def sql_secret_insert_def sql_putKV_def sql_deleteDevice_def sql_renameDevice_def sql_update_def
    sql_touchDevice_def sql_setPeerAccess_def sql_setLetter_def sql_addSub_def sql_removeSub_def sql_rotateToken_def sql_createDevice_def
    sql_ensureLocalDevice_def Let_def split: if_splits option.splits)

interpretation sqlite: hub_backend "sql_op hash" hash for hash
  by unfold_locales (simp_all add: sql_refused sql_op_ok sql_tokens)

lemma doc_tokens:
  assumes "registry_ok d" "fresh_for hash op d" "agreed op d" "doc_run hash op d = (d', Inr a)"
  shows "tokens d' = issue hash op (tokens d)"
proof (cases "touches op")
  case True
  then obtain i h v now where "op = TouchDevice i h v now" by (cases op) auto
  then show ?thesis using assms(4)
    by (auto simp: doc_run_def apply_outcome_def doc_touchDevice_def with_device[OF assms(1)] tokens_kept split: option.splits if_splits)
next
  case False
  then show ?thesis using sql_tokens[OF assms(1,2)] doc_is_sql[OF assms(1-3)] assms(4) by (simp add: doc_run_def)
qed

interpretation document: hub_backend "doc_run hash" hash for hash
proof unfold_locales
  show "d' = d" if "doc_run hash op d = (d', Inl e)" for op d d' e
    using that by (auto simp: doc_run_def apply_outcome_def split: outcome.splits)
  show "registry_ok (fst (doc_run hash op d))" if "registry_ok d" "fresh_for hash op d" "agreed op d" for d op
    using doc_op_ok[OF that] by (simp add: doc_run_def)
qed (rule doc_tokens)

section \<open>What the hub relies on\<close>


definition sample_registry :: stateDoc where
  "sample_registry = empty_doc\<lparr>sd_devices := [new_device ''a1'' ''mac'' ''t1'' 0 ''A'']\<rparr>"

lemma sample_registry_ok: "registry_ok sample_registry"
  by (simp add: sample_registry_def registry_ok_def empty_doc_def new_device_def letters_of_def)




section \<open>Opening a store\<close>

text \<open>The one-time import of hub.sqlite keeps every device, its token and the secrets.\<close>

lemma import_keeps:
  assumes "registry_ok t"
  shows "registry_ok (readSQLiteState now t)" "tokens (readSQLiteState now t) = tokens t" "sd_kv (readSQLiteState now t) = sd_kv t"
proof -
  have ms: "mset (listDevices t) = mset (sd_devices t)" by (simp add: listDevices_def)
  then have set: "set (listDevices t) = set (sd_devices t)" by (rule mset_eq_setD)
  have "distinct (map g (listDevices t)) = distinct (map g (sd_devices t))" for g :: "device \<Rightarrow> string"
    using ms by (intro mset_eq_imp_distinct_iff) simp
  moreover have "distinct (filter (\<lambda>l. l \<noteq> []) (map de_letter (listDevices t))) = distinct (filter (\<lambda>l. l \<noteq> []) (map de_letter (sd_devices t)))"
    using ms by (intro mset_eq_imp_distinct_iff) simp
  ultimately show ok: "registry_ok (readSQLiteState now t)"
    using assms set foldl_max[of 0 "map ps_id (sd_subs t)"]
    by (auto simp: registry_ok_def readSQLiteState_def listSubs_def letters_of_def comp_def)
  have "tokens (readSQLiteState now t) i = Some h \<longleftrightarrow> tokens t i = Some h" for i h
    using ok assms set by (simp add: registry_ok_def tokens_Some) (simp add: readSQLiteState_def)
  then show "tokens (readSQLiteState now t) = tokens t" by (metis not_Some_eq ext)
  show "sd_kv (readSQLiteState now t) = sd_kv t" by (simp add: readSQLiteState_def)
qed

text \<open>Giving letters to the devices of an older file keeps them unique.\<close>

lemma sql_letters_ok:
  assumes "registry_ok d" "usedLetters d \<subseteq> used"
  shows "registry_ok (fst (foldl (\<lambda>s i. sql_give_letter i s) (d, used) is))"
  using assms
proof (induction "is" arbitrary: d used)
  case (Cons i "is")
  let ?l = "nextLetter used"
  let ?d = "on_device i (\<lambda>x. x\<lparr>de_letter := ?l\<rparr>) d"
  have "registry_ok ?d"
  proof (cases "?l = []")
    case True
    then show ?thesis by (intro registry_update[OF Cons.prems(1)]) simp_all
  next
    case False
    then have "?l \<notin> usedLetters d" using nextLetter_unused Cons.prems(2) by blast
    then have "\<not> letterTaken ?l i d" using False by (auto simp: letterTaken_def usedLetters_def list_ex_iff) (metis image_eqI)
    then show ?thesis by (rule registry_columns(3)[OF Cons.prems(1)])
  qed
  moreover have "usedLetters ?d \<subseteq> insert ?l used"
  proof -
    have "de_letter ` set (sd_devices ?d) \<subseteq> insert ?l (de_letter ` set (sd_devices d))"
      by (auto simp: on_device_def update_where_def)
    then show ?thesis using Cons.prems(2) by (auto simp: usedLetters_def)
  qed
  ultimately show ?case using Cons.IH[of ?d "insert ?l used"] by (simp add: sql_give_letter_def Let_def)
qed simp

lemma sql_backfill_ok: "registry_ok d \<Longrightarrow> registry_ok (sql_backfillLetters d)"
  by (simp add: sql_backfillLetters_def sql_letters_ok)

section \<open>Where they differ\<close>

text \<open>A missing device is no row in both, says the interface, but the tables look at the letter first.\<close>

lemma letter_of_missing_device:
  assumes "the_device i d = None" "letterTaken letter i d"
  shows "snd (doc_run hash (SetLetter i letter) d) = Inl ErrNoRows" "snd (sql_op hash (SetLetter i letter) d) = Inl ErrDuplicateLetter"
  using assms by (simp_all add: doc_run_def apply_outcome_def doc_setLetter_def sql_setLetter_def)

text \<open>The document lets the local device take a name another device has.\<close>

lemma local_name_taken_twice:
  assumes "x \<in> set (sd_devices d)" "de_name x = local_name name" "de_id x \<noteq> LocalDeviceID" "the_device LocalDeviceID d = None"
  shows "\<not> distinct (map de_name (sd_devices (fst (doc_run hash (EnsureLocal tok now name) d))))"
  using assms by (force simp: doc_run_def apply_outcome_def doc_ensureLocalDevice_def new_device_def Let_def)

text \<open>Two first uses of a secret that meet between the SELECT and the INSERT: the second is an error, not the value.\<close>

lemma secret_race:
  assumes "sql_secret_select k d = None"
  shows "snd (sql_secret_insert k v d) = Inr (Value v)"
    "snd (sql_secret_insert k w (fst (sql_secret_insert k v d))) = Inl ErrConstraint"
  using assms by (simp_all add: sql_secret_select_def sql_secret_insert_def)

text \<open>The text of a time does not sort as the time: any part of a second comes before the whole second.\<close>

lemma text_order_is_not_time_order:
  assumes "t mod 10 ^ 9 = 0" "0 < k" "k < 10 ^ 9"
  shows "rfc3339_nano (t + k) < rfc3339_nano t"
proof -
  have same: "p @ x < p @ y \<longleftrightarrow> x < y" for p x y :: string
    by (induction p) simp_all
  obtain q where "t = 10 ^ 9 * q" using assms(1) by (auto simp: mod_eq_0_iff_dvd elim: dvdE)
  then have "(t + k) div 10 ^ 9 = t div 10 ^ 9" "(t + k) mod 10 ^ 9 = k" using assms(2,3) by simp_all
  then show ?thesis using assms by (simp add: rfc3339_nano_def Let_def same less_char_def)
qed

end
