(* ===== verification/Hub_Access.thy ===== *)
theory Hub_Access
  imports Session_Hooks Hub_Backends
begin

text \<open>
  Who gets through the hub's door (internal/hub: auth.go, breakglass.go, local.go, readtoken.go, peer.go,
  hostguard.go): signed cookies, sessions and their revocation, the break-glass password, one-time login
  links, read tokens, device tokens, and the Host header. HMAC-SHA256, SHA-256 and the randomness are arguments, JSON
  is the decoder and encoder of the record outside; base64 is modelled. The OpenID provider is outside: a login
  that completes gives an e-mail address. Times are nanoseconds since 1970; a state of the hub reads and writes
  its secrets through either backend.
\<close>

section \<open>Base64 as in URLs, without padding\<close>

definition b64_char :: "nat \<Rightarrow> char" where
  "b64_char n = char_of
     (if n < 26 then 65 + n else if n < 52 then 71 + n else if n < 62 then n - 4 else if n = 62 then 45 else (95 :: nat))"

definition b64_val :: "char \<Rightarrow> nat option" where
  "b64_val c =
     (let n = of_char c :: nat
      in if 65 \<le> n \<and> n \<le> 90 then Some (n - 65) else if 97 \<le> n \<and> n \<le> 122 then Some (n - 71)
         else if 48 \<le> n \<and> n \<le> 57 then Some (n + 4) else if n = 45 then Some 62 else if n = 95 then Some 63 else None)"

fun b64_groups :: "nat list \<Rightarrow> nat list" where
  "b64_groups [] = []"
| "b64_groups [a] = [a div 4, a mod 4 * 16]"
| "b64_groups [a, b] = (let n = a * 256 + b in [n div 1024, n div 16 mod 64, n mod 16 * 4])"
| "b64_groups (a # b # c # xs) =
     (let n = a * 65536 + b * 256 + c in [n div 262144, n div 4096 mod 64, n div 64 mod 64, n mod 64] @ b64_groups xs)"

definition b64_encode :: "string \<Rightarrow> string" where
  "b64_encode s = map b64_char (b64_groups (map of_char s))"

fun b64_bytes :: "nat list \<Rightarrow> nat list option" where
  "b64_bytes [] = Some []"
| "b64_bytes [w] = None"
| "b64_bytes [w, x] = Some [(w * 64 + x) div 16]"
| "b64_bytes [w, x, y] = (let n = w * 4096 + x * 64 + y in Some [n div 1024, n div 4 mod 256])"
| "b64_bytes (w # x # y # z # ns) =
     (let n = w * 262144 + x * 4096 + y * 64 + z
      in map_option (\<lambda>bs. [n div 65536, n div 256 mod 256, n mod 256] @ bs) (b64_bytes ns))"

text \<open>The decoder skips line ends and does not mind the bits left over.\<close>

definition b64_decode :: "string \<Rightarrow> string option" where
  "b64_decode s =
     (let vs = map b64_val (filter (\<lambda>c. c \<noteq> CHR 0x0A \<and> c \<noteq> CHR 0x0D) s)
      in if None \<in> set vs then None else map_option (map char_of) (b64_bytes (map the vs)))"

section \<open>Signed cookies\<close>

text \<open>The key of the hub and the function HMAC-SHA256.\<close>

type_synonym mac = "string \<Rightarrow> string \<Rightarrow> string"

definition sign_cookie :: "outside \<Rightarrow> mac \<Rightarrow> string \<Rightarrow> json \<Rightarrow> string" where
  "sign_cookie out mac key v =
     (let body = b64_encode (out_encode out v) in body @ ''.'' @ b64_encode (mac key body))"

definition open_cookie :: "outside \<Rightarrow> mac \<Rightarrow> string \<Rightarrow> string \<Rightarrow> json option" where
  "open_cookie out mac key s =
     (case cut_byte (CHR ''.'') s of
        None \<Rightarrow> None
      | Some (body, m) \<Rightarrow>
          if b64_decode m \<noteq> Some (mac key body) then None
          else Option.bind (b64_decode body) (out_decode out))"

record claims =
  sc_email :: string
  sc_exp :: int
  sc_iat :: int
  sc_break_glass :: bool

definition claims_json :: "claims \<Rightarrow> json" where
  "claims_json c =
     JObj ([(''e'', JStr (sc_email c)), (''x'', JNum (itoa (sc_exp c)))]
       @ (if sc_iat c = 0 then [] else [(''i'', JNum (itoa (sc_iat c)))])
       @ (if sc_break_glass c then [(''bg'', JBool True)] else []))"

definition read_claims :: "json \<Rightarrow> claims option" where
  "read_claims v =
     (case v of
        JNull \<Rightarrow> Some \<lparr>sc_email = [], sc_exp = 0, sc_iat = 0, sc_break_glass = False\<rparr>
      | JObj fs \<Rightarrow>
          (case (string_field ''e'' fs, int_field ''x'' fs, int_field ''i'' fs, bool_field ''bg'' fs) of
             (Some e, Some x, Some i, Some b) \<Rightarrow> Some \<lparr>sc_email = e, sc_exp = x, sc_iat = i, sc_break_glass = b\<rparr>
           | _ \<Rightarrow> None)
      | _ \<Rightarrow> None)"

record login_state =
  ls_state :: string
  ls_nonce :: string
  ls_verifier :: string
  ls_next :: string
  ls_exp :: int

definition login_json :: "login_state \<Rightarrow> json" where
  "login_json l =
     JObj [(''s'', JStr (ls_state l)), (''n'', JStr (ls_nonce l)), (''v'', JStr (ls_verifier l)), (''t'', JStr (ls_next l)),
           (''x'', JNum (itoa (ls_exp l)))]"

definition read_login :: "json \<Rightarrow> login_state option" where
  "read_login v =
     (case v of
        JNull \<Rightarrow> Some \<lparr>ls_state = [], ls_nonce = [], ls_verifier = [], ls_next = [], ls_exp = 0\<rparr>
      | JObj fs \<Rightarrow>
          (case (string_field ''s'' fs, string_field ''n'' fs, string_field ''v'' fs, string_field ''t'' fs, int_field ''x'' fs) of
             (Some s, Some n, Some w, Some t, Some x) \<Rightarrow>
               Some \<lparr>ls_state = s, ls_nonce = n, ls_verifier = w, ls_next = t, ls_exp = x\<rparr>
           | _ \<Rightarrow> None)
      | _ \<Rightarrow> None)"

definition local_json :: "int \<Rightarrow> json" where
  "local_json x = JObj [(''x'', JNum (itoa x))]"

definition read_local :: "json \<Rightarrow> int option" where
  "read_local v = (case v of JNull \<Rightarrow> Some 0 | JObj fs \<Rightarrow> int_field ''x'' fs | _ \<Rightarrow> None)"

section \<open>The hub at the door\<close>

record auth_config =
  ac_allowed :: "string list"
  ac_no_auth :: bool
  ac_tailscale :: bool
  ac_break_glass :: string
  ac_session_ttl :: int
  ac_local :: "string option"

record request =
  rq_method :: string
  rq_path :: string
  rq_query :: "(string \<times> string) list"
  rq_header :: "string \<Rightarrow> string"
  rq_cookie :: "string \<Rightarrow> string option"

text \<open>
  What stays the same while the hub runs, the digests of the read tokens among it, and what changes: the copy of the
  cut-off, failures, the login token, the state. The digest of a token is the one of a password.
\<close>

record door =
  dr_out :: outside
  dr_mac :: mac
  dr_hash :: "string \<Rightarrow> string"
  dr_key :: string
  dr_cfg :: auth_config
  dr_read_tokens :: "string list"
  dr_run :: "hub_op \<Rightarrow> stateDoc \<Rightarrow> stateDoc \<times> (hub_error + answer)"

record door_state =
  ds_nb_val :: int
  ds_nb_read :: "int option"
  ds_fails :: "int list"
  ds_login_token :: string
  ds_store :: stateDoc

definition second :: int where "second = 10 ^ 9"

definition unix :: "int \<Rightarrow> int" where "unix now = now div second"

definition DefaultSessionTTL :: int where "DefaultSessionTTL = 24 * 3600 * second"

definition sessionTTL :: "auth_config \<Rightarrow> int" where
  "sessionTTL cfg = (if 0 < ac_session_ttl cfg then ac_session_ttl cfg else DefaultSessionTTL)"

definition sessionCookie :: string where "sessionCookie = ''ccdash_hub''"

definition loginCookie :: string where "loginCookie = ''ccdash_hub_login_''"

definition localCookie :: string where "localCookie = ''ccdash_web''"

definition localTTL :: int where "localTTL = 30 * 24 * 3600 * second"

definition notBeforeKey :: string where "notBeforeKey = ''session_not_before''"

definition notBeforeCache :: int where "notBeforeCache = 5 * second"

definition breakGlassUser :: string where "breakGlassUser = ''break-glass''"

definition breakGlassTTL :: int where "breakGlassTTL = 3600 * second"

definition breakGlassMax :: nat where "breakGlassMax = 5"

definition breakGlassWin :: int where "breakGlassWin = 600 * second"

definition allowed_email :: "auth_config \<Rightarrow> string \<Rightarrow> bool" where
  "allowed_email cfg email \<longleftrightarrow> email \<noteq> [] \<and> to_lower email \<in> set (ac_allowed cfg)"

definition breakGlassEnabled :: "auth_config \<Rightarrow> bool" where
  "breakGlassEnabled cfg \<longleftrightarrow> ac_break_glass cfg \<noteq> [] \<and> ac_local cfg = None \<and> \<not> ac_no_auth cfg \<and> \<not> ac_tailscale cfg"

definition notBefore :: "door \<Rightarrow> int \<Rightarrow> door_state \<Rightarrow> int \<times> door_state" where
  "notBefore dr now st =
     (if (case ds_nb_read st of None \<Rightarrow> False | Some t \<Rightarrow> now - t < notBeforeCache) then (ds_nb_val st, st)
      else
        case dr_run dr (Secret notBeforeKey ''0'') (ds_store st) of
          (d, Inr (Value v)) \<Rightarrow> (atoi v, st\<lparr>ds_store := d, ds_nb_val := atoi v, ds_nb_read := Some now\<rparr>)
        | (d, _) \<Rightarrow> (ds_nb_val st, st\<lparr>ds_store := d\<rparr>))"

definition newSession :: "door \<Rightarrow> string \<Rightarrow> int \<Rightarrow> int \<Rightarrow> string" where
  "newSession dr email iat now =
     sign_cookie (dr_out dr) (dr_mac dr) (dr_key dr)
       (claims_json \<lparr>sc_email = email, sc_exp = unix (now + sessionTTL (dr_cfg dr)), sc_iat = iat, sc_break_glass = False\<rparr>)"

definition cookie_claims :: "door \<Rightarrow> request \<Rightarrow> claims option" where
  "cookie_claims dr r =
     Option.bind (rq_cookie r sessionCookie) (\<lambda>s.
       Option.bind (open_cookie (dr_out dr) (dr_mac dr) (dr_key dr) s) read_claims)"

definition session_of :: "door \<Rightarrow> request \<Rightarrow> int \<Rightarrow> door_state \<Rightarrow> claims option \<times> door_state" where
  "session_of dr r now st =
     (case cookie_claims dr r of
        None \<Rightarrow> (None, st)
      | Some sc \<Rightarrow>
          if sc_exp sc < unix now then (None, st)
          else (case notBefore dr now st of (nb, st') \<Rightarrow> (if sc_iat sc < nb then None else Some sc, st')))"

definition localUser :: "door \<Rightarrow> request \<Rightarrow> int \<Rightarrow> bool" where
  "localUser dr r now \<longleftrightarrow>
     (case Option.bind (rq_cookie r localCookie) (\<lambda>s.
             Option.bind (open_cookie (dr_out dr) (dr_mac dr) (dr_key dr) s) read_local) of
        None \<Rightarrow> False
      | Some x \<Rightarrow> \<not> x < unix now)"

text \<open>The user of a request, None for the refused; the state may have a fresh cut-off.\<close>

definition user_of :: "door \<Rightarrow> request \<Rightarrow> int \<Rightarrow> door_state \<Rightarrow> string option \<times> door_state" where
  "user_of dr r now st =
     (let cfg = dr_cfg dr
      in case ac_local cfg of
           Some u \<Rightarrow> (if localUser dr r now then Some u else None, st)
         | None \<Rightarrow>
             if ac_no_auth cfg then (Some ''dev@localhost'', st)
             else if ac_tailscale cfg then
               (let login = to_lower (trim_space (rq_header r ''Tailscale-User-Login''))
                in (if allowed_email cfg login then Some login else None, st))
             else
               case session_of dr r now st of
                 (None, st') \<Rightarrow> (None, st')
               | (Some sc, st') \<Rightarrow>
                   (if sc_break_glass sc then (if breakGlassEnabled cfg then Some breakGlassUser else None)
                    else if allowed_email cfg (sc_email sc) then Some (sc_email sc) else None, st'))"

text \<open>The new cookie, if any.\<close>

definition renewSession :: "door \<Rightarrow> request \<Rightarrow> int \<Rightarrow> door_state \<Rightarrow> string option \<times> door_state" where
  "renewSession dr r now st =
     (let cfg = dr_cfg dr
      in if ac_local cfg \<noteq> None \<or> ac_no_auth cfg \<or> ac_tailscale cfg then (None, st)
         else
           case session_of dr r now st of
             (None, st') \<Rightarrow> (None, st')
           | (Some sc, st') \<Rightarrow>
               (if sc_break_glass sc \<or> \<not> allowed_email cfg (sc_email sc) then None
                else if sc_exp sc * second - now < sessionTTL cfg div 2 then Some (newSession dr (sc_email sc) (sc_iat sc) now)
                else None, st'))"

datatype logout_reply = LoginRequired | StateError hub_error | NewCookie string

definition handleLogoutOthers :: "door \<Rightarrow> request \<Rightarrow> int \<Rightarrow> door_state \<Rightarrow> logout_reply \<times> door_state" where
  "handleLogoutOthers dr r now st =
     (case session_of dr r now st of
        (None, st') \<Rightarrow> (LoginRequired, st')
      | (Some sc, st') \<Rightarrow>
          (case dr_run dr (PutKV notBeforeKey (itoa (unix now))) (ds_store st') of
             (d, Inl e) \<Rightarrow> (StateError e, st'\<lparr>ds_store := d\<rparr>)
           | (d, Inr _) \<Rightarrow>
               (NewCookie
                  (if sc_break_glass sc then
                     sign_cookie (dr_out dr) (dr_mac dr) (dr_key dr)
                       (claims_json \<lparr>sc_email = sc_email sc, sc_exp = sc_exp sc, sc_iat = unix now, sc_break_glass = True\<rparr>)
                   else newSession dr (sc_email sc) (unix now) now),
                st'\<lparr>ds_store := d, ds_nb_val := unix now, ds_nb_read := Some now\<rparr>)))"

section \<open>Break glass\<close>

datatype glass = Locked | WrongPassword | Opened_glass

definition breakGlassCheck :: "door \<Rightarrow> string \<Rightarrow> int \<Rightarrow> door_state \<Rightarrow> glass \<times> door_state" where
  "breakGlassCheck dr password now st =
     (let kept = filter (\<lambda>t. now - t < breakGlassWin) (ds_fails st); st = st\<lparr>ds_fails := kept\<rparr>
      in if breakGlassMax \<le> length kept then (Locked, st)
         else if dr_hash dr password \<noteq> dr_hash dr (ac_break_glass (dr_cfg dr)) then (WrongPassword, st\<lparr>ds_fails := kept @ [now]\<rparr>)
         else (Opened_glass, st))"

text \<open>A POST with the password of its form; the cookie of the session, if the door opens.\<close>

definition handleBreakGlass :: "door \<Rightarrow> string \<Rightarrow> int \<Rightarrow> door_state \<Rightarrow> string option \<times> door_state" where
  "handleBreakGlass dr password now st =
     (case breakGlassCheck dr password now st of
        (Opened_glass, st') \<Rightarrow>
          (Some (sign_cookie (dr_out dr) (dr_mac dr) (dr_key dr)
             (claims_json \<lparr>sc_email = breakGlassUser, sc_exp = unix (now + breakGlassTTL), sc_iat = unix now, sc_break_glass = True\<rparr>)), st')
      | (_, st') \<Rightarrow> (None, st'))"

section \<open>Where a login goes on to\<close>

text \<open>The scheme and the host url.Parse finds, None for an error, as an argument.\<close>

definition safeNext :: "(string \<Rightarrow> (string \<times> string) option) \<Rightarrow> string \<Rightarrow> string" where
  "safeNext parse next =
     (if next = [] \<or> hd next \<noteq> CHR ''/'' \<or> (1 < length next \<and> (next ! 1 = CHR ''/'' \<or> next ! 1 = CHR 0x5C)) then ''/''
      else if list_ex (\<lambda>c. of_char c < (0x20 :: nat) \<or> c = CHR 0x7F \<or> c = CHR 0x5C) next then ''/''
      else case parse next of None \<Rightarrow> ''/'' | Some (scheme, host) \<Rightarrow> if scheme \<noteq> [] \<or> host \<noteq> [] then ''/'' else next)"

section \<open>One-time login links\<close>

definition consume :: "string \<Rightarrow> string \<Rightarrow> door_state \<Rightarrow> bool \<times> door_state" where
  "consume rand tok st =
     (if tok \<noteq> [] \<and> tok = ds_login_token st then (True, st\<lparr>ds_login_token := rand\<rparr>) else (False, st))"

section \<open>Tokens\<close>

datatype token_error = ShortReadToken | TokenTooLong

definition minReadTokenLen :: nat where "minReadTokenLen = 32"

text \<open>A scanner of lines of at most 64 KiB with their end.\<close>

definition scan_lines :: "string \<Rightarrow> string list" where
  "scan_lines s = (let ls = split_byte (CHR 0x0A) s in if last ls = [] then butlast ls else ls)"

fun parse_tokens :: "string list \<Rightarrow> token_error + string list" where
  "parse_tokens [] = Inr []"
| "parse_tokens (l # ls) =
     (if 65536 \<le> length l then Inl TokenTooLong
      else
        let t = trim_space (trim_suffix l [CHR 0x0D])
        in if t = [] \<or> take 1 t = ''#'' then parse_tokens ls
           else if length t < minReadTokenLen then Inl ShortReadToken
           else case parse_tokens ls of Inl e \<Rightarrow> Inl e | Inr ts \<Rightarrow> Inr (t # ts))"

definition ParseReadTokens :: "string \<Rightarrow> token_error + string list" where
  "ParseReadTokens s = parse_tokens (scan_lines (map (\<lambda>c. if c = CHR '','' then CHR 0x0A else c) s))"

definition hashReadTokens :: "(string \<Rightarrow> string) \<Rightarrow> string list \<Rightarrow> token_error + string list" where
  "hashReadTokens hash toks = (if list_ex (\<lambda>t. length t < minReadTokenLen) toks then Inl ShortReadToken else Inr (map hash toks))"

definition readTokenOK :: "door \<Rightarrow> string \<Rightarrow> bool" where
  "readTokenOK dr tok \<longleftrightarrow> tok \<noteq> [] \<and> list_ex (\<lambda>want. dr_hash dr tok = want) (dr_read_tokens dr)"

definition bearerToken :: "request \<Rightarrow> string option" where
  "bearerToken r =
     (case cut_byte (CHR '' '') (rq_header r ''Authorization'') of
        None \<Rightarrow> None
      | Some (scheme, tok) \<Rightarrow> if equal_fold scheme ''Bearer'' then Some (trim_space tok) else None)"

section \<open>Routes\<close>

text \<open>
  The expressions of the route tables cut a path at its slashes: a name, one of several names, anything but the
  empty string, a number.
\<close>

datatype seg = Named "string list" | Anything | Digits

fun seg_ok :: "seg \<Rightarrow> string \<Rightarrow> bool" where
  "seg_ok (Named ns) s = (s \<in> set ns)"
| "seg_ok Anything s = (s \<noteq> [])"
| "seg_ok Digits s = (s \<noteq> [] \<and> list_all is_digit s)"

definition matches :: "seg list \<Rightarrow> string \<Rightarrow> bool" where
  "matches ps p = (case split_byte (CHR ''/'') p of [] \<Rightarrow> False | s # ss \<Rightarrow> s = [] \<and> list_all2 seg_ok ps ss)"

definition readTranscriptRoute :: "seg list" where
  "readTranscriptRoute = [Named [''api''], Named [''d''], Anything, Named [''api''], Named [''sessions''], Anything, Named [''transcript'']]"

definition readTokenRoutes :: "seg list list" where
  "readTokenRoutes =
     [[Named [''api''], Named [''board'']],
      [Named [''api''], Named [''active'']],
      [Named [''api''], Named [''devices'']],
      [Named [''api''], Named [''d''], Anything, Named [''api''], Named [''sessions'']],
      readTranscriptRoute]"

definition query_get :: "string \<Rightarrow> request \<Rightarrow> string" where
  "query_get k r = (case map_of (rq_query r) k of None \<Rightarrow> [] | Some v \<Rightarrow> v)"

definition query_set :: "string \<Rightarrow> string \<Rightarrow> request \<Rightarrow> request" where
  "query_set k v r = r\<lparr>rq_query := filter (\<lambda>(k', _). k' \<noteq> k) (rq_query r) @ [(k, v)]\<rparr>"

definition maxReadTranscriptBytes :: int where "maxReadTranscriptBytes = 1048576"

text \<open>The request that may go on, None for the others.\<close>

definition readTokenAllowed :: "request \<Rightarrow> request option" where
  "readTokenAllowed r =
     (if rq_method r \<noteq> ''GET'' then None
      else if \<not> list_ex (\<lambda>ps. matches ps (rq_path r)) readTokenRoutes then None
      else if matches readTranscriptRoute (rq_path r) then
        (if query_get ''mode'' r \<notin> {[], ''tail'', ''stat''} then None
         else
           let b = query_get ''bytes'' r
           in if b \<noteq> [] \<and> (case parse_int64 b of None \<Rightarrow> True | Some n \<Rightarrow> n \<le> 0 \<or> maxReadTranscriptBytes < n)
              then Some (query_set ''bytes'' (itoa maxReadTranscriptBytes) r)
              else Some r)
      else Some r)"

record peerRoute =
  pr_method :: string
  pr_path :: "seg list"
  pr_write :: bool

definition peerDeviceRoutes :: "peerRoute list" where
  "peerDeviceRoutes = map (\<lambda>(m, ps, w). \<lparr>pr_method = m, pr_path = ps, pr_write = w\<rparr>)
     [(''GET'', [Named [''api''], Named [''sessions'', ''approvals'', ''projects'', ''usage'', ''restart'']], False),
      (''GET'', [Named [''api''], Named [''sessions''], Anything, Named [''transcript'']], False),
      (''GET'', [Named [''pty'']], False),
      (''GET'', [Named [''pty''], Named [[]]], False),
      (''GET'', [Named [''hub''], Named [''info'', ''dirs'']], False),
      (''GET'', [Named [''api''], Named [''tasks'']], False),
      (''GET'', [Named [''api''], Named [''tasks''], Anything], False),
      (''POST'', [Named [''api''], Named [''sessions''], Anything,
         Named [''archive'', ''favorite'', ''later'', ''grid'', ''color'', ''title'', ''project'', ''seen'']], True),
      (''POST'', [Named [''api''], Named [''projects''], Named [''color'', ''rename'', ''order'']], True),
      (''POST'', [Named [''api''], Named [''tasks'']], True),
      (''POST'', [Named [''api''], Named [''tasks''], Named [''order'']], True),
      (''POST'', [Named [''api''], Named [''tasks''], Digits], True),
      (''POST'', [Named [''api''], Named [''tasks''], Digits, Named [''notes'']], True),
      (''POST'', [Named [''pty''], Named [''start'']], True),
      (''DELETE'', [Named [''pty''], Anything], True),
      (''POST'', [Named [''api''], Named [''restart'']], True),
      (''DELETE'', [Named [''api''], Named [''restart'']], True)]"

text \<open>The device and the path on it; a line end ends what the dot of the expression covers.\<close>

definition peerProxyPath :: "string \<Rightarrow> (string \<times> string) option" where
  "peerProxyPath p =
     (if take 7 p \<noteq> ''/api/d/'' then None
      else case cut_byte (CHR ''/'') (drop 7 p) of
             None \<Rightarrow> None
           | Some (i, rest) \<Rightarrow> if i = [] \<or> CHR 0x0A \<in> set rest then None else Some (i, CHR ''/'' # rest))"

definition peerOff :: string where "peerOff = []"

definition peerRead :: string where "peerRead = ''read''"

definition peerControl :: string where "peerControl = ''control''"

definition validPeerAccess :: "string \<Rightarrow> bool" where
  "validPeerAccess v \<longleftrightarrow> v = peerOff \<or> v = peerRead \<or> v = peerControl"

definition peerAllowed :: "request \<Rightarrow> string \<Rightarrow> bool" where
  "peerAllowed r access \<longleftrightarrow>
     access \<noteq> peerOff \<and>
     (rq_method r = ''GET'' \<and> rq_path r \<in> {''/api/devices'', ''/api/peer/self''} \<or>
      (case peerProxyPath (rq_path r) of
         None \<Rightarrow> False
       | Some (_, rest) \<Rightarrow>
           \<not> sublist ''/ws/'' (rq_path r) \<and>
           (case find (\<lambda>rt. pr_method rt = rq_method r \<and> matches (pr_path rt) rest) peerDeviceRoutes of
              None \<Rightarrow> False
            | Some rt \<Rightarrow> \<not> (pr_write rt \<and> access \<noteq> peerControl))))"

section \<open>The gate of the API\<close>

datatype api_reply = Refused nat | ToLogin | Self device | Served request

definition without_cookies :: "request \<Rightarrow> request" where
  "without_cookies r = r\<lparr>rq_cookie := (\<lambda>_. None)\<rparr>"

definition deviceTokenPrefix :: string where "deviceTokenPrefix = ''ccdh_''"

definition servePeer :: "door \<Rightarrow> string \<Rightarrow> request \<Rightarrow> door_state \<Rightarrow> api_reply" where
  "servePeer dr tok r st =
     (case deviceByHash (dr_hash dr tok) (ds_store st) of
        None \<Rightarrow> Refused 401
      | Some d \<Rightarrow>
          if \<not> peerAllowed r (de_peer_access d) then Refused 403
          else if rq_path r = ''/api/peer/self'' then Self d
          else Served (without_cookies r))"

definition requireUser :: "door \<Rightarrow> bool \<Rightarrow> request \<Rightarrow> int \<Rightarrow> door_state \<Rightarrow> api_reply \<times> door_state" where
  "requireUser dr page r now st =
     (case user_of dr r now st of
        (Some u, st') \<Rightarrow> (Served r, st')
      | (None, st') \<Rightarrow>
          (if ac_local (dr_cfg dr) \<noteq> None then Refused 401
           else if ac_tailscale (dr_cfg dr) then Refused 403
           else if page then ToLogin else Refused 401, st'))"

definition apiAuth :: "door \<Rightarrow> request \<Rightarrow> int \<Rightarrow> door_state \<Rightarrow> api_reply \<times> door_state" where
  "apiAuth dr r now st =
     (case bearerToken r of
        None \<Rightarrow> requireUser dr False r now st
      | Some tok \<Rightarrow>
          if ac_local (dr_cfg dr) = None \<and> take 5 tok = deviceTokenPrefix then (servePeer dr tok r st, st)
          else if dr_read_tokens dr = [] then requireUser dr False r now st
          else if \<not> readTokenOK dr tok then (Refused 401, st)
          else case readTokenAllowed r of None \<Rightarrow> (Refused 403, st) | Some r' \<Rightarrow> (Served (without_cookies r'), st))"

text \<open>What a logged-in operator asks of the access of a device: the status of the reply.\<close>

definition handlePeerAccess :: "door \<Rightarrow> string \<Rightarrow> string \<Rightarrow> door_state \<Rightarrow> nat \<times> door_state" where
  "handlePeerAccess dr i access st =
     (if \<not> validPeerAccess access then (400, st)
      else
        case dr_run dr (SetPeerAccess i access) (ds_store st) of
          (d, Inl ErrNoRows) \<Rightarrow> (404, st\<lparr>ds_store := d\<rparr>)
        | (d, Inl e) \<Rightarrow> (500, st\<lparr>ds_store := d\<rparr>)
        | (d, Inr a) \<Rightarrow> (204, st\<lparr>ds_store := d\<rparr>))"

section \<open>The Host header\<close>

text \<open>The host of net.SplitHostPort.\<close>

definition split_host :: "string \<Rightarrow> string option" where
  "split_host s =
     (let parts = split_byte (CHR '':'') s
      in if length parts < 2 then None
         else if hd s = CHR ''['' then
           (case cut_byte (CHR '']'') s of
              None \<Rightarrow> None
            | Some (front, rest) \<Rightarrow>
                if rest = [] \<or> hd rest \<noteq> CHR '':'' \<or> CHR '':'' \<in> set (tl rest) \<or> CHR ''['' \<in> set (tl s) \<or> CHR '']'' \<in> set rest then None
                else Some (tl front))
         else if 2 < length parts \<or> CHR ''['' \<in> set s \<or> CHR '']'' \<in> set s then None
         else Some (parts ! 0))"

definition allowedHost :: "string \<Rightarrow> string \<Rightarrow> bool" where
  "allowedHost host extra \<longleftrightarrow>
     (let h = (case split_host host of None \<Rightarrow> host | Some h \<Rightarrow> h);
          h = to_lower (trim_suffix (trim_prefix h ''['') '']'')
      in h \<noteq> [] \<and> (h \<in> {''localhost'', ''127.0.0.1'', ''::1''} \<or> extra \<noteq> [] \<and> h = extra))"

text \<open>The name of the public URL, as url.Parse gives it, is an argument; a request that is refused gets a 421.\<close>

definition hostGuard :: "string option \<Rightarrow> string \<Rightarrow> request \<Rightarrow> api_reply" where
  "hostGuard public host r =
     (if allowedHost host (case public of None \<Rightarrow> [] | Some h \<Rightarrow> to_lower h) then Served r else Refused 421)"

section \<open>The login of the local portal\<close>

definition setLocalCookie :: "door \<Rightarrow> int \<Rightarrow> string" where
  "setLocalCookie dr now = sign_cookie (dr_out dr) (dr_mac dr) (dr_key dr) (local_json (unix (now + localTTL)))"

definition renewLocal :: "door \<Rightarrow> request \<Rightarrow> int \<Rightarrow> string option" where
  "renewLocal dr r now =
     (case Option.bind (rq_cookie r localCookie) (\<lambda>s.
             Option.bind (open_cookie (dr_out dr) (dr_mac dr) (dr_key dr) s) read_local) of
        None \<Rightarrow> None
      | Some x \<Rightarrow> if x * second - now < localTTL div 2 then Some (setLocalCookie dr now) else None)"

datatype local_reply = LoggedIn string string | GoOn string | LinkUsed

definition handleLocalLogin ::
  "door \<Rightarrow> (string \<Rightarrow> (string \<times> string) option) \<Rightarrow> string \<Rightarrow> request \<Rightarrow> int \<Rightarrow> door_state \<Rightarrow> local_reply \<times> door_state" where
  "handleLocalLogin dr parse rand r now st =
     (let next = safeNext parse (query_get ''next'' r)
      in case consume rand (query_get ''token'' r) st of
           (True, st') \<Rightarrow> (LoggedIn (setLocalCookie dr now) next, st')
         | (False, st') \<Rightarrow> (if localUser dr r now then GoOn next else LinkUsed, st'))"

section \<open>The login with a provider\<close>

definition loginTTL :: int where "loginTTL = 600 * second"

definition reloginCookie :: string where "reloginCookie = ''ccdash_hub_relogin''"

datatype login_reply = Elsewhere string | Unavailable | ToProvider string string login_state

text \<open>The state, the nonce and the verifier are random; up tells whether the provider was found.\<close>

definition handleLogin ::
  "door \<Rightarrow> (string \<Rightarrow> (string \<times> string) option) \<Rightarrow> bool \<Rightarrow> string \<times> string \<times> string \<Rightarrow> request \<Rightarrow> int \<Rightarrow> login_reply" where
  "handleLogin dr parse up rand r now =
     (let next = safeNext parse (query_get ''next'' r)
      in if ac_no_auth (dr_cfg dr) \<or> ac_tailscale (dr_cfg dr) then Elsewhere next
         else if \<not> up then Unavailable
         else
           case rand of
             (s, n, v) \<Rightarrow>
               let ls = \<lparr>ls_state = s, ls_nonce = n, ls_verifier = v, ls_next = next, ls_exp = unix (now + loginTTL)\<rparr>
               in ToProvider (loginCookie @ s) (sign_cookie (dr_out dr) (dr_mac dr) (dr_key dr) (login_json ls)) ls)"

datatype callback_reply = GoHome | LoginAgain | LoginFailed nat | NotAllowed string | LoggedInAs string string string

text \<open>The state a callback belongs to.\<close>

definition callback_state :: "door \<Rightarrow> request \<Rightarrow> int \<Rightarrow> login_state option" where
  "callback_state dr r now =
     (let state = query_get ''state'' r
      in case Option.bind (rq_cookie r (loginCookie @ state)) (\<lambda>s.
                Option.bind (open_cookie (dr_out dr) (dr_mac dr) (dr_key dr) s) read_login) of
           None \<Rightarrow> None
         | Some ls \<Rightarrow> if state = [] \<or> ls_exp ls < unix now \<or> ls_state ls \<noteq> state then None else Some ls)"

text \<open>
  The provider trades a code and a verifier for the nonce, the e-mail address and what it says of the address, or for the
  status of a failure.
\<close>

definition handleCallback ::
  "door \<Rightarrow> (string \<Rightarrow> string \<Rightarrow> nat + string \<times> string \<times> bool option) \<Rightarrow> request \<Rightarrow> int \<Rightarrow> door_state \<Rightarrow>
    callback_reply \<times> door_state" where
  "handleCallback dr provider r now st =
     (case callback_state dr r now of
        None \<Rightarrow>
          (case user_of dr r now st of
             (Some u, st') \<Rightarrow> (GoHome, st')
           | (None, st') \<Rightarrow>
               (if rq_cookie r reloginCookie = None \<and> query_get ''error'' r = [] then LoginAgain else LoginFailed 400, st'))
      | Some ls \<Rightarrow>
          (if query_get ''error'' r \<noteq> [] then LoginFailed 401
           else
             case provider (query_get ''code'' r) (ls_verifier ls) of
               Inl status \<Rightarrow> LoginFailed status
             | Inr (nonce, email, verified) \<Rightarrow>
                 if nonce \<noteq> ls_nonce ls \<or> email = [] \<or> verified = Some False then LoginFailed 401
                 else if \<not> allowed_email (dr_cfg dr) email then NotAllowed email
                 else LoggedInAs (to_lower email) (newSession dr (to_lower email) (unix now) now) (ls_next ls), st))"

end
