(* ===== verification/Door_Laws.thy ===== *)
theory Door_Laws
  imports Hub_Access
begin

text \<open>
  Laws of the hub's door: cookies come back as they were signed and only as what they are, a logout of the others
  holds on every replica, break glass counts its failures in a sliding window, and what gets through the gate of the
  API.
\<close>

section \<open>Base64\<close>

lemma b64_val_char: "n < 64 \<Longrightarrow> b64_val (b64_char n) = Some n"
  by (auto simp: b64_val_def b64_char_def Let_def of_char_of)

lemma b64_groups_small: "list_all (\<lambda>n. n < 256) xs \<Longrightarrow> list_all (\<lambda>n. n < 64) (b64_groups xs)"
  by (induction xs rule: b64_groups.induct) (auto simp: Let_def less_mult_imp_div_less)

lemma split_24: "(n :: nat) div 262144 * 262144 + n div 4096 mod 64 * 4096 + n div 64 mod 64 * 64 + n mod 64 = n"
proof -
  have "n div 262144 = n div 64 div 64 div 64" "n div 4096 = n div 64 div 64" by (simp_all flip: div_mult2_eq)
  moreover have "q1 * 64 + r1 = n \<Longrightarrow> q2 * 64 + r2 = q1 \<Longrightarrow> q3 * 64 + r3 = q2 \<Longrightarrow> q3 * 262144 + r3 * 4096 + r2 * 64 + r1 = n"
    for q1 q2 q3 r1 r2 r3 :: nat by linarith
  ultimately show ?thesis by (metis div_mult_mod_eq)
qed

lemma join_24: "b < 256 \<Longrightarrow> c < 256 \<Longrightarrow> (a * 65536 + b * 256 + c) div 65536 = (a :: nat)
    \<and> (a * 65536 + b * 256 + c) div 256 mod 256 = b \<and> (a * 65536 + b * 256 + c) mod 256 = c"
proof -
  assume b: "b < 256" and c: "c < 256"
  have "(a * 65536 + b * 256 + c) div 256 = a * 256 + b"
    using c div_mult_self3[of 256 "a * 256 + b" c] by (simp add: algebra_simps)
  moreover have "(a * 65536 + b * 256 + c) div 65536 = (a * 65536 + b * 256 + c) div 256 div 256" by (simp flip: div_mult2_eq)
  moreover have "(a * 65536 + b * 256 + c) mod 256 = c"
    using c mod_mult_self3[of "a * 256 + b" 256 c] by (simp add: algebra_simps)
  ultimately show ?thesis using b by simp
qed

lemma b64_bytes_groups: "list_all (\<lambda>n. n < 256) xs \<Longrightarrow> b64_bytes (b64_groups xs) = Some xs"
proof (induction xs rule: b64_groups.induct)
  case (3 a b)
  let ?n = "a * 256 + b"
  have "?n div 1024 * 4096 + ?n div 16 mod 64 * 64 + ?n mod 16 * 4 = ?n * 4"
  proof -
    have "?n div 1024 = ?n div 16 div 64" by (simp flip: div_mult2_eq)
    moreover have "q1 * 16 + r1 = n \<Longrightarrow> q2 * 64 + r2 = q1 \<Longrightarrow> q2 * 4096 + r2 * 64 + r1 * 4 = n * 4" for q1 q2 r1 r2 n :: nat
      by linarith
    ultimately show ?thesis by (metis div_mult_mod_eq)
  qed
  moreover have "?n * 4 div 1024 = a" "?n * 4 div 4 mod 256 = b" using 3 by simp_all
  ultimately show ?case by (simp add: Let_def)
next
  case (4 a b c xs)
  then show ?case
    using split_24[of "a * 65536 + b * 256 + c"] join_24[of b c a] by (simp add: Let_def)
qed simp_all

lemma b64_plain: "list_all (\<lambda>n. n < 64) xs \<Longrightarrow> CHR ''.'' \<notin> set (map b64_char xs) \<and> CHR 0x0A \<notin> set (map b64_char xs) \<and> CHR 0x0D \<notin> set (map b64_char xs)"
proof -
  assume small: "list_all (\<lambda>n. n < 64) xs"
  have "c \<notin> set (map b64_char xs)" if none: "b64_val c = None" for c
  proof
    assume "c \<in> set (map b64_char xs)"
    then obtain n where "n \<in> set xs" "c = b64_char n" by auto
    then show False using small none by (simp add: list_all_iff b64_val_char)
  qed
  then show ?thesis by (simp add: b64_val_def Let_def)
qed

lemma bytes_small: "list_all (\<lambda>n. n < 256) (map of_char s :: nat list)"
  by (simp add: list_all_iff)

lemma b64_round_trip: "b64_decode (b64_encode s) = Some s"
proof -
  let ?gs = "b64_groups (map of_char s)"
  have small: "list_all (\<lambda>n. n < 64) ?gs" by (rule b64_groups_small[OF bytes_small])
  have "map b64_val (map b64_char ?gs) = map Some ?gs" using small by (auto simp: list_all_iff b64_val_char)
  moreover have "filter (\<lambda>c. c \<noteq> CHR 0x0A \<and> c \<noteq> CHR 0x0D) (map b64_char ?gs) = map b64_char ?gs"
    by (rule filter_True) (use b64_plain[OF small] in blast)
  ultimately have "b64_decode (b64_encode s) =
    (if None \<in> set (map Some ?gs) then None else map_option (map char_of) (b64_bytes (map the (map Some ?gs))))"
    by (simp only: b64_decode_def b64_encode_def Let_def)
  also have "\<dots> = Some s" using b64_bytes_groups[OF bytes_small, of s] by (simp add: comp_def image_iff)
  finally show ?thesis .
qed

lemma b64_no_dot: "CHR ''.'' \<notin> set (b64_encode s)"
  using b64_plain[OF b64_groups_small[OF bytes_small, of s]] unfolding b64_encode_def by blast

section \<open>Cookies\<close>

lemma open_sign: "open_cookie out mac key (sign_cookie out mac key v) = out_decode out (out_encode out v)"
  by (simp add: open_cookie_def sign_cookie_def Let_def cut_byte_append[OF b64_no_dot] b64_round_trip)

lemma open_needs_mac:
  "open_cookie out mac key s = Some v \<Longrightarrow>
    \<exists>body m. s = body @ CHR ''.'' # m \<and> b64_decode m = Some (mac key body) \<and> Option.bind (b64_decode body) (out_decode out) = Some v"
  by (auto simp: open_cookie_def dest!: cut_byte_Some split: option.splits if_splits prod.splits)

lemma other_names:
  "\<not> equal_fold ''s'' ''e''" "\<not> equal_fold ''n'' ''e''" "\<not> equal_fold ''v'' ''e''" "\<not> equal_fold ''t'' ''e''" "\<not> equal_fold ''x'' ''e''"
  "\<not> equal_fold ''s'' ''bg''" "\<not> equal_fold ''n'' ''bg''" "\<not> equal_fold ''v'' ''bg''" "\<not> equal_fold ''t'' ''bg''" "\<not> equal_fold ''x'' ''bg''"
  "\<not> equal_fold ''e'' ''x''" "\<not> equal_fold ''e'' ''i''" "\<not> equal_fold ''e'' ''bg''" "\<not> equal_fold ''x'' ''i''"
  "\<not> equal_fold ''i'' ''e''" "\<not> equal_fold ''i'' ''x''" "\<not> equal_fold ''i'' ''bg''"
  "\<not> equal_fold ''bg'' ''e''" "\<not> equal_fold ''bg'' ''x''" "\<not> equal_fold ''bg'' ''i''"
  "equal_fold ''e'' ''e''" "equal_fold ''x'' ''x''" "equal_fold ''i'' ''i''" "equal_fold ''bg'' ''bg''"
  by (simp_all add: equal_fold_def lower_byte_def byte_in_def)

text \<open>A login state or a cookie of the local portal has neither an address nor the mark of break glass.\<close>

lemma other_cookies_are_nobody:
  "read_claims (login_json l) = Some sc \<Longrightarrow> sc_email sc = [] \<and> \<not> sc_break_glass sc"
  "read_claims (local_json x) = Some sc \<Longrightarrow> sc_email sc = [] \<and> \<not> sc_break_glass sc"
  by (auto simp: read_claims_def login_json_def local_json_def string_field_def bool_field_def members_def other_names
      split: option.splits)

definition in_int64 :: "int \<Rightarrow> bool" where
  "in_int64 i \<longleftrightarrow> - (2 ^ 63) \<le> i \<and> i < 2 ^ 63"

lemma read_claims_json: "in_int64 (sc_exp c) \<Longrightarrow> in_int64 (sc_iat c) \<Longrightarrow> read_claims (claims_json c) = Some c"
  by (simp add: read_claims_def claims_json_def string_field_def int_field_def bool_field_def members_def other_names
      string_value_def int_value_def bool_value_def parse_int64_itoa in_int64_def)

section \<open>The secrets and settings the state keeps\<close>

locale kept_values =
  fixes run :: "hub_op \<Rightarrow> stateDoc \<Rightarrow> stateDoc \<times> (hub_error + answer)"
  assumes secret_found: "sd_kv d k = Some v \<Longrightarrow> run (Secret k g) d = (d, Inr (Value v))"
    and value_kept: "sd_kv d k = Some v \<Longrightarrow> (\<And>v'. op \<noteq> PutKV k v') \<Longrightarrow> sd_kv (fst (run op d)) k = Some v"
    and value_put: "run (PutKV k v) d = (d', Inr a) \<Longrightarrow> sd_kv d' k = Some v"
    and put_refused: "run (PutKV k v) d = (d', Inl e) \<Longrightarrow> d' = d"

lemma kv_on [simp]: "sd_kv (on_device i f d) = sd_kv d" "sd_kv (with_device i f d) = sd_kv d" "sd_kv (on_sub e g d) = sd_kv d"
  "sd_kv (with_sub e g d) = sd_kv d"
  by (simp_all add: on_device_def with_device_def on_sub_def with_sub_def)

lemma sql_value_kept: "sd_kv d k = Some v \<Longrightarrow> (\<And>v'. op \<noteq> PutKV k v') \<Longrightarrow> sd_kv (fst (sql_op hash op d)) k = Some v"
  by (cases op) (auto simp: sql_secret_def sql_secret_insert_def sql_putKV_def sql_createDevice_def sql_rotateToken_def sql_update_def
    sql_deleteDevice_def sql_renameDevice_def sql_touchDevice_def sql_setPeerAccess_def sql_setLetter_def sql_ensureLocalDevice_def
    sql_addSub_def sql_removeSub_def Let_def split: option.splits)

lemma doc_value_kept: "sd_kv d k = Some v \<Longrightarrow> (\<And>v'. op \<noteq> PutKV k v') \<Longrightarrow> sd_kv (fst (doc_run hash op d)) k = Some v"
  by (cases op) (auto simp: doc_run_def apply_outcome_def doc_secret_def doc_putKV_def doc_createDevice_def doc_rotateToken_def
    doc_deleteDevice_def doc_renameDevice_def doc_touchDevice_def doc_setPeerAccess_def doc_setLetter_def doc_ensureLocalDevice_def
    doc_addSub_def doc_removeSub_def Let_def split: option.splits)

interpretation sqlite_kv: kept_values "sql_op hash" for hash
  by unfold_locales
     (simp_all add: sql_value_kept, auto simp: sql_secret_def sql_secret_select_def sql_putKV_def)

interpretation document_kv: kept_values "doc_run hash" for hash
  by unfold_locales
     (simp_all add: doc_value_kept, auto simp: doc_run_def apply_outcome_def doc_secret_def doc_putKV_def split: if_splits)

section \<open>A run of the door\<close>

text \<open>
  What changes the state of a door: a request that asks who it is from, a session that slides on, a logout of the
  others, a try at the password, and whatever else the hub does to its state. Every event has its time.
\<close>

datatype door_event = Visit request | Slide request | LogoutOthers request | Try string | Store hub_op

fun door_step :: "door \<Rightarrow> int \<times> door_event \<Rightarrow> door_state \<Rightarrow> door_state" where
  "door_step dr (now, Visit r) st = snd (user_of dr r now st)"
| "door_step dr (now, Slide r) st = snd (renewSession dr r now st)"
| "door_step dr (now, LogoutOthers r) st = snd (handleLogoutOthers dr r now st)"
| "door_step dr (now, Try pw) st = snd (handleBreakGlass dr pw now st)"
| "door_step dr (now, Store op) st = st\<lparr>ds_store := fst (dr_run dr op (ds_store st))\<rparr>"

definition door_run :: "door \<Rightarrow> (int \<times> door_event) list \<Rightarrow> door_state \<Rightarrow> door_state" where
  "door_run dr es st = fold (door_step dr) es st"

lemma door_run_simps [simp]:
  "door_run dr [] st = st" "door_run dr (e # es) st = door_run dr es (door_step dr e st)"
  by (simp_all add: door_run_def)

text \<open>Events in the order of time, of which only logouts, here or on another replica, write the cut-off.\<close>

fun proper :: "int \<times> door_event \<Rightarrow> bool" where
  "proper (now, Store (PutKV k v)) = (k = notBeforeKey \<longrightarrow> v = itoa (unix now))"
| "proper _ = True"

definition history :: "int \<Rightarrow> (int \<times> door_event) list \<Rightarrow> int \<Rightarrow> bool" where
  "history t es now \<longleftrightarrow> sorted (t # map fst es @ [now]) \<and> list_all proper es"

text \<open>
  Sessions from before c are void: the state says so, and the copy of it does, or is not from after t.
\<close>

definition cut_at :: "int \<Rightarrow> int \<Rightarrow> door_state \<Rightarrow> bool" where
  "cut_at c t st \<longleftrightarrow>
     (\<exists>v. sd_kv (ds_store st) notBeforeKey = Some v \<and> c \<le> atoi v)
     \<and> (c \<le> ds_nb_val st \<or> (case ds_nb_read st of None \<Rightarrow> True | Some u \<Rightarrow> u \<le> t))"

lemma atoi_itoa: "0 \<le> i \<Longrightarrow> i < 2 ^ 63 \<Longrightarrow> atoi (itoa i) = i"
  using is_digit_not_sign[OF hd_nat_digits[of "nat i"]]
  by (simp add: atoi_def itoa_def Let_def)

lemma unix_mono: "a \<le> b \<Longrightarrow> unix a \<le> unix b"
  by (simp add: unix_def second_def zdiv_mono1)

text \<open>A step keeps a cut-off, and a copy that knows of it goes on to.\<close>

definition cut_kept :: "int \<Rightarrow> int \<Rightarrow> door_state \<Rightarrow> door_state \<Rightarrow> bool" where
  "cut_kept c t st st' \<longleftrightarrow> cut_at c t st' \<and> (c \<le> ds_nb_val st \<longrightarrow> c \<le> ds_nb_val st')"

context kept_values
begin

lemma notBefore_cut:
  assumes "dr_run dr = run" "cut_at c t st" "notBefore dr now st = (nb, st')" "t \<le> now"
  shows "cut_kept c t st st'" "c \<le> ds_nb_val st \<or> t + notBeforeCache \<le> now \<Longrightarrow> c \<le> nb"
proof -
  obtain v where v: "sd_kv (ds_store st) notBeforeKey = Some v" "c \<le> atoi v"
    using assms(2) by (auto simp: cut_at_def)
  show "cut_kept c t st st'"
    using assms(2,3) v secret_found[OF v(1)] by (auto simp: notBefore_def assms(1) cut_at_def cut_kept_def split: if_splits)
  assume "c \<le> ds_nb_val st \<or> t + notBeforeCache \<le> now"
  then show "c \<le> nb"
    using assms(2,3) v secret_found[OF v(1)]
    by (auto simp: notBefore_def assms(1) cut_at_def split: if_splits option.splits)
qed

lemma session_cut:
  assumes "dr_run dr = run" "cut_at c t st" "session_of dr r now st = (sc, st')" "t \<le> now"
  shows "cut_kept c t st st'"
    "sc = Some x \<Longrightarrow> c \<le> ds_nb_val st \<or> t + notBeforeCache \<le> now \<Longrightarrow> c \<le> sc_iat x"
  using assms(2,3) notBefore_cut[OF assms(1,2) _ assms(4)]
  by (fastforce simp: session_of_def cut_kept_def split: option.splits if_splits prod.splits)+

lemma user_cut:
  assumes "dr_run dr = run" "cut_at c t st" "t \<le> now"
  shows "cut_kept c t st (snd (user_of dr r now st))"
  using session_cut(1)[OF assms(1,2) _ assms(3), of r] assms(2)
  by (auto simp: user_of_def Let_def cut_kept_def split: option.splits prod.splits if_splits)

lemma renew_cut:
  assumes "dr_run dr = run" "cut_at c t st" "t \<le> now"
  shows "cut_kept c t st (snd (renewSession dr r now st))"
  using session_cut(1)[OF assms(1,2) _ assms(3), of r] assms(2)
  by (auto simp: renewSession_def Let_def cut_kept_def split: option.splits prod.splits if_splits)

lemma store_cut:
  assumes "dr_run dr = run" "cut_at c t st" "c \<le> unix now" "0 \<le> unix now" "unix now < 2 ^ 63" "proper (now, Store op)"
  shows "cut_kept c t st (st\<lparr>ds_store := fst (run op (ds_store st))\<rparr>)"
proof -
  obtain v where v: "sd_kv (ds_store st) notBeforeKey = Some v" "c \<le> atoi v"
    using assms(2) by (auto simp: cut_at_def)
  have "\<exists>v. sd_kv (fst (run op (ds_store st))) notBeforeKey = Some v \<and> c \<le> atoi v"
  proof (cases "\<exists>v'. op = PutKV notBeforeKey v'")
    case True
    then have op: "op = PutKV notBeforeKey (itoa (unix now))" using assms(6) by auto
    obtain d' a where "run op (ds_store st) = (d', a)" by (cases "run op (ds_store st)")
    then show ?thesis
      using v value_put[of notBeforeKey "itoa (unix now)" "ds_store st" d'] atoi_itoa[OF assms(4,5)] assms(3)
      by (cases a) (auto simp: op dest: put_refused)
  next
    case False
    then show ?thesis using value_kept[OF v(1), of op] v(2) by auto
  qed
  then show ?thesis using assms(2) by (simp add: cut_at_def cut_kept_def)
qed

lemma logout_cut:
  assumes "dr_run dr = run" "cut_at c t st" "t \<le> now" "c \<le> unix now" "0 \<le> unix now" "unix now < 2 ^ 63"
  shows "cut_kept c t st (snd (handleLogoutOthers dr r now st))"
proof -
  obtain sc st1 where s: "session_of dr r now st = (sc, st1)" by (cases "session_of dr r now st")
  have one: "cut_kept c t st st1" using session_cut(1)[OF assms(1,2) s assms(3)] .
  show ?thesis
  proof (cases sc)
    case None
    then show ?thesis using one s by (simp add: handleLogoutOthers_def)
  next
    case (Some x)
    obtain d a where put: "run (PutKV notBeforeKey (itoa (unix now))) (ds_store st1) = (d, a)"
      by (cases "run (PutKV notBeforeKey (itoa (unix now))) (ds_store st1)")
    have "cut_at c t st1" using one by (simp add: cut_kept_def)
    from store_cut[OF assms(1) this assms(4-6), of "PutKV notBeforeKey (itoa (unix now))"]
    have "cut_kept c t st1 (st1\<lparr>ds_store := d\<rparr>)" by (simp add: put)
    then show ?thesis
      using one s Some put assms(4) by (cases a) (auto simp: handleLogoutOthers_def assms(1) cut_kept_def cut_at_def)
  qed
qed

lemma step_cut:
  assumes "dr_run dr = run" "cut_at c t st" "t \<le> fst e" "c \<le> unix (fst e)" "0 \<le> unix (fst e)" "unix (fst e) < 2 ^ 63" "proper e"
  shows "cut_kept c t st (door_step dr e st)"
proof (cases e)
  case (Pair now ev)
  then show ?thesis
  proof (cases ev)
    case (Try pw)
    then show ?thesis using Pair assms(2)
      by (auto simp: handleBreakGlass_def breakGlassCheck_def cut_kept_def cut_at_def Let_def split: prod.splits glass.splits if_splits)
  qed (use assms in \<open>simp_all add: user_cut renew_cut logout_cut store_cut\<close>)
qed

lemma run_cut:
  assumes "dr_run dr = run" "cut_at (unix t) t st" "history t es now" "0 \<le> t" "unix now < 2 ^ 63"
  shows "cut_kept (unix t) t st (door_run dr es st)"
  using assms(2,3)
proof (induction es arbitrary: st)
  case Nil
  then show ?case by (simp add: cut_kept_def)
next
  case (Cons e es)
  have "t \<le> fst e" "fst e \<le> now" "proper e" "history t es now" using Cons.prems(2) by (auto simp: history_def)
  then have "0 \<le> unix (fst e)" "unix (fst e) < 2 ^ 63" "unix t \<le> unix (fst e)"
    using unix_mono[of 0 "fst e"] unix_mono[of "fst e" now] unix_mono[of t "fst e"] assms(4,5) by (simp_all add: unix_def second_def)
  then have step: "cut_kept (unix t) t st (door_step dr e st)"
    using step_cut[OF assms(1) Cons.prems(1)] \<open>t \<le> fst e\<close> \<open>proper e\<close> by blast
  then have "cut_at (unix t) t (door_step dr e st)" by (simp add: cut_kept_def)
  from Cons.IH[OF this \<open>history t es now\<close>] step show ?case by (simp add: cut_kept_def)
qed

lemma logout_cuts:
  assumes "dr_run dr = run" "handleLogoutOthers dr r t st = (NewCookie c, st')" "0 \<le> t" "unix t < 2 ^ 63"
  shows "cut_at (unix t) t st' \<and> unix t \<le> ds_nb_val st'"
proof -
  have "0 \<le> unix t" using unix_mono[of 0 t] assms(3) by (simp add: unix_def)
  then show ?thesis
    using assms(2) atoi_itoa[of "unix t"] assms(4)
    by (auto simp: handleLogoutOthers_def assms(1) cut_at_def dest!: value_put split: option.splits prod.splits sum.splits)
qed

text \<open>The replica of the logout knows at once, any other that shares its state once its copy is five seconds old.\<close>

lemma logged_out:
  assumes "dr_run dr = run" "handleLogoutOthers dr r t st = (NewCookie c, st1)" "0 \<le> t" "unix now < 2 ^ 63"
    "st2 = st1 \<or> ds_store st2 = ds_store st1 \<and> (\<forall>u. ds_nb_read st2 = Some u \<longrightarrow> u \<le> t) \<and> t + notBeforeCache \<le> now"
    "history t es now" "cookie_claims dr r' = Some sc" "sc_iat sc < unix t"
  shows "fst (session_of dr r' now (door_run dr es st2)) = None"
proof (rule ccontr)
  assume "fst (session_of dr r' now (door_run dr es st2)) \<noteq> None"
  then obtain x st3 where x: "session_of dr r' now (door_run dr es st2) = (Some x, st3)"
    by (cases "session_of dr r' now (door_run dr es st2)") auto
  have tn: "t \<le> now" using assms(6) by (simp add: history_def)
  have first: "cut_at (unix t) t st1" "unix t \<le> ds_nb_val st1"
    using logout_cuts[OF assms(1-3)] unix_mono[OF tn] assms(4) by simp_all
  then have two: "cut_at (unix t) t st2" using assms(5) by (auto simp: cut_at_def split: option.splits)
  have kept: "cut_kept (unix t) t st2 (door_run dr es st2)" by (rule run_cut[OF assms(1) two assms(6,3,4)])
  then have "unix t \<le> ds_nb_val (door_run dr es st2) \<or> t + notBeforeCache \<le> now"
    using assms(5) first(2) by (auto simp: cut_kept_def)
  then have "unix t \<le> sc_iat x" using session_cut(2)[OF assms(1) _ x tn refl] kept by (simp add: cut_kept_def)
  moreover have "x = sc" using x assms(7) by (auto simp: session_of_def split: if_splits prod.splits)
  ultimately show False using assms(8) by simp
qed

end

section \<open>Break glass\<close>

text \<open>The tries at the password with their time and what came of them.\<close>

fun tries :: "door \<Rightarrow> (int \<times> door_event) list \<Rightarrow> door_state \<Rightarrow> (int \<times> glass) list" where
  "tries dr [] st = []"
| "tries dr ((now, Try pw) # es) st =
     (now, fst (breakGlassCheck dr pw now st)) # tries dr es (door_step dr (now, Try pw) st)"
| "tries dr (e # es) st = tries dr es (door_step dr e st)"

text \<open>The wrong passwords of the ten minutes up to now.\<close>

definition recent :: "int \<Rightarrow> (int \<times> glass) list \<Rightarrow> (int \<times> glass) list" where
  "recent now ts = filter (\<lambda>(u, g). g = WrongPassword \<and> now - u < breakGlassWin) ts"

lemma notBefore_fails: "notBefore dr now st = (nb, st') \<Longrightarrow> ds_fails st' = ds_fails st"
  by (auto simp: notBefore_def split: if_splits prod.splits sum.splits answer.splits)

lemma session_fails: "session_of dr r now st = (sc, st') \<Longrightarrow> ds_fails st' = ds_fails st"
  by (auto simp: session_of_def dest: notBefore_fails split: option.splits if_splits prod.splits)

lemma other_fails:
  "ds_fails (snd (user_of dr r now st)) = ds_fails st"
  "ds_fails (snd (renewSession dr r now st)) = ds_fails st"
  "ds_fails (snd (handleLogoutOthers dr r now st)) = ds_fails st"
proof -
  obtain sc st' where s: "session_of dr r now st = (sc, st')" by (cases "session_of dr r now st")
  note same = session_fails[OF s]
  show "ds_fails (snd (user_of dr r now st)) = ds_fails st" "ds_fails (snd (renewSession dr r now st)) = ds_fails st"
    using s same by (simp_all add: user_of_def renewSession_def Let_def split: option.split)
  show "ds_fails (snd (handleLogoutOthers dr r now st)) = ds_fails st"
    using s same by (simp add: handleLogoutOthers_def split: option.split prod.split sum.split)
qed

lemma try_fails:
  "ds_fails (snd (handleBreakGlass dr pw now st)) =
     filter (\<lambda>u. now - u < breakGlassWin) (ds_fails st)
     @ (if fst (breakGlassCheck dr pw now st) = WrongPassword then [now] else [])"
  by (auto simp: handleBreakGlass_def breakGlassCheck_def Let_def split: prod.splits glass.splits if_splits)

text \<open>What a replica remembers of the failures is enough for any later moment.\<close>

lemma fails_recent:
  assumes "sorted (map fst es @ [now])"
  shows "filter (\<lambda>u. now - u < breakGlassWin) (ds_fails (door_run dr es st)) =
    filter (\<lambda>u. now - u < breakGlassWin) (ds_fails st) @ map fst (recent now (tries dr es st))"
  using assms
proof (induction es arbitrary: st)
  case Nil
  then show ?case by (simp add: recent_def)
next
  case (Cons e es)
  obtain t ev where e: "e = (t, ev)" by (cases e)
  have t: "t \<le> now" and rest: "sorted (map fst es @ [now])" using Cons.prems by (auto simp: e sorted_append)
  have older: "filter (\<lambda>u. t - u < breakGlassWin \<and> now - u < breakGlassWin) us = filter (\<lambda>u. now - u < breakGlassWin) us" for us
    by (rule filter_cong[OF refl]) (use t in auto)
  show ?case
  proof (cases ev)
    case (Try pw)
    show ?thesis
      unfolding e Try using Cons.IH[OF rest, of "door_step dr (t, Try pw) st"]
      by (simp add: try_fails recent_def older)
  qed (use Cons.IH[OF rest, of "door_step dr e st"] in \<open>simp_all add: e other_fails\<close>)
qed

lemma check_is_window:
  assumes "sorted (map fst es @ [now])" "ds_fails st = []"
  shows "fst (breakGlassCheck dr pw now (door_run dr es st)) =
    (if breakGlassMax \<le> length (recent now (tries dr es st)) then Locked
     else if dr_hash dr pw = dr_hash dr (ac_break_glass (dr_cfg dr)) then Opened_glass else WrongPassword)"
  using fails_recent[OF assms(1), of dr st] assms(2) by (simp add: breakGlassCheck_def Let_def)

lemma tries_snoc:
  "tries dr (es @ [(now, ev)]) st =
    tries dr es st @ (case ev of Try pw \<Rightarrow> [(now, fst (breakGlassCheck dr pw now (door_run dr es st)))] | _ \<Rightarrow> [])"
proof (induction es arbitrary: st)
  case Nil
  then show ?case by (cases ev) simp_all
next
  case (Cons e es)
  obtain t ev' where "e = (t, ev')" by (cases e)
  then show ?case using Cons[of "door_step dr e st"] by (cases ev'; cases ev) simp_all
qed

text \<open>Any ten minutes, not only those before a try.\<close>

lemma few_guesses:
  assumes "sorted (map fst es)" "ds_fails st = []"
  shows "length (filter (\<lambda>(u, g). g = WrongPassword \<and> t - breakGlassWin < u \<and> u \<le> t) (tries dr es st)) \<le> breakGlassMax"
  using assms(1)
proof (induction es rule: rev_induct)
  case Nil
  then show ?case by simp
next
  case (snoc e es)
  obtain now ev where e: "e = (now, ev)" by (cases e)
  have s: "sorted (map fst es @ [now])" "sorted (map fst es)" using snoc.prems by (simp_all add: e sorted_append)
  note IH = snoc.IH[OF s(2)]
  show ?case
  proof (cases "\<exists>pw. ev = Try pw \<and> fst (breakGlassCheck dr pw now (door_run dr es st)) = WrongPassword \<and> t - breakGlassWin < now \<and> now \<le> t")
    case False
    then show ?thesis using IH by (cases ev) (auto simp: e tries_snoc)
  next
    case True
    then obtain pw where ev: "ev = Try pw" "fst (breakGlassCheck dr pw now (door_run dr es st)) = WrongPassword" "now \<le> t" by blast
    then have few: "length (recent now (tries dr es st)) < breakGlassMax"
      using check_is_window[OF s(1) assms(2), of dr pw] by (auto split: if_splits)
    let ?in = "\<lambda>(u, g). g = WrongPassword \<and> t - breakGlassWin < u \<and> u \<le> t"
    have "filter ?in (tries dr es st) = filter ?in (recent now (tries dr es st))"
      unfolding recent_def filter_filter by (rule filter_cong[OF refl]) (use ev(3) in auto)
    then have "length (filter ?in (tries dr es st)) < breakGlassMax"
      using le_less_trans[OF length_filter_le few] by simp
    then show ?thesis using ev by (simp add: e tries_snoc)
  qed
qed

section \<open>The gate\<close>

lemma user_served: "requireUser dr page r now st = (Served r', st') \<Longrightarrow> r' = r \<and> (\<exists>u. user_of dr r now st = (Some u, st'))"
  by (auto simp: requireUser_def split: prod.splits option.splits if_splits)

lemma query_get_set: "query_get k (query_set k v r) = v"
  by (auto simp: query_get_def query_set_def map_of_append map_add_def map_of_eq_None_iff split: option.split)
     (auto simp: map_of_eq_None_iff dest!: map_of_SomeD)

lemma query_get_other: "k \<noteq> k' \<Longrightarrow> query_get k (query_set k' v r) = query_get k r"
proof -
  assume "k \<noteq> k'"
  then have "map_of (filter (\<lambda>(j, _). j \<noteq> k') xs @ [(k', v)]) k = map_of xs k" for xs :: "(string \<times> string) list"
    by (induction xs) auto
  then show ?thesis by (simp add: query_get_def query_set_def)
qed

lemma without_cookies [simp]:
  "rq_path (without_cookies r) = rq_path r" "rq_method (without_cookies r) = rq_method r" "rq_cookie (without_cookies r) k = None"
  "query_get k (without_cookies r) = query_get k r"
  by (simp_all add: without_cookies_def query_get_def)

lemma query_set [simp]: "rq_path (query_set k v r) = rq_path r" "rq_method (query_set k v r) = rq_method r"
  by (simp_all add: query_set_def)

text \<open>A size a transcript may be asked for: none, or at most a megabyte.\<close>

definition size_ok :: "string \<Rightarrow> bool" where
  "size_ok b \<longleftrightarrow> b = [] \<or> (case parse_int64 b of None \<Rightarrow> False | Some n \<Rightarrow> 0 < n \<and> n \<le> maxReadTranscriptBytes)"

lemma max_size_ok: "size_ok (itoa maxReadTranscriptBytes)"
  by (simp add: size_ok_def parse_int64_itoa maxReadTranscriptBytes_def)

definition read_only :: "request \<Rightarrow> bool" where
  "read_only r \<longleftrightarrow>
     rq_method r = ''GET'' \<and> list_ex (\<lambda>ps. matches ps (rq_path r)) readTokenRoutes
     \<and> (matches readTranscriptRoute (rq_path r) \<longrightarrow> query_get ''mode'' r \<in> {[], ''tail'', ''stat''} \<and> size_ok (query_get ''bytes'' r))"

lemma size_bad: "(b \<noteq> [] \<and> (case parse_int64 b of None \<Rightarrow> True | Some n \<Rightarrow> n \<le> 0 \<or> maxReadTranscriptBytes < n)) \<longleftrightarrow> \<not> size_ok b"
  by (auto simp: size_ok_def split: option.split)

lemma read_allowed:
  assumes "readTokenAllowed r = Some r'"
  shows "read_only r' \<and> rq_path r' = rq_path r \<and> rq_method r' = rq_method r"
proof -
  have r: "rq_method r = ''GET''" "list_ex (\<lambda>ps. matches ps (rq_path r)) readTokenRoutes"
    using assms unfolding readTokenAllowed_def by (meson option.distinct(1))+
  show ?thesis
  proof (cases "matches readTranscriptRoute (rq_path r)")
    case False
    then show ?thesis using assms r by (simp add: readTokenAllowed_def read_only_def)
  next
    case True
    then have "query_get ''mode'' r \<in> {[], ''tail'', ''stat''}" "r' = (if size_ok (query_get ''bytes'' r) then r else query_set ''bytes'' (itoa maxReadTranscriptBytes) r)"
      using assms r unfolding readTokenAllowed_def Let_def size_bad by (simp_all split: if_splits)
    then show ?thesis using r max_size_ok by (auto simp: read_only_def query_get_set query_get_other)
  qed
qed

text \<open>What a peer never asks a device: to decide, to type or to show a terminal, to change settings, to wait on a
  session, to import or sync tasks, to hand out a file.\<close>

definition never_for_peers :: "(string \<times> seg list) list" where
  "never_for_peers =
     [(''POST'', [Named [''approvals''], Anything, Named [''decide'']]),
      (''POST'', [Named [''pty''], Anything, Named [''input'']]),
      (''GET'', [Named [''pty''], Anything, Named [''stream'']]),
      (''POST'', [Named [''api''], Named [''settings'']]),
      (''GET'', [Named [''api''], Named [''settings'']]),
      (''POST'', [Named [''api''], Named [''sessions''], Anything, Named [''wait'']]),
      (''POST'', [Named [''api''], Named [''tasks''], Named [''sync'']]),
      (''POST'', [Named [''api''], Named [''tasks''], Named [''import'']]),
      (''GET'', [Named [''hub''], Named [''file'']])]"

definition peer_request :: "request \<Rightarrow> string \<Rightarrow> bool" where
  "peer_request r access \<longleftrightarrow>
     access \<noteq> peerOff
     \<and> (rq_method r = ''GET'' \<and> rq_path r = ''/api/devices''
        \<or> (case peerProxyPath (rq_path r) of
             None \<Rightarrow> False
           | Some (i, rest) \<Rightarrow>
               i \<noteq> [] \<and> (rq_method r = ''GET'' \<or> access = peerControl)
               \<and> (\<forall>(m, ps) \<in> set never_for_peers. rq_method r = m \<longrightarrow> \<not> matches ps rest)))"

lemma routes_write: "rt \<in> set peerDeviceRoutes \<Longrightarrow> pr_write rt \<longleftrightarrow> pr_method rt \<noteq> ''GET''"
  by (auto simp: peerDeviceRoutes_def)

lemma matches_Cons:
  "matches ps p \<longleftrightarrow> (\<exists>ss. split_byte (CHR ''/'') p = [] # ss \<and> list_all2 seg_ok ps ss)"
  by (auto simp: matches_def split: list.split)

text \<open>Two expressions that some path fits.\<close>

fun seg_meet :: "seg \<Rightarrow> seg \<Rightarrow> bool" where
  "seg_meet (Named ns) g = list_ex (seg_ok g) ns"
| "seg_meet g (Named ns) = list_ex (seg_ok g) ns"
| "seg_meet _ _ = True"

lemma seg_meets: "seg_ok f s \<Longrightarrow> seg_ok g s \<Longrightarrow> seg_meet f g"
  by (cases f; cases g) (auto simp: list_ex_iff)

lemma matches_meet: "matches ps p \<Longrightarrow> matches qs p \<Longrightarrow> list_all2 seg_meet ps qs"
proof -
  have "list_all2 seg_ok ps ss \<Longrightarrow> list_all2 seg_ok qs ss \<Longrightarrow> list_all2 seg_meet ps qs" for ss
    by (induction ss arbitrary: ps qs) (auto simp: list_all2_Cons2 seg_meets)
  then show "matches ps p \<Longrightarrow> matches qs p \<Longrightarrow> list_all2 seg_meet ps qs" by (auto simp: matches_Cons)
qed

lemma routes_apart:
  "list_all (\<lambda>rt. list_all (\<lambda>(m, ps). \<not> (pr_method rt = m \<and> list_all2 seg_meet (pr_path rt) ps)) never_for_peers) peerDeviceRoutes"
  by (simp add: peerDeviceRoutes_def never_for_peers_def is_digit_def byte_in_def)

lemma routes_never:
  assumes "rt \<in> set peerDeviceRoutes" "(m, ps) \<in> set never_for_peers" "pr_method rt = m" "matches (pr_path rt) p"
  shows "\<not> matches ps p"
  using routes_apart matches_meet[OF assms(4), of ps] assms(1-3) by (fastforce simp: list_all_iff)

lemma peer_allowed: "peerAllowed r access \<Longrightarrow> rq_path r \<noteq> ''/api/peer/self'' \<Longrightarrow> peer_request r access"
proof -
  assume a: "peerAllowed r access" and p: "rq_path r \<noteq> ''/api/peer/self''"
  show ?thesis
  proof (cases "rq_method r = ''GET'' \<and> rq_path r = ''/api/devices''")
    case True
    then show ?thesis using a by (simp add: peer_request_def peerAllowed_def)
  next
    case False
    then obtain i rest rt where
      rest: "peerProxyPath (rq_path r) = Some (i, rest)" and
      rt: "find (\<lambda>rt. pr_method rt = rq_method r \<and> matches (pr_path rt) rest) peerDeviceRoutes = Some rt"
        "pr_write rt \<longrightarrow> access = peerControl"
      using a p by (auto simp: peerAllowed_def split: option.splits)
    from rt(1) have in_rt: "rt \<in> set peerDeviceRoutes" "pr_method rt = rq_method r" "matches (pr_path rt) rest"
      by (auto simp: find_Some_iff)
    have "i \<noteq> []" using rest by (auto simp: peerProxyPath_def split: if_splits option.splits)
    moreover have "\<not> matches ps rest" if "(m, ps) \<in> set never_for_peers" "rq_method r = m" for m ps
      using routes_never[OF in_rt(1) that(1) _ in_rt(3)] that(2) in_rt(2) by simp
    ultimately show ?thesis
      using a rest rt(2) routes_write[OF in_rt(1)] in_rt(2) by (auto simp: peer_request_def peerAllowed_def)
  qed
qed

section \<open>Properties\<close>

definition oidc :: "auth_config \<Rightarrow> bool" where
  "oidc cfg \<longleftrightarrow> ac_local cfg = None \<and> \<not> ac_no_auth cfg \<and> \<not> ac_tailscale cfg"

text \<open>C37. What gets through the gate of the API is what its sender may do: a request passed on unchanged is that of
  a user; any other is without its cookies and carries a bearer token that is either a read token,
  for a GET of the five routes with a bounded transcript, or the token of a device with peer access, for
  the device list or a device, where only control may do more than read and nothing reaches approvals,
  typing, terminals or settings.
\<close>

theorem what_gets_through:
  assumes "apiAuth dr r now st = (Served r', st')"
  shows "rq_path r' = rq_path r \<and> rq_method r' = rq_method r
    \<and> ((\<exists>u. user_of dr r now st = (Some u, st') \<and> r' = r)
       \<or> (\<forall>k. rq_cookie r' k = None) \<and> st' = st
         \<and> (\<exists>tok. bearerToken r = Some tok
             \<and> (dr_hash dr tok \<in> set (dr_read_tokens dr) \<and> read_only r'
                \<or> (\<exists>d \<in> set (sd_devices (ds_store st)). de_token_hash d = dr_hash dr tok \<and> peer_request r (de_peer_access d)))))"
proof (cases "bearerToken r")
  case None
  then show ?thesis using assms user_served[of dr False r now st r' st'] by (auto simp: apiAuth_def)
next
  case (Some tok)
  show ?thesis
  proof (cases "ac_local (dr_cfg dr) = None \<and> take 5 tok = deviceTokenPrefix")
    case True
    then have peer: "servePeer dr tok r st = Served r'" and st: "st' = st" using assms Some by (auto simp: apiAuth_def)
    then obtain d where d: "deviceByHash (dr_hash dr tok) (ds_store st) = Some d"
      by (cases "deviceByHash (dr_hash dr tok) (ds_store st)") (simp_all add: servePeer_def)
    have p: "peerAllowed r (de_peer_access d)" "rq_path r \<noteq> ''/api/peer/self''" "r' = without_cookies r"
      using peer unfolding servePeer_def d by (simp_all split: if_splits)
    have "d \<in> set (sd_devices (ds_store st))" "de_token_hash d = dr_hash dr tok"
      using d unfolding deviceByHash_def by (metis (mono_tags, lifting) find_Some_iff nth_mem)+
    moreover have "peer_request r (de_peer_access d)" using peer_allowed[OF p(1,2)] .
    ultimately show ?thesis using p(3) st Some by simp blast
  next
    case other: False
    show ?thesis
    proof (cases "dr_read_tokens dr = []")
      case True
      then show ?thesis using assms Some other user_served[of dr False r now st r' st'] by (auto simp: apiAuth_def)
    next
      case False
      then obtain q where "readTokenOK dr tok" "readTokenAllowed r = Some q" "r' = without_cookies q" "st' = st"
        using assms Some other by (auto simp: apiAuth_def split: option.splits if_splits)
      then show ?thesis using Some read_allowed[of r q]
        by (auto simp: readTokenOK_def list_ex_iff read_only_def)
    qed
  qed
qed

definition sample_door :: door where
  "sample_door =
     \<lparr>dr_out = \<lparr>out_patterns = id,
        out_decode = (\<lambda>s. if s = ''c'' then Some (claims_json \<lparr>sc_email = ''a@b'', sc_exp = 2000, sc_iat = 5, sc_break_glass = False\<rparr>) else None),
        out_encode = (\<lambda>_. ''c''), out_git = (\<lambda>_. \<lparr>gi_repo = [], gi_branch = [], gi_commit = []\<rparr>)\<rparr>,
      dr_mac = (\<lambda>_ _. ''m''), dr_hash = id, dr_key = ''k'',
      dr_cfg = \<lparr>ac_allowed = [''a@b''], ac_no_auth = False, ac_tailscale = False, ac_break_glass = ''open sesame'', ac_session_ttl = 0,
        ac_local = None\<rparr>,
      dr_read_tokens = [''t''], dr_run = sql_op id\<rparr>"

definition sample_door_state :: door_state where
  "sample_door_state = \<lparr>ds_nb_val = 0, ds_nb_read = None, ds_fails = [], ds_login_token = [], ds_store = empty_doc\<rparr>"

definition board_request :: request where
  "board_request = \<lparr>rq_method = ''GET'', rq_path = ''/api/board'', rq_query = [], rq_header = (\<lambda>h. if h = ''Authorization'' then ''Bearer t'' else []),
     rq_cookie = (\<lambda>_. Some ''x'')\<rparr>"

lemma board_served: "apiAuth sample_door board_request 0 sample_door_state = (Served (without_cookies board_request), sample_door_state)"
  by (simp add: apiAuth_def bearerToken_def board_request_def sample_door_def equal_fold_def trim_space_def trim_left_def trim_right_def lower_byte_def
    readTokenOK_def readTokenAllowed_def readTokenRoutes_def readTranscriptRoute_def matches_def deviceTokenPrefix_def without_cookies_def
    is_space1_def is_space2_def is_space3_def)

theorem what_gets_through_witness:
  "rq_path (without_cookies board_request) = ''/api/board'' \<and> read_only (without_cookies board_request)"
proof -
  have "rq_cookie (without_cookies board_request) [] \<noteq> rq_cookie board_request []" by (simp add: board_request_def)
  then have "without_cookies board_request \<noteq> board_request" by metis
  moreover have "sd_devices (ds_store sample_door_state) = []" "rq_path board_request = ''/api/board''"
    by (simp_all add: sample_door_state_def empty_doc_def board_request_def)
  ultimately show ?thesis using what_gets_through[OF board_served] by auto
qed


text \<open>A session of the same second is not refused.\<close>

lemma same_second_survives:
  assumes "dr_run dr = sql_op hash" "handleLogoutOthers dr r t st = (NewCookie c, st')" "0 \<le> t" "unix t < 2 ^ 63"
    "cookie_claims dr r' = Some sc" "sc_iat sc = unix t" "unix t \<le> sc_exp sc"
  shows "fst (session_of dr r' t st') = Some sc"
proof -
  have "ds_nb_val st' = unix t" "ds_nb_read st' = Some t"
    using assms(2) by (auto simp: handleLogoutOthers_def split: option.splits prod.splits sum.splits)
  then show ?thesis using assms(5-7) by (simp add: session_of_def notBefore_def notBeforeCache_def second_def)
qed

definition old_login :: request where
  "old_login = \<lparr>rq_method = ''GET'', rq_path = ''/api/board'', rq_query = [], rq_header = (\<lambda>_. []), 
     rq_cookie = (\<lambda>_. Some (sign_cookie (dr_out sample_door) (dr_mac sample_door) (dr_key sample_door) JNull))\<rparr>"

lemma old_claims: "cookie_claims sample_door old_login = Some \<lparr>sc_email = ''a@b'', sc_exp = 2000, sc_iat = 5, sc_break_glass = False\<rparr>"
proof -
  let ?out = "dr_out sample_door"
  have "out_decode ?out (out_encode ?out JNull) = Some (claims_json \<lparr>sc_email = ''a@b'', sc_exp = 2000, sc_iat = 5, sc_break_glass = False\<rparr>)"
    by (simp add: sample_door_def)
  then show ?thesis by (simp add: cookie_claims_def old_login_def open_sign read_claims_json in_int64_def)
qed

lemma old_logout:
  "\<exists>c st1. handleLogoutOthers sample_door old_login (10 * second) sample_door_state = (NewCookie c, st1)"
proof -
  have run: "dr_run sample_door = sql_op id" by (simp add: sample_door_def)
  have "session_of sample_door old_login (10 * second) sample_door_state =
    (Some \<lparr>sc_email = ''a@b'', sc_exp = 2000, sc_iat = 5, sc_break_glass = False\<rparr>,
     sample_door_state\<lparr>ds_store := empty_doc\<lparr>sd_kv := [notBeforeKey \<mapsto> ''0'']\<rparr>, ds_nb_val := 0, ds_nb_read := Some (10 * second)\<rparr>)"
    by (simp add: session_of_def old_claims unix_def second_def notBefore_def sample_door_state_def run sql_secret_def sql_secret_insert_def
        sql_secret_select_def empty_doc_def atoi_def parse_nat_def digits_val_def is_digit_def byte_in_def digit_val_def)
  then show ?thesis by (simp add: handleLogoutOthers_def run sql_putKV_def)
qed


text \<open>C39. Break glass lets at most five wrong passwords be tried in any ten minutes, and answers by the window that
  has just passed: locked after five failures in it, else by the password alone.
\<close>

theorem break_glass_guesses:
  assumes "sorted (map fst es @ [now])" "ds_fails st = []"
  shows "length (filter (\<lambda>(u, g). g = WrongPassword \<and> t - breakGlassWin < u \<and> u \<le> t) (tries dr es st)) \<le> 5
    \<and> fst (breakGlassCheck dr pw now (door_run dr es st)) =
      (if 5 \<le> length (recent now (tries dr es st)) then Locked
       else if dr_hash dr pw = dr_hash dr (ac_break_glass (dr_cfg dr)) then Opened_glass else WrongPassword)"
  using few_guesses[of es st t dr] check_is_window[OF assms, of dr pw] assms by (simp add: sorted_append breakGlassMax_def)

theorem break_glass_guesses_witness:
  "fst (breakGlassCheck sample_door ''open sesame'' 3 (door_run sample_door [(1, Try ''friend''), (2, Try ''mellon'')] sample_door_state)) = Opened_glass"
  using break_glass_guesses[of "[(1, Try ''friend''), (2, Try ''mellon'')]" 3 sample_door_state 2 sample_door "''open sesame''"]
  by (simp add: sample_door_state_def sample_door_def handleBreakGlass_def breakGlassCheck_def recent_def breakGlassMax_def)

end
