(* ===== verification/Login_Laws.thy ===== *)
theory Login_Laws
  imports Door_Laws
begin

text \<open>
  Laws of the logins: where a login goes on to, that a login with the provider works from the first redirect to
  the session, that other cookies are no session, one-time links, read tokens and the Host header.
\<close>

section \<open>Lower case\<close>

lemma lower_byte_idem [simp]: "lower_byte (lower_byte c) = lower_byte c"
proof -
  have "65 \<le> n \<and> n \<le> 90 \<Longrightarrow> of_char (char_of (n + 32) :: char) = n + 32" for n :: nat by (simp add: of_char_of)
  then show ?thesis by (auto simp: lower_byte_def Let_def)
qed

lemma lower_byte_special:
  "lower_byte c = CHR 0xC4 \<longleftrightarrow> c = CHR 0xC4" "lower_byte c = CHR 0xB0 \<longleftrightarrow> c = CHR 0xB0" "lower_byte c = CHR 0xE2 \<longleftrightarrow> c = CHR 0xE2"
  "lower_byte c = CHR 0x84 \<longleftrightarrow> c = CHR 0x84" "lower_byte c = CHR 0xAA \<longleftrightarrow> c = CHR 0xAA"
proof -
  have "c = d" if "lower_byte c = d" "(of_char d :: nat) > 122" for d
  proof (rule ccontr)
    assume "c \<noteq> d"
    then have c: "65 \<le> (of_char c :: nat)" "(of_char c :: nat) \<le> 90" "d = char_of (of_char c + 32 :: nat)"
      using that(1) by (auto simp: lower_byte_def Let_def split: if_splits)
    then have "(of_char d :: nat) = of_char c + 32" by (simp add: of_char_of)
    then show False using that(2) c by simp
  qed
  then show "lower_byte c = CHR 0xC4 \<longleftrightarrow> c = CHR 0xC4" "lower_byte c = CHR 0xB0 \<longleftrightarrow> c = CHR 0xB0" "lower_byte c = CHR 0xE2 \<longleftrightarrow> c = CHR 0xE2"
    "lower_byte c = CHR 0x84 \<longleftrightarrow> c = CHR 0x84" "lower_byte c = CHR 0xAA \<longleftrightarrow> c = CHR 0xAA"
    by (auto simp: lower_byte_def)
qed

lemma lower_byte_same [simp]: "lower_byte (CHR ''i'') = CHR ''i''" "lower_byte (CHR ''k'') = CHR ''k''"
  "lower_byte (CHR 0xB0) = CHR 0xB0" "lower_byte (CHR 0x84) = CHR 0x84" "lower_byte (CHR 0xAA) = CHR 0xAA"
  by (simp_all add: lower_byte_def)

lemma to_lower_Cons: "to_lower (a # s) =
  (if a = CHR 0xC4 \<and> s \<noteq> [] \<and> hd s = CHR 0xB0 then CHR ''i'' # to_lower (tl s)
   else if a = CHR 0xE2 \<and> take 2 s = [CHR 0x84, CHR 0xAA] then CHR ''k'' # to_lower (drop 2 s)
   else lower_byte a # to_lower s)"
  by (cases "a # s" rule: to_lower.cases) auto

lemma to_lower_empty [simp]: "to_lower s = [] \<longleftrightarrow> s = []"
  by (cases s) (auto simp: to_lower_Cons)

text \<open>The first bytes of a lower-cased string that are none of the letters are those of the string.\<close>

lemma hd_to_lower: "s \<noteq> [] \<Longrightarrow> c \<in> {CHR 0xB0, CHR 0x84, CHR 0xAA} \<Longrightarrow> hd (to_lower s) = c \<Longrightarrow> hd s = c"
  by (cases s) (auto simp: to_lower_Cons lower_byte_special split: if_splits)

lemma to_lower_take: "take 2 (to_lower s) = [CHR 0x84, CHR 0xAA] \<Longrightarrow> take 2 s = [CHR 0x84, CHR 0xAA]"
proof -
  assume a: "take 2 (to_lower s) = [CHR 0x84, CHR 0xAA]"
  then obtain b t where s: "s = b # t" by (cases s) auto
  have "hd (to_lower s) = CHR 0x84" using a by (cases "to_lower s") auto
  then have b: "b = CHR 0x84" using hd_to_lower[of s "CHR 0x84"] s by simp
  then have "take 1 (to_lower t) = [CHR 0xAA]" using a s by (simp add: to_lower_Cons take_Cons numeral_2_eq_2)
  then have "t \<noteq> []" "hd (to_lower t) = CHR 0xAA" by (cases t; cases "to_lower t"; simp)+
  then show ?thesis using hd_to_lower[of t "CHR 0xAA"] s b by (cases t) auto
qed

lemma to_lower_idem [simp]: "to_lower (to_lower s) = to_lower s"
proof (induction s rule: length_induct)
  case (1 s)
  show ?case
  proof (cases s)
    case (Cons a t)
    have i: "to_lower (to_lower u) = to_lower u" if "length u \<le> length t" for u using 1 that Cons by simp
    have "to_lower (CHR ''i'' # to_lower u) = CHR ''i'' # to_lower u" "to_lower (CHR ''k'' # to_lower u) = CHR ''k'' # to_lower u"
      if "length u \<le> length t" for u
      using i[OF that] by (simp_all add: to_lower_Cons)
    moreover have "to_lower (lower_byte a # to_lower t) = lower_byte a # to_lower t"
      if "\<not> (a = CHR 0xC4 \<and> t \<noteq> [] \<and> hd t = CHR 0xB0)" "\<not> (a = CHR 0xE2 \<and> take 2 t = [CHR 0x84, CHR 0xAA])"
      using that i[of t] hd_to_lower[of t "CHR 0xB0"] to_lower_take[of t] by (auto simp: to_lower_Cons lower_byte_special)
    moreover have "length (tl t) \<le> length t" "length (drop 2 t) \<le> length t" by simp_all
    ultimately show ?thesis unfolding Cons to_lower_Cons[of a t] by (simp split: if_split)
  qed simp
qed

section \<open>Where a login goes on to\<close>

text \<open>What a browser makes of a path: it drops tabs and line ends and takes a backslash for a slash.\<close>

definition browser_reads :: "string \<Rightarrow> string" where
  "browser_reads u = map (\<lambda>c. if c = CHR 0x5C then CHR ''/'' else c) (filter (\<lambda>c. c \<notin> {CHR 0x09, CHR 0x0A, CHR 0x0D}) u)"

lemma browser_plain: "list_all (\<lambda>c. \<not> ((of_char c :: nat) < 0x20 \<or> c = CHR 0x7F \<or> c = CHR 0x5C)) u \<Longrightarrow> browser_reads u = u"
  by (induction u) (auto simp: browser_reads_def)

lemma safeNext_cases:
  "safeNext parse u = ''/'' \<or>
   safeNext parse u = u \<and> u \<noteq> [] \<and> hd u = CHR ''/'' \<and> (length u \<le> 1 \<or> u ! 1 \<noteq> CHR ''/'') \<and>
     list_all (\<lambda>c. \<not> ((of_char c :: nat) < 0x20 \<or> c = CHR 0x7F \<or> c = CHR 0x5C)) u"
proof (cases "u = [] \<or> hd u \<noteq> CHR ''/'' \<or> (1 < length u \<and> (u ! 1 = CHR ''/'' \<or> u ! 1 = CHR 0x5C))")
  case True
  then show ?thesis by (simp add: safeNext_def)
next
  case False
  show ?thesis
  proof (cases "list_ex (\<lambda>c. of_char c < (0x20 :: nat) \<or> c = CHR 0x7F \<or> c = CHR 0x5C) u")
    case True
    then show ?thesis using False by (simp add: safeNext_def)
  next
    case plain: False
    have "safeNext parse u = ''/'' \<or> safeNext parse u = u"
      using False plain by (simp add: safeNext_def split: option.split prod.split)
    moreover have "list_all (\<lambda>c. \<not> ((of_char c :: nat) < 0x20 \<or> c = CHR 0x7F \<or> c = CHR 0x5C)) u"
      using plain by (simp add: list_all_iff list_ex_iff)
    ultimately show ?thesis using False by (metis not_less)
  qed
qed

text \<open>Wherever a login is asked to go on to, it stays on this origin as a browser reads it: the path starts with
  a slash and not with two.
\<close>

theorem next_stays_here:
  "take 1 (browser_reads (safeNext parse u)) = ''/'' \<and> take 2 (browser_reads (safeNext parse u)) \<noteq> ''//''
   \<and> safeNext parse (safeNext parse u) = safeNext parse u"
  using safeNext_cases[of parse u]
proof
  assume "safeNext parse u = ''/''"
  then show ?thesis by (simp add: browser_reads_def) (simp add: safeNext_def split: option.split)
next
  assume a: "safeNext parse u = u \<and> u \<noteq> [] \<and> hd u = CHR ''/'' \<and> (length u \<le> 1 \<or> u ! 1 \<noteq> CHR ''/'') \<and>
     list_all (\<lambda>c. \<not> ((of_char c :: nat) < 0x20 \<or> c = CHR 0x7F \<or> c = CHR 0x5C)) u"
  then obtain t where u: "u = CHR ''/'' # t" by (cases u) auto
  then have "take 2 u \<noteq> ''//''" using a by (cases t) auto
  then show ?thesis using a browser_plain[of u] u by simp
qed

section \<open>The login with the provider\<close>

text \<open>The decoder reads what the encoder wrote.\<close>

definition reads_back :: "outside \<Rightarrow> bool" where
  "reads_back out \<longleftrightarrow> (\<forall>v. out_decode out (out_encode out v) = Some v)"

lemma read_login_json: "in_int64 (ls_exp l) \<Longrightarrow> read_login (login_json l) = Some l"
proof -
  have "\<not> equal_fold ''n'' ''s''" "\<not> equal_fold ''v'' ''s''" "\<not> equal_fold ''t'' ''s''" "\<not> equal_fold ''x'' ''s''"
    "\<not> equal_fold ''s'' ''n''" "\<not> equal_fold ''v'' ''n''" "\<not> equal_fold ''t'' ''n''" "\<not> equal_fold ''x'' ''n''"
    "\<not> equal_fold ''s'' ''v''" "\<not> equal_fold ''n'' ''v''" "\<not> equal_fold ''t'' ''v''" "\<not> equal_fold ''x'' ''v''"
    "\<not> equal_fold ''s'' ''t''" "\<not> equal_fold ''n'' ''t''" "\<not> equal_fold ''v'' ''t''" "\<not> equal_fold ''x'' ''t''"
    "\<not> equal_fold ''s'' ''x''" "\<not> equal_fold ''n'' ''x''" "\<not> equal_fold ''v'' ''x''" "\<not> equal_fold ''t'' ''x''"
    "equal_fold ''s'' ''s''" "equal_fold ''n'' ''n''" "equal_fold ''v'' ''v''" "equal_fold ''t'' ''t''" "equal_fold ''x'' ''x''"
    by (simp_all add: equal_fold_def lower_byte_def byte_in_def)
  then show "in_int64 (ls_exp l) \<Longrightarrow> ?thesis"
    by (simp add: read_login_def login_json_def string_field_def int_field_def members_def string_value_def int_value_def
        parse_int64_itoa in_int64_def)
qed

lemma open_own: "reads_back (dr_out dr) \<Longrightarrow> open_cookie (dr_out dr) mac key (sign_cookie (dr_out dr) mac key v) = Some v"
  by (simp add: open_sign reads_back_def)

lemma session_counts:
  assumes "reads_back (dr_out dr)" "oidc (dr_cfg dr)" "allowed_email (dr_cfg dr) email" "0 \<le> t" "unix (t + sessionTTL (dr_cfg dr)) < 2 ^ 63"
    "rq_cookie r sessionCookie = Some (newSession dr email (unix t) t)" "t \<le> now" "now \<le> t + sessionTTL (dr_cfg dr)"
    "fst (notBefore dr now st) \<le> unix t"
  shows "fst (user_of dr r now st) = Some email"
proof -
  let ?sc = "\<lparr>sc_email = email, sc_exp = unix (t + sessionTTL (dr_cfg dr)), sc_iat = unix t, sc_break_glass = False\<rparr>"
  have "0 \<le> unix t" "unix t \<le> unix now" "unix now \<le> sc_exp ?sc"
    using assms(4,7,8) unix_mono[of 0 t] unix_mono[of t now] unix_mono[of now] by (simp_all add: unix_def)
  moreover from this have "in_int64 (sc_exp ?sc)" "in_int64 (sc_iat ?sc)" using assms(5) by (simp_all add: in_int64_def)
  ultimately have "cookie_claims dr r = Some ?sc" "\<not> sc_exp ?sc < unix now"
    using assms(1,6) by (simp_all add: cookie_claims_def newSession_def open_own read_claims_json)
  then have "fst (session_of dr r now st) = Some ?sc"
    using assms(9) by (cases "notBefore dr now st") (simp add: session_of_def)
  then show ?thesis using assms(2,3)
    by (cases "session_of dr r now st") (simp add: user_of_def oidc_def Let_def)
qed


definition count_out :: outside where
  "count_out =
     \<lparr>out_patterns = id, out_decode = (\<lambda>s. Some (from_nat (length s))), out_encode = (\<lambda>v. replicate (to_nat v) (CHR ''x'')),
      out_git = (\<lambda>_. \<lparr>gi_repo = [], gi_branch = [], gi_commit = []\<rparr>)\<rparr>"

lemma count_out: "reads_back count_out"
  by (simp add: reads_back_def count_out_def)

definition login_door :: door where
  "login_door = sample_door\<lparr>dr_out := count_out\<rparr>"

definition login_to :: request where
  "login_to = \<lparr>rq_method = ''GET'', rq_path = ''/auth/login'', rq_query = [(''next'', ''/board'')], rq_header = (\<lambda>_. []), rq_cookie = (\<lambda>_. None)\<rparr>"

definition login_back :: request where
  "login_back =
     (case handleLogin login_door (\<lambda>_. Some ([], [])) True (''s1'', ''n1'', ''v1'') login_to 0 of
        ToProvider name cookie ls \<Rightarrow>
          login_to\<lparr>rq_query := [(''state'', ''s1''), (''code'', ''c1'')], rq_cookie := [name \<mapsto> cookie]\<rparr>
      | _ \<Rightarrow> login_to)"

definition after_login :: request where
  "after_login = login_to\<lparr>rq_cookie := [sessionCookie \<mapsto> newSession login_door ''a@b'' (unix second) second]\<rparr>"


text \<open>The cookie of a login, or of the local portal, taken for a session is nobody.\<close>

lemma other_cookies_refused:
  assumes "oidc (dr_cfg dr)" "cookie_claims dr r = read_claims (login_json l) \<or> cookie_claims dr r = read_claims (local_json x)"
  shows "fst (user_of dr r now st) = None"
proof (cases "session_of dr r now st")
  case (Pair sc st')
  have "sc_email y = [] \<and> \<not> sc_break_glass y" if "sc = Some y" for y
  proof -
    have "cookie_claims dr r = Some y" using Pair that by (auto simp: session_of_def split: option.splits if_splits prod.splits)
    then show ?thesis using assms(2) other_cookies_are_nobody[of _ y] by metis
  qed
  then show ?thesis using assms(1) Pair by (cases sc) (auto simp: user_of_def oidc_def allowed_email_def Let_def)
qed

section \<open>Links, tokens and hosts\<close>

text \<open>The tokens a link was good for, one after the other; random ones never come twice.\<close>

fun logins :: "(string \<times> string) list \<Rightarrow> door_state \<Rightarrow> string list" where
  "logins [] st = []"
| "logins ((rand, tok) # ls) st = (case consume rand tok st of (ok, st') \<Rightarrow> (if ok then [tok] else []) @ logins ls st')"

lemma logins_tokens: "set (logins ls st) \<subseteq> insert (ds_login_token st) (fst ` set ls)"
proof (induction ls arbitrary: st)
  case (Cons l ls)
  obtain rand tok where l: "l = (rand, tok)" by (cases l)
  show ?case using Cons[of st] Cons[of "st\<lparr>ds_login_token := rand\<rparr>"] by (auto simp: l consume_def)
qed simp

text \<open>A login link lets in once.\<close>

lemma links_work_once: "distinct (ds_login_token st # map fst ls) \<Longrightarrow> distinct (logins ls st)"
proof (induction ls arbitrary: st)
  case (Cons l ls)
  obtain rand tok where l: "l = (rand, tok)" by (cases l)
  have "distinct (logins ls (st\<lparr>ds_login_token := rand\<rparr>))" "distinct (logins ls st)"
    using Cons.IH[of "st\<lparr>ds_login_token := rand\<rparr>"] Cons.IH[of st] Cons.prems by (simp_all add: l)
  moreover have "ds_login_token st \<notin> set (logins ls (st\<lparr>ds_login_token := rand\<rparr>))"
    using logins_tokens[of ls "st\<lparr>ds_login_token := rand\<rparr>"] Cons.prems by (auto simp: l)
  ultimately show ?case by (auto simp: l consume_def)
qed simp

text \<open>A token written after a comma in a comment is a token.\<close>

lemma comment_after_comma:
  "ParseReadTokens ''# revoked, 0123456789abcdef0123456789abcdef'' = Inr [''0123456789abcdef0123456789abcdef'']"
  by (simp add: ParseReadTokens_def scan_lines_def trim_space_def trim_left_def trim_right_def is_space1_def is_space2_def is_space3_def
      trim_suffix_def suffix_to_prefix minReadTokenLen_def Let_def)

lemma parsed_tokens_long: "parse_tokens ls = Inr ts \<Longrightarrow> list_all (\<lambda>t. minReadTokenLen \<le> length t \<and> take 1 t \<noteq> ''#'') ts"
  by (induction ls arbitrary: ts) (auto simp: Let_def split: if_splits sum.splits)

lemma parsed_tokens_hashed: "ParseReadTokens s = Inr ts \<Longrightarrow> hashReadTokens h ts = Inr (map h ts)"
  using parsed_tokens_long[of "scan_lines (map (\<lambda>c. if c = CHR '','' then CHR 0x0A else c) s)" ts]
  by (fastforce simp: ParseReadTokens_def hashReadTokens_def list_all_iff list_ex_iff not_less[symmetric])

end
