(* ===== verification/Hub_Tunnels.thy ===== *)
theory Hub_Tunnels
  imports Hub_State "HOL-Library.AList"
begin

text \<open>
  The tunnels the devices keep to the replicas of a hub (internal/hub: hub.go and cluster.go): a device is let in by its
  token, its newest tunnel is the one that counts, and a tunnel is dropped when the device comes back elsewhere, is
  deleted or gets a new token. The registry is the token of each device (Hub_State has its operations); requests
  between replicas are messages under way. Times are nanoseconds of the clock of a replica.
\<close>

record tunnel =
  tu_device :: string
  tu_hash :: string
  tu_since :: int
  tu_open :: bool

text \<open>A request to drop a device: to whom, and for a tunnel begun before which time, or whatever the tunnel.\<close>

record drop_request =
  dr_to :: nat
  dr_device :: string
  dr_since :: "int option"

text \<open>A tunnel is an address into the list of all there ever were; each replica has its own map.\<close>

record hubs =
  hb_replicas :: nat
  hb_devices :: "string \<rightharpoonup> string"
  hb_tunnels :: "tunnel list"
  hb_conns :: "nat \<Rightarrow> (string \<times> nat) list"
  hb_drops :: "drop_request list"
  hb_admitted :: "(nat \<times> string \<times> string) list"

definition new_hubs :: "nat \<Rightarrow> hubs" where
  "new_hubs n = \<lparr>hb_replicas = n, hb_devices = Map.empty, hb_tunnels = [], hb_conns = (\<lambda>r. []), hb_drops = [], hb_admitted = []\<rparr>"

definition localConn :: "nat \<Rightarrow> string \<Rightarrow> hubs \<Rightarrow> nat option" where
  "localConn r i s = map_of (hb_conns s r) i"

definition set_conn :: "nat \<Rightarrow> string \<Rightarrow> nat \<Rightarrow> hubs \<Rightarrow> hubs" where
  "set_conn r i n s = s\<lparr>hb_conns := (hb_conns s)(r := AList.update i n (hb_conns s r))\<rparr>"

definition delete_conn :: "nat \<Rightarrow> string \<Rightarrow> hubs \<Rightarrow> hubs" where
  "delete_conn r i s = s\<lparr>hb_conns := (hb_conns s)(r := AList.delete i (hb_conns s r))\<rparr>"

definition close_tunnel :: "nat option \<Rightarrow> hubs \<Rightarrow> hubs" where
  "close_tunnel n s =
     (case n of None \<Rightarrow> s | Some n \<Rightarrow> s\<lparr>hb_tunnels := (hb_tunnels s)[n := (hb_tunnels s ! n)\<lparr>tu_open := False\<rparr>]\<rparr>)"

definition dropConn :: "nat \<Rightarrow> string \<Rightarrow> hubs \<Rightarrow> hubs" where
  "dropConn r i s = close_tunnel (localConn r i s) (delete_conn r i s)"

text \<open>A request to every other replica.\<close>

definition broadcastDrop :: "nat \<Rightarrow> string \<Rightarrow> int option \<Rightarrow> hubs \<Rightarrow> hubs" where
  "broadcastDrop r i since s =
     s\<lparr>hb_drops := hb_drops s @ map (\<lambda>q. \<lparr>dr_to = q, dr_device = i, dr_since = since\<rparr>) (filter (\<lambda>q. q \<noteq> r) [0 ..< hb_replicas s])\<rparr>"

definition handleDrop :: "drop_request \<Rightarrow> hubs \<Rightarrow> hubs" where
  "handleDrop m s =
     (case localConn (dr_to m) (dr_device m) s of
        None \<Rightarrow> s
      | Some n \<Rightarrow>
          if (case dr_since m of None \<Rightarrow> True | Some t \<Rightarrow> tu_since (hb_tunnels s ! n) < t) then dropConn (dr_to m) (dr_device m) s else s)"

text \<open>The token of a device that asks for a tunnel is looked up; later its tunnel is served.\<close>

definition agent_token :: "nat \<Rightarrow> string \<Rightarrow> string \<Rightarrow> hubs \<Rightarrow> hubs" where
  "agent_token r i hash s = (if hb_devices s i = Some hash then s\<lparr>hb_admitted := hb_admitted s @ [(r, i, hash)]\<rparr> else s)"

definition serveDevice :: "nat \<Rightarrow> string \<Rightarrow> string \<Rightarrow> int \<Rightarrow> hubs \<Rightarrow> hubs" where
  "serveDevice r i hash since s =
     (let old = localConn r i s;
          n = length (hb_tunnels s);
          s = set_conn r i n (s\<lparr>hb_tunnels := hb_tunnels s @ [\<lparr>tu_device = i, tu_hash = hash, tu_since = since, tu_open = True\<rparr>]\<rparr>)
      in broadcastDrop r i (Some since) (close_tunnel old s))"

text \<open>What is left to do when a tunnel has closed.\<close>

definition serve_ends :: "nat \<Rightarrow> nat \<Rightarrow> hubs \<Rightarrow> hubs" where
  "serve_ends r n s =
     (let i = tu_device (hb_tunnels s ! n) in if localConn r i s = Some n then delete_conn r i s else s)"

text \<open>The handlers of the portal answer with a status.\<close>

definition handleDeleteDevice :: "nat \<Rightarrow> string \<Rightarrow> hubs \<Rightarrow> nat \<times> hubs" where
  "handleDeleteDevice r i s =
     (if hb_devices s i = None then (404, s)
      else (204, broadcastDrop r i None (dropConn r i (s\<lparr>hb_devices := (hb_devices s)(i := None)\<rparr>))))"

definition handleRotateDevice :: "nat \<Rightarrow> string \<Rightarrow> string \<Rightarrow> hubs \<Rightarrow> nat \<times> hubs" where
  "handleRotateDevice r i hash s =
     (if hb_devices s i = None then (404, s)
      else (200, broadcastDrop r i None (dropConn r i (s\<lparr>hb_devices := (hb_devices s)(i \<mapsto> hash)\<rparr>))))"

text \<open>
  A new letter, once the store has answered, reaches the device when it connects again; only the tunnel of this replica
  is dropped.
\<close>

definition handleSetLetter :: "nat \<Rightarrow> string \<Rightarrow> hub_error + answer \<Rightarrow> hubs \<Rightarrow> nat \<times> hubs" where
  "handleSetLetter r i stored s =
     (case stored of Inl ErrNoRows \<Rightarrow> (404, s) | Inl ErrDuplicateLetter \<Rightarrow> (409, s) | Inl _ \<Rightarrow> (500, s) | Inr _ \<Rightarrow> (204, dropConn r i s))"

definition stale_conn :: "hubs \<Rightarrow> string \<Rightarrow> nat \<Rightarrow> bool" where
  "stale_conn s i n =
     (case hb_devices s i of None \<Rightarrow> True | Some hash \<Rightarrow> tu_hash (hb_tunnels s ! n) \<noteq> [] \<and> hash \<noteq> tu_hash (hb_tunnels s ! n))"

definition revalidateConns :: "nat \<Rightarrow> hubs \<Rightarrow> hubs" where
  "revalidateConns r s = fold (dropConn r) (map fst (filter (\<lambda>(i, n). stale_conn s i n) (hb_conns s r))) s"

end
