(* ===== verification/Tunnel_Laws.thy ===== *)
theory Tunnel_Laws
  imports Hub_Tunnels
begin

text \<open>
  That a hub that has come to rest lets each device in through its newest tunnel only, and only with its present token;
  and the two ways in which it does not come to that.
\<close>

section \<open>Steps\<close>

datatype tunnel_event =
  Added string string | Token nat string string | Served nat string string int | Broke nat | Ended nat nat | Delivered drop_request
| Deleted nat string | Rotated nat string string | Revalidated nat | Lettered nat string "hub_error + answer"

fun tn_step :: "tunnel_event \<Rightarrow> hubs \<Rightarrow> hubs" where
  "tn_step (Added i hash) s = (if hb_devices s i = None then s\<lparr>hb_devices := (hb_devices s)(i \<mapsto> hash)\<rparr> else s)"
| "tn_step (Token r i hash) s = agent_token r i hash s"
| "tn_step (Served r i hash since) s = serveDevice r i hash since (s\<lparr>hb_admitted := remove1 (r, i, hash) (hb_admitted s)\<rparr>)"
| "tn_step (Broke n) s = close_tunnel (Some n) s"
| "tn_step (Ended r n) s = serve_ends r n s"
| "tn_step (Delivered m) s = handleDrop m (s\<lparr>hb_drops := remove1 m (hb_drops s)\<rparr>)"
| "tn_step (Deleted r i) s = snd (handleDeleteDevice r i s)"
| "tn_step (Rotated r i hash) s = snd (handleRotateDevice r i hash s)"
| "tn_step (Revalidated r) s = revalidateConns r s"
| "tn_step (Lettered r i stored) s = snd (handleSetLetter r i stored s)"

text \<open>What can happen: who is served was let in before, what is delivered was under way, what ends is closed.\<close>

fun may_happen :: "tunnel_event \<Rightarrow> hubs \<Rightarrow> bool" where
  "may_happen (Served r i hash since) s \<longleftrightarrow> (r, i, hash) \<in> set (hb_admitted s)"
| "may_happen (Token r i hash) s \<longleftrightarrow> r < hb_replicas s"
| "may_happen (Deleted r i) s \<longleftrightarrow> r < hb_replicas s"
| "may_happen (Rotated r i hash) s \<longleftrightarrow> r < hb_replicas s"
| "may_happen (Delivered m) s \<longleftrightarrow> m \<in> set (hb_drops s)"
| "may_happen (Ended r n) s \<longleftrightarrow> n < length (hb_tunnels s) \<and> \<not> tu_open (hb_tunnels s ! n)"
| "may_happen (Broke n) s \<longleftrightarrow> n < length (hb_tunnels s)"
| "may_happen e s \<longleftrightarrow> True"

text \<open>The token of a device that is served is still the present one, and the clocks of the replicas agree on who came last.\<close>

definition in_time :: "tunnel_event \<Rightarrow> hubs \<Rightarrow> bool" where
  "in_time e s \<longleftrightarrow> (case e of
     Served r i hash since \<Rightarrow> hb_devices s i = Some hash \<and> (\<forall>t \<in> set (hb_tunnels s). tu_device t = i \<longrightarrow> tu_since t < since)
   | _ \<Rightarrow> True)"

fun tn_run :: "tunnel_event list \<Rightarrow> hubs \<Rightarrow> hubs" where
  "tn_run [] s = s"
| "tn_run (e # es) s = tn_run es (tn_step e s)"

fun orderly :: "tunnel_event list \<Rightarrow> hubs \<Rightarrow> bool" where
  "orderly [] s \<longleftrightarrow> True"
| "orderly (e # es) s \<longleftrightarrow> may_happen e s \<and> in_time e s \<and> orderly es (tn_step e s)"

section \<open>The invariant\<close>

definition open_at :: "hubs \<Rightarrow> nat \<Rightarrow> string \<Rightarrow> nat \<Rightarrow> bool" where
  "open_at s r i n \<longleftrightarrow> n < length (hb_tunnels s) \<and> tu_open (hb_tunnels s ! n) \<and> tu_device (hb_tunnels s ! n) = i \<and> localConn r i s = Some n"

definition reaches :: "nat \<Rightarrow> string \<Rightarrow> int \<Rightarrow> drop_request \<Rightarrow> bool" where
  "reaches r i since m \<longleftrightarrow> dr_to m = r \<and> dr_device m = i \<and> (case dr_since m of None \<Rightarrow> True | Some t \<Rightarrow> since < t)"

definition asked_to_drop :: "hubs \<Rightarrow> nat \<Rightarrow> string \<Rightarrow> int \<Rightarrow> bool" where
  "asked_to_drop s r i since \<longleftrightarrow> (\<exists>m \<in> set (hb_drops s). reaches r i since m)"

text \<open>
  Maps and tunnels fit together; a tunnel with an old token, or one that is not the newest of its device, has a request
  under way that will drop it.
\<close>

definition conns_ok :: "hubs \<Rightarrow> bool" where
  "conns_ok s \<longleftrightarrow>
     (\<forall>r i n. localConn r i s = Some n \<longrightarrow> n < length (hb_tunnels s) \<and> tu_device (hb_tunnels s ! n) = i \<and> r < hb_replicas s)
     \<and> (\<forall>n < length (hb_tunnels s). tu_open (hb_tunnels s ! n) \<longrightarrow> (\<exists>r. open_at s r (tu_device (hb_tunnels s ! n)) n))
     \<and> (\<forall>r q i n. localConn r i s = Some n \<longrightarrow> localConn q i s = Some n \<longrightarrow> r = q)
     \<and> (\<forall>(r, i, hash) \<in> set (hb_admitted s). r < hb_replicas s)"

definition newest_ok :: "hubs \<Rightarrow> bool" where
  "newest_ok s \<longleftrightarrow> (\<forall>m n. m < n \<longrightarrow> n < length (hb_tunnels s) \<longrightarrow> tu_device (hb_tunnels s ! m) = tu_device (hb_tunnels s ! n)
     \<longrightarrow> tu_since (hb_tunnels s ! m) < tu_since (hb_tunnels s ! n))"

definition drops_ok :: "hubs \<Rightarrow> bool" where
  "drops_ok s \<longleftrightarrow>
     (\<forall>r i n. open_at s r i n \<longrightarrow> hb_devices s i = Some (tu_hash (hb_tunnels s ! n)) \<or> asked_to_drop s r i (tu_since (hb_tunnels s ! n)))
     \<and> (\<forall>r q i m n. open_at s r i m \<longrightarrow> open_at s q i n \<longrightarrow> m < n \<longrightarrow> asked_to_drop s r i (tu_since (hb_tunnels s ! m)))"

definition tn_ok :: "hubs \<Rightarrow> bool" where
  "tn_ok s \<longleftrightarrow> conns_ok s \<and> newest_ok s \<and> drops_ok s"

subsection \<open>The parts of the steps\<close>

lemma conn_fields [simp]:
  "hb_replicas (set_conn r i n s) = hb_replicas s" "hb_devices (set_conn r i n s) = hb_devices s" "hb_tunnels (set_conn r i n s) = hb_tunnels s"
  "hb_drops (set_conn r i n s) = hb_drops s" "hb_admitted (set_conn r i n s) = hb_admitted s"
  "hb_replicas (delete_conn r i s) = hb_replicas s" "hb_devices (delete_conn r i s) = hb_devices s" "hb_tunnels (delete_conn r i s) = hb_tunnels s"
  "hb_drops (delete_conn r i s) = hb_drops s" "hb_admitted (delete_conn r i s) = hb_admitted s"
  "localConn r' i' (set_conn r i n s) = (if r' = r \<and> i' = i then Some n else localConn r' i' s)"
  "localConn r' i' (delete_conn r i s) = (if r' = r \<and> i' = i then None else localConn r' i' s)"
  by (auto simp: set_conn_def delete_conn_def localConn_def update_conv' delete_conv')

lemma close_fields [simp]:
  "hb_replicas (close_tunnel n s) = hb_replicas s" "hb_devices (close_tunnel n s) = hb_devices s" "hb_drops (close_tunnel n s) = hb_drops s"
  "hb_admitted (close_tunnel n s) = hb_admitted s" "localConn r i (close_tunnel n s) = localConn r i s"
  "length (hb_tunnels (close_tunnel n s)) = length (hb_tunnels s)"
  "hb_tunnels (close_tunnel n s) ! k = (if n = Some k \<and> k < length (hb_tunnels s) then (hb_tunnels s ! k)\<lparr>tu_open := False\<rparr> else hb_tunnels s ! k)"
  by (auto simp: close_tunnel_def localConn_def nth_list_update list_update_beyond split: option.split)
    (metis list_update_beyond not_less nth_list_update_neq)?

lemma drop_fields [simp]:
  "hb_replicas (dropConn r i s) = hb_replicas s" "hb_devices (dropConn r i s) = hb_devices s" "hb_drops (dropConn r i s) = hb_drops s"
  "hb_admitted (dropConn r i s) = hb_admitted s" "length (hb_tunnels (dropConn r i s)) = length (hb_tunnels s)"
  "tu_device (hb_tunnels (dropConn r i s) ! k) = tu_device (hb_tunnels s ! k)" "tu_hash (hb_tunnels (dropConn r i s) ! k) = tu_hash (hb_tunnels s ! k)"
  "tu_since (hb_tunnels (dropConn r i s) ! k) = tu_since (hb_tunnels s ! k)"
  "localConn r' i' (dropConn r i s) = (if r' = r \<and> i' = i then None else localConn r' i' s)"
  by (simp_all add: dropConn_def)

lemma cast_fields [simp]:
  "hb_replicas (broadcastDrop r i t s) = hb_replicas s" "hb_devices (broadcastDrop r i t s) = hb_devices s" "hb_tunnels (broadcastDrop r i t s) = hb_tunnels s"
  "hb_admitted (broadcastDrop r i t s) = hb_admitted s" "localConn r' i' (broadcastDrop r i t s) = localConn r' i' s"
  "open_at (broadcastDrop r i t s) r' i' n = open_at s r' i' n"
  by (simp_all add: broadcastDrop_def localConn_def open_at_def)

lemma conns_ok_cast: "conns_ok (broadcastDrop r i t s) = conns_ok s"
  by (simp add: conns_ok_def)

lemma newest_ok_cast: "newest_ok (broadcastDrop r i t s) = newest_ok s"
  by (simp add: newest_ok_def)

lemma other_fields [simp]:
  "localConn r i (s\<lparr>hb_devices := d\<rparr>) = localConn r i s" "localConn r i (s\<lparr>hb_drops := ms\<rparr>) = localConn r i s"
  "localConn r i (s\<lparr>hb_admitted := as\<rparr>) = localConn r i s" "localConn r i (s\<lparr>hb_tunnels := ts\<rparr>) = localConn r i s"
  "open_at (s\<lparr>hb_devices := d\<rparr>) r i n = open_at s r i n" "open_at (s\<lparr>hb_drops := ms\<rparr>) r i n = open_at s r i n"
  "open_at (s\<lparr>hb_admitted := as\<rparr>) r i n = open_at s r i n" "asked_to_drop (s\<lparr>hb_devices := d\<rparr>) r i t = asked_to_drop s r i t"
  "asked_to_drop (s\<lparr>hb_admitted := as\<rparr>) r i t = asked_to_drop s r i t"
  by (simp_all add: localConn_def open_at_def asked_to_drop_def)

lemma asked_cast:
  "asked_to_drop (broadcastDrop r i t s) q j since \<longleftrightarrow>
     asked_to_drop s q j since \<or> (j = i \<and> q \<noteq> r \<and> q < hb_replicas s \<and> (case t of None \<Rightarrow> True | Some t \<Rightarrow> since < t))"
proof -
  have "(\<exists>m \<in> (\<lambda>x. \<lparr>dr_to = x, dr_device = i, dr_since = t\<rparr>) ` {x. x < hb_replicas s \<and> x \<noteq> r}. reaches q j since m) \<longleftrightarrow>
      j = i \<and> q \<noteq> r \<and> q < hb_replicas s \<and> (case t of None \<Rightarrow> True | Some t \<Rightarrow> since < t)"
    by (auto simp: reaches_def)
  then show ?thesis by (simp add: asked_to_drop_def broadcastDrop_def bex_Un)
qed

lemma asked_drop [simp]: "asked_to_drop (dropConn r i s) q j t = asked_to_drop s q j t" "asked_to_drop (close_tunnel c s) q j t = asked_to_drop s q j t"
  "asked_to_drop (delete_conn r i s) q j t = asked_to_drop s q j t" "asked_to_drop (set_conn r i n s) q j t = asked_to_drop s q j t"
  by (simp_all add: asked_to_drop_def)

lemma conn_bound: "conns_ok s \<Longrightarrow> localConn r i s = Some n \<Longrightarrow> n < length (hb_tunnels s) \<and> tu_device (hb_tunnels s ! n) = i \<and> r < hb_replicas s"
  unfolding conns_ok_def by blast

lemma conn_unique: "conns_ok s \<Longrightarrow> localConn r i s = Some n \<Longrightarrow> localConn q j s = Some n \<Longrightarrow> r = q \<and> i = j"
  using conn_bound[of s r i n] conn_bound[of s q j n] unfolding conns_ok_def by blast

lemma open_somewhere: "conns_ok s \<Longrightarrow> n < length (hb_tunnels s) \<Longrightarrow> tu_open (hb_tunnels s ! n) \<Longrightarrow> \<exists>r. open_at s r (tu_device (hb_tunnels s ! n)) n"
  unfolding conns_ok_def by blast

lemma conns_okI:
  assumes "\<And>r i n. localConn r i s = Some n \<Longrightarrow> n < length (hb_tunnels s) \<and> tu_device (hb_tunnels s ! n) = i \<and> r < hb_replicas s"
    "\<And>n. n < length (hb_tunnels s) \<Longrightarrow> tu_open (hb_tunnels s ! n) \<Longrightarrow> \<exists>r. open_at s r (tu_device (hb_tunnels s ! n)) n"
    "\<And>r q i n. localConn r i s = Some n \<Longrightarrow> localConn q i s = Some n \<Longrightarrow> r = q"
    "\<forall>(r, i, hash) \<in> set (hb_admitted s). r < hb_replicas s"
  shows "conns_ok s"
  unfolding conns_ok_def using assms by blast

lemma admitted_bound: "conns_ok s \<Longrightarrow> \<forall>(r, i, hash) \<in> set (hb_admitted s). r < hb_replicas s"
  unfolding conns_ok_def by blast

lemma open_drop:
  assumes "conns_ok s"
  shows "open_at (dropConn r i s) q j n \<longleftrightarrow> open_at s q j n \<and> \<not> (q = r \<and> j = i)"
proof (cases "localConn r i s")
  case None
  then show ?thesis by (auto simp: open_at_def dropConn_def)
next
  case (Some k)
  show ?thesis
  proof (cases "n = k")
    case True
    have "localConn q j s = Some n \<Longrightarrow> q = r \<and> j = i" using conn_unique[OF assms, of q j n r i] Some True by simp
    then have "\<not> (open_at s q j n \<and> \<not> (q = r \<and> j = i))" by (simp add: open_at_def)
    moreover have "\<not> open_at (dropConn r i s) q j n" by (simp add: open_at_def dropConn_def Some True)
    ultimately show ?thesis by simp
  next
    case False
    then have "hb_tunnels (dropConn r i s) ! n = hb_tunnels s ! n" by (simp add: dropConn_def Some)
    then show ?thesis by (simp add: open_at_def)
  qed
qed

lemma conns_ok_drop:
  assumes "conns_ok s"
  shows "conns_ok (dropConn r i s)"
proof (rule conns_okI)
  have op: "tu_open (hb_tunnels s ! n) \<and> localConn r i s \<noteq> Some n" if "n < length (hb_tunnels s)" "tu_open (hb_tunnels (dropConn r i s) ! n)" for n
    using that by (auto simp: dropConn_def split: if_splits)
  show "\<exists>q. open_at (dropConn r i s) q (tu_device (hb_tunnels (dropConn r i s) ! n)) n"
    if len: "n < length (hb_tunnels (dropConn r i s))" and on: "tu_open (hb_tunnels (dropConn r i s) ! n)" for n
  proof -
    have n: "n < length (hb_tunnels s)" using len by simp
    obtain q where q: "open_at s q (tu_device (hb_tunnels s ! n)) n" using open_somewhere[OF assms n] op[OF n on] by blast
    then have "\<not> (q = r \<and> tu_device (hb_tunnels s ! n) = i)" using op[OF n on] by (auto simp: open_at_def)
    then show ?thesis using q open_drop[OF assms] by auto
  qed
  show "n < length (hb_tunnels (dropConn r i s)) \<and> tu_device (hb_tunnels (dropConn r i s) ! n) = j \<and> q < hb_replicas (dropConn r i s)"
    if "localConn q j (dropConn r i s) = Some n" for q j n
    using that conn_bound[OF assms, of q j n] by (simp split: if_splits)
  show "q = q'" if "localConn q j (dropConn r i s) = Some n" "localConn q' j (dropConn r i s) = Some n" for q q' j n
    using that conn_unique[OF assms, of q j n q' j] by (simp split: if_splits)
qed (use admitted_bound[OF assms] in simp)

lemma newest_ok_drop: "newest_ok s \<Longrightarrow> newest_ok (dropConn r i s)"
  by (simp add: newest_ok_def)

text \<open>Fewer open tunnels, and no request lost that matters.\<close>

lemma drops_ok_fewer:
  assumes "drops_ok s" "\<And>r i n. open_at s' r i n \<Longrightarrow> open_at s r i n" "hb_devices s' = hb_devices s"
    "\<And>n. tu_hash (hb_tunnels s' ! n) = tu_hash (hb_tunnels s ! n)" "\<And>n. tu_since (hb_tunnels s' ! n) = tu_since (hb_tunnels s ! n)"
    "\<And>r i n. open_at s' r i n \<Longrightarrow> asked_to_drop s r i (tu_since (hb_tunnels s ! n)) \<Longrightarrow> asked_to_drop s' r i (tu_since (hb_tunnels s ! n))"
  shows "drops_ok s'"
  unfolding drops_ok_def assms(3,4,5)
proof (intro conjI allI impI)
  fix r i n assume "open_at s' r i n"
  then show "hb_devices s i = Some (tu_hash (hb_tunnels s ! n)) \<or> asked_to_drop s' r i (tu_since (hb_tunnels s ! n))"
    using assms(1) assms(2,6)[of r i n] unfolding drops_ok_def by blast
next
  fix r q i m n assume "open_at s' r i m" "open_at s' q i n" "m < n"
  then show "asked_to_drop s' r i (tu_since (hb_tunnels s ! m))"
    using assms(1) assms(2)[of q i n] assms(2,6)[of r i m] unfolding drops_ok_def by blast
qed

lemma tn_ok_drop:
  assumes "tn_ok s"
  shows "tn_ok (dropConn r i s)"
proof -
  have c: "conns_ok s" "drops_ok s" "newest_ok s" using assms by (simp_all add: tn_ok_def)
  have "drops_ok (dropConn r i s)" using c(2) by (rule drops_ok_fewer) (simp_all add: open_drop[OF c(1)])
  then show ?thesis using c by (simp add: tn_ok_def conns_ok_drop newest_ok_drop)
qed

subsection \<open>The steps keep the invariant\<close>

lemma tn_ok_letter: "tn_ok s \<Longrightarrow> tn_ok (snd (handleSetLetter r i stored s))"
  by (simp add: handleSetLetter_def tn_ok_drop split: sum.split hub_error.split)

lemma tn_ok_revalidate: "tn_ok s \<Longrightarrow> tn_ok (revalidateConns r s)"
proof -
  have "tn_ok t \<Longrightarrow> tn_ok (fold (dropConn r) ids t)" for ids t
    by (induction ids arbitrary: t) (simp_all add: tn_ok_drop)
  then show "tn_ok s \<Longrightarrow> tn_ok (revalidateConns r s)" by (simp add: revalidateConns_def)
qed

lemma tn_ok_added:
  assumes "tn_ok s" "hb_devices s i = None"
  shows "tn_ok (s\<lparr>hb_devices := (hb_devices s)(i \<mapsto> hash)\<rparr>)"
proof -
  have "drops_ok (s\<lparr>hb_devices := (hb_devices s)(i \<mapsto> hash)\<rparr>)"
    unfolding drops_ok_def
  proof (intro conjI allI impI)
    fix r j n assume "open_at (s\<lparr>hb_devices := (hb_devices s)(i \<mapsto> hash)\<rparr>) r j n"
    then have "hb_devices s j = Some (tu_hash (hb_tunnels s ! n)) \<or> asked_to_drop s r j (tu_since (hb_tunnels s ! n))"
      using assms(1) by (simp add: tn_ok_def drops_ok_def)
    then show "hb_devices (s\<lparr>hb_devices := (hb_devices s)(i \<mapsto> hash)\<rparr>) j = Some (tu_hash (hb_tunnels (s\<lparr>hb_devices := (hb_devices s)(i \<mapsto> hash)\<rparr>) ! n))
        \<or> asked_to_drop (s\<lparr>hb_devices := (hb_devices s)(i \<mapsto> hash)\<rparr>) r j (tu_since (hb_tunnels (s\<lparr>hb_devices := (hb_devices s)(i \<mapsto> hash)\<rparr>) ! n))"
      using assms(2) by (cases "j = i") simp_all
  next
    fix r q j m n
    assume "open_at (s\<lparr>hb_devices := (hb_devices s)(i \<mapsto> hash)\<rparr>) r j m" "open_at (s\<lparr>hb_devices := (hb_devices s)(i \<mapsto> hash)\<rparr>) q j n" "m < n"
    then have "open_at s r j m" "open_at s q j n" "m < n" by simp_all
    moreover have "drops_ok s" using assms(1) by (simp add: tn_ok_def)
    ultimately have "asked_to_drop s r j (tu_since (hb_tunnels s ! m))" unfolding drops_ok_def by blast
    then show "asked_to_drop (s\<lparr>hb_devices := (hb_devices s)(i \<mapsto> hash)\<rparr>) r j (tu_since (hb_tunnels (s\<lparr>hb_devices := (hb_devices s)(i \<mapsto> hash)\<rparr>) ! m))"
      by simp
  qed
  then show ?thesis using assms(1) by (simp add: tn_ok_def conns_ok_def newest_ok_def)
qed

lemma tn_ok_admitted:
  assumes "tn_ok s" "\<forall>(r, i, hash) \<in> set as. r < hb_replicas s"
  shows "tn_ok (s\<lparr>hb_admitted := as\<rparr>)"
proof -
  have "drops_ok (s\<lparr>hb_admitted := as\<rparr>)" by (rule drops_ok_fewer[of s]) (use assms(1) in \<open>simp_all add: tn_ok_def\<close>)
  then show ?thesis using assms by (simp add: tn_ok_def conns_ok_def newest_ok_def)
qed

lemma tn_ok_token: "tn_ok s \<Longrightarrow> r < hb_replicas s \<Longrightarrow> tn_ok (agent_token r i hash s)"
  using admitted_bound[of s] by (simp add: agent_token_def tn_ok_admitted tn_ok_def[of s])

lemma tn_ok_broke:
  assumes "tn_ok s"
  shows "tn_ok (close_tunnel (Some n) s)"
proof -
  have c: "conns_ok s" "drops_ok s" "newest_ok s" using assms by (simp_all add: tn_ok_def)
  have o: "open_at (close_tunnel (Some n) s) q j k \<longleftrightarrow> open_at s q j k \<and> k \<noteq> n" for q j k
    by (cases "k = n") (simp_all add: open_at_def)
  have "conns_ok (close_tunnel (Some n) s)"
  proof (rule conns_okI)
    show "k < length (hb_tunnels (close_tunnel (Some n) s)) \<and> tu_device (hb_tunnels (close_tunnel (Some n) s) ! k) = j \<and> q < hb_replicas (close_tunnel (Some n) s)"
      if "localConn q j (close_tunnel (Some n) s) = Some k" for q j k
      using that conn_bound[OF c(1), of q j k] by simp
    show "\<exists>q. open_at (close_tunnel (Some n) s) q (tu_device (hb_tunnels (close_tunnel (Some n) s) ! k)) k"
      if "k < length (hb_tunnels (close_tunnel (Some n) s))" "tu_open (hb_tunnels (close_tunnel (Some n) s) ! k)" for k
      using that open_somewhere[OF c(1), of k] by (cases "k = n") (simp_all add: o)
    show "q = q'" if "localConn q j (close_tunnel (Some n) s) = Some k" "localConn q' j (close_tunnel (Some n) s) = Some k" for q q' j k
      using that conn_unique[OF c(1), of q j k q' j] by simp
  qed (use admitted_bound[OF c(1)] in simp)
  moreover have "drops_ok (close_tunnel (Some n) s)" using c(2) by (rule drops_ok_fewer) (simp_all add: o)
  ultimately show ?thesis using c(3) by (simp add: tn_ok_def newest_ok_def)
qed

lemma tn_ok_ended:
  assumes "tn_ok s" "\<not> tu_open (hb_tunnels s ! n)"
  shows "tn_ok (serve_ends r n s)"
proof (cases "localConn r (tu_device (hb_tunnels s ! n)) s = Some n")
  case True
  define i where "i = tu_device (hb_tunnels s ! n)"
  have c: "conns_ok s" "drops_ok s" "newest_ok s" using assms by (simp_all add: tn_ok_def)
  have "localConn r i s = Some n" using True by (simp add: i_def)
  then have "dropConn r i s = (delete_conn r i s)\<lparr>hb_tunnels := (hb_tunnels s)[n := (hb_tunnels s ! n)\<lparr>tu_open := False\<rparr>]\<rparr>"
    by (simp add: dropConn_def close_tunnel_def)
  also have "(hb_tunnels s)[n := (hb_tunnels s ! n)\<lparr>tu_open := False\<rparr>] = hb_tunnels s"
    using assms(2) by (cases "hb_tunnels s ! n") (simp add: list_update_same_conv list_update_beyond, metis list_update_id)
  finally have "serve_ends r n s = dropConn r i s" using True by (simp add: serve_ends_def i_def)
  then show ?thesis using tn_ok_drop[OF assms(1)] by simp
qed (use assms in \<open>simp add: serve_ends_def Let_def\<close>)

lemma tn_ok_registry:
  assumes "tn_ok s" "\<forall>j. j \<noteq> i \<longrightarrow> d j = hb_devices s j"
  shows "tn_ok (broadcastDrop r i None (dropConn r i (s\<lparr>hb_devices := d\<rparr>)))"
proof -
  let ?t = "s\<lparr>hb_devices := d\<rparr>"
  have cs: "conns_ok s" using assms(1) by (simp add: tn_ok_def)
  have c: "conns_ok ?t" using assms(1) by (simp add: tn_ok_def conns_ok_def)
  have dk: "open_at s q j n \<Longrightarrow> hb_devices s j = Some (tu_hash (hb_tunnels s ! n)) \<or> asked_to_drop s q j (tu_since (hb_tunnels s ! n))" for q j n
    using assms(1) by (simp add: tn_ok_def drops_ok_def)
  have conns: "conns_ok (dropConn r i ?t)" using c by (rule conns_ok_drop)
  have "newest_ok (dropConn r i ?t)" using assms(1) by (intro newest_ok_drop) (simp add: tn_ok_def newest_ok_def)
  moreover have "drops_ok (broadcastDrop r i None (dropConn r i ?t))"
    unfolding drops_ok_def
  proof (intro conjI allI impI)
    fix q j n assume "open_at (broadcastDrop r i None (dropConn r i ?t)) q j n"
    then have n: "open_at s q j n" "\<not> (q = r \<and> j = i)" by (simp_all add: open_drop[OF c])
    then have "q < hb_replicas s" using conn_bound[OF cs, of q j n] by (simp add: open_at_def)
    then show "hb_devices (broadcastDrop r i None (dropConn r i ?t)) j = Some (tu_hash (hb_tunnels (broadcastDrop r i None (dropConn r i ?t)) ! n))
        \<or> asked_to_drop (broadcastDrop r i None (dropConn r i ?t)) q j (tu_since (hb_tunnels (broadcastDrop r i None (dropConn r i ?t)) ! n))"
      using n assms(2) dk[OF n(1)] by (cases "j = i") (simp_all add: asked_cast)
  next
    fix q q' j m n assume "open_at (broadcastDrop r i None (dropConn r i ?t)) q j m" "open_at (broadcastDrop r i None (dropConn r i ?t)) q' j n" "m < n"
    then have "open_at s q j m" "open_at s q' j n" "m < n" by (simp_all add: open_drop[OF c])
    then have "asked_to_drop s q j (tu_since (hb_tunnels s ! m))" using assms(1) unfolding tn_ok_def drops_ok_def by blast
    then show "asked_to_drop (broadcastDrop r i None (dropConn r i ?t)) q j (tu_since (hb_tunnels (broadcastDrop r i None (dropConn r i ?t)) ! m))"
      by (simp add: asked_cast)
  qed
  ultimately show ?thesis using conns unfolding tn_ok_def conns_ok_cast newest_ok_cast by blast
qed

lemma tn_ok_delivered:
  assumes "tn_ok s"
  shows "tn_ok (handleDrop m (s\<lparr>hb_drops := remove1 m (hb_drops s)\<rparr>))"
proof -
  let ?t = "s\<lparr>hb_drops := remove1 m (hb_drops s)\<rparr>"
  have cs: "conns_ok s" and ds: "drops_ok s" using assms by (simp_all add: tn_ok_def)
  have c: "conns_ok ?t" "newest_ok ?t" using assms by (simp_all add: tn_ok_def conns_ok_def newest_ok_def)
  define hit where "hit = (\<lambda>n. localConn (dr_to m) (dr_device m) s = Some n \<and> reaches (dr_to m) (dr_device m) (tu_since (hb_tunnels s ! n)) m)"
  have kept: "asked_to_drop ?t q j (tu_since (hb_tunnels s ! n))"
    if asked: "asked_to_drop s q j (tu_since (hb_tunnels s ! n))" and at_q: "localConn q j s = Some n" and "\<not> hit n" for q j n
  proof -
    obtain m' where m': "m' \<in> set (hb_drops s)" "reaches q j (tu_since (hb_tunnels s ! n)) m'" using asked unfolding asked_to_drop_def by blast
    have "m' \<noteq> m"
    proof
      assume "m' = m"
      then have "dr_to m = q" "dr_device m = j" using m'(2) by (simp_all add: reaches_def)
      then show False using \<open>m' = m\<close> m'(2) at_q \<open>\<not> hit n\<close> by (simp add: hit_def)
    qed
    then have "m' \<in> set (hb_drops ?t)" using m'(1) by simp
    then show ?thesis using m'(2) unfolding asked_to_drop_def by blast
  qed
  have result: "handleDrop m ?t = (if \<exists>n. hit n then dropConn (dr_to m) (dr_device m) ?t else ?t)"
    by (simp add: handleDrop_def hit_def reaches_def split: option.split)
  have opens: "open_at s q j n \<and> \<not> hit n" if "open_at (handleDrop m ?t) q j n" for q j n
  proof (cases "\<exists>k. hit k")
    case True
    have n: "open_at s q j n" "\<not> (q = dr_to m \<and> j = dr_device m)" using that True open_drop[OF c(1)] by (simp_all add: result)
    moreover have "\<not> hit n"
      using n conn_unique[OF cs, of "dr_to m" "dr_device m" n q j] by (auto simp: hit_def open_at_def)
    ultimately show ?thesis by simp
  qed (use that in \<open>simp add: result\<close>)
  have "drops_ok (handleDrop m ?t)"
  proof (rule drops_ok_fewer[OF ds])
    show "open_at s r i n" if "open_at (handleDrop m ?t) r i n" for r i n using opens[OF that] by simp
    show "asked_to_drop (handleDrop m ?t) r i (tu_since (hb_tunnels s ! n))"
      if "open_at (handleDrop m ?t) r i n" "asked_to_drop s r i (tu_since (hb_tunnels s ! n))" for r i n
    proof -
      have "asked_to_drop ?t r i (tu_since (hb_tunnels s ! n))" using kept[OF that(2)] opens[OF that(1)] by (simp add: open_at_def)
      then show ?thesis by (simp add: result)
    qed
  qed (simp_all add: result)
  moreover have "conns_ok (handleDrop m ?t)" "newest_ok (handleDrop m ?t)" using c conns_ok_drop newest_ok_drop by (simp_all add: result)
  ultimately show ?thesis by (simp add: tn_ok_def)
qed

lemma tn_ok_served:
  assumes "tn_ok s" "r < hb_replicas s" "hb_devices s i = Some hash" "\<forall>t \<in> set (hb_tunnels s). tu_device t = i \<longrightarrow> tu_since t < since"
  shows "tn_ok (serveDevice r i hash since s)"
proof -
  define n where "n = length (hb_tunnels s)"
  define old where "old = localConn r i s"
  define t where "t = serveDevice r i hash since s"
  have cs: "conns_ok s" and ds: "drops_ok s" and ns: "newest_ok s" using assms(1) by (simp_all add: tn_ok_def)
  have old_n: "old \<noteq> Some n" using conn_bound[OF cs, of r i n] by (auto simp: old_def n_def)
  have fields: "hb_replicas t = hb_replicas s" "hb_devices t = hb_devices s" "length (hb_tunnels t) = Suc n" "hb_admitted t = hb_admitted s"
    "localConn q j t = (if q = r \<and> j = i then Some n else localConn q j s)"
    "hb_tunnels t ! k = (if k < n then (if old = Some k then (hb_tunnels s ! k)\<lparr>tu_open := False\<rparr> else hb_tunnels s ! k)
       else if k = n then \<lparr>tu_device = i, tu_hash = hash, tu_since = since, tu_open = True\<rparr> else hb_tunnels t ! k)" for q j k
    using old_n by (simp_all add: t_def serveDevice_def Let_def n_def old_def nth_append)
  have asked: "asked_to_drop t q j x \<longleftrightarrow> asked_to_drop s q j x \<or> (j = i \<and> q \<noteq> r \<and> q < hb_replicas s \<and> x < since)" for q j x
    by (simp add: t_def serveDevice_def Let_def asked_cast) (simp add: asked_to_drop_def)
  have same: "tu_hash (hb_tunnels t ! k) = tu_hash (hb_tunnels s ! k)" "tu_since (hb_tunnels t ! k) = tu_since (hb_tunnels s ! k)"
    "tu_device (hb_tunnels t ! k) = tu_device (hb_tunnels s ! k)" if "k < n" for k
    using that fields(6)[of k] by (simp_all split: if_splits)
  have new: "tu_hash (hb_tunnels t ! n) = hash" "tu_since (hb_tunnels t ! n) = since" "tu_device (hb_tunnels t ! n) = i" "tu_open (hb_tunnels t ! n)"
    using fields(6)[of n] by simp_all
  have opens: "open_at t q j k \<longleftrightarrow> (if k = n then q = r \<and> j = i else open_at s q j k \<and> \<not> (q = r \<and> j = i))" for q j k
  proof (cases "k < n")
    case True
    have "tu_open (hb_tunnels t ! k) \<longleftrightarrow> old \<noteq> Some k \<and> tu_open (hb_tunnels s ! k)" using fields(6)[of k] True by simp
    moreover have "localConn q j s = Some k \<Longrightarrow> old = Some k \<longleftrightarrow> q = r \<and> j = i" using conn_unique[OF cs, of q j k r i] by (auto simp: old_def)
    ultimately show ?thesis using True same[OF True] by (auto simp: open_at_def fields(3,5) n_def)
  next
    case False
    then have "\<not> open_at s q j k" by (simp add: open_at_def n_def)
    moreover have "localConn q j s \<noteq> Some k" using conn_bound[OF cs, of q j k] False by (auto simp: n_def)
    ultimately show ?thesis using False new by (auto simp: open_at_def fields(3,5))
  qed
  have "conns_ok t"
  proof (rule conns_okI)
    show "k < length (hb_tunnels t) \<and> tu_device (hb_tunnels t ! k) = j \<and> q < hb_replicas t" if "localConn q j t = Some k" for q j k
      using that conn_bound[OF cs, of q j k] same(3)[of k] new(3) assms(2) by (auto simp: fields(1,3,5) n_def split: if_splits)
    show "\<exists>q. open_at t q (tu_device (hb_tunnels t ! k)) k" if k: "k < length (hb_tunnels t)" "tu_open (hb_tunnels t ! k)" for k
    proof (cases "k = n")
      case False
      then have less: "k < n" using k(1) by (simp add: fields(3))
      then have "tu_open (hb_tunnels s ! k)" "old \<noteq> Some k" using k(2) fields(6)[of k] by (simp_all split: if_splits)
      then obtain q where q: "open_at s q (tu_device (hb_tunnels s ! k)) k" using open_somewhere[OF cs, of k] less by (auto simp: n_def)
      then have "\<not> (q = r \<and> tu_device (hb_tunnels s ! k) = i)" using \<open>old \<noteq> Some k\<close> by (auto simp: open_at_def old_def)
      then show ?thesis using q False same(3)[OF less] opens by auto
    qed (simp add: opens new)
    show "q = q'" if "localConn q j t = Some k" "localConn q' j t = Some k" for q q' j k
      using that conn_unique[OF cs, of q j k q' j] conn_bound[OF cs, of q j k] conn_bound[OF cs, of q' j k]
      by (auto simp: fields(5) n_def split: if_splits)
  qed (use admitted_bound[OF cs] in \<open>simp add: fields\<close>)
  moreover have "newest_ok t"
    unfolding newest_ok_def
  proof (intro allI impI)
    fix m k assume k: "m < k" "k < length (hb_tunnels t)" "tu_device (hb_tunnels t ! m) = tu_device (hb_tunnels t ! k)"
    then have m: "m < n" by (simp add: fields(3))
    show "tu_since (hb_tunnels t ! m) < tu_since (hb_tunnels t ! k)"
    proof (cases "k = n")
      case True
      then have "tu_device (hb_tunnels s ! m) = i" using k(3) same(3)[OF m] new(3) by simp
      then show ?thesis using assms(4) m same(2)[OF m] new(2) True by (simp add: n_def)
    next
      case False
      then have "k < n" using k(2) by (simp add: fields(3))
      then show ?thesis using ns k m same[OF m] same[of k] by (simp add: newest_ok_def n_def)
    qed
  qed
  moreover have "drops_ok t"
    unfolding drops_ok_def
  proof (intro conjI allI impI)
    fix q j k assume k: "open_at t q j k"
    show "hb_devices t j = Some (tu_hash (hb_tunnels t ! k)) \<or> asked_to_drop t q j (tu_since (hb_tunnels t ! k))"
    proof (cases "k = n")
      case True
      then show ?thesis using k opens new assms(3) by (simp add: fields(2))
    next
      case False
      then have "open_at s q j k" "k < n" using k opens by (auto simp: open_at_def n_def)
      then have "hb_devices s j = Some (tu_hash (hb_tunnels s ! k)) \<or> asked_to_drop s q j (tu_since (hb_tunnels s ! k))"
        using ds unfolding drops_ok_def by blast
      then show ?thesis using same[OF \<open>k < n\<close>] by (auto simp: asked fields(2))
    qed
  next
    fix q q' j m k assume mk: "open_at t q j m" "open_at t q' j k" "m < k"
    have k: "k \<le> n" using mk(2) by (simp add: open_at_def fields(3))
    then have m: "open_at s q j m" "\<not> (q = r \<and> j = i)" "m < n" using mk opens by auto
    show "asked_to_drop t q j (tu_since (hb_tunnels t ! m))"
    proof (cases "k = n")
      case True
      then have "j = i" using mk(2) opens by simp
      then have "q \<noteq> r" "tu_device (hb_tunnels s ! m) = i" "q < hb_replicas s"
        using m conn_bound[OF cs, of q j m] by (auto simp: open_at_def)
      then show ?thesis using \<open>j = i\<close> assms(4) m(3) same(2)[OF m(3)] by (simp add: asked n_def)
    next
      case False
      then have "open_at s q' j k" using mk(2) opens by simp
      then have "asked_to_drop s q j (tu_since (hb_tunnels s ! m))" using ds m(1) mk(3) unfolding drops_ok_def by blast
      then show ?thesis using same(2)[OF m(3)] by (simp add: asked)
    qed
  qed
  ultimately show ?thesis by (simp add: tn_ok_def t_def)
qed

lemma tn_ok_step: "tn_ok s \<Longrightarrow> may_happen e s \<Longrightarrow> in_time e s \<Longrightarrow> tn_ok (tn_step e s)"
proof (cases e)
  case (Served r i hash since)
  assume ok: "tn_ok s" and may: "may_happen e s" and time: "in_time e s"
  have bound: "\<forall>(r, i, hash) \<in> set (hb_admitted s). r < hb_replicas s" using ok admitted_bound by (simp add: tn_ok_def)
  have "\<forall>(r, i, hash) \<in> set (remove1 (r, i, hash) (hb_admitted s)). r < hb_replicas s" using bound by (auto dest: notin_set_remove1)
  then have "tn_ok (s\<lparr>hb_admitted := remove1 (r, i, hash) (hb_admitted s)\<rparr>)" using ok tn_ok_admitted by blast
  then show ?thesis using may time bound Served by (simp add: in_time_def) (rule tn_ok_served; auto)
qed (auto simp: tn_ok_added tn_ok_token tn_ok_broke tn_ok_ended tn_ok_delivered tn_ok_revalidate tn_ok_letter handleDeleteDevice_def handleRotateDevice_def
    intro!: tn_ok_registry)

lemma tn_ok_new: "tn_ok (new_hubs n)"
  by (simp add: tn_ok_def conns_ok_def newest_ok_def drops_ok_def open_at_def new_hubs_def localConn_def)

lemma tn_ok_run: "tn_ok s \<Longrightarrow> orderly es s \<Longrightarrow> tn_ok (tn_run es s)"
  by (induction es arbitrary: s) (simp_all add: tn_ok_step)

section \<open>A hub at rest\<close>

lemma open_tunnel_is_at: "conns_ok s \<Longrightarrow> n < length (hb_tunnels s) \<Longrightarrow> tu_open (hb_tunnels s ! n)
  \<Longrightarrow> \<exists>r. open_at s r (tu_device (hb_tunnels s ! n)) n"
  unfolding conns_ok_def by blast

lemma nothing_asked [simp]: "hb_drops s = [] \<Longrightarrow> \<not> asked_to_drop s r i t"
  by (simp add: asked_to_drop_def)

lemma rest_newest:
  assumes "tn_ok s" "hb_drops s = []" "open_at s r i m" "open_at s q i n"
  shows "m = n"
  using assms unfolding tn_ok_def drops_ok_def by (metis linorder_neqE_nat nothing_asked)


text \<open>A device moves to another replica and another is deleted; the requests are delivered.\<close>

definition a_day :: "tunnel_event list" where
  "a_day = [Added ''d'' ''h'', Added ''e'' ''k'', Token 0 ''d'' ''h'', Served 0 ''d'' ''h'' 1, Token 1 ''e'' ''k'', Served 1 ''e'' ''k'' 2,
     Token 1 ''d'' ''h'', Served 1 ''d'' ''h'' 3, Deleted 0 ''e'',
     Delivered \<lparr>dr_to = 1, dr_device = ''d'', dr_since = Some 1\<rparr>, Delivered \<lparr>dr_to = 0, dr_device = ''e'', dr_since = Some 2\<rparr>,
     Delivered \<lparr>dr_to = 0, dr_device = ''d'', dr_since = Some 3\<rparr>, Delivered \<lparr>dr_to = 1, dr_device = ''e'', dr_since = None\<rparr>,
     Ended 0 0]"

lemma a_day_is_orderly: "orderly a_day (new_hubs 2)"
  by code_simp


section \<open>Reading the registry again\<close>

lemma dropped_all: "localConn q j (fold (dropConn r) is s) = (if q = r \<and> j \<in> set is then None else localConn q j s)"
  by (induction "is" arbitrary: s) auto

text \<open>After a replica has read the registry again, it has no tunnel of a deleted device or with an old token.\<close>

theorem revalidated_has_no_stale:
  "localConn r i (revalidateConns r s) = Some n \<Longrightarrow> \<not> stale_conn s i n"
proof -
  assume "localConn r i (revalidateConns r s) = Some n"
  then have "i \<notin> set (map fst (filter (\<lambda>(i, n). stale_conn s i n) (hb_conns s r)))" and "map_of (hb_conns s r) i = Some n"
    unfolding revalidateConns_def dropped_all by (simp_all add: localConn_def split: if_splits)
  moreover from this(2) have "(i, n) \<in> set (hb_conns s r)" by (rule map_of_SomeD)
  ultimately show ?thesis by (auto simp: image_iff)
qed

section \<open>Out of time\<close>

text \<open>
  A device deleted between the look-up of its token and its being served keeps its tunnel: handleAgent does not look
  again, and a hub on its own never reads the registry again.
\<close>

definition deleted_meanwhile :: "tunnel_event list" where
  "deleted_meanwhile = [Added ''d'' ''h'', Token 0 ''d'' ''h'', Deleted 0 ''d'', Served 0 ''d'' ''h'' 1]"

theorem deleted_device_stays:
  "hb_devices (tn_run deleted_meanwhile (new_hubs 1)) ''d'' = None \<and> hb_drops (tn_run deleted_meanwhile (new_hubs 1)) = []
   \<and> open_at (tn_run deleted_meanwhile (new_hubs 1)) 0 ''d'' 0"
  by code_simp

text \<open>
  The time of a tunnel is that of its replica's clock: if the clock of the replica a device moves to is behind, the
  request to drop the old tunnel spares it, and both stay open.
\<close>

definition clocks_apart :: "tunnel_event list" where
  "clocks_apart = [Added ''d'' ''h'', Token 0 ''d'' ''h'', Served 0 ''d'' ''h'' 9,
     Delivered \<lparr>dr_to = 1, dr_device = ''d'', dr_since = Some 9\<rparr>, Token 1 ''d'' ''h'', Served 1 ''d'' ''h'' 5,
     Delivered \<lparr>dr_to = 0, dr_device = ''d'', dr_since = Some 5\<rparr>]"

theorem both_stay_open:
  "hb_drops (tn_run clocks_apart (new_hubs 2)) = [] \<and> open_at (tn_run clocks_apart (new_hubs 2)) 0 ''d'' 0
   \<and> open_at (tn_run clocks_apart (new_hubs 2)) 1 ''d'' 1"
  by code_simp

end
