(* ===== verification/Dash_List.thy ===== *)
theory Dash_List
  imports Settings Session_Hooks
begin

text \<open>
  The session list of the dashboard (internal/tui: tui.go, tasks.go, dupconfirm.go, listclick.go): which sessions it
  shows in which order, where the cursor is after every event, and what a key asks of the store. The rows it draws, the
  preview beside the list and the messages in the footer are outside; what strings.ToLower does is the argument lower.
\<close>

section \<open>What is shown\<close>

definition groupOf :: "session \<Rightarrow> string" where
  "groupOf s =
     (if se_user_group s \<noteq> [] then se_user_group s
      else if se_repo s \<noteq> [] then se_repo s
      else if se_cwd s \<noteq> [] then base_name (se_cwd s)
      else [])"

definition sessionMatchesQuery :: "(string \<Rightarrow> string) \<Rightarrow> session \<Rightarrow> string \<Rightarrow> bool" where
  "sessionMatchesQuery lower s q \<longleftrightarrow>
     Ref s \<noteq> [] \<and> (q = lower (Ref s) \<or> MatchesRef q (se_host_letter s) (se_num s))
     \<or> list_ex (\<lambda>f. sublist q (lower f))
         [DisplayTitle s, se_user_group s, se_repo s, se_cwd s, se_branch s, se_project s, se_id s]"

definition activityAt :: "session \<Rightarrow> gotime option" where
  "activityAt s = (if se_last_activity s \<noteq> None then se_last_activity s else se_last_seen s)"

definition moved_later :: "session \<Rightarrow> session \<Rightarrow> bool" where
  "moved_later a b =
     (let ta = moment (activityAt a); tb = moment (activityAt b) in if ta \<noteq> tb then tb < ta else se_num b < se_num a)"

definition byActivity :: "session list \<Rightarrow> session list" where
  "byActivity src = stable_sort moved_later src"

definition marked_later :: "session \<Rightarrow> session \<Rightarrow> bool" where
  "marked_later a b \<longleftrightarrow> moment (se_later_at b) < moment (se_later_at a)"

definition laterFirst :: "session list \<Rightarrow> session list" where
  "laterFirst src =
     (let lat = filter se_later src; rest = filter (\<lambda>s. \<not> se_later s) src
      in if lat = [] then src else stable_sort marked_later lat @ rest)"

text \<open>The order of the projects: that of the last session seen of each.\<close>

fun project_orders :: "session list \<Rightarrow> (string \<Rightarrow> int option) \<Rightarrow> string \<Rightarrow> int option" where
  "project_orders [] m = m"
| "project_orders (s # ss) m =
     project_orders ss (if se_project s \<noteq> [] then m(se_project s := Some (se_project_order s)) else m)"

definition order_of :: "session list \<Rightarrow> string \<Rightarrow> int" where
  "order_of src p = (case project_orders src (\<lambda>_. None) p of None \<Rightarrow> 0 | Some n \<Rightarrow> n)"

definition block_before :: "(string \<Rightarrow> int) \<Rightarrow> session \<Rightarrow> session \<Rightarrow> bool" where
  "block_before order a b =
     (if se_project a \<noteq> se_project b then
        (if order (se_project a) \<noteq> order (se_project b) then order (se_project a) < order (se_project b)
         else se_project a < se_project b)
      else if se_favorite a \<noteq> se_favorite b then se_favorite a
      else if se_favorite a \<and> moment (se_pinned_at a) \<noteq> moment (se_pinned_at b) then
        moment (se_pinned_at b) < moment (se_pinned_at a)
      else if moment (se_first_seen a) \<noteq> moment (se_first_seen b) then moment (se_first_seen b) < moment (se_first_seen a)
      else se_num b < se_num a)"

definition projectsFirst :: "session list \<Rightarrow> session list" where
  "projectsFirst src =
     (let ins = filter (\<lambda>s. se_project s \<noteq> []) src; rest = filter (\<lambda>s. se_project s = []) src
      in if ins = [] then src else stable_sort (block_before (order_of src)) ins @ rest)"

section \<open>The state\<close>

text \<open>A claude started by the key n and not registered yet, and those that wait on a dialog before they register.\<close>

record spawned =
  sp_pty :: string
  sp_tag :: int
  sp_sid :: string
  sp_cwd :: string
  sp_group :: string
  sp_at :: "gotime option"

record waitingSpawn =
  wp_cwd :: string
  wp_prompt :: string

record dash =
  da_all :: "session list"
  da_list :: "session list"
  da_sel :: int
  da_group :: string
  da_account :: string
  da_attention :: bool
  da_search :: string
  da_locked :: bool
  da_archived :: bool
  da_settings :: settings
  da_group_sel :: "string \<Rightarrow> string option"
  da_removed :: "string \<times> int"
  da_spawn :: spawned
  da_alive :: "string \<Rightarrow> bool"
  da_waiting :: "(string \<times> waitingSpawn) list"
  da_focus :: string
  da_dwell :: "string \<times> gotime option"
  da_blurred :: bool
  da_seen_sent :: "string \<Rightarrow> gotime option"
  da_nav_at :: "gotime option"
  da_click :: "int \<times> gotime option"
  da_dup :: "string option"
  da_ask_group :: bool
  da_ask_restart :: bool

definition no_spawn :: spawned where
  "no_spawn = \<lparr>sp_pty = [], sp_tag = 0, sp_sid = [], sp_cwd = [], sp_group = [], sp_at = None\<rparr>"

definition newModel :: "settings \<Rightarrow> dash" where
  "newModel cfg =
     \<lparr>da_all = [], da_list = [], da_sel = 0, da_group = [], da_account = [], da_attention = False, da_search = [],
      da_locked = False, da_archived = False, da_settings = cfg, da_group_sel = (\<lambda>_. None), da_removed = ([], 0),
      da_spawn = no_spawn, da_alive = (\<lambda>_. False), da_waiting = [], da_focus = [], da_dwell = ([], None), da_blurred = False,
      da_seen_sent = (\<lambda>_. None), da_nav_at = None, da_click = (0, None), da_dup = None,
      da_ask_group = False, da_ask_restart = False\<rparr>"

text \<open>The filters, one after the other.\<close>

definition passes :: "(string \<Rightarrow> string) \<Rightarrow> dash \<Rightarrow> session list" where
  "passes lower d =
     (let src = da_all d;
          src = (if da_account d \<noteq> [] then filter (\<lambda>s. se_account s = da_account d) src else src);
          src = (if da_group d \<noteq> [] then filter (\<lambda>s. groupOf s = da_group d) src else src);
          src = (if da_attention d then filter (\<lambda>s. se_attention s \<noteq> []) src else src)
      in if da_search d \<noteq> [] then filter (\<lambda>s. sessionMatchesQuery lower s (lower (da_search d))) src else src)"

definition arranged :: "settings \<Rightarrow> session list \<Rightarrow> session list" where
  "arranged cfg src =
     (let src = (if cfg_recent_order cfg then byActivity src else laterFirst (projectsFirst src))
      in if cfg_newest_at_bottom cfg then rev src else src)"

definition applyGroupFilter :: "(string \<Rightarrow> string) \<Rightarrow> dash \<Rightarrow> dash" where
  "applyGroupFilter lower d = d\<lparr>da_list := arranged (da_settings d) (passes lower d)\<rparr>"

section \<open>The cursor\<close>

text \<open>The row of the first session with an id, counted from 0.\<close>

fun row_of :: "string \<Rightarrow> session list \<Rightarrow> nat option" where
  "row_of i [] = None"
| "row_of i (s # ss) = (if se_id s = i then Some 0 else map_option Suc (row_of i ss))"

definition on_row :: "dash \<Rightarrow> bool" where
  "on_row d \<longleftrightarrow> 0 \<le> da_sel d \<and> da_sel d < int (length (da_list d))"

definition currentSessionID :: "dash \<Rightarrow> string" where
  "currentSessionID d = (if on_row d then se_id (da_list d ! nat (da_sel d)) else [])"

definition defaultSelectionIdx :: "dash \<Rightarrow> int" where
  "defaultSelectionIdx d =
     (if da_list d = [] then 0 else if cfg_newest_at_bottom (da_settings d) then int (length (da_list d)) - 1 else 0)"

definition rememberSelection :: "dash \<Rightarrow> dash" where
  "rememberSelection d =
     (let i = currentSessionID d in if i = [] then d else d\<lparr>da_group_sel := (da_group_sel d)(da_group d := Some i)\<rparr>)"

definition restoreSelection :: "dash \<Rightarrow> dash option" where
  "restoreSelection d =
     (case da_group_sel d (da_group d) of
        None \<Rightarrow> None
      | Some i \<Rightarrow> (case row_of i (da_list d) of None \<Rightarrow> None | Some n \<Rightarrow> Some (d\<lparr>da_sel := int n\<rparr>)))"

definition clamp :: "int \<Rightarrow> int \<Rightarrow> int \<Rightarrow> int" where
  "clamp v lo hi = (if v < lo then lo else if hi < v then hi else v)"

definition move :: "int \<Rightarrow> dash \<Rightarrow> dash" where
  "move delta d = (if da_list d = [] then d else d\<lparr>da_sel := clamp (da_sel d + delta) 0 (int (length (da_list d)) - 1)\<rparr>)"

definition jumpTo :: "int \<Rightarrow> dash \<Rightarrow> dash" where
  "jumpTo idx d =
     (if da_list d = [] then d
      else let idx = (if idx < 0 then int (length (da_list d)) - 1 else idx)
           in d\<lparr>da_sel := clamp idx 0 (int (length (da_list d)) - 1)\<rparr>)"

text \<open>Milliseconds; a time that was never set is long past.\<close>

definition passed :: "gotime \<Rightarrow> gotime option \<Rightarrow> int" where
  "passed now t = unix_milli now - moment t"

definition navRepeatGap :: int where
  "navRepeatGap = 200"

text \<open>Go's remainder has the sign of the dividend.\<close>

definition wrapped :: "int \<Rightarrow> int \<Rightarrow> int" where
  "wrapped x n = (let r = (if x < 0 then - ((- x) mod n) else x mod n) + n in r mod n)"

definition moveWrap :: "int \<Rightarrow> bool \<Rightarrow> gotime \<Rightarrow> dash \<Rightarrow> dash" where
  "moveWrap delta repeat now d =
     (let n = int (length (da_list d));
          run = (repeat \<or> passed now (da_nav_at d) < navRepeatGap);
          d = d\<lparr>da_nav_at := Some now\<rparr>;
          nxt = da_sel d + delta
      in if n \<le> 1 then d
         else if nxt < 0 \<or> n \<le> nxt then (if run then d else jumpTo (wrapped nxt n) d)
         else jumpTo nxt d)"

section \<open>The tabs\<close>

text \<open>The labels of the tabs are put in order by exchanging.\<close>

fun settle :: "string \<Rightarrow> string list \<Rightarrow> string \<times> string list" where
  "settle x [] = (x, [])"
| "settle x (y # ys) =
     (if y < x then (let (m, r) = settle y ys in (m, x # r)) else (let (m, r) = settle x ys in (m, y # r)))"

lemma settle_length: "length (snd (settle x ys)) = length ys"
  by (induction ys arbitrary: x) (auto simp: split_beta)

function exchange_sort :: "string list \<Rightarrow> string list" where
  "exchange_sort [] = []"
| "exchange_sort (x # xs) = (let (m, r) = settle x xs in m # exchange_sort r)"
  by pat_completeness auto
termination
  by (relation "measure length") (auto, metis settle_length snd_conv lessI)

definition user_groups :: "session list \<Rightarrow> string list" where
  "user_groups ss = map se_user_group (filter (\<lambda>s. se_user_group s \<noteq> []) ss)"

definition auto_groups :: "session list \<Rightarrow> string list" where
  "auto_groups ss =
     map (\<lambda>s. if se_repo s \<noteq> [] then se_repo s else base_name (se_cwd s))
       (filter (\<lambda>s. se_user_group s = [] \<and> (se_repo s \<noteq> [] \<or> se_cwd s \<noteq> [])) ss)"

definition uniqueGroups :: "dash \<Rightarrow> string list" where
  "uniqueGroups d =
     (let user = remdups (user_groups (da_all d));
          auto = (if cfg_auto_repo_tabs (da_settings d) then remdups (auto_groups (da_all d)) else [])
      in [] # exchange_sort (user @ filter (\<lambda>g. g \<notin> set user) auto))"

fun index_in :: "string \<Rightarrow> string list \<Rightarrow> nat" where
  "index_in g [] = 0"
| "index_in g (x # xs) = (if x = g then 0 else Suc (index_in g xs))"

definition cycleGroup :: "(string \<Rightarrow> string) \<Rightarrow> int \<Rightarrow> dash \<Rightarrow> dash" where
  "cycleGroup lower delta d =
     (let tabs = uniqueGroups d
      in if length tabs \<le> 1 then d
         else let idx = (if da_group d \<in> set tabs then index_in (da_group d) tabs else 0);
                  idx = (int idx + delta + int (length tabs)) mod int (length tabs);
                  d = applyGroupFilter lower ((rememberSelection d)\<lparr>da_group := tabs ! nat idx\<rparr>)
              in (case restoreSelection d of Some d \<Rightarrow> d | None \<Rightarrow> d\<lparr>da_sel := defaultSelectionIdx d\<rparr>))"

section \<open>Claudes that are starting\<close>

definition waiting_row :: "gotime \<Rightarrow> string \<times> waitingSpawn \<Rightarrow> session" where
  "waiting_row now kw =
     zero_session\<lparr>se_id := fst kw, se_cwd := wp_cwd (snd kw), se_title := ''new claude session (waiting for you)'',
       se_status := StatusActive, se_attention := AttentionNeedsYou, se_attention_reason := wp_prompt (snd kw), se_last_seen := Some now\<rparr>"

definition injectWaitingSpawns :: "gotime \<Rightarrow> dash \<Rightarrow> dash" where
  "injectWaitingSpawns now d =
     (let have_ids = set (map se_id (da_all d));
          new = filter (\<lambda>kw. fst kw \<notin> have_ids \<and> fst kw \<noteq> sp_pty (da_spawn d)) (da_waiting d)
      in d\<lparr>da_all := rev (map (waiting_row now) new) @ da_all d\<rparr>)"

definition spawn_row :: "dash \<Rightarrow> session" where
  "spawn_row d =
     (let sp = da_spawn d;
          s = zero_session\<lparr>se_id := sp_pty sp, se_cwd := sp_cwd sp, se_title := ''new claude session (starting'' @ ellipsis @ '')'',
            se_user_group := sp_group sp, se_last_seen := sp_at sp, se_status := StatusActive\<rparr>
      in case map_of (da_waiting d) (sp_pty sp) of
           None \<Rightarrow> s
         | Some w \<Rightarrow> s\<lparr>se_attention := AttentionNeedsYou, se_attention_reason := wp_prompt w\<rparr>)"

definition forget_spawn :: "dash \<Rightarrow> dash" where
  "forget_spawn d = d\<lparr>da_spawn := (da_spawn d)\<lparr>sp_pty := []\<rparr>\<rparr>"

definition injectSpawnRow :: "gotime \<Rightarrow> dash \<Rightarrow> dash" where
  "injectSpawnRow now d =
     (let d = injectWaitingSpawns now d; pty = sp_pty (da_spawn d)
      in if pty = [] then d
         else if \<not> da_alive d pty then forget_spawn d
         else if pty \<in> set (map se_id (da_all d)) then d
         else d\<lparr>da_all := spawn_row d # da_all d\<rparr>)"

definition resolveSpawnSID :: "(string \<times> int) list \<Rightarrow> dash \<Rightarrow> dash" where
  "resolveSpawnSID pids d =
     (let sp = da_spawn d
      in if sp_pty sp = [] \<or> sp_sid sp \<noteq> [] then d
         else case map_of pids (sp_pty sp) of
                None \<Rightarrow> d
              | Some pid \<Rightarrow>
                  (case find (\<lambda>(k, p). p = pid \<and> k \<noteq> sp_pty sp \<and> \<not> prefix ''pid-'' k) pids of
                     None \<Rightarrow> d
                   | Some (k, _) \<Rightarrow> d\<lparr>da_spawn := sp\<lparr>sp_sid := k\<rparr>\<rparr>))"

definition is_spawned :: "spawned \<Rightarrow> session \<Rightarrow> bool" where
  "is_spawned sp s \<longleftrightarrow>
     se_id s \<noteq> sp_pty sp \<and> (sp_sid sp \<noteq> [] \<and> se_id s = sp_sid sp \<or> sp_tag sp \<noteq> 0 \<and> se_wrapper_pid s = sp_tag sp)"

definition show_spawned :: "(string \<Rightarrow> string) \<Rightarrow> session \<Rightarrow> dash \<Rightarrow> dash" where
  "show_spawned lower tgt d =
     (let d = (if \<not> da_locked d \<and> da_group d \<noteq> [] \<and> groupOf tgt \<noteq> da_group d
               then (rememberSelection d)\<lparr>da_group := groupOf tgt\<rparr> else d);
          d = (if da_search d \<noteq> [] \<and> \<not> sessionMatchesQuery lower tgt (lower (da_search d)) then d\<lparr>da_search := []\<rparr> else d);
          d = applyGroupFilter lower d
      in case row_of (se_id tgt) (da_list d) of None \<Rightarrow> d | Some n \<Rightarrow> d\<lparr>da_sel := int n, da_focus := se_id tgt\<rparr>)"

definition selectSpawned :: "(string \<Rightarrow> string) \<Rightarrow> dash \<Rightarrow> dash" where
  "selectSpawned lower d =
     (let pty = sp_pty (da_spawn d)
      in if pty = [] then d
         else case find (is_spawned (da_spawn d)) (da_all d) of
                None \<Rightarrow> d
              | Some tgt \<Rightarrow>
                  let held = (currentSessionID d = pty);
                      d = (forget_spawn d)\<lparr>da_all := filter (\<lambda>s. se_id s \<noteq> pty) (da_all d)\<rparr>
                  in if held then show_spawned lower tgt d else d)"

section \<open>What comes in\<close>

datatype dash_cmd =
  Mark_seen string | Set_archived string bool | Set_later string bool | Set_favorite string bool | Restart_session string

definition seenDwell :: int where
  "seenDwell = 3000"

definition resend_gap :: int where
  "resend_gap = 2000"

definition markSelectedSeen :: "gotime \<Rightarrow> dash \<Rightarrow> dash \<times> dash_cmd list" where
  "markSelectedSeen now d =
     (if \<not> on_row d then (d, [])
      else
        let s = da_list d ! nat (da_sel d);
            d = (if se_id s \<noteq> fst (da_dwell d) then d\<lparr>da_dwell := (se_id s, Some now)\<rparr> else d)
        in if se_attention s \<noteq> AttentionDone \<and> \<not> se_unseen s then (d, [])
           else if da_blurred d \<or> passed now (snd (da_dwell d)) < seenDwell then (d, [])
           else if (case da_seen_sent d (se_id s) of None \<Rightarrow> False | Some t \<Rightarrow> passed now (Some t) < resend_gap) then (d, [])
           else (d\<lparr>da_seen_sent := (da_seen_sent d)(se_id s := Some now)\<rparr>, [Mark_seen (se_id s)]))"

text \<open>The tab looked at is gone: the next one, or all.\<close>

definition leave_empty_tab :: "dash \<Rightarrow> dash" where
  "leave_empty_tab d =
     (if \<not> da_locked d \<and> da_group d \<noteq> [] then
        let tabs = uniqueGroups d
        in if da_group d \<in> set tabs then d else d\<lparr>da_group := (if 1 < length tabs then tabs ! 1 else [])\<rparr>
      else d)"

definition keep_cursor :: "string \<Rightarrow> dash \<Rightarrow> dash" where
  "keep_cursor prev d =
     (case if prev = [] then None else row_of prev (da_list d) of
        Some n \<Rightarrow> d\<lparr>da_sel := int n\<rparr>
      | None \<Rightarrow>
          d\<lparr>da_sel := (if prev \<noteq> [] \<and> prev = fst (da_removed d) then snd (da_removed d) else defaultSelectionIdx d),
            da_removed := ([], snd (da_removed d))\<rparr>)"

definition bound_cursor :: "dash \<Rightarrow> dash" where
  "bound_cursor d =
     (let n = int (length (da_list d)); sel = (if n \<le> da_sel d then n - 1 else da_sel d)
      in d\<lparr>da_sel := (if sel < 0 then 0 else sel)\<rparr>)"

text \<open>The rows after the sessions are loaded again, before the cursor is put on one.\<close>

definition reloaded :: "(string \<Rightarrow> string) \<Rightarrow> session list \<Rightarrow> gotime \<Rightarrow> dash \<Rightarrow> dash" where
  "reloaded lower ss now d = applyGroupFilter lower (leave_empty_tab (injectSpawnRow now (d\<lparr>da_all := ss\<rparr>)))"

definition sessionsMsg :: "(string \<Rightarrow> string) \<Rightarrow> session list \<Rightarrow> gotime \<Rightarrow> dash \<Rightarrow> dash \<times> dash_cmd list" where
  "sessionsMsg lower ss now d =
     markSelectedSeen now (bound_cursor (selectSpawned lower (keep_cursor (currentSessionID d) (reloaded lower ss now d))))"

definition ptyListMsg :: "(string \<Rightarrow> bool) \<Rightarrow> (string \<times> waitingSpawn) list \<Rightarrow> (string \<times> int) list \<Rightarrow> dash \<Rightarrow> dash" where
  "ptyListMsg alive waiting pids d = resolveSpawnSID pids (d\<lparr>da_alive := alive, da_waiting := waiting\<rparr>)"

text \<open>The last row with an id.\<close>

definition last_row_of :: "string \<Rightarrow> session list \<Rightarrow> nat option" where
  "last_row_of i ss = map_option (\<lambda>n. length ss - 1 - n) (row_of i (rev ss))"

definition ptyStartedMsg :: "(string \<Rightarrow> string) \<Rightarrow> bool \<Rightarrow> string \<Rightarrow> string \<Rightarrow> int \<Rightarrow> string \<Rightarrow> gotime \<Rightarrow> dash \<Rightarrow> dash" where
  "ptyStartedMsg lower live sid key tag cwd now d =
     (let d = d\<lparr>da_alive := (da_alive d)(key := True)\<rparr>
      in if live \<and> sid = [] then
           let d = d\<lparr>da_spawn := \<lparr>sp_pty = key, sp_tag = tag, sp_sid = [], sp_cwd = cwd, sp_group = da_group d, sp_at = Some now\<rparr>\<rparr>;
               d = applyGroupFilter lower (injectSpawnRow now d);
               d = (case last_row_of key (da_list d) of None \<Rightarrow> d | Some n \<Rightarrow> d\<lparr>da_sel := int n\<rparr>)
           in d\<lparr>da_focus := key\<rparr>
         else if live then d\<lparr>da_focus := key\<rparr>
         else d)"

section \<open>Keys and clicks\<close>

text \<open>Indexing the list beside it panics: None.\<close>

definition under_cursor :: "dash \<Rightarrow> session option" where
  "under_cursor d = (if on_row d then Some (da_list d ! nat (da_sel d)) else None)"

definition with_selected :: "(session \<Rightarrow> dash \<times> dash_cmd list) \<Rightarrow> dash \<Rightarrow> (dash \<times> dash_cmd list) option" where
  "with_selected f d = (if da_list d = [] then Some (d, []) else map_option f (under_cursor d))"

definition toggleArchiveCurrent :: "dash \<Rightarrow> (dash \<times> dash_cmd list) option" where
  "toggleArchiveCurrent d =
     with_selected (\<lambda>s. (d\<lparr>da_removed := (se_id s, da_sel d)\<rparr>, [Set_archived (se_id s) (\<not> se_archived s)])) d"

definition toggleFavoriteCurrent :: "dash \<Rightarrow> (dash \<times> dash_cmd list) option" where
  "toggleFavoriteCurrent d = with_selected (\<lambda>s. (d, [Set_favorite (se_id s) (\<not> se_favorite s)])) d"

definition toggleLaterCurrent :: "dash \<Rightarrow> (dash \<times> dash_cmd list) option" where
  "toggleLaterCurrent d = with_selected (\<lambda>s. (d, if se_num s \<le> 0 then [] else [Set_later (se_id s) (\<not> se_later s)])) d"

definition promptArchiveCurrentGroup :: "dash \<Rightarrow> dash" where
  "promptArchiveCurrentGroup d = (if da_group d = [] \<or> da_list d = [] then d else d\<lparr>da_ask_group := True\<rparr>)"

definition archiveCurrentGroup :: "(string \<Rightarrow> string) \<Rightarrow> dash \<Rightarrow> dash \<times> dash_cmd list" where
  "archiveCurrentGroup lower d =
     (if da_locked d then d else cycleGroup lower 1 d, map (\<lambda>s. Set_archived (se_id s) (\<not> da_archived d)) (da_list d))"

definition askRestartSession :: "dash \<Rightarrow> (dash \<times> dash_cmd list) option" where
  "askRestartSession d = with_selected (\<lambda>s. (if da_alive d (se_id s) then d\<lparr>da_ask_restart := True\<rparr> else d, [])) d"

definition restartSessionCurrent :: "dash \<Rightarrow> (dash \<times> dash_cmd list) option" where
  "restartSessionCurrent d = with_selected (\<lambda>s. (d, [Restart_session (se_id s)])) d"

text \<open>The answer to the question asked, of the group first.\<close>

definition answer_question :: "(string \<Rightarrow> string) \<Rightarrow> bool \<Rightarrow> dash \<Rightarrow> (dash \<times> dash_cmd list) option" where
  "answer_question lower yes d =
     (if da_ask_group d then
        let d = d\<lparr>da_ask_group := False\<rparr> in Some (if yes then archiveCurrentGroup lower d else (d, []))
      else if da_ask_restart d then
        let d = d\<lparr>da_ask_restart := False\<rparr> in (if yes then restartSessionCurrent d else Some (d, []))
      else Some (d, []))"

definition showOtherView :: "dash \<Rightarrow> dash" where
  "showOtherView d = d\<lparr>da_archived := \<not> da_archived d, da_sel := 0\<rparr>"

definition toggleAttentionOnly :: "(string \<Rightarrow> string) \<Rightarrow> dash \<Rightarrow> dash" where
  "toggleAttentionOnly lower d =
     (let d = applyGroupFilter lower (d\<lparr>da_attention := \<not> da_attention d\<rparr>); n = int (length (da_list d))
      in if n \<le> da_sel d then d\<lparr>da_sel := max (n - 1) 0\<rparr> else d)"

definition next_account :: "string list \<Rightarrow> string \<Rightarrow> string" where
  "next_account names cur =
     (if cur \<in> set names then names ! ((index_in cur names + 1) mod length names) else hd names)"

definition cycleAccountFilter :: "(string \<Rightarrow> string) \<Rightarrow> string list \<Rightarrow> dash \<Rightarrow> dash" where
  "cycleAccountFilter lower accounts d =
     (let d = (if accounts = [] then d else d\<lparr>da_account := next_account ([] # accounts) (da_account d)\<rparr>)
      in (applyGroupFilter lower d)\<lparr>da_sel := 0\<rparr>)"

definition search_for :: "(string \<Rightarrow> string) \<Rightarrow> string \<Rightarrow> dash \<Rightarrow> dash" where
  "search_for lower text d = (applyGroupFilter lower (d\<lparr>da_search := trim_space text\<rparr>))\<lparr>da_sel := 0\<rparr>"

definition clear_filters :: "(string \<Rightarrow> string) \<Rightarrow> dash \<Rightarrow> dash" where
  "clear_filters lower d =
     (if da_search d \<noteq> [] \<or> da_account d \<noteq> [] \<or> da_attention d
      then (applyGroupFilter lower (d\<lparr>da_search := [], da_account := [], da_attention := False\<rparr>))\<lparr>da_sel := 0\<rparr>
      else d)"

text \<open>The settings as they are after a change, None when it was not saved.\<close>

definition toggleAutoRepoTabs :: "(string \<Rightarrow> string) \<Rightarrow> settings option \<Rightarrow> dash \<Rightarrow> dash" where
  "toggleAutoRepoTabs lower saved d =
     (case saved of
        None \<Rightarrow> d
      | Some cfg \<Rightarrow>
          let d = d\<lparr>da_settings := cfg\<rparr>
          in if \<not> cfg_auto_repo_tabs cfg \<and> da_group d \<noteq> [] \<and> da_group d \<notin> set (uniqueGroups d)
             then applyGroupFilter lower (d\<lparr>da_group := []\<rparr>) else d)"

definition toggleRecentOrder :: "(string \<Rightarrow> string) \<Rightarrow> settings option \<Rightarrow> dash \<Rightarrow> dash" where
  "toggleRecentOrder lower saved d =
     (case saved of
        None \<Rightarrow> d
      | Some cfg \<Rightarrow>
          let cur = currentSessionID d;
              d = applyGroupFilter lower (d\<lparr>da_settings := cfg\<rparr>)
          in case if cur = [] then None else row_of cur (da_list d) of
               Some n \<Rightarrow> d\<lparr>da_sel := int n\<rparr> | None \<Rightarrow> d\<lparr>da_sel := defaultSelectionIdx d\<rparr>)"

section \<open>Opening\<close>

datatype opened = Nothing_opened | Asked_first | Opened_ssh string | Opened_tmux string | Focused_live string | Started_pty string

definition runningElsewhere :: "dash \<Rightarrow> session \<Rightarrow> bool" where
  "runningElsewhere d s \<longleftrightarrow>
     \<not> (se_pane s \<noteq> [] \<or> da_alive d (se_id s)) \<and> (se_status s = StatusActive \<or> se_status s = StatusIdle)"

text \<open>The live screen of a session: None when there is none, else whether its claude has ended.\<close>

definition attachSession :: "bool \<Rightarrow> bool \<Rightarrow> (string \<Rightarrow> bool option) \<Rightarrow> dash \<Rightarrow> (dash \<times> opened) option" where
  "attachSession force remote live d =
     (if da_list d = [] then Some (d, Nothing_opened)
      else map_option (\<lambda>s.
        if \<not> force \<and> live (se_id s) = None \<and> runningElsewhere d s then (d\<lparr>da_dup := Some (se_id s)\<rparr>, Asked_first)
        else if remote then (d, Opened_ssh (se_id s))
        else if se_pane s \<noteq> [] then (d, Opened_tmux (se_pane s))
        else if live (se_id s) = Some False then (d, Focused_live (se_id s))
        else (d, Started_pty (se_id s))) (under_cursor d))"

definition handleKeyDupConfirm :: "bool \<Rightarrow> bool \<Rightarrow> (string \<Rightarrow> bool option) \<Rightarrow> dash \<Rightarrow> (dash \<times> opened) option" where
  "handleKeyDupConfirm yes remote live d =
     (case da_dup d of
        None \<Rightarrow> Some (d, Nothing_opened)
      | Some sid \<Rightarrow>
          let d = d\<lparr>da_dup := None\<rparr>
          in if \<not> yes then Some (d, Nothing_opened)
             else case row_of sid (da_list d) of
                    None \<Rightarrow> Some (d, Nothing_opened)
                  | Some n \<Rightarrow> attachSession True remote live (d\<lparr>da_sel := int n\<rparr>))"

definition doubleClickWindow :: int where
  "doubleClickWindow = 400"

definition openSessionByClick :: "bool \<Rightarrow> (string \<Rightarrow> bool option) \<Rightarrow> dash \<Rightarrow> (dash \<times> opened) option" where
  "openSessionByClick remote live d =
     (case under_cursor d of
        None \<Rightarrow> None
      | Some s \<Rightarrow>
          if live (se_id s) = Some False then Some (d, Focused_live (se_id s))
          else if da_alive d (se_id s) \<or> \<not> cfg_attach_enabled (da_settings d) then Some (d, Nothing_opened)
          else attachSession False remote live d)"

text \<open>A click on a row of the list.\<close>

definition clickSessionList :: "int \<Rightarrow> bool \<Rightarrow> (string \<Rightarrow> bool option) \<Rightarrow> gotime \<Rightarrow> dash \<Rightarrow> (dash \<times> opened) option" where
  "clickSessionList idx remote live now d =
     (if idx < 0 \<or> int (length (da_list d)) \<le> idx then Some (d, Nothing_opened)
      else
        let twice = (idx = fst (da_click d) \<and> passed now (snd (da_click d)) \<le> doubleClickWindow);
            d = (if twice then d\<lparr>da_click := (fst (da_click d), None)\<rparr> else d\<lparr>da_click := (idx, Some now)\<rparr>)
        in if idx \<noteq> da_sel d then Some (jumpTo idx d, Nothing_opened)
           else if \<not> twice then Some (d, Nothing_opened)
           else openSessionByClick remote live d)"

end
