(* ===== verification/Dash_Facts.thy ===== *)
theory Dash_Facts
  imports Dash_List
begin

text \<open>
  That the session list of the dashboard shows each session that passes the filters once, in one order; that the cursor
  stays on a row and on its session; what the marks and questions of the dashboard are about.
\<close>

section \<open>Sorting twice\<close>

text \<open>Those with a property in front, sorted, and the others behind as they were: one stable sort.\<close>

definition leading :: "('a \<Rightarrow> bool) \<Rightarrow> ('a \<Rightarrow> 'a \<Rightarrow> bool) \<Rightarrow> 'a \<Rightarrow> 'a \<Rightarrow> bool" where
  "leading P lt a b = (if P a \<noteq> P b then P a else P a \<and> lt a b)"

lemma sinsert_before: "\<forall>y \<in> set xs. \<not> lt y x \<Longrightarrow> sinsert lt x xs = x # xs"
  by (cases xs) auto

lemma sinsert_leading:
  "P x \<Longrightarrow> list_all P as \<Longrightarrow> list_all (\<lambda>b. \<not> P b) bs \<Longrightarrow> sinsert (leading P lt) x (as @ bs) = sinsert lt x as @ bs"
proof (induction as)
  case Nil
  then show ?case by (simp add: sinsert_before leading_def list_all_iff)
qed (simp add: leading_def)

lemma sinsert_trailing:
  "\<not> P x \<Longrightarrow> list_all P as \<Longrightarrow> list_all (\<lambda>b. \<not> P b) bs \<Longrightarrow> sinsert (leading P lt) x (as @ bs) = as @ x # bs"
proof (induction as)
  case Nil
  then show ?case by (simp add: sinsert_before leading_def list_all_iff)
qed (simp add: leading_def)

lemma leading_sort: "stable_sort lt (filter P xs) @ filter (\<lambda>x. \<not> P x) xs = stable_sort (leading P lt) xs"
proof (induction xs)
  case (Cons x xs)
  have "list_all P (stable_sort lt (filter P xs))" "list_all (\<lambda>x. \<not> P x) (filter (\<lambda>x. \<not> P x) xs)" by (simp_all add: list_all_iff)
  then show ?case using Cons.IH[symmetric] by (cases "P x") (simp_all add: sinsert_leading sinsert_trailing)
qed simp

text \<open>By one order, and by another where the first does not tell.\<close>

definition then_by :: "('a \<Rightarrow> 'a \<Rightarrow> bool) \<Rightarrow> ('a \<Rightarrow> 'a \<Rightarrow> bool) \<Rightarrow> 'a \<Rightarrow> 'a \<Rightarrow> bool" where
  "then_by lt1 lt2 a b \<longleftrightarrow> lt1 a b \<or> \<not> lt1 b a \<and> lt2 a b"

lemma strict_weak_then_by:
  assumes "strict_weak UNIV lt1" "strict_weak UNIV lt2"
  shows "strict_weak UNIV (then_by lt1 lt2)"
proof
  fix a b assume "then_by lt1 lt2 a b"
  then show "\<not> then_by lt1 lt2 b a"
    using strict_weak.asym[OF assms(1), of a b] strict_weak.asym[OF assms(2), of a b] by (auto simp: then_by_def)
next
  fix a b c assume n: "\<not> then_by lt1 lt2 a b" "\<not> then_by lt1 lt2 b c"
  have "\<not> lt1 a c" using n strict_weak.neg_trans[OF assms(1), of a b c] by (auto simp: then_by_def)
  moreover have "\<not> lt2 a c" if "\<not> lt1 c a"
  proof -
    have "\<not> lt1 b a" "\<not> lt1 c b"
      using n that strict_weak.neg_trans[OF assms(1), of c a b] strict_weak.neg_trans[OF assms(1), of b c a]
        strict_weak.neg_trans[OF assms(1), of b c a] strict_weak.neg_trans[OF assms(1), of c a b] by (auto simp: then_by_def)
    then show ?thesis using n strict_weak.neg_trans[OF assms(2), of a b c] by (auto simp: then_by_def)
  qed
  ultimately show "\<not> then_by lt1 lt2 a c" by (auto simp: then_by_def)
qed

lemma sorted_in_classes:
  "(\<And>k. sorted_wrt R (filter (E k) xs)) \<Longrightarrow> sorted_wrt (\<lambda>x y. E x y \<longrightarrow> E x x \<longrightarrow> R x y) xs"
proof (induction xs)
  case (Cons x xs)
  have "sorted_wrt R (filter (E k) xs)" for k using Cons.prems[of k] by (auto split: if_splits)
  moreover have "E x x \<Longrightarrow> \<forall>y \<in> set xs. E x y \<longrightarrow> R x y" using Cons.prems[of x] by auto
  ultimately show ?case using Cons.IH by auto
qed simp

lemma sort_twice:
  assumes s1: "strict_weak UNIV lt1" and s2: "strict_weak UNIV lt2"
  shows "stable_sort lt1 (stable_sort lt2 xs) = stable_sort (then_by lt1 lt2) xs"
proof (rule strict_weak.stable_sort_unique[OF strict_weak_then_by[OF assms]])
  let ?ys = "stable_sort lt1 (stable_sort lt2 xs)"
  let ?e1 = "\<lambda>k y. \<not> lt1 k y \<and> \<not> lt1 y k"
  let ?e2 = "\<lambda>k y. \<not> lt2 k y \<and> \<not> lt2 y k"
  have same: "filter (?e1 k) ?ys = filter (?e1 k) (stable_sort lt2 xs)" for k by (rule strict_weak.stable_sort_stable[OF s1]) simp_all
  have same2: "filter (?e2 k) (stable_sort lt2 xs) = filter (?e2 k) xs" for k by (rule strict_weak.stable_sort_stable[OF s2]) simp_all
  have o1: "in_order lt1 ?ys" by (rule strict_weak.sorted_stable_sort[OF s1]) simp
  have "in_order lt2 (filter (?e1 k) ?ys)" for k
    unfolding same by (rule sorted_wrt_filter) (rule strict_weak.sorted_stable_sort[OF s2], simp)
  then have "sorted_wrt (\<lambda>x y. ?e1 x y \<longrightarrow> ?e1 x x \<longrightarrow> \<not> lt2 y x) ?ys" by (rule sorted_in_classes)
  then have "sorted_wrt (\<lambda>x y. \<not> lt1 y x \<and> (?e1 x y \<longrightarrow> \<not> lt2 y x)) ?ys"
    using o1 strict_weak.irrefl[OF s1] by (simp add: sorted_wrt_iff_nth_less)
  then show "in_order (then_by lt1 lt2) ?ys" by (rule sorted_wrt_mono_rel[rotated]) (auto simp: then_by_def)
  show "filter (\<lambda>y. \<not> then_by lt1 lt2 k y \<and> \<not> then_by lt1 lt2 y k) ?ys = filter (\<lambda>y. \<not> then_by lt1 lt2 k y \<and> \<not> then_by lt1 lt2 y k) xs" for k
  proof -
    have both: "(\<lambda>y. \<not> then_by lt1 lt2 k y \<and> \<not> then_by lt1 lt2 y k) = (\<lambda>y. ?e2 k y \<and> ?e1 k y)"
      using strict_weak.asym[OF s1] strict_weak.asym[OF s2] by (auto simp: then_by_def fun_eq_iff)
    have swap: "filter (\<lambda>y. ?e2 k y \<and> ?e1 k y) zs = filter (?e1 k) (filter (?e2 k) zs)" "filter (\<lambda>y. ?e2 k y \<and> ?e1 k y) zs = filter (?e2 k) (filter (?e1 k) zs)" for zs
      unfolding filter_filter by (metis (mono_tags))+
    have "filter (\<lambda>y. ?e2 k y \<and> ?e1 k y) ?ys = filter (?e2 k) (filter (?e1 k) (stable_sort lt2 xs))" by (simp only: swap(2) same)
    also have "\<dots> = filter (\<lambda>y. ?e2 k y \<and> ?e1 k y) (stable_sort lt2 xs)" by (simp only: swap(2))
    also have "\<dots> = filter (\<lambda>y. ?e2 k y \<and> ?e1 k y) xs" by (simp only: swap(1) same2)
    finally show ?thesis unfolding both .
  qed
qed simp_all

section \<open>The order of the list\<close>

lemma strict_weak_leading: "strict_weak UNIV lt \<Longrightarrow> strict_weak UNIV (leading P lt)"
proof
  fix a b assume "strict_weak UNIV lt" "leading P lt a b"
  then show "\<not> leading P lt b a" using strict_weak.asym[of UNIV lt a b] by (auto simp: leading_def split: if_splits)
next
  fix a b c assume "strict_weak UNIV lt" "\<not> leading P lt a b" "\<not> leading P lt b c"
  then show "\<not> leading P lt a c" using strict_weak.neg_trans[of UNIV lt a b c] by (auto simp: leading_def split: if_splits)
qed

lemma strict_weak_marked: "strict_weak UNIV marked_later"
  by unfold_locales (auto simp: marked_later_def)

lemma strict_weak_moved: "strict_weak UNIV moved_later"
proof -
  have "strict_weak UNIV (\<lambda>a b. if moment (activityAt a) \<noteq> moment (activityAt b) then moment (activityAt b) < moment (activityAt a) else se_num b < se_num a)"
    by (rule strict_weak_by_desc) (unfold_locales; auto)
  then show ?thesis by (rule strict_weak_cong) (simp add: moved_later_def Let_def)
qed

lemma strict_weak_started:
  "strict_weak S (\<lambda>a b. if moment (se_first_seen a) \<noteq> moment (se_first_seen b) then moment (se_first_seen b) < moment (se_first_seen a) else se_num b < se_num a)"
  by (rule strict_weak_by_desc) (unfold_locales; auto)

text \<open>Inside a block: pins first, the last pinned of them first, then the last started.\<close>

definition in_block :: "session \<Rightarrow> session \<Rightarrow> bool" where
  "in_block a b =
     (if se_favorite a \<noteq> se_favorite b then se_favorite a
      else if se_favorite a \<and> moment (se_pinned_at a) \<noteq> moment (se_pinned_at b) then moment (se_pinned_at b) < moment (se_pinned_at a)
      else if moment (se_first_seen a) \<noteq> moment (se_first_seen b) then moment (se_first_seen b) < moment (se_first_seen a)
      else se_num b < se_num a)"

lemma strict_weak_in_block: "strict_weak S in_block"
proof -
  let ?st = "\<lambda>a b. if moment (se_first_seen a) \<noteq> moment (se_first_seen b) then moment (se_first_seen b) < moment (se_first_seen a) else se_num b < se_num a"
  let ?pin = "\<lambda>a b. if se_favorite a \<and> moment (se_pinned_at a) \<noteq> moment (se_pinned_at b) then moment (se_pinned_at b) < moment (se_pinned_at a) else ?st a b"
  have "strict_weak {x \<in> S. (\<not> se_favorite x) = k} ?pin" for k
  proof (cases k)
    case True
    show ?thesis by (rule strict_weak_cong[OF strict_weak_started]) (use True in auto)
  next
    case False
    have "strict_weak {x \<in> S. (\<not> se_favorite x) = k}
        (\<lambda>a b. if moment (se_pinned_at a) \<noteq> moment (se_pinned_at b) then moment (se_pinned_at b) < moment (se_pinned_at a) else ?st a b)"
      by (rule strict_weak_by_desc) (rule strict_weak_started)
    then show ?thesis by (rule strict_weak_cong) (use False in auto)
  qed
  then have "strict_weak S (\<lambda>a b. if (\<not> se_favorite a) \<noteq> (\<not> se_favorite b) then (\<not> se_favorite a) < (\<not> se_favorite b) else ?pin a b)"
    by (rule strict_weak_by)
  then show ?thesis by (rule strict_weak_cong) (auto simp: in_block_def)
qed

lemma strict_weak_block: "strict_weak UNIV (block_before order)"
proof -
  have "strict_weak UNIV (\<lambda>a b. if order (se_project a) \<noteq> order (se_project b) then order (se_project a) < order (se_project b)
      else if se_project a \<noteq> se_project b then se_project a < se_project b else in_block a b)"
    by (intro strict_weak_by strict_weak_in_block)
  then show ?thesis by (rule strict_weak_cong) (auto simp: block_before_def in_block_def)
qed

lemma projectsFirst_sort: "projectsFirst src = stable_sort (leading (\<lambda>s. se_project s \<noteq> []) (block_before (order_of src))) src"
proof -
  have "filter (\<lambda>s. se_project s \<noteq> []) src = [] \<Longrightarrow> filter (\<lambda>s. se_project s = []) src = src"
    by (simp add: filter_empty_conv filter_id_conv)
  then show ?thesis by (auto simp: projectsFirst_def leading_sort[symmetric] Let_def)
qed

lemma laterFirst_sort: "laterFirst src = stable_sort (leading se_later marked_later) src"
proof -
  have "filter se_later src = [] \<Longrightarrow> filter (\<lambda>s. \<not> se_later s) src = src"
    by (simp add: filter_empty_conv filter_id_conv)
  then show ?thesis by (auto simp: laterFirst_def leading_sort[symmetric] Let_def)
qed

text \<open>The order of the list in one comparison: by what moved last, or watch later first, then the projects.\<close>

definition listed_before :: "settings \<Rightarrow> session list \<Rightarrow> session \<Rightarrow> session \<Rightarrow> bool" where
  "listed_before cfg src =
     (if cfg_recent_order cfg then moved_later
      else then_by (leading se_later marked_later) (leading (\<lambda>s. se_project s \<noteq> []) (block_before (order_of src))))"

lemma strict_weak_listed: "strict_weak UNIV (listed_before cfg src)"
  by (simp add: listed_before_def strict_weak_moved strict_weak_then_by strict_weak_leading strict_weak_marked strict_weak_block)

lemma arranged_sort:
  "arranged cfg src = (if cfg_newest_at_bottom cfg then rev (stable_sort (listed_before cfg src) src) else stable_sort (listed_before cfg src) src)"
  by (simp add: arranged_def listed_before_def byActivity_def laterFirst_sort projectsFirst_sort sort_twice strict_weak_leading
      strict_weak_marked strict_weak_block)

lemma mset_arranged [simp]: "mset (arranged cfg src) = mset src"
  by (simp add: arranged_sort)

lemma set_arranged [simp]: "set (arranged cfg src) = set src"
  by (simp add: arranged_sort)

lemma length_arranged [simp]: "length (arranged cfg src) = length src"
  by (simp add: arranged_sort)

lemma arranged_Nil [simp]: "arranged cfg src = [] \<longleftrightarrow> src = []"
  by (simp add: arranged_sort)

text \<open>A session that passes all the filters that are set.\<close>

definition wanted :: "(string \<Rightarrow> string) \<Rightarrow> dash \<Rightarrow> session \<Rightarrow> bool" where
  "wanted lower d s \<longleftrightarrow>
     (da_account d = [] \<or> se_account s = da_account d) \<and> (da_group d = [] \<or> groupOf s = da_group d)
     \<and> (da_attention d \<longrightarrow> se_attention s \<noteq> []) \<and> (da_search d = [] \<or> sessionMatchesQuery lower s (lower (da_search d)))"

lemma passes_wanted: "passes lower d = filter (wanted lower d) (da_all d)"
proof -
  have maybe: "(if b then filter P xs else xs) = filter (\<lambda>x. b \<longrightarrow> P x) xs" for b P and xs :: "session list"
    by (cases b) simp_all
  show ?thesis unfolding passes_def Let_def maybe filter_filter by (rule filter_cong[OF refl]) (auto simp: wanted_def)
qed

text \<open>C29. The list shows exactly the loaded sessions that pass the filters, each as often as it was loaded, in the one
  order the dashboard promises: recent order is by the last activity; otherwise those to watch later come first, the last
  marked ahead, then the projects by their place, each with its pins ahead and then the last started, then the rest as
  the store gave them; equals keep the order of the store, and the whole is turned around with the newest at the bottom.
  The two passes of the code are one stable sort by one strict weak order.\<close>

theorem list_is_one_sort:
  "da_list (applyGroupFilter lower d) =
     (if cfg_newest_at_bottom (da_settings d) then rev else id)
       (stable_sort (listed_before (da_settings d) (filter (wanted lower d) (da_all d))) (filter (wanted lower d) (da_all d)))
   \<and> strict_weak UNIV (listed_before (da_settings d) (filter (wanted lower d) (da_all d)))"
  by (simp add: applyGroupFilter_def passes_wanted arranged_sort strict_weak_listed)

section \<open>Events\<close>

datatype dash_event =
  Sessions "session list" gotime
| Pty_list "string \<Rightarrow> bool" "(string \<times> waitingSpawn) list" "(string \<times> int) list"
| Pty_started bool string string int string gotime
| Nav int bool gotime
| Wheel int
| Jump int
| Tab int
| Key_x | Key_f | Key_L | Key_X
| Key_R "settings option"
| Key_O "settings option"
| Key_attention | Key_esc
| Key_account "string list"
| Search string
| Ask_archive | Ask_restart
| Answer bool
| Enter bool "string \<Rightarrow> bool option"
| Answer_dup bool bool "string \<Rightarrow> bool option"
| Click int bool "string \<Rightarrow> bool option" gotime
| Focus | Blur
| Settings_changed settings

fun dash_do :: "(string \<Rightarrow> string) \<Rightarrow> dash_event \<Rightarrow> dash \<Rightarrow> (dash \<times> dash_cmd list) option" where
  "dash_do lower (Sessions ss now) d = Some (sessionsMsg lower ss now d)"
| "dash_do lower (Pty_list alive waiting pids) d = Some (ptyListMsg alive waiting pids d, [])"
| "dash_do lower (Pty_started live sid key tag cwd now) d = Some (ptyStartedMsg lower live sid key tag cwd now d, [])"
| "dash_do lower (Nav delta repeat now) d = Some (moveWrap delta repeat now d, [])"
| "dash_do lower (Wheel delta) d = Some (move delta d, [])"
| "dash_do lower (Jump idx) d = Some (jumpTo idx d, [])"
| "dash_do lower (Tab delta) d = Some (if da_locked d then d else cycleGroup lower delta d, [])"
| "dash_do lower Key_x d = toggleArchiveCurrent d"
| "dash_do lower Key_f d = toggleFavoriteCurrent d"
| "dash_do lower Key_L d = toggleLaterCurrent d"
| "dash_do lower Key_X d = Some (showOtherView d, [])"
| "dash_do lower (Key_R saved) d = Some (toggleAutoRepoTabs lower saved d, [])"
| "dash_do lower (Key_O saved) d = Some (toggleRecentOrder lower saved d, [])"
| "dash_do lower Key_attention d = Some (toggleAttentionOnly lower d, [])"
| "dash_do lower Key_esc d = Some (clear_filters lower d, [])"
| "dash_do lower (Key_account accounts) d = Some (cycleAccountFilter lower accounts d, [])"
| "dash_do lower (Search text) d = Some (search_for lower text d, [])"
| "dash_do lower Ask_archive d = Some (promptArchiveCurrentGroup d, [])"
| "dash_do lower Ask_restart d = askRestartSession d"
| "dash_do lower (Answer yes) d = answer_question lower yes d"
| "dash_do lower (Enter remote live) d =
     (if cfg_attach_enabled (da_settings d) then map_option (\<lambda>(d, o'). (d, [])) (attachSession False remote live d) else Some (d, []))"
| "dash_do lower (Answer_dup yes remote live) d = map_option (\<lambda>(d, o'). (d, [])) (handleKeyDupConfirm yes remote live d)"
| "dash_do lower (Click idx remote live now) d = map_option (\<lambda>(d, o'). (d, [])) (clickSessionList idx remote live now d)"
| "dash_do lower Focus d = Some (d\<lparr>da_blurred := False, da_dwell := ([], snd (da_dwell d))\<rparr>, [])"
| "dash_do lower Blur d = Some (d\<lparr>da_blurred := True\<rparr>, [])"
| "dash_do lower (Settings_changed cfg) d = Some (d\<lparr>da_settings := cfg\<rparr>, [])"

text \<open>
  While a window or a question is open, other keys do nothing or answer it with no, and clicks beside it do nothing. The
  wheel goes on moving the cursor.
\<close>

definition other_key :: "dash_event \<Rightarrow> bool" where
  "other_key e \<longleftrightarrow>
     (case e of Sessions _ _ \<Rightarrow> False | Pty_list _ _ _ \<Rightarrow> False | Pty_started _ _ _ _ _ _ \<Rightarrow> False | Wheel _ \<Rightarrow> False | Click _ _ _ _ \<Rightarrow> False
      | Focus \<Rightarrow> False | Blur \<Rightarrow> False | Settings_changed _ \<Rightarrow> False | Answer _ \<Rightarrow> False | Answer_dup _ _ _ \<Rightarrow> False | _ \<Rightarrow> True)"

definition is_click :: "dash_event \<Rightarrow> bool" where
  "is_click e \<longleftrightarrow> (case e of Click _ _ _ _ \<Rightarrow> True | _ \<Rightarrow> False)"

definition dash_step :: "(string \<Rightarrow> string) \<Rightarrow> dash_event \<Rightarrow> dash \<Rightarrow> (dash \<times> dash_cmd list) option" where
  "dash_step lower e d =
     (if da_dup d \<noteq> None \<and> (other_key e \<or> is_click e) then Some (d, [])
      else if (da_ask_group d \<or> da_ask_restart d) \<and> is_click e then Some (d, [])
      else if (da_ask_group d \<or> da_ask_restart d) \<and> other_key e then answer_question lower False d
      else dash_do lower e d)"

text \<open>None is a panic, which ends the dashboard.\<close>

fun dash_run :: "(string \<Rightarrow> string) \<Rightarrow> dash_event list \<Rightarrow> dash \<Rightarrow> (dash \<times> dash_cmd list) option" where
  "dash_run lower [] d = Some (d, [])"
| "dash_run lower (e # es) d =
     (case dash_step lower e d of
        None \<Rightarrow> None
      | Some (d', cs) \<Rightarrow> (case dash_run lower es d' of None \<Rightarrow> None | Some (d'', cs') \<Rightarrow> Some (d'', cs @ cs')))"

text \<open>Events that filter the list again and leave the cursor where it is come while no row of the list is out of date.\<close>

definition up_to_date :: "(string \<Rightarrow> string) \<Rightarrow> dash \<Rightarrow> bool" where
  "up_to_date lower d \<longleftrightarrow> length (da_list d) \<le> length (passes lower d)"

definition timely :: "(string \<Rightarrow> string) \<Rightarrow> dash_event \<Rightarrow> dash \<Rightarrow> bool" where
  "timely lower e d \<longleftrightarrow>
     (case e of Key_R _ \<Rightarrow> up_to_date lower d | Pty_started _ _ _ _ _ _ \<Rightarrow> up_to_date lower d | _ \<Rightarrow> True)"

fun timely_run :: "(string \<Rightarrow> string) \<Rightarrow> dash_event list \<Rightarrow> dash \<Rightarrow> bool" where
  "timely_run lower [] d \<longleftrightarrow> True"
| "timely_run lower (e # es) d \<longleftrightarrow>
     timely lower e d \<and> (case dash_step lower e d of None \<Rightarrow> True | Some (d', cs) \<Rightarrow> timely_run lower es d')"

section \<open>The cursor is on a row\<close>

definition in_bounds :: "dash \<Rightarrow> bool" where
  "in_bounds d \<longleftrightarrow> 0 \<le> da_sel d \<and> (da_sel d < int (length (da_list d)) \<or> da_sel d = 0)"

lemma in_boundsI: "da_sel d = 0 \<Longrightarrow> in_bounds d"
  by (simp add: in_bounds_def)

lemma in_bounds_row: "in_bounds d \<Longrightarrow> da_list d \<noteq> [] \<Longrightarrow> on_row d"
  by (auto simp: in_bounds_def on_row_def)

lemma in_bounds_same: "in_bounds d \<Longrightarrow> da_sel d' = da_sel d \<Longrightarrow> length (da_list d) \<le> length (da_list d') \<Longrightarrow> in_bounds d'"
  by (auto simp: in_bounds_def)

lemma row_of_lt: "row_of i ss = Some n \<Longrightarrow> n < length ss \<and> se_id (ss ! n) = i"
  by (induction ss arbitrary: n) (auto split: if_splits)

lemma last_row_lt: "last_row_of i ss = Some n \<Longrightarrow> n < length ss"
  using row_of_lt[of i "rev ss"] by (auto simp: last_row_of_def)

lemma in_bounds_default: "in_bounds (d\<lparr>da_sel := defaultSelectionIdx d\<rparr>)"
  by (auto simp: in_bounds_def defaultSelectionIdx_def neq_Nil_conv)

lemma in_bounds_clamped: "da_list d \<noteq> [] \<Longrightarrow> in_bounds (d\<lparr>da_sel := clamp v 0 (int (length (da_list d)) - 1)\<rparr>)"
  by (auto simp: in_bounds_def clamp_def neq_Nil_conv)

lemma in_bounds_move: "in_bounds d \<Longrightarrow> in_bounds (move delta d)"
  by (simp add: move_def in_bounds_clamped)

lemma in_bounds_jump: "in_bounds d \<Longrightarrow> in_bounds (jumpTo idx d)"
  by (simp add: jumpTo_def in_bounds_clamped Let_def)

lemma in_bounds_moveWrap: "in_bounds d \<Longrightarrow> in_bounds (moveWrap delta repeat now d)"
  using in_bounds_jump[of "d\<lparr>da_nav_at := Some now\<rparr>"] by (simp add: moveWrap_def Let_def in_bounds_def)

lemma in_bounds_cycle: "in_bounds d \<Longrightarrow> in_bounds (cycleGroup lower delta d)"
proof -
  have "in_bounds (case restoreSelection e of Some d \<Rightarrow> d | None \<Rightarrow> e\<lparr>da_sel := defaultSelectionIdx e\<rparr>)" for e
  proof (cases "restoreSelection e")
    case None
    then show ?thesis by (simp add: in_bounds_default)
  next
    case (Some f)
    then show ?thesis using row_of_lt by (fastforce simp: restoreSelection_def in_bounds_def split: option.splits)
  qed
  then show "in_bounds d \<Longrightarrow> in_bounds (cycleGroup lower delta d)" by (simp add: cycleGroup_def Let_def)
qed

lemma in_bounds_bound: "in_bounds (bound_cursor d)"
  by (auto simp: in_bounds_def bound_cursor_def Let_def)

lemma seen_fields [simp]:
  "da_list (fst (markSelectedSeen now d)) = da_list d" "da_sel (fst (markSelectedSeen now d)) = da_sel d"
  by (simp_all add: markSelectedSeen_def Let_def)

lemma in_bounds_sessions: "in_bounds (fst (sessionsMsg lower ss now d))"
  using in_bounds_bound by (simp add: sessionsMsg_def in_bounds_def)

text \<open>Putting rows in front of what is loaded takes none away.\<close>

lemma inject_fields [simp]:
  "da_account (injectSpawnRow now d) = da_account d" "da_group (injectSpawnRow now d) = da_group d"
  "da_attention (injectSpawnRow now d) = da_attention d" "da_search (injectSpawnRow now d) = da_search d"
  "da_sel (injectSpawnRow now d) = da_sel d" "da_settings (injectSpawnRow now d) = da_settings d"
  by (simp_all add: injectSpawnRow_def injectWaitingSpawns_def forget_spawn_def Let_def)

lemma inject_suffix: "suffix (da_all d) (da_all (injectSpawnRow now d))"
  by (auto simp: injectSpawnRow_def injectWaitingSpawns_def forget_spawn_def Let_def suffix_def)

lemma wanted_cong: "da_account d' = da_account d \<Longrightarrow> da_group d' = da_group d \<Longrightarrow> da_attention d' = da_attention d
  \<Longrightarrow> da_search d' = da_search d \<Longrightarrow> wanted lower d' = wanted lower d"
  by (simp add: wanted_def fun_eq_iff)

lemma passes_more:
  assumes "suffix (da_all d) (da_all d')" "\<And>s. wanted lower d s \<Longrightarrow> wanted lower d' s"
  shows "length (passes lower d) \<le> length (passes lower d')"
proof -
  obtain new where new: "da_all d' = new @ da_all d" using assms(1) by (auto simp: suffix_def)
  have "length (filter P xs) \<le> length (filter Q xs)" if "\<And>s. P s \<Longrightarrow> Q s" for P Q and xs :: "session list"
    using that by (induction xs) (auto simp: le_Suc_eq)
  then show ?thesis using assms(2) by (simp add: passes_wanted new trans_le_add2)
qed

lemma in_bounds_started:
  assumes "in_bounds d" "up_to_date lower d"
  shows "in_bounds (ptyStartedMsg lower live sid key tag cwd now d)"
proof -
  define e where "e = injectSpawnRow now (d\<lparr>da_alive := (da_alive d)(key := True),
      da_spawn := \<lparr>sp_pty = key, sp_tag = tag, sp_sid = [], sp_cwd = cwd, sp_group = da_group d, sp_at = Some now\<rparr>\<rparr>)"
  have "length (da_list d) \<le> length (passes lower e)"
  proof -
    have "suffix (da_all f) (da_all (injectSpawnRow now f))" for f by (rule inject_suffix)
    from this[of "d\<lparr>da_alive := (da_alive d)(key := True),
        da_spawn := \<lparr>sp_pty = key, sp_tag = tag, sp_sid = [], sp_cwd = cwd, sp_group = da_group d, sp_at = Some now\<rparr>\<rparr>"]
    have "suffix (da_all d) (da_all e)" by (simp add: e_def)
    then have "length (passes lower d) \<le> length (passes lower e)" by (rule passes_more) (simp add: wanted_def e_def)
    then show ?thesis using assms(2) by (simp add: up_to_date_def)
  qed
  moreover have "da_sel e = da_sel d" by (simp add: e_def)
  ultimately have ok: "in_bounds (applyGroupFilter lower e)"
    using in_bounds_same[OF assms(1), of "applyGroupFilter lower e"] by (simp add: applyGroupFilter_def)
  have cur: "in_bounds (case last_row_of key (da_list f) of None \<Rightarrow> f | Some n \<Rightarrow> f\<lparr>da_sel := int n\<rparr>)" if "in_bounds f" for f
    using that last_row_lt[of key "da_list f"] by (auto simp: in_bounds_def split: option.split)
  have "in_bounds (f\<lparr>da_focus := k\<rparr>) = in_bounds f" "in_bounds (f\<lparr>da_alive := a\<rparr>) = in_bounds f" for f k a by (simp_all add: in_bounds_def)
  then show ?thesis using assms(1) cur[OF ok]
    by (cases "last_row_of key (da_list (applyGroupFilter lower e))") (simp_all add: ptyStartedMsg_def Let_def e_def[symmetric])
qed

lemma in_bounds_auto_tabs:
  assumes "in_bounds d" "up_to_date lower d"
  shows "in_bounds (toggleAutoRepoTabs lower saved d)"
proof (cases saved)
  case (Some cfg)
  let ?e = "d\<lparr>da_settings := cfg, da_group := []\<rparr>"
  have "length (passes lower d) \<le> length (passes lower ?e)" by (rule passes_more) (simp_all add: wanted_def)
  then have "in_bounds (applyGroupFilter lower ?e)"
    using assms(2) by (intro in_bounds_same[OF assms(1)]) (simp_all add: applyGroupFilter_def up_to_date_def)
  moreover have "in_bounds (d\<lparr>da_settings := cfg\<rparr>)" using assms(1) by (simp add: in_bounds_def)
  ultimately show ?thesis using Some by (simp add: toggleAutoRepoTabs_def Let_def)
qed (simp add: toggleAutoRepoTabs_def assms(1))

lemma in_bounds_order: "in_bounds d \<Longrightarrow> in_bounds (toggleRecentOrder lower saved d)"
proof (cases saved)
  case (Some cfg)
  let ?e = "applyGroupFilter lower (d\<lparr>da_settings := cfg\<rparr>)"
  have "in_bounds (?e\<lparr>da_sel := int n\<rparr>)" if "row_of c (da_list ?e) = Some n" for c n
    using row_of_lt[OF that] by (simp add: in_bounds_def)
  then show ?thesis using Some in_bounds_default[of ?e] by (simp add: toggleRecentOrder_def Let_def split: option.split)
qed (simp add: toggleRecentOrder_def)

lemma in_bounds_attention: "in_bounds d \<Longrightarrow> in_bounds (toggleAttentionOnly lower d)"
  by (auto simp: toggleAttentionOnly_def in_bounds_def applyGroupFilter_def Let_def)

lemma in_bounds_filters: "in_bounds d \<Longrightarrow> in_bounds (clear_filters lower d)" "in_bounds (cycleAccountFilter lower accounts d)"
  "in_bounds (search_for lower text d)" "in_bounds (showOtherView d)"
  by (simp_all add: clear_filters_def cycleAccountFilter_def search_for_def showOtherView_def in_bounds_def Let_def)

lemma in_bounds_pty_list: "in_bounds d \<Longrightarrow> in_bounds (ptyListMsg alive waiting pids d)"
  by (simp add: ptyListMsg_def resolveSpawnSID_def Let_def in_bounds_def split: option.split prod.split)

lemma selected_ok:
  assumes "in_bounds d" "\<And>s. in_bounds (fst (f s))"
  shows "\<exists>d' cs. with_selected f d = Some (d', cs) \<and> in_bounds d'"
proof (cases "da_list d = []")
  case False
  then have "under_cursor d = Some (da_list d ! nat (da_sel d))" using assms(1) by (simp add: under_cursor_def in_bounds_row)
  then show ?thesis using False assms(2) by (cases "f (da_list d ! nat (da_sel d))") (auto simp: with_selected_def dest: spec[of _ "da_list d ! nat (da_sel d)"] intro: sym, metis fst_conv)
qed (use assms in \<open>simp add: with_selected_def\<close>)

lemma attach_ok: "in_bounds d \<Longrightarrow> \<exists>d' o'. attachSession force remote live d = Some (d', o') \<and> in_bounds d'"
  by (cases "da_list d = []") (auto simp: attachSession_def under_cursor_def in_bounds_row in_bounds_def)

lemma dup_ok:
  assumes "in_bounds d"
  shows "\<exists>d' o'. handleKeyDupConfirm yes remote live d = Some (d', o') \<and> in_bounds d'"
proof (cases "da_dup d")
  case (Some sid)
  have b: "in_bounds (d\<lparr>da_dup := None\<rparr>)" using assms by (simp add: in_bounds_def)
  show ?thesis
  proof (cases "row_of sid (da_list d)")
    case (Some n)
    then have "in_bounds (d\<lparr>da_dup := None, da_sel := int n\<rparr>)" using row_of_lt by (auto simp: in_bounds_def)
    from attach_ok[OF this, of True remote live] show ?thesis using b Some \<open>da_dup d = Some sid\<close> by (simp add: handleKeyDupConfirm_def Let_def)
  qed (use b Some in \<open>simp add: handleKeyDupConfirm_def Let_def\<close>)
qed (simp add: handleKeyDupConfirm_def assms)

lemma click_ok:
  assumes "in_bounds d"
  shows "\<exists>d' o'. clickSessionList idx remote live now d = Some (d', o') \<and> in_bounds d'"
proof -
  define e where "e = (if idx = fst (da_click d) \<and> passed now (snd (da_click d)) \<le> doubleClickWindow
    then d\<lparr>da_click := (fst (da_click d), None)\<rparr> else d\<lparr>da_click := (idx, Some now)\<rparr>)"
  have e: "in_bounds e" "da_list e = da_list d" using assms by (simp_all add: e_def in_bounds_def)
  have "\<exists>d' o'. openSessionByClick remote live e = Some (d', o') \<and> in_bounds d'" if "da_list d \<noteq> []"
  proof -
    have "under_cursor e = Some (da_list e ! nat (da_sel e))" using e that by (simp add: under_cursor_def in_bounds_row)
    then show ?thesis using attach_ok[OF e(1), of False remote live] e(1) by (auto simp: openSessionByClick_def)
  qed
  then show ?thesis using assms e(1) in_bounds_jump[OF e(1), of idx]
    unfolding clickSessionList_def Let_def e_def[symmetric] by (cases "idx < 0 \<or> int (length (da_list d)) \<le> idx") (simp_all, fastforce)
qed

lemma answer_ok: "in_bounds d \<Longrightarrow> \<exists>d' cs. answer_question lower yes d = Some (d', cs) \<and> in_bounds d'"
proof -
  assume b: "in_bounds d"
  have g: "in_bounds (d\<lparr>da_ask_group := False\<rparr>)" and r: "in_bounds (d\<lparr>da_ask_restart := False\<rparr>)" using b by (simp_all add: in_bounds_def)
  have "\<exists>d' cs. restartSessionCurrent (d\<lparr>da_ask_restart := False\<rparr>) = Some (d', cs) \<and> in_bounds d'"
    unfolding restartSessionCurrent_def by (rule selected_ok) (use r in simp_all)
  then show ?thesis using b g r in_bounds_cycle[OF g, of lower 1] by (auto simp: answer_question_def archiveCurrentGroup_def Let_def)
qed

lemma dash_do_ok:
  assumes "in_bounds d" "timely lower e d"
  shows "\<exists>d' cs. dash_do lower e d = Some (d', cs) \<and> in_bounds d'"
proof (cases e)
  case (Sessions ss now)
  then show ?thesis using in_bounds_sessions[of lower ss now d] by (cases "sessionsMsg lower ss now d") simp
next
  case (Pty_started live sid key tag cwd now)
  then show ?thesis using assms in_bounds_started by (simp add: timely_def)
next
  case (Key_R saved)
  then show ?thesis using assms in_bounds_auto_tabs by (simp add: timely_def)
next
  case Key_x
  have "\<exists>d' cs. toggleArchiveCurrent d = Some (d', cs) \<and> in_bounds d'"
    unfolding toggleArchiveCurrent_def by (rule selected_ok) (use assms(1) in \<open>simp_all add: in_bounds_def\<close>)
  then show ?thesis using Key_x by simp
next
  case Key_f
  have "\<exists>d' cs. toggleFavoriteCurrent d = Some (d', cs) \<and> in_bounds d'"
    unfolding toggleFavoriteCurrent_def by (rule selected_ok) (use assms(1) in simp_all)
  then show ?thesis using Key_f by simp
next
  case Key_L
  have "\<exists>d' cs. toggleLaterCurrent d = Some (d', cs) \<and> in_bounds d'"
    unfolding toggleLaterCurrent_def by (rule selected_ok) (use assms(1) in simp_all)
  then show ?thesis using Key_L by simp
next
  case Ask_restart
  have "\<exists>d' cs. askRestartSession d = Some (d', cs) \<and> in_bounds d'"
    unfolding askRestartSession_def by (rule selected_ok) (use assms(1) in \<open>simp_all add: in_bounds_def\<close>)
  then show ?thesis using Ask_restart by simp
next
  case (Enter remote live)
  then show ?thesis using assms(1) attach_ok[OF assms(1), of False remote live] by auto
next
  case (Answer_dup yes remote live)
  then show ?thesis using dup_ok[OF assms(1), of yes remote live] by auto
next
  case (Click idx remote live now)
  then show ?thesis using click_ok[OF assms(1), of idx remote live now] by auto
next
  case (Answer yes)
  then show ?thesis using answer_ok[OF assms(1)] by simp
next
  case Ask_archive
  then show ?thesis using assms(1) by (simp add: promptArchiveCurrentGroup_def in_bounds_def)
qed (use assms(1) in \<open>simp_all add: in_bounds_pty_list in_bounds_moveWrap in_bounds_move in_bounds_jump in_bounds_cycle in_bounds_order
    in_bounds_attention in_bounds_filters\<close>, simp_all add: in_bounds_def)

lemma step_is: "dash_step lower e d = Some (d, []) \<or> dash_step lower e d = answer_question lower False d \<or> dash_step lower e d = dash_do lower e d"
  by (simp add: dash_step_def)

lemma dash_step_ok: "in_bounds d \<Longrightarrow> timely lower e d \<Longrightarrow> \<exists>d' cs. dash_step lower e d = Some (d', cs) \<and> in_bounds d'"
  using step_is[of lower e d] dash_do_ok[of d lower e] answer_ok[of d lower False] by (elim disjE) simp_all

lemma dash_run_ok:
  "in_bounds d \<Longrightarrow> timely_run lower es d \<Longrightarrow> \<exists>d' cs. dash_run lower es d = Some (d', cs) \<and> in_bounds d'"
proof (induction es arbitrary: d)
  case (Cons e es)
  then obtain d1 cs1 where one: "dash_step lower e d = Some (d1, cs1)" "in_bounds d1" using dash_step_ok[of d lower e] by auto
  then obtain d2 cs2 where "dash_run lower es d1 = Some (d2, cs2)" "in_bounds d2" using Cons.IH[of d1] Cons.prems(2) by auto
  then show ?case using one by simp
qed simp



subsection \<open>A run\<close>

definition at_noon :: gotime where
  "at_noon = \<lparr>gt_day = 738000, gt_sec = 43200, gt_ms = 0, gt_off = 0\<rparr>"

definition named :: "string \<Rightarrow> string \<Rightarrow> int \<Rightarrow> session" where
  "named i repo tag = zero_session\<lparr>se_id := i, se_repo := repo, se_wrapper_pid := tag, se_num := 1\<rparr>"

definition with_tabs :: "bool \<Rightarrow> settings" where
  "with_tabs on = Defaults\<lparr>cfg_auto_repo_tabs := on, cfg_recent_order := False, cfg_newest_at_bottom := False\<rparr>"

definition a_visit :: "dash_event list" where
  "a_visit = [Sessions [named ''a'' ''r'' 0, named ''b'' ''q'' 0] at_noon, Nav 1 False at_noon, Tab 1, Key_x, Sessions [named ''a'' ''r'' 0] at_noon, Key_f]"

lemma timely_without: "list_all (\<lambda>e. \<forall>d. timely lower e d) es \<Longrightarrow> timely_run lower es d"
  by (induction es arbitrary: d) (auto split: option.split)


section \<open>The cursor follows its session\<close>

lemma spawn_elsewhere:
  "currentSessionID d \<noteq> sp_pty (da_spawn d) \<Longrightarrow> da_list (selectSpawned lower d) = da_list d \<and> da_sel (selectSpawned lower d) = da_sel d"
  by (simp add: selectSpawned_def forget_spawn_def Let_def split: option.split)

lemma row_of_Some: "i \<in> se_id ` set ss \<Longrightarrow> \<exists>n. row_of i ss = Some n"
  by (induction ss) auto

lemma inject_spawn: "sp_pty (da_spawn (injectSpawnRow now d)) \<in> {[], sp_pty (da_spawn d)}"
  by (simp add: injectSpawnRow_def injectWaitingSpawns_def forget_spawn_def Let_def)

lemma reloaded_spawn: "sp_pty (da_spawn (reloaded lower ss now d)) \<in> {[], sp_pty (da_spawn d)}"
  using inject_spawn[of now "d\<lparr>da_all := ss\<rparr>"] by (simp add: reloaded_def applyGroupFilter_def leave_empty_tab_def Let_def)

text \<open>When the sessions are loaded again the cursor stays on the session it was on, wherever its row is now, as long as
  that session still is among the rows to show; only the row of a claude that was starting is left, for the session it became.\<close>

theorem cursor_follows_session:
  assumes "currentSessionID d \<noteq> []" "currentSessionID d \<noteq> sp_pty (da_spawn d)"
    and "currentSessionID d \<in> se_id ` set (da_list (reloaded lower ss now d))"
  shows "currentSessionID (fst (sessionsMsg lower ss now d)) = currentSessionID d"
proof -
  let ?e = "reloaded lower ss now d"
  obtain n where n: "row_of (currentSessionID d) (da_list ?e) = Some n" using assms(3) row_of_Some by blast
  have at: "n < length (da_list ?e)" "se_id (da_list ?e ! n) = currentSessionID d" using row_of_lt[OF n] by auto
  have k: "keep_cursor (currentSessionID d) ?e = ?e\<lparr>da_sel := int n\<rparr>" using n assms(1) by (simp add: keep_cursor_def)
  have "currentSessionID (?e\<lparr>da_sel := int n\<rparr>) = currentSessionID d" using at by (simp add: currentSessionID_def on_row_def)
  moreover have "currentSessionID d \<noteq> sp_pty (da_spawn ?e)" using assms(1,2) reloaded_spawn[of lower ss now d] by auto
  ultimately have "da_list (selectSpawned lower (?e\<lparr>da_sel := int n\<rparr>)) = da_list ?e" "da_sel (selectSpawned lower (?e\<lparr>da_sel := int n\<rparr>)) = int n"
    using spawn_elsewhere[of "?e\<lparr>da_sel := int n\<rparr>" lower] by simp_all
  then show ?thesis using at by (simp add: sessionsMsg_def k currentSessionID_def[of "fst (markSelectedSeen _ _)"] on_row_def bound_cursor_def Let_def)
qed


lemma named_fields [simp]:
  "se_id (named i r t) = i" "se_repo (named i r t) = r" "se_wrapper_pid (named i r t) = t" "se_user_group (named i r t) = []"
  "se_attention (named i r t) = []" "\<not> se_unseen (named i r t)" "\<not> se_later (named i r t)" "se_project (named i r t) = []"
  "\<not> se_archived (named i r t)"
  by (simp_all add: named_def zero_session_def)

lemma with_tabs_fields [simp]:
  "cfg_auto_repo_tabs (with_tabs b) = b" "\<not> cfg_recent_order (with_tabs b)" "\<not> cfg_newest_at_bottom (with_tabs b)"
  by (simp_all add: with_tabs_def)

text \<open>What a computation of one step unfolds.\<close>

lemmas running = reloaded_def injectSpawnRow_def injectWaitingSpawns_def leave_empty_tab_def applyGroupFilter_def passes_def arranged_def
  laterFirst_def projectsFirst_def keep_cursor_def selectSpawned_def bound_cursor_def markSelectedSeen_def on_row_def currentSessionID_def
  newModel_def no_spawn_def defaultSelectionIdx_def forget_spawn_def cycleGroup_def uniqueGroups_def user_groups_def auto_groups_def
  rememberSelection_def restoreSelection_def groupOf_def last_row_of_def jumpTo_def clamp_def is_spawned_def toggleAutoRepoTabs_def Let_def

definition two_rows :: dash where
  "two_rows = (newModel (with_tabs True))\<lparr>da_all := [named ''a'' ''r'' 0, named ''b'' ''r'' 0], da_list := [named ''a'' ''r'' 0, named ''b'' ''r'' 0], da_sel := 1\<rparr>"

theorem cursor_follows_session_witness:
  "currentSessionID (fst (sessionsMsg id [named ''b'' ''r'' 0, named ''a'' ''r'' 0] at_noon two_rows)) = ''b''"
proof -
  have "currentSessionID two_rows = ''b''" "sp_pty (da_spawn two_rows) = []" by (simp_all add: two_rows_def running)
  moreover have "''b'' \<in> se_id ` set (da_list (reloaded id [named ''b'' ''r'' 0, named ''a'' ''r'' 0] at_noon two_rows))"
    by (simp add: two_rows_def running)
  ultimately show ?thesis using cursor_follows_session[of two_rows id "[named ''b'' ''r'' 0, named ''a'' ''r'' 0]" at_noon] by simp
qed

section \<open>What counts as seen\<close>

text \<open>Each look at the loaded sessions: the session under the cursor and when; None where the terminal lost the focus.\<close>

definition look_of :: "dash_event \<Rightarrow> dash \<Rightarrow> (string \<times> gotime) option list" where
  "look_of e d = (case e of Sessions ss now \<Rightarrow> [Some (currentSessionID d, now)] | Blur \<Rightarrow> [None] | _ \<Rightarrow> [])"

fun looks :: "(string \<Rightarrow> string) \<Rightarrow> dash_event list \<Rightarrow> dash \<Rightarrow> (string \<times> gotime) option list" where
  "looks lower [] d = []"
| "looks lower (e # es) d =
     (case dash_step lower e d of None \<Rightarrow> [] | Some (d', cs) \<Rightarrow> look_of e d' @ looks lower es d')"

definition stayed :: "string \<Rightarrow> (string \<times> gotime) option list \<Rightarrow> bool" where
  "stayed i ls \<longleftrightarrow> list_all (\<lambda>l. case l of None \<Rightarrow> False | Some (j, t) \<Rightarrow> j = i \<or> j = []) ls"

definition dwell_ok :: "(string \<times> gotime) option list \<Rightarrow> dash \<Rightarrow> bool" where
  "dwell_ok ls d \<longleftrightarrow> (fst (da_dwell d) \<noteq> [] \<longrightarrow>
     (\<exists>pre t post. ls = pre @ Some (fst (da_dwell d), t) # post \<and> snd (da_dwell d) = Some t
       \<and> (\<not> da_blurred d \<longrightarrow> stayed (fst (da_dwell d)) post)))"

abbreviation same_dwell :: "dash \<Rightarrow> dash \<Rightarrow> bool" where
  "same_dwell d d' \<equiv> da_dwell d' = da_dwell d \<and> da_blurred d' = da_blurred d"

lemma dwell_parts [simp]:
  "same_dwell d (applyGroupFilter lower d)" "same_dwell d (rememberSelection d)" "same_dwell d (jumpTo idx d)" "same_dwell d (injectSpawnRow now d)"
  "same_dwell d (forget_spawn d)" "same_dwell d (leave_empty_tab d)" "same_dwell d (keep_cursor i d)" "same_dwell d (bound_cursor d)"
  "same_dwell d (move delta d)" "same_dwell d (moveWrap delta repeat now d)"
  by (simp_all add: applyGroupFilter_def rememberSelection_def jumpTo_def injectSpawnRow_def injectWaitingSpawns_def forget_spawn_def
      leave_empty_tab_def keep_cursor_def bound_cursor_def move_def moveWrap_def Let_def split: option.split)

lemma dwell_cycle [simp]: "same_dwell d (cycleGroup lower delta d)"
  by (simp add: cycleGroup_def restoreSelection_def Let_def split: option.split)

lemma dwell_spawned [simp]: "same_dwell d (selectSpawned lower d)"
  by (simp add: selectSpawned_def show_spawned_def Let_def split: option.split)

lemma dwell_reloaded [simp]: "same_dwell d (reloaded lower ss now d)"
  by (simp add: reloaded_def)

lemma dwell_started [simp]: "same_dwell d (ptyStartedMsg lower live sid key tag cwd now d)"
  by (simp add: ptyStartedMsg_def Let_def split: option.split)

lemma dwell_list [simp]: "same_dwell d (ptyListMsg alive waiting pids d)"
  by (simp add: ptyListMsg_def resolveSpawnSID_def Let_def split: option.split prod.split)

lemma dwell_keys [simp]:
  "same_dwell d (toggleAutoRepoTabs lower saved d)" "same_dwell d (toggleRecentOrder lower saved d)" "same_dwell d (toggleAttentionOnly lower d)"
  "same_dwell d (clear_filters lower d)" "same_dwell d (cycleAccountFilter lower accounts d)" "same_dwell d (search_for lower text d)"
  "same_dwell d (showOtherView d)" "same_dwell d (promptArchiveCurrentGroup d)"
  by (simp_all add: toggleAutoRepoTabs_def toggleRecentOrder_def toggleAttentionOnly_def clear_filters_def cycleAccountFilter_def
      search_for_def showOtherView_def promptArchiveCurrentGroup_def Let_def split: option.split)

lemma dwell_selected: "with_selected f d = Some (d', cs) \<Longrightarrow> (\<And>s. same_dwell d (fst (f s))) \<Longrightarrow> same_dwell d d'"
  unfolding with_selected_def by (auto split: if_splits) (metis fst_conv)+

lemma dwell_attach: "attachSession force remote live d = Some (d', r) \<Longrightarrow> same_dwell d d'"
  by (auto simp: attachSession_def split: if_splits)

lemma dwell_dup: "handleKeyDupConfirm yes remote live d = Some (d', r) \<Longrightarrow> same_dwell d d'"
  by (auto simp: handleKeyDupConfirm_def Let_def split: option.splits if_splits dest: dwell_attach)

lemma dwell_open: "openSessionByClick remote live d = Some (d', r) \<Longrightarrow> same_dwell d d'"
  by (auto simp: openSessionByClick_def split: option.splits if_splits dest: dwell_attach)

lemma dwell_click: "clickSessionList idx remote live now d = Some (d', r) \<Longrightarrow> same_dwell d d'"
  by (auto simp: clickSessionList_def Let_def split: if_splits dest: dwell_open)

lemma dwell_answer: "answer_question lower yes d = Some (d', cs) \<Longrightarrow> same_dwell d d'"
  by (auto simp: answer_question_def archiveCurrentGroup_def restartSessionCurrent_def Let_def split: if_splits dest: dwell_selected)

lemma dwell_done:
  assumes "dash_do lower e d = Some (d', cs)" "\<forall>ss now. e \<noteq> Sessions ss now" "e \<noteq> Focus" "e \<noteq> Blur"
  shows "same_dwell d d'"
proof (cases e)
  case Key_x
  then show ?thesis using assms(1) by (auto simp: toggleArchiveCurrent_def dest: dwell_selected)
next
  case Key_f
  then show ?thesis using assms(1) by (auto simp: toggleFavoriteCurrent_def dest: dwell_selected)
next
  case Key_L
  then show ?thesis using assms(1) by (auto simp: toggleLaterCurrent_def dest: dwell_selected)
next
  case (Tab delta)
  then show ?thesis using assms(1) by (cases "da_locked d") auto
next
  case Ask_restart
  then have "with_selected (\<lambda>s. (if da_alive d (se_id s) then d\<lparr>da_ask_restart := True\<rparr> else d, [])) d = Some (d', cs)"
    using assms(1) by (simp add: askRestartSession_def)
  then show ?thesis by (rule dwell_selected) simp
next
  case (Answer yes)
  then show ?thesis using assms(1) by (simp add: dwell_answer)
next
  case (Enter remote live)
  then show ?thesis using assms(1) dwell_attach[of False remote live d] by (auto split: if_splits)
next
  case (Answer_dup yes remote live)
  then show ?thesis using assms(1) dwell_dup[of yes remote live d] by auto
next
  case (Click idx remote live now)
  then show ?thesis using assms(1) dwell_click[of idx remote live now d] by auto
qed (use assms in auto)

lemma dwell_kept:
  assumes "dash_step lower e d = Some (d', cs)" "\<forall>ss now. e \<noteq> Sessions ss now" "e \<noteq> Focus" "e \<noteq> Blur"
  shows "same_dwell d d'"
  using assms step_is[of lower e d] dwell_done[of lower e d d' cs] dwell_answer[of lower False d d' cs] by auto

lemma step_plain:
  "dash_step lower (Sessions ss now) d = Some (sessionsMsg lower ss now d)"
  "dash_step lower Focus d = Some (d\<lparr>da_blurred := False, da_dwell := ([], snd (da_dwell d))\<rparr>, [])"
  "dash_step lower Blur d = Some (d\<lparr>da_blurred := True\<rparr>, [])"
  by (simp_all add: dash_step_def other_key_def is_click_def)

lemma dwell_ok_more:
  assumes "dwell_ok ls d" "stayed (fst (da_dwell d)) [l]"
  shows "dwell_ok (ls @ [l]) d"
  unfolding dwell_ok_def
proof
  assume "fst (da_dwell d) \<noteq> []"
  then obtain pre t post where "ls = pre @ Some (fst (da_dwell d), t) # post" "snd (da_dwell d) = Some t"
    "\<not> da_blurred d \<longrightarrow> stayed (fst (da_dwell d)) post" using assms(1) unfolding dwell_ok_def by blast
  then show "\<exists>pre t post. ls @ [l] = pre @ Some (fst (da_dwell d), t) # post \<and> snd (da_dwell d) = Some t
      \<and> (\<not> da_blurred d \<longrightarrow> stayed (fst (da_dwell d)) post)"
    using assms(2) by (intro exI[of _ pre] exI[of _ t] exI[of _ "post @ [l]"]) (auto simp: stayed_def)
qed

text \<open>The look itself: the cursor where it is, and since when.\<close>

lemma dwell_marked:
  assumes "dwell_ok ls d"
  shows "dwell_ok (ls @ [Some (currentSessionID d, now)]) (fst (markSelectedSeen now d))"
proof -
  have same: "dwell_ok ls' (fst (markSelectedSeen now d)) = dwell_ok ls' (if on_row d \<and> currentSessionID d \<noteq> fst (da_dwell d)
      then d\<lparr>da_dwell := (currentSessionID d, Some now)\<rparr> else d)" for ls'
    by (simp add: markSelectedSeen_def currentSessionID_def dwell_ok_def Let_def)
  show ?thesis
  proof (cases "on_row d \<and> currentSessionID d \<noteq> fst (da_dwell d)")
    case True
    then show ?thesis unfolding same by (fastforce simp: dwell_ok_def stayed_def)
  next
    case False
    then have "stayed (fst (da_dwell d)) [Some (currentSessionID d, now)]" by (auto simp: stayed_def currentSessionID_def)
    then show ?thesis unfolding same using False dwell_ok_more[OF assms] by auto
  qed
qed

lemma dwell_cong: "same_dwell d d' \<Longrightarrow> dwell_ok ls d' = dwell_ok ls d"
  by (simp add: dwell_ok_def)

lemma marked_current: "currentSessionID (fst (markSelectedSeen now d)) = currentSessionID d"
  by (simp add: currentSessionID_def on_row_def)

lemma dwell_step:
  assumes "dwell_ok ls d" "dash_step lower e d = Some (d', cs)"
  shows "dwell_ok (ls @ look_of e d') d'"
proof (cases e)
  case (Sessions ss now)
  define k where "k = bound_cursor (selectSpawned lower (keep_cursor (currentSessionID d) (reloaded lower ss now d)))"
  have "dwell_ok ls k" using assms(1) by (simp add: k_def dwell_ok_def)
  moreover have "d' = fst (markSelectedSeen now k)" using assms(2) Sessions by (simp add: step_plain sessionsMsg_def k_def[symmetric])
  ultimately show ?thesis using dwell_marked[of ls k now] Sessions by (simp add: look_of_def marked_current)
next
  case Focus
  then show ?thesis using assms(2) by (auto simp: step_plain dwell_ok_def look_of_def)
next
  case Blur
  then have d': "d' = d\<lparr>da_blurred := True\<rparr>" using assms(2) by (simp add: step_plain)
  have "dwell_ok (ls @ [None]) d'" unfolding dwell_ok_def
  proof
    assume "fst (da_dwell d') \<noteq> []"
    then obtain pre t post where "ls = pre @ Some (fst (da_dwell d'), t) # post" "snd (da_dwell d') = Some t"
      using assms(1) unfolding dwell_ok_def d' by auto
    then show "\<exists>pre t post. ls @ [None] = pre @ Some (fst (da_dwell d'), t) # post \<and> snd (da_dwell d') = Some t
        \<and> (\<not> da_blurred d' \<longrightarrow> stayed (fst (da_dwell d')) post)" by (intro exI[of _ pre] exI[of _ t] exI[of _ "post @ [None]"]) (simp add: d')
  qed
  then show ?thesis using Blur by (simp add: look_of_def)
qed (use assms dwell_kept[OF assms(2)] dwell_cong[of d d' ls] in \<open>simp_all add: look_of_def\<close>)

lemma dwell_run:
  "dwell_ok ls d \<Longrightarrow> dash_run lower es d = Some (d', cs) \<Longrightarrow> dwell_ok (ls @ looks lower es d) d'"
proof (induction es arbitrary: ls d cs)
  case (Cons e es)
  then obtain d1 c1 c2 where one: "dash_step lower e d = Some (d1, c1)" "dash_run lower es d1 = Some (d', c2)"
    by (auto split: option.splits)
  then show ?case using Cons.IH[OF dwell_step[OF Cons.prems(1) one(1)] one(2)] by simp
qed simp

lemma mark_needs:
  assumes "Mark_seen sid \<in> set (snd (markSelectedSeen now d))"
  shows "currentSessionID d = sid \<and> fst (da_dwell d) = sid \<and> \<not> da_blurred d \<and> seenDwell \<le> passed now (snd (da_dwell d))"
  using assms by (auto simp: markSelectedSeen_def currentSessionID_def Let_def passed_def moment_def seenDwell_def split: if_splits option.splits)


definition done_row :: session where
  "done_row = (named ''a'' ''r'' 0)\<lparr>se_attention := AttentionDone\<rparr>"

definition later_on :: gotime where
  "later_on = at_noon\<lparr>gt_sec := 43203\<rparr>"

lemma done_row_fields [simp]: "se_id done_row = ''a''" "se_later done_row = False" "se_project done_row = []" "se_attention done_row = AttentionDone"
  "se_user_group done_row = []" "se_repo done_row = ''r''"
  by (simp_all add: done_row_def)


end
