(* ===== verification/Dash_Slips.thy ===== *)
theory Dash_Slips
  imports Dash_Facts
begin

text \<open>
  Runs of the dashboard in which it does not do what it asked or shows: a row out of date that leads to a panic, and
  questions whose answer acts on what is under the cursor by then.
\<close>

lemma spawn_row_fields [simp]:
  "se_id (spawn_row d) = sp_pty (da_spawn d)" "se_user_group (spawn_row d) = sp_group (da_spawn d)" "se_repo (spawn_row d) = []"
  "\<not> se_later (spawn_row d)" "se_project (spawn_row d) = []" "se_wrapper_pid (spawn_row d) = 0" "\<not> se_unseen (spawn_row d)"
  by (simp_all add: spawn_row_def zero_session_def Let_def split: option.split)

abbreviation row_a :: session where "row_a \<equiv> named ''a'' ''r'' 0"
abbreviation row_b :: session where "row_b \<equiv> named ''b'' ''r'' 7"

section \<open>A row out of date\<close>

text \<open>
  The row of a claude that was starting stays on the list one look longer when the cursor is elsewhere. Turning the tabs of
  the repositories off in between takes it away and leaves the cursor behind the last row: the next key panics.
\<close>

definition stale_run :: "dash_event list" where
  "stale_run = [Sessions [row_a] at_noon, Tab 1, Pty_started True [] ''pid-1'' 7 ''/r'' at_noon, Jump (- 1),
     Sessions [row_b, row_a] at_noon, Key_R (Some (with_tabs False)), Key_x]"

text \<open>The states on the way.\<close>

definition stale1 :: dash where
  "stale1 = (newModel (with_tabs True))\<lparr>da_all := [row_a], da_list := [row_a], da_dwell := (''a'', Some at_noon)\<rparr>"

definition stale2 :: dash where
  "stale2 = stale1\<lparr>da_group := ''r'', da_group_sel := (\<lambda>_. None)([] := Some ''a'')\<rparr>"

definition spawning :: dash where
  "spawning = stale2\<lparr>da_alive := (\<lambda>_. False)(''pid-1'' := True),
     da_spawn := \<lparr>sp_pty = ''pid-1'', sp_tag = 7, sp_sid = [], sp_cwd = ''/r'', sp_group = ''r'', sp_at = Some at_noon\<rparr>\<rparr>"

definition stale3 :: dash where
  "stale3 = spawning\<lparr>da_all := [spawn_row spawning, row_a], da_list := [spawn_row spawning, row_a], da_focus := ''pid-1''\<rparr>"

definition loading :: dash where
  "loading = stale3\<lparr>da_all := [row_b, row_a], da_sel := 1\<rparr>"

definition loaded :: dash where
  "loaded = loading\<lparr>da_all := [spawn_row loading, row_b, row_a], da_list := [spawn_row loading, row_b, row_a]\<rparr>"

definition stale4 :: dash where
  "stale4 = forget_spawn (loading\<lparr>da_sel := 2, da_list := [spawn_row loading, row_b, row_a]\<rparr>)"

lemmas stale_defs = stale4_def loaded_def loading_def stale3_def spawning_def stale2_def stale1_def

lemma to_stale1: "sessionsMsg id [row_a] at_noon (newModel (with_tabs True)) = (stale1, [])"
  by (simp add: sessionsMsg_def stale_defs running)

lemma to_stale2: "cycleGroup id 1 stale1 = stale2"
  by (simp add: stale_defs running)

lemma to_stale3: "ptyStartedMsg id True [] ''pid-1'' 7 ''/r'' at_noon stale2 = stale3"
proof -
  have s: "stale2\<lparr>da_alive := (da_alive stale2)(''pid-1'' := True),
      da_spawn := \<lparr>sp_pty = ''pid-1'', sp_tag = 7, sp_sid = [], sp_cwd = ''/r'', sp_group = da_group stale2, sp_at = Some at_noon\<rparr>\<rparr> = spawning"
    by (simp add: stale_defs newModel_def)
  have i: "applyGroupFilter id (injectSpawnRow at_noon spawning)
      = spawning\<lparr>da_all := [spawn_row spawning, row_a], da_list := [spawn_row spawning, row_a]\<rparr>"
    by (simp add: stale_defs running)
  have "last_row_of ''pid-1'' [spawn_row spawning, row_a] = Some 0" "da_sel spawning = 0" by (simp_all add: stale_defs running)
  then show ?thesis using s i by (simp add: ptyStartedMsg_def stale3_def Let_def)
qed

lemma to_loading: "jumpTo (- 1) stale3 = stale3\<lparr>da_sel := 1\<rparr>"
  by (simp add: stale_defs running)

lemma to_loaded: "reloaded id [row_b, row_a] at_noon (stale3\<lparr>da_sel := 1\<rparr>) = loaded"
proof -
  have "injectSpawnRow at_noon loading = loading\<lparr>da_all := [spawn_row loading, row_b, row_a]\<rparr>"
    by (simp add: stale_defs running)
  moreover have "applyGroupFilter id (leave_empty_tab (loading\<lparr>da_all := [spawn_row loading, row_b, row_a]\<rparr>)) = loaded"
    by (simp add: stale_defs running)
  moreover have "(stale3\<lparr>da_sel := 1\<rparr>)\<lparr>da_all := [row_b, row_a]\<rparr> = loading" by (simp add: loading_def)
  ultimately show ?thesis by (simp only: reloaded_def)
qed

lemma to_stale4: "sessionsMsg id [row_b, row_a] at_noon (stale3\<lparr>da_sel := 1\<rparr>) = (stale4, [])"
proof -
  have "currentSessionID (stale3\<lparr>da_sel := 1\<rparr>) = ''a''" "keep_cursor ''a'' loaded = loaded\<lparr>da_sel := 2\<rparr>"
    "selectSpawned id (loaded\<lparr>da_sel := 2\<rparr>) = stale4" "markSelectedSeen at_noon (bound_cursor stale4) = (stale4, [])"
    by (simp_all add: stale_defs running)
  then show ?thesis by (simp only: sessionsMsg_def to_loaded)
qed

lemma calm_tabs [simp]:
  "da_dup (toggleAutoRepoTabs lower saved d) = da_dup d" "da_ask_group (toggleAutoRepoTabs lower saved d) = da_ask_group d"
  "da_ask_restart (toggleAutoRepoTabs lower saved d) = da_ask_restart d"
  by (simp_all add: toggleAutoRepoTabs_def applyGroupFilter_def Let_def split: option.split)

lemma stale1_calm: "da_dup stale1 = None" "\<not> da_ask_group stale1" "\<not> da_ask_restart stale1"
  by (simp_all add: stale1_def newModel_def)

lemma stale3_calm: "da_dup stale3 = None" "\<not> da_ask_group stale3" "\<not> da_ask_restart stale3"
  by (simp_all add: stale3_def spawning_def stale2_def stale1_calm)

lemma stale_calm: "da_dup stale1 = None" "\<not> da_ask_group stale1" "\<not> da_ask_restart stale1"
  "da_dup stale2 = None" "\<not> da_ask_group stale2" "\<not> da_ask_restart stale2"
  "da_dup stale3 = None" "\<not> da_ask_group stale3" "\<not> da_ask_restart stale3"
  "da_dup stale4 = None" "\<not> da_ask_group stale4" "\<not> da_ask_restart stale4"
  by (simp_all add: stale1_calm stale3_calm stale2_def stale4_def loading_def forget_spawn_def)

theorem stale_row_panics: "dash_run id stale_run (newModel (with_tabs True)) = None"
proof -
  have "\<not> da_locked stale1" by (simp add: stale_defs newModel_def)
  then have steps: "dash_step id (Tab 1) stale1 = Some (stale2, [])"
    "dash_step id (Pty_started True [] ''pid-1'' 7 ''/r'' at_noon) stale2 = Some (stale3, [])"
    "dash_step id (Jump (- 1)) stale3 = Some (stale3\<lparr>da_sel := 1\<rparr>, [])"
    "dash_step id (Key_R (Some (with_tabs False))) stale4 = Some (toggleAutoRepoTabs id (Some (with_tabs False)) stale4, [])"
    by (simp_all add: dash_step_def stale_calm to_stale2 to_stale3 to_loading)
  have "toggleArchiveCurrent (toggleAutoRepoTabs id (Some (with_tabs False)) stale4) = None"
    by (simp add: toggleArchiveCurrent_def with_selected_def under_cursor_def stale_defs running)
  then have "dash_step id Key_x (toggleAutoRepoTabs id (Some (with_tabs False)) stale4) = None"
    by (simp add: dash_step_def stale_calm)
  then show ?thesis by (simp add: stale_run_def step_plain to_stale1 steps to_stale4)
qed

section \<open>A question answered about something else\<close>

text \<open>
  The question whether to restart a claude keeps no name: when its session leaves the list before the answer, the yes
  restarts the one the cursor has gone to.
\<close>

definition restart_run :: "dash_event list" where
  "restart_run = [Sessions [row_a, row_b] at_noon, Pty_list (\<lambda>k. k = ''a'') [] [], Ask_restart, Sessions [row_b] at_noon, Answer True]"

definition asked1 :: dash where
  "asked1 = (newModel (with_tabs True))\<lparr>da_all := [row_a, row_b], da_list := [row_a, row_b], da_dwell := (''a'', Some at_noon)\<rparr>"

definition asked2 :: dash where
  "asked2 = asked1\<lparr>da_alive := (\<lambda>k. k = ''a''), da_ask_restart := True\<rparr>"

definition asked3 :: dash where
  "asked3 = asked2\<lparr>da_all := [row_b], da_list := [row_b], da_dwell := (''b'', Some at_noon)\<rparr>"

lemmas asked_defs = asked3_def asked2_def asked1_def

theorem another_claude_restarted:
  "\<exists>d. dash_run id restart_run (newModel (with_tabs True)) = Some (d, [Restart_session ''b''])"
proof -
  have "sessionsMsg id [row_a, row_b] at_noon (newModel (with_tabs True)) = (asked1, [])"
    "askRestartSession (ptyListMsg (\<lambda>k. k = ''a'') [] [] asked1) = Some (asked2, [])"
    "sessionsMsg id [row_b] at_noon asked2 = (asked3, [])"
    by (simp_all add: sessionsMsg_def askRestartSession_def with_selected_def under_cursor_def ptyListMsg_def resolveSpawnSID_def asked_defs running)
  moreover have "answer_question id True asked3 = Some (asked3\<lparr>da_ask_restart := False\<rparr>, [Restart_session ''b''])"
    by (simp add: answer_question_def restartSessionCurrent_def with_selected_def under_cursor_def asked_defs running)
  moreover have "da_dup asked1 = None \<and> \<not> da_ask_group asked1 \<and> \<not> da_ask_restart asked1" by (simp add: asked_defs newModel_def)
  moreover from this have "da_dup (ptyListMsg f [] [] asked1) = None \<and> \<not> da_ask_group (ptyListMsg f [] [] asked1) \<and> \<not> da_ask_restart (ptyListMsg f [] [] asked1)" for f
    by (simp add: ptyListMsg_def resolveSpawnSID_def Let_def)
  ultimately show ?thesis by (simp add: restart_run_def dash_step_def other_key_def is_click_def)
qed

text \<open>The wheel moves the cursor while the question is open: no load is needed.\<close>

theorem wheel_changes_the_question:
  "\<exists>d. dash_run id [Sessions [row_a, row_b] at_noon, Pty_list (\<lambda>k. k = ''a'') [] [], Ask_restart, Wheel 1, Answer True] (newModel (with_tabs True))
     = Some (d, [Restart_session ''b''])"
proof -
  have "sessionsMsg id [row_a, row_b] at_noon (newModel (with_tabs True)) = (asked1, [])"
    "askRestartSession (ptyListMsg (\<lambda>k. k = ''a'') [] [] asked1) = Some (asked2, [])" "move 1 asked2 = asked2\<lparr>da_sel := 1\<rparr>"
    by (simp_all add: sessionsMsg_def askRestartSession_def with_selected_def under_cursor_def ptyListMsg_def resolveSpawnSID_def move_def asked_defs running)
  moreover have "answer_question id True (asked2\<lparr>da_sel := 1\<rparr>) = Some (asked2\<lparr>da_sel := 1, da_ask_restart := False\<rparr>, [Restart_session ''b''])"
    by (simp add: answer_question_def restartSessionCurrent_def with_selected_def under_cursor_def asked_defs running)
  moreover have "da_dup asked1 = None \<and> \<not> da_ask_group asked1 \<and> \<not> da_ask_restart asked1" by (simp add: asked_defs newModel_def)
  moreover from this have "da_dup (ptyListMsg f [] [] asked1) = None \<and> \<not> da_ask_group (ptyListMsg f [] [] asked1) \<and> \<not> da_ask_restart (ptyListMsg f [] [] asked1)" for f
    by (simp add: ptyListMsg_def resolveSpawnSID_def Let_def)
  ultimately show ?thesis by (simp add: dash_step_def other_key_def is_click_def)
qed

text \<open>
  Nor does the question whether to archive a tab: when its last session leaves before the answer, the dashboard goes to the
  next tab, and the yes archives what is there.
\<close>

definition archive_run :: "dash_event list" where
  "archive_run = [Sessions [row_a, named ''c'' ''q'' 0] at_noon, Tab 1, Ask_archive, Sessions [row_a] at_noon, Answer True]"

definition tab1 :: dash where
  "tab1 = (newModel (with_tabs True))\<lparr>da_all := [row_a, named ''c'' ''q'' 0], da_list := [row_a, named ''c'' ''q'' 0], da_dwell := (''a'', Some at_noon)\<rparr>"

definition tab2 :: dash where
  "tab2 = tab1\<lparr>da_group := ''q'', da_group_sel := (\<lambda>_. None)([] := Some ''a''), da_list := [named ''c'' ''q'' 0], da_ask_group := True\<rparr>"

definition tab3 :: dash where
  "tab3 = tab2\<lparr>da_all := [row_a], da_list := [row_a], da_group := ''r''\<rparr>"

lemmas tab_defs = tab3_def tab2_def tab1_def

theorem another_tab_archived:
  "\<exists>d. dash_run id archive_run (newModel (with_tabs True)) = Some (d, [Set_archived ''a'' True])"
proof -
  have "sessionsMsg id [row_a, named ''c'' ''q'' 0] at_noon (newModel (with_tabs True)) = (tab1, [])"
    "cycleGroup id 1 tab1 = tab2\<lparr>da_ask_group := False\<rparr>"
    "promptArchiveCurrentGroup (tab2\<lparr>da_ask_group := False\<rparr>) = tab2" "sessionsMsg id [row_a] at_noon tab2 = (tab3, [])" "\<not> da_locked tab1"
    by (simp_all add: sessionsMsg_def promptArchiveCurrentGroup_def tab_defs running)
  moreover have "\<exists>d. answer_question id True tab3 = Some (d, [Set_archived ''a'' True])"
    by (simp add: answer_question_def archiveCurrentGroup_def tab_defs newModel_def Let_def)
  moreover have "da_dup tab1 = None \<and> \<not> da_ask_group tab1 \<and> \<not> da_ask_restart tab1" "da_dup tab2 = None \<and> \<not> da_ask_restart tab2"
    by (simp_all add: tab_defs newModel_def)
  ultimately show ?thesis by (auto simp: archive_run_def dash_step_def other_key_def is_click_def)
qed

end
