(* ===== verification/Self_Update.thy ===== *)
theory Self_Update
  imports Go_Prelude
begin

text \<open>
  Replacing the program by a newer release (internal/selfupdate/selfupdate.go): which release is picked, when it is
  taken and what is on the disk after each step and each failure. What GitHub answers, SHA-256 and the comparison of
  versions (golang.org/x/mod/semver) are arguments.
\<close>

datatype update_error =
  Unknown_channel | Api_failed | No_release | No_tag | No_asset | No_self | No_temp | Download_failed | Checksum_mismatch
| Chmod_failed | Rename_failed

datatype channel = ChannelStable | ChannelDev

definition ParseChannel :: "string \<Rightarrow> update_error + channel" where
  "ParseChannel s =
     (let c = to_lower (trim_space s)
      in if c \<in> {[], ''stable''} then Inr ChannelStable
         else if c \<in> {''dev'', ''beta'', ''prerelease'', ''pre''} then Inr ChannelDev
         else Inl Unknown_channel)"

record release =
  rl_tag :: string
  rl_draft :: bool
  rl_assets :: "(string \<times> string) list"

record semver =
  sv_valid :: "string \<Rightarrow> bool"
  sv_compare :: "string \<Rightarrow> string \<Rightarrow> int"

definition Newer :: "semver \<Rightarrow> string \<Rightarrow> string \<Rightarrow> bool" where
  "Newer sv current tag =
     (if tag = [] \<or> tag = current then False
      else if sv_valid sv current \<and> sv_valid sv tag then 0 < sv_compare sv tag current
      else True)"

text \<open>What GitHub answers: the latest release, and the last twenty; None when it does not.\<close>

record github =
  gh_latest :: "release option"
  gh_releases :: "release list option"

definition no_rel :: release where
  "no_rel = \<lparr>rl_tag = [], rl_draft = False, rl_assets = []\<rparr>"

fun highest :: "semver \<Rightarrow> release list \<Rightarrow> release \<Rightarrow> release" where
  "highest sv [] picked = picked"
| "highest sv (r # rs) picked =
     (if rl_draft r \<or> rl_tag r = [] \<or> \<not> sv_valid sv (rl_tag r) then highest sv rs picked
      else if rl_tag picked = [] \<or> 0 < sv_compare sv (rl_tag r) (rl_tag picked) then highest sv rs r
      else highest sv rs picked)"

definition pick_release :: "semver \<Rightarrow> github \<Rightarrow> channel \<Rightarrow> update_error + release" where
  "pick_release sv gh ch =
     (case ch of
        ChannelStable \<Rightarrow> (case gh_latest gh of None \<Rightarrow> Inl Api_failed | Some r \<Rightarrow> Inr r)
      | ChannelDev \<Rightarrow>
          (case gh_releases gh of
             None \<Rightarrow> Inl Api_failed
           | Some rs \<Rightarrow> (let r = highest sv rs no_rel in if rl_tag r = [] then Inl No_release else Inr r)))"

text \<open>The last asset with a name, as the loop leaves it.\<close>

definition asset_url :: "string \<Rightarrow> (string \<times> string) list \<Rightarrow> string" where
  "asset_url name as = (case map_of (rev as) name of None \<Rightarrow> [] | Some u \<Rightarrow> u)"

definition latestAsset :: "semver \<Rightarrow> github \<Rightarrow> string \<Rightarrow> channel \<Rightarrow> update_error + string \<times> string \<times> string" where
  "latestAsset sv gh wanted ch =
     (case pick_release sv gh ch of
        Inl e \<Rightarrow> Inl e
      | Inr r \<Rightarrow>
          (if rl_tag r = [] then Inl No_tag
           else let url = asset_url wanted (rl_assets r)
                in if url = [] then Inl No_asset else Inr (rl_tag r, url, asset_url (wanted @ ''.sha256'') (rl_assets r))))"

definition LatestTag :: "semver \<Rightarrow> github \<Rightarrow> string \<Rightarrow> channel \<Rightarrow> update_error + string" where
  "LatestTag sv gh wanted ch = (case latestAsset sv gh wanted ch of Inl e \<Rightarrow> Inl e | Inr (tag, _, _) \<Rightarrow> Inr tag)"

text \<open>The machine: the bytes at the path of the program and of the temporary file beside it, and what works on it.\<close>

record host =
  ho_program :: string
  ho_temp :: "string option"
  ho_self :: bool
  ho_creates :: bool
  ho_chmods :: bool
  ho_renames :: bool

text \<open>The first of strings.Fields: up to the first white space.\<close>

fun first_word :: "string \<Rightarrow> string" where
  "first_word [] = []"
| "first_word (c # s) = (if trim_left (c # s) \<noteq> c # s then [] else c # first_word s)"

text \<open>What an address (a well-formed one) serves, None when the request fails; a body cut short is a failure.\<close>

definition verifyChecksum :: "(string \<Rightarrow> string) \<Rightarrow> (string \<Rightarrow> string option) \<Rightarrow> string \<Rightarrow> string \<Rightarrow> bool" where
  "verifyChecksum sha web content url =
     (case web url of
        None \<Rightarrow> True
      | Some body \<Rightarrow> (let line = trim_space (take 256 body) in if line = [] then True else sha content = first_word line))"

record update_result =
  ur_new :: string
  ur_noop :: bool
  ur_replaced :: bool

definition already_on :: "semver \<Rightarrow> string \<Rightarrow> string \<Rightarrow> bool" where
  "already_on sv current tag \<longleftrightarrow>
     current \<noteq> [] \<and> current \<noteq> ''dev''
     \<and> (if sv_valid sv current \<and> sv_valid sv tag then 0 \<le> sv_compare sv current tag else tag = current)"

definition clear_temp :: "host \<Rightarrow> host" where
  "clear_temp m = m\<lparr>ho_temp := None\<rparr>"

text \<open>From the temporary file on; the deferred removal leaves none behind.\<close>

definition install_asset :: "(string \<Rightarrow> string) \<Rightarrow> (string \<Rightarrow> string option) \<Rightarrow> string \<Rightarrow> string \<Rightarrow> host \<Rightarrow> host \<times> (update_error + unit)" where
  "install_asset sha web asset sum_url m =
     (if \<not> ho_self m then (m, Inl No_self)
      else if \<not> ho_creates m then (m, Inl No_temp)
      else
        let m = m\<lparr>ho_temp := Some []\<rparr>
        in case web asset of
             None \<Rightarrow> (clear_temp m, Inl Download_failed)
           | Some content \<Rightarrow>
               let m = m\<lparr>ho_temp := Some content\<rparr>
               in if sum_url \<noteq> [] \<and> \<not> verifyChecksum sha web content sum_url then (clear_temp m, Inl Checksum_mismatch)
                  else if \<not> ho_chmods m then (clear_temp m, Inl Chmod_failed)
                  else if \<not> ho_renames m then (clear_temp m, Inl Rename_failed)
                  else (clear_temp (m\<lparr>ho_program := content\<rparr>), Inr ()))"

definition Run ::
  "semver \<Rightarrow> (string \<Rightarrow> string) \<Rightarrow> github \<Rightarrow> (string \<Rightarrow> string option) \<Rightarrow> string \<Rightarrow> string \<Rightarrow> channel \<Rightarrow> host
     \<Rightarrow> host \<times> (update_error + update_result)" where
  "Run sv sha gh web wanted current ch m =
     (case latestAsset sv gh wanted ch of
        Inl e \<Rightarrow> (m, Inl e)
      | Inr (tag, asset, sum_url) \<Rightarrow>
          if already_on sv current tag then (m, Inr \<lparr>ur_new = tag, ur_noop = True, ur_replaced = False\<rparr>)
          else case install_asset sha web asset sum_url m of
                 (m, Inl e) \<Rightarrow> (m, Inl e)
               | (m, Inr _) \<Rightarrow> (m, Inr \<lparr>ur_new = tag, ur_noop = False, ur_replaced = True\<rparr>))"

section \<open>Which release is picked\<close>

text \<open>The comparison of versions is a total order of the valid ones, up to build metadata.\<close>

definition semver_ok :: "semver \<Rightarrow> bool" where
  "semver_ok sv \<longleftrightarrow>
     (\<forall>a b. sv_valid sv a \<longrightarrow> sv_valid sv b \<longrightarrow> sv_compare sv a b = - sv_compare sv b a)
     \<and> (\<forall>a b c. sv_valid sv a \<longrightarrow> sv_valid sv b \<longrightarrow> sv_valid sv c \<longrightarrow> 0 \<le> sv_compare sv a b \<longrightarrow> 0 \<le> sv_compare sv b c \<longrightarrow> 0 \<le> sv_compare sv a c)"

definition candidate :: "semver \<Rightarrow> release \<Rightarrow> bool" where
  "candidate sv r \<longleftrightarrow> \<not> rl_draft r \<and> rl_tag r \<noteq> [] \<and> sv_valid sv (rl_tag r)"

lemma semver_flip: "semver_ok sv \<Longrightarrow> sv_valid sv a \<Longrightarrow> sv_valid sv b \<Longrightarrow> sv_compare sv a b = - sv_compare sv b a"
  unfolding semver_ok_def by blast

lemma semver_trans: "semver_ok sv \<Longrightarrow> sv_valid sv a \<Longrightarrow> sv_valid sv b \<Longrightarrow> sv_valid sv c \<Longrightarrow> 0 \<le> sv_compare sv a b
  \<Longrightarrow> 0 \<le> sv_compare sv b c \<Longrightarrow> 0 \<le> sv_compare sv a c"
  unfolding semver_ok_def by blast

lemma semver_refl: "semver_ok sv \<Longrightarrow> sv_valid sv a \<Longrightarrow> sv_compare sv a a = 0"
  using semver_flip[of sv a a] by simp

definition best_of :: "semver \<Rightarrow> release \<Rightarrow> release set \<Rightarrow> bool" where
  "best_of sv h rs \<longleftrightarrow> candidate sv h \<and> h \<in> rs \<and> (\<forall>q \<in> rs. candidate sv q \<longrightarrow> 0 \<le> sv_compare sv (rl_tag h) (rl_tag q))"

lemma best_of_more:
  assumes "semver_ok sv" "best_of sv h (insert r rs)" "candidate sv r" "candidate sv p \<Longrightarrow> 0 \<le> sv_compare sv (rl_tag r) (rl_tag p)"
  shows "best_of sv h (insert p (insert r rs))"
proof -
  have h: "candidate sv h" "0 \<le> sv_compare sv (rl_tag h) (rl_tag r)" using assms(2,3) by (simp_all add: best_of_def)
  have "0 \<le> sv_compare sv (rl_tag h) (rl_tag p)" if "candidate sv p"
    by (rule semver_trans[OF assms(1), of _ "rl_tag r"]) (use h assms(3,4) that in \<open>simp_all add: candidate_def\<close>)
  then show ?thesis using assms(2) by (simp add: best_of_def)
qed

lemma highest_is:
  assumes "semver_ok sv" "rl_tag picked = [] \<or> candidate sv picked"
  shows "if rl_tag (highest sv rs picked) = [] then rl_tag picked = [] \<and> filter (candidate sv) rs = []
    else best_of sv (highest sv rs picked) (insert picked (set rs))"
  using assms(2)
proof (induction rs arbitrary: picked)
  case Nil
  then show ?case using semver_refl[OF assms(1)] by (auto simp: candidate_def best_of_def)
next
  case (Cons r rs)
  show ?case
  proof (cases "candidate sv r")
    case False
    then have "highest sv (r # rs) picked = highest sv rs picked" by (auto simp: candidate_def)
    then show ?thesis using Cons.IH[OF Cons.prems] False by (auto simp: best_of_def)
  next
    case r: True
    then have step: "highest sv (r # rs) picked
        = (if rl_tag picked = [] \<or> 0 < sv_compare sv (rl_tag r) (rl_tag picked) then highest sv rs r else highest sv rs picked)"
      by (simp add: candidate_def)
    have tag: "rl_tag r \<noteq> []" using r by (simp add: candidate_def)
    show ?thesis
    proof (cases "rl_tag picked = [] \<or> 0 < sv_compare sv (rl_tag r) (rl_tag picked)")
      case True
      then have h: "highest sv (r # rs) picked = highest sv rs r" using step by simp
      have b: "rl_tag (highest sv rs r) \<noteq> []" "best_of sv (highest sv rs r) (insert r (set rs))" using Cons.IH[of r] r tag by (auto split: if_splits)
      have "best_of sv (highest sv rs r) (insert picked (insert r (set rs)))"
        by (rule best_of_more[OF assms(1) b(2) r]) (use True in \<open>auto simp: candidate_def\<close>)
      then show ?thesis using b(1) h by simp
    next
      case False
      then have h: "highest sv (r # rs) picked = highest sv rs picked" using step by simp
      have p: "candidate sv picked" "rl_tag picked \<noteq> []" using False Cons.prems by auto
      have b: "rl_tag (highest sv rs picked) \<noteq> []" "best_of sv (highest sv rs picked) (insert picked (set rs))"
        using Cons.IH[OF Cons.prems] p by (auto split: if_splits)
      have "0 \<le> sv_compare sv (rl_tag picked) (rl_tag r)"
        using False semver_flip[OF assms(1), of "rl_tag picked" "rl_tag r"] p r by (simp add: candidate_def)
      then have "best_of sv (highest sv rs picked) (insert r (insert picked (set rs)))" by (intro best_of_more[OF assms(1) b(2) p(1)])
      then show ?thesis using b(1) h by (simp add: insert_commute)
    qed
  qed
qed

section \<open>What an update does\<close>

text \<open>The banner of the dashboard and the installer agree on what is an update.\<close>

theorem banner_and_installer_agree:
  assumes "semver_ok sv" "tag \<noteq> []" "current \<noteq> []" "current \<noteq> ''dev''"
  shows "Newer sv current tag \<longleftrightarrow> \<not> already_on sv current tag"
  using assms semver_flip[OF assms(1), of current tag] semver_refl[OF assms(1), of current]
  by (auto simp: Newer_def already_on_def)

text \<open>C21. An update never goes back and is all or nothing. When the program was replaced, its bytes are those of the asset of
  the picked release for this machine, with the checksum published beside it if one was served; the release is newer than
  the version that ran (unless one of the two is no version), and on the dev channel none of the releases listed is newer
  than it. Otherwise the program is as it was. In both cases no temporary file is left.\<close>

theorem update_goes_forward:
  assumes "semver_ok sv" "ho_temp m = None" "Run sv sha gh web wanted current ch m = (m', res)"
  shows "ho_temp m' = None \<and>
    (if (\<exists>r. res = Inr r \<and> ur_replaced r)
     then (\<exists>r. pick_release sv gh ch = Inr r \<and> web (asset_url wanted (rl_assets r)) = Some (ho_program m')
        \<and> (asset_url (wanted @ ''.sha256'') (rl_assets r) = [] \<or> verifyChecksum sha web (ho_program m') (asset_url (wanted @ ''.sha256'') (rl_assets r)))
        \<and> (sv_valid sv current \<and> sv_valid sv (rl_tag r) \<and> current \<notin> {[], ''dev''} \<longrightarrow> 0 < sv_compare sv (rl_tag r) current)
        \<and> (ch = ChannelDev \<longrightarrow> (\<forall>q \<in> set (the (gh_releases gh)). candidate sv q \<longrightarrow> 0 \<le> sv_compare sv (rl_tag r) (rl_tag q))))
     else ho_program m' = ho_program m)"
proof (cases "latestAsset sv gh wanted ch")
  case (Inl e)
  then show ?thesis using assms(2,3) by (auto simp: Run_def)
next
  case (Inr x)
  then obtain r where r: "pick_release sv gh ch = Inr r" "rl_tag r \<noteq> []"
    "x = (rl_tag r, asset_url wanted (rl_assets r), asset_url (wanted @ ''.sha256'') (rl_assets r))"
    by (auto simp: latestAsset_def Let_def split: sum.splits if_splits)
  show ?thesis
  proof (cases "already_on sv current (rl_tag r)")
    case True
    then show ?thesis using assms(2,3) Inr r(3) by (auto simp: Run_def)
  next
    case False
    have new: "sv_valid sv current \<and> sv_valid sv (rl_tag r) \<and> current \<notin> {[], ''dev''} \<longrightarrow> 0 < sv_compare sv (rl_tag r) current"
      using False semver_flip[OF assms(1), of current "rl_tag r"] by (auto simp: already_on_def)
    have top: "ch = ChannelDev \<longrightarrow> (\<forall>q \<in> set (the (gh_releases gh)). candidate sv q \<longrightarrow> 0 \<le> sv_compare sv (rl_tag r) (rl_tag q))"
    proof
      assume "ch = ChannelDev"
      then obtain rs where "gh_releases gh = Some rs" "r = highest sv rs no_rel"
        using r(1) by (auto simp: pick_release_def Let_def split: option.splits if_splits)
      then show "\<forall>q \<in> set (the (gh_releases gh)). candidate sv q \<longrightarrow> 0 \<le> sv_compare sv (rl_tag r) (rl_tag q)"
        using highest_is[OF assms(1), of no_rel rs] r(2) by (simp add: no_rel_def best_of_def)
    qed
    obtain m1 y where i: "install_asset sha web (asset_url wanted (rl_assets r)) (asset_url (wanted @ ''.sha256'') (rl_assets r)) m = (m1, y)"
      by (cases "install_asset sha web (asset_url wanted (rl_assets r)) (asset_url (wanted @ ''.sha256'') (rl_assets r)) m")
    have run: "Run sv sha gh web wanted current ch m
        = (m1, case y of Inl e \<Rightarrow> Inl e | Inr _ \<Rightarrow> Inr \<lparr>ur_new = rl_tag r, ur_noop = False, ur_replaced = True\<rparr>)"
      using False Inr r(3) i by (cases y) (simp_all add: Run_def)
    have inst: "ho_temp m1 = None \<and> (case y of Inl e \<Rightarrow> ho_program m1 = ho_program m
        | Inr _ \<Rightarrow> web (asset_url wanted (rl_assets r)) = Some (ho_program m1)
            \<and> (asset_url (wanted @ ''.sha256'') (rl_assets r) = [] \<or> verifyChecksum sha web (ho_program m1) (asset_url (wanted @ ''.sha256'') (rl_assets r))))"
      using i assms(2) by (auto simp: install_asset_def clear_temp_def Let_def split: if_splits option.splits)
    show ?thesis
    proof (cases y)
      case (Inl e)
      then show ?thesis using inst run assms(3) by auto
    next
      case y: (Inr u)
      then have "res = Inr \<lparr>ur_new = rl_tag r, ur_noop = False, ur_replaced = True\<rparr>" "m' = m1" using run assms(3) by auto
      then show ?thesis using inst y r(1) new top by simp
    qed
  qed
qed

text \<open>Two versions, the later one with a checksum; the hash of the example is the text turned around.\<close>

definition two_versions :: semver where
  "two_versions = \<lparr>sv_valid = (\<lambda>v. v \<in> {''v1'', ''v2''}), sv_compare = (\<lambda>a b. if a = b then 0 else if a = ''v2'' then 1 else - 1)\<rparr>"

lemma two_versions_ok: "semver_ok two_versions"
  by (auto simp: semver_ok_def two_versions_def)

definition a_feed :: github where
  "a_feed = \<lparr>gh_latest = None, gh_releases = Some
     [\<lparr>rl_tag = ''v1'', rl_draft = False, rl_assets = []\<rparr>, \<lparr>rl_tag = ''v2'', rl_draft = False, rl_assets = [(''c'', ''u''), (''c.sha256'', ''s'')]\<rparr>]\<rparr>"

definition a_web :: "string \<Rightarrow> string option" where
  "a_web u = (if u = ''u'' then Some ''new'' else if u = ''s'' then Some ''wen  c'' else None)"

definition a_host :: host where
  "a_host = \<lparr>ho_program = ''old'', ho_temp = None, ho_self = True, ho_creates = True, ho_chmods = True, ho_renames = True\<rparr>"

theorem update_goes_forward_witness:
  "ho_temp (a_host\<lparr>ho_program := ''new''\<rparr>) = None \<and>
    (\<exists>r. pick_release two_versions a_feed ChannelDev = Inr r \<and> a_web (asset_url ''c'' (rl_assets r)) = Some ''new'')"
proof -
  have "Run two_versions rev a_feed a_web ''c'' ''v1'' ChannelDev a_host
      = (a_host\<lparr>ho_program := ''new''\<rparr>, Inr \<lparr>ur_new = ''v2'', ur_noop = False, ur_replaced = True\<rparr>)"
    by code_simp
  from update_goes_forward[OF two_versions_ok _ this] show ?thesis by (auto simp: a_host_def)
qed

end
