(* ===== verification/Rate_Limit.thy ===== *)
theory Rate_Limit
  imports Complex_Main
begin

text \<open>
  The limiter in front of the hooks (internal/server/ratelimit.go): a bucket of tokens, refilled with time. Times are
  nanoseconds of the monotonic clock; the float64 amounts are rational numbers, so rounding is outside.
\<close>

record tokenBucket =
  tb_tokens :: rat
  tb_capacity :: rat
  tb_refill :: rat
  tb_last :: int

definition newTokenBucket :: "int \<Rightarrow> int \<Rightarrow> int \<Rightarrow> tokenBucket" where
  "newTokenBucket qps burst now =
     \<lparr>tb_tokens = of_int burst, tb_capacity = of_int burst, tb_refill = of_int qps, tb_last = now\<rparr>"

definition seconds :: "int \<Rightarrow> rat" where
  "seconds ns = of_int ns / 1000000000"

definition filled :: "int \<Rightarrow> tokenBucket \<Rightarrow> rat" where
  "filled now b =
     (let t = tb_tokens b + seconds (now - tb_last b) * tb_refill b in if tb_capacity b < t then tb_capacity b else t)"

definition allow :: "int \<Rightarrow> tokenBucket \<Rightarrow> bool \<times> tokenBucket" where
  "allow now b =
     (let b = b\<lparr>tb_tokens := filled now b, tb_last := now\<rparr>
      in if tb_tokens b < 1 then (False, b) else (True, b\<lparr>tb_tokens := tb_tokens b - 1\<rparr>))"

text \<open>A request beyond the limit is answered 429 and does not reach its handler; without a limiter all do.\<close>

definition rateLimited :: "('s \<Rightarrow> nat \<times> 's) \<Rightarrow> int \<Rightarrow> tokenBucket option \<times> 's \<Rightarrow> nat \<times> (tokenBucket option \<times> 's)" where
  "rateLimited h now st =
     (case fst st of
        None \<Rightarrow> (case h (snd st) of (code, s) \<Rightarrow> (code, None, s))
      | Some b \<Rightarrow>
          (case allow now b of
             (True, b) \<Rightarrow> (case h (snd st) of (code, s) \<Rightarrow> (code, Some b, s))
           | (False, b) \<Rightarrow> (429, Some b, snd st)))"

section \<open>Requests one after the other\<close>

fun run_limited :: "('s \<Rightarrow> nat \<times> 's) \<Rightarrow> int list \<Rightarrow> tokenBucket option \<times> 's \<Rightarrow> nat list \<times> (tokenBucket option \<times> 's)" where
  "run_limited h [] st = ([], st)"
| "run_limited h (t # ts) st =
     (case rateLimited h t st of (code, st) \<Rightarrow> (case run_limited h ts st of (codes, st) \<Rightarrow> (code # codes, st)))"

text \<open>A handler that counts its calls.\<close>

definition counting :: "nat \<Rightarrow> nat \<times> nat" where
  "counting n = (200, Suc n)"

definition bucket_ok :: "tokenBucket \<Rightarrow> bool" where
  "bucket_ok b \<longleftrightarrow> 0 \<le> tb_tokens b \<and> tb_tokens b \<le> tb_capacity b \<and> 0 \<le> tb_refill b"

lemma new_bucket_ok: "0 \<le> qps \<Longrightarrow> 0 \<le> burst \<Longrightarrow> bucket_ok (newTokenBucket qps burst now)"
  by (simp add: bucket_ok_def newTokenBucket_def)

lemma seconds_mono: "0 \<le> n \<Longrightarrow> 0 \<le> seconds n"
  by (simp add: seconds_def)

lemma seconds_add: "seconds (c - a) = seconds (c - b) + seconds (b - a)"
  by (simp add: seconds_def add_divide_distrib[symmetric] of_int_add[symmetric])

lemma filled_bounds:
  assumes "bucket_ok b" "tb_last b \<le> now"
  shows "0 \<le> filled now b \<and> filled now b \<le> tb_capacity b \<and> filled now b \<le> tb_tokens b + seconds (now - tb_last b) * tb_refill b"
  using assms seconds_mono[of "now - tb_last b"] by (auto simp: filled_def bucket_ok_def Let_def)

lemma allow_fields [simp]:
  "tb_capacity (snd (allow now b)) = tb_capacity b" "tb_refill (snd (allow now b)) = tb_refill b" "tb_last (snd (allow now b)) = now"
  "fst (allow now b) \<longleftrightarrow> 1 \<le> filled now b"
  "tb_tokens (snd (allow now b)) = filled now b - (if fst (allow now b) then 1 else 0)"
  by (simp_all add: allow_def Let_def not_less)

lemma allow_ok: "bucket_ok b \<Longrightarrow> tb_last b \<le> now \<Longrightarrow> bucket_ok (snd (allow now b))"
  using filled_bounds[of b now] by (auto simp: bucket_ok_def)

text \<open>How many of the requests are let through.\<close>

fun passed_through :: "int list \<Rightarrow> tokenBucket \<Rightarrow> nat" where
  "passed_through [] b = 0"
| "passed_through (t # ts) b = (if fst (allow t b) then 1 else 0) + passed_through ts (snd (allow t b))"

lemma run_limited_Cons:
  assumes "run_limited counting (t # ts) (Some b, n) = (codes, b', m)"
  obtains rest where "run_limited counting ts (Some (snd (allow t b)), n + (if fst (allow t b) then 1 else 0)) = (rest, b', m)"
    "codes = (if fst (allow t b) then 200 else 429) # rest"
proof -
  obtain ok c where a: "allow t b = (ok, c)" by (cases "allow t b")
  obtain rest b'' m'' where r: "run_limited counting ts (Some c, n + (if ok then 1 else 0)) = (rest, b'', m'')"
    by (cases "run_limited counting ts (Some c, n + (if ok then 1 else 0))") auto
  have one: "rateLimited counting t (Some b, n) = (if ok then 200 else 429, Some c, n + (if ok then 1 else 0))"
    using a by (cases ok) (simp_all add: rateLimited_def counting_def)
  then have "codes = (if ok then 200 else 429) # rest" "b' = b''" "m = m''" using assms r by simp_all
  then show ?thesis using that r a by simp
qed

lemma run_counts:
  "run_limited counting ts (Some b, n) = (codes, b', m) \<Longrightarrow> m = n + passed_through ts b \<and> length (filter (\<lambda>c. c = 200) codes) = passed_through ts b"
proof (induction ts arbitrary: b n codes)
  case (Cons t ts)
  from Cons.prems obtain rest where
    r: "run_limited counting ts (Some (snd (allow t b)), n + (if fst (allow t b) then 1 else 0)) = (rest, b', m)"
      "codes = (if fst (allow t b) then 200 else 429) # rest" by (rule run_limited_Cons)
  then show ?case using Cons.IH[OF r(1)] by (cases "fst (allow t b)") (simp_all del: allow_fields)
qed simp

lemma passed_step:
  assumes "bucket_ok b" "tb_last b \<le> t" "of_nat (passed_through ts (snd (allow t b))) \<le> tb_tokens (snd (allow t b)) + x"
  shows "of_nat (passed_through (t # ts) b) \<le> filled t b + x"
  using assms by (cases "fst (allow t b)") simp_all

lemma passed_bound:
  "bucket_ok b \<Longrightarrow> sorted (tb_last b # ts) \<Longrightarrow> of_nat (passed_through ts b) \<le> tb_tokens b + seconds (last (tb_last b # ts) - tb_last b) * tb_refill b"
proof (induction ts arbitrary: b)
  case Nil
  then show ?case by (simp add: bucket_ok_def seconds_def)
next
  case (Cons t ts)
  have t: "tb_last b \<le> t" using Cons.prems(2) by simp
  define l where "l = last (t # ts)"
  have "of_nat (passed_through ts (snd (allow t b))) \<le> tb_tokens (snd (allow t b)) + seconds (l - t) * tb_refill b"
    using Cons.IH[of "snd (allow t b)"] allow_ok[OF Cons.prems(1) t] Cons.prems(2) by (simp add: l_def)
  from passed_step[OF Cons.prems(1) t this] filled_bounds[OF Cons.prems(1) t]
  have "of_nat (passed_through (t # ts) b) \<le> tb_tokens b + seconds (t - tb_last b) * tb_refill b + seconds (l - t) * tb_refill b" by linarith
  also have "\<dots> = tb_tokens b + seconds (l - tb_last b) * tb_refill b"
    by (simp add: seconds_add[of l "tb_last b" t] distrib_right)
  finally show ?case by (simp add: l_def)
qed

lemma passed_window:
  assumes "bucket_ok b" "tb_last b \<le> t" "sorted (t # ts)"
  shows "of_nat (passed_through (t # ts) b) \<le> tb_capacity b + seconds (last (t # ts) - t) * tb_refill b"
proof -
  have "of_nat (passed_through ts (snd (allow t b))) \<le> tb_tokens (snd (allow t b)) + seconds (last (t # ts) - t) * tb_refill b"
    using passed_bound[of "snd (allow t b)" ts] allow_ok[OF assms(1,2)] assms(3) by simp
  from passed_step[OF assms(1,2) this] filled_bounds[OF assms(1,2)] show ?thesis by linarith
qed

lemma run_state:
  "bucket_ok b \<Longrightarrow> sorted (tb_last b # ts) \<Longrightarrow> run_limited counting ts (Some b, n) = (codes, b', m) \<Longrightarrow>
   \<exists>c. b' = Some c \<and> bucket_ok c \<and> tb_last c = last (tb_last b # ts) \<and> tb_capacity c = tb_capacity b \<and> tb_refill c = tb_refill b"
proof (induction ts arbitrary: b n codes)
  case (Cons t ts)
  have c: "bucket_ok (snd (allow t b))" using allow_ok[OF Cons.prems(1), of t] Cons.prems(2) by simp
  from Cons.prems(3) obtain rest where
    "run_limited counting ts (Some (snd (allow t b)), n + (if fst (allow t b) then 1 else 0)) = (rest, b', m)" by (rule run_limited_Cons)
  from Cons.IH[OF c _ this] show ?case using Cons.prems(2) by simp
qed auto

text \<open>C20. Whatever came before, of the requests of any stretch of time at most the burst and the rate times its length reach
  their handler: with the hooks' fifty a second and a burst of a hundred, at most a hundred and fifty in any second. The others
  are answered 429 and change nothing.\<close>

theorem requests_are_limited:
  assumes "0 \<le> qps" "0 \<le> burst" "sorted (start # before @ t # ts)"
    and "run_limited counting before (Some (newTokenBucket qps burst start), n) = (codes, st)"
    and "run_limited counting (t # ts) st = (codes', st')"
  shows "of_nat (snd st' - snd st) \<le> of_int burst + seconds (last (t # ts) - t) * of_int qps"
proof -
  let ?b = "newTokenBucket qps burst start"
  have last: "tb_last ?b = start" by (simp add: newTokenBucket_def)
  obtain c where c: "fst st = Some c" "bucket_ok c" "tb_last c = last (start # before)" "tb_capacity c = of_int burst" "tb_refill c = of_int qps"
    using run_state[OF new_bucket_ok[OF assms(1,2), of start], of before n codes "fst st" "snd st"] assms(3,4) last
    by (auto simp: newTokenBucket_def sorted_append)
  have "last (start # before) \<le> t" using assms(3) by (cases before) (auto simp: sorted_append dest: last_in_set)
  moreover have "sorted (t # ts)" using assms(3) by (simp add: sorted_append)
  ultimately have "of_nat (passed_through (t # ts) c) \<le> of_int burst + seconds (last (t # ts) - t) * of_int qps"
    using passed_window[of c t ts] c by simp
  moreover have "run_limited counting (t # ts) (Some c, snd st) = (codes', fst st', snd st')" using assms(5) c(1) by (cases st) simp
  then have "snd st' = snd st + passed_through (t # ts) c" by (rule run_counts[THEN conjunct1])
  ultimately show ?thesis by simp
qed

text \<open>Three requests at a bucket of two that gets one a second: the third is refused, and a second later one passes.\<close>

theorem requests_are_limited_witness:
  "of_nat (snd (snd (run_limited counting [0, 0, 0, 1000000000] (Some (newTokenBucket 1 2 0), 0))) - 0) \<le> (of_int 2 + seconds 1000000000 * of_int 1 :: rat)"
  using requests_are_limited[of 1 2 0 "[]" 0 "[0, 0, 1000000000]" 0 "[]" "(Some (newTokenBucket 1 2 0), 0)"
      "fst (run_limited counting [0, 0, 0, 1000000000] (Some (newTokenBucket 1 2 0), 0))"
      "snd (run_limited counting [0, 0, 0, 1000000000] (Some (newTokenBucket 1 2 0), 0))"] by simp

text \<open>A request that comes long enough after the one before is never refused.\<close>

theorem patient_requests_pass:
  assumes "bucket_ok b" "1 \<le> tb_capacity b" "1 \<le> seconds (now - tb_last b) * tb_refill b"
  shows "fst (allow now b)"
  using assms by (auto simp: filled_def bucket_ok_def Let_def)

end
